(* ===== verification/Prelude.thy ===== *)
theory Prelude
  imports Main "HOL-Library.AList"
begin

text \<open>
  Shared vocabulary of the development: the Java exceptions the modelled code can raise as
  values of a sum type, the object values it stores in its contexts, the java.util.Map operations
  (as association lists with distinct keys), and the pieces of java.lang.String and
  java.io.BufferedReader the program uses.

  A Java string is a list of characters; each Isabelle character stands for one UTF-16 code
  unit below 256. \<open>null\<close> is \<open>None\<close>.
\<close>

named_theorems java_simps \<open>evaluation rules for the Java library functions of the model\<close>
named_theorems res_elims \<open>eliminations for results that did not raise\<close>

section \<open>Exceptions and results\<close>

datatype jerror =
    IOException string
  | RuntimeException string
  | NullPointerException
  | ClassCastException
  | IndexOutOfBoundsException
  | NumberFormatException
  | PatternSyntaxException
  | SimMatchSkipException

type_synonym 'a res = "jerror + 'a"

abbreviation Raise :: "jerror \<Rightarrow> 'a res" where
  "Raise e \<equiv> Inl e"

abbreviation Ret :: "'a \<Rightarrow> 'a res" where
  "Ret x \<equiv> Inr x"

fun isIOException :: "jerror \<Rightarrow> bool" where
  "isIOException (IOException _) = True"
| "isIOException _ = False"

fun bindE :: "'a res \<Rightarrow> ('a \<Rightarrow> 'b res) \<Rightarrow> 'b res" where
  "bindE (Inl e) f = Inl e"
| "bindE (Inr x) f = f x"

lemma bindE_cong [fundef_cong]:
  "m = m' \<Longrightarrow> (\<And>x. m' = Inr x \<Longrightarrow> f x = g x) \<Longrightarrow> bindE m f = bindE m' g"
  by (cases m') auto

lemma bindE_assoc: "bindE (bindE m f) g = bindE m (\<lambda>x. bindE (f x) g)"
  by (cases m) auto

lemma bindE_Inr_conv: "bindE m f = Inr y \<longleftrightarrow> (\<exists>x. m = Inr x \<and> f x = Inr y)"
  by (cases m) auto

lemma bindE_Inl_conv: "bindE m f = Inl e \<longleftrightarrow> m = Inl e \<or> (\<exists>x. m = Inr x \<and> f x = Inl e)"
  by (cases m) auto

lemma bindE_InrE [res_elims]:
  assumes "bindE m f = Inr y"
  obtains x where "m = Inr x" and "f x = Inr y"
  using assms by (cases m) auto

fun mapE :: "('a \<Rightarrow> 'b res) \<Rightarrow> 'a list \<Rightarrow> 'b list res" where
  "mapE f [] = Ret []"
| "mapE f (x # xs) = bindE (f x) (\<lambda>y. bindE (mapE f xs) (\<lambda>ys. Ret (y # ys)))"

lemma mapE_cong [fundef_cong]:
  "xs = ys \<Longrightarrow> (\<And>x. x \<in> set ys \<Longrightarrow> f x = g x) \<Longrightarrow> mapE f xs = mapE g ys"
  by (induction ys arbitrary: xs) auto

lemma mapE_Inr_list_all2: "mapE f xs = Inr ys \<Longrightarrow> list_all2 (\<lambda>x y. f x = Inr y) xs ys"
  by (induction xs arbitrary: ys) (auto elim!: bindE_InrE)

lemma mapE_list_all2_Inr: "list_all2 (\<lambda>x y. f x = Inr y) xs ys \<Longrightarrow> mapE f xs = Inr ys"
  by (induction rule: list_all2_induct) auto

lemma mapE_Inr_conv: "mapE f xs = Inr ys \<longleftrightarrow> list_all2 (\<lambda>x y. f x = Inr y) xs ys"
  using mapE_Inr_list_all2 mapE_list_all2_Inr by blast

lemma mapE_length: "mapE f xs = Inr ys \<Longrightarrow> length ys = length xs"
  by (auto dest!: mapE_Inr_list_all2 list_all2_lengthD)

lemma mapE_total: "(\<And>x. x \<in> set xs \<Longrightarrow> f x = Inr (g x)) \<Longrightarrow> mapE f xs = Inr (map g xs)"
  by (induction xs) auto

section \<open>Effects\<close>

text \<open>
  A program with side effects on a world: the result or the exception, and the world afterwards
  (what was done before an exception stays done).
\<close>

type_synonym ('a, 'w) prog = "'w \<Rightarrow> 'a res \<times> 'w"

definition retS :: "'a \<Rightarrow> ('a, 'w) prog" where
  "retS x w = (Ret x, w)"

definition liftS :: "'a res \<Rightarrow> ('a, 'w) prog" where
  "liftS r w = (r, w)"

definition bindS :: "('a, 'w) prog \<Rightarrow> ('a \<Rightarrow> ('b, 'w) prog) \<Rightarrow> ('b, 'w) prog" where
  "bindS m f w = (case m w of (Inl e, w') \<Rightarrow> (Inl e, w') | (Inr x, w') \<Rightarrow> f x w')"

lemma retS_apply [simp]: "retS x w = (Ret x, w)"
  by (simp add: retS_def)

lemma liftS_apply [simp]: "liftS r w = (r, w)"
  by (simp add: liftS_def)

lemma bindS_apply: "bindS m f w = (case m w of (Inl e, w') \<Rightarrow> (Inl e, w') | (Inr x, w') \<Rightarrow> f x w')"
  by (simp add: bindS_def)

lemma bindS_Ret [simp]: "m w = (Inr x, w') \<Longrightarrow> bindS m f w = f x w'"
  by (simp add: bindS_def)

lemma bindS_Raise [simp]: "m w = (Inl e, w') \<Longrightarrow> bindS m f w = (Inl e, w')"
  by (simp add: bindS_def)

lemma bindS_cong [fundef_cong]:
  "w = w' \<Longrightarrow> m w' = m' w' \<Longrightarrow> (\<And>x v. m' w' = (Inr x, v) \<Longrightarrow> f x v = g x v) \<Longrightarrow> bindS m f w = bindS m' g w'"
  by (auto simp: bindS_def split: prod.splits sum.splits)

lemma bindS_InrE [res_elims]:
  assumes "bindS m f w = (Inr y, w')"
  obtains x v where "m w = (Inr x, v)" and "f x v = (Inr y, w')"
  using assms by (auto simp: bindS_def split: prod.splits sum.splits)

section \<open>Object values\<close>

text \<open>
  The objects the program puts into its contexts: strings, arrays (\<open>Object[]\<close>), the boxed
  primitives \<open>BeanRepository\<close> converts to, and opaque references (beans, Groovy results,
  the \<open>Class\<close> object of \<open>SimUtils\<close>).
\<close>

datatype jval =
    JNull
  | JStr string
  | JArr "jval list"
  | JChar char
  | JInt int
  | JLong int
  | JByte int
  | JShort int
  | JBool bool
  | JDouble nat
  | JFloat nat
  | JObj nat

fun isArrayVal :: "jval \<Rightarrow> bool" where
  "isArrayVal (JArr _) = True"
| "isArrayVal _ = False"

section \<open>java.util.Map\<close>

text \<open>
  A map is the list of its entries in one iteration order, with distinct keys. The order of a
  \<open>HashMap\<close> is unspecified; a result that depends on it is stated for the order at hand, and
  the properties say where the order does not matter.
\<close>

type_synonym ('k, 'v) jmap = "('k \<times> 'v) list"

definition jget :: "('k, 'v) jmap \<Rightarrow> 'k \<Rightarrow> 'v option" where
  "jget m k = map_of m k"

definition jput :: "'k \<Rightarrow> 'v \<Rightarrow> ('k, 'v) jmap \<Rightarrow> ('k, 'v) jmap" where
  "jput k v m = AList.update k v m"

definition jremove :: "'k \<Rightarrow> ('k, 'v) jmap \<Rightarrow> ('k, 'v) jmap" where
  "jremove k m = AList.delete k m"

definition jmap_ok :: "('k, 'v) jmap \<Rightarrow> bool" where
  "jmap_ok m \<longleftrightarrow> distinct (map fst m)"

fun jputAll :: "('k, 'v) jmap \<Rightarrow> ('k, 'v) jmap \<Rightarrow> ('k, 'v) jmap" where
  "jputAll m [] = m"
| "jputAll m ((k, v) # es) = jputAll (jput k v m) es"

text \<open>What every client of \<open>java.util.Map\<close> relies on.\<close>

locale java_map =
  fixes get :: "'m \<Rightarrow> 'k \<Rightarrow> 'v option"
    and put :: "'k \<Rightarrow> 'v \<Rightarrow> 'm \<Rightarrow> 'm"
    and remove :: "'k \<Rightarrow> 'm \<Rightarrow> 'm"
    and mempty :: "'m"
    and ok :: "'m \<Rightarrow> bool"
  assumes get_empty: "get mempty k = None"
    and get_put: "get (put k v m) k' = (if k' = k then Some v else get m k')"
    and get_remove: "get (remove k m) k' = (if k' = k then None else get m k')"
    and ok_empty: "ok mempty"
    and ok_put: "ok m \<Longrightarrow> ok (put k v m)"
    and ok_remove: "ok m \<Longrightarrow> ok (remove k m)"
begin

lemma get_put_same: "get (put k v m) k = Some v"
  by (simp add: get_put)

lemma get_put_other: "k' \<noteq> k \<Longrightarrow> get (put k v m) k' = get m k'"
  by (simp add: get_put)

lemma get_remove_same: "get (remove k m) k = None"
  by (simp add: get_remove)

lemma get_remove_other: "k' \<noteq> k \<Longrightarrow> get (remove k m) k' = get m k'"
  by (simp add: get_remove)

lemma put_swap: "k \<noteq> k' \<Longrightarrow> get (put k v (put k' v' m)) = get (put k' v' (put k v m))"
  by (auto simp: get_put)

lemma get_fold_put:
  "get (fold (\<lambda>(k, v). put k v) es m) k
    = (case map_of (rev es) k of None \<Rightarrow> get m k | Some v \<Rightarrow> Some v)"
  by (induction es arbitrary: m) (auto simp: get_put map_add_def split: option.splits)

lemma ok_fold_put: "ok m \<Longrightarrow> ok (fold (\<lambda>(k, v). put k v) es m)"
  by (induction es arbitrary: m) (auto simp: ok_put)

end

interpretation jm: java_map jget jput jremove "[]" jmap_ok
  by unfold_locales
    (auto simp: jget_def jput_def jremove_def jmap_ok_def update_conv' delete_conv'
      AList.distinct_update AList.distinct_delete)

lemmas jmap_simps [simp] =
  jm.get_empty jm.get_put_same jm.get_put_other jm.get_remove_same jm.get_remove_other
  jm.ok_empty jm.ok_put jm.ok_remove

lemma jput_fresh: "k \<notin> fst ` set m \<Longrightarrow> jput k v m = m @ [(k, v)]"
  by (induction m) (auto simp: jput_def)

lemma set_jput: "set (jput k v m) \<subseteq> insert (k, v) (set m)"
  unfolding jput_def by (induction m) auto

lemma jputAll_fold: "jputAll m es = fold (\<lambda>(k, v). jput k v) es m"
  by (induction m es rule: jputAll.induct) auto

lemma jget_jputAll:
  "jget (jputAll m es) k = (case map_of (rev es) k of None \<Rightarrow> jget m k | Some v \<Rightarrow> Some v)"
  by (simp add: jputAll_fold jm.get_fold_put)

lemma map_of_rev_distinct: "distinct (map fst m) \<Longrightarrow> map_of (rev m) = map_of m"
proof (induction m)
  case (Cons e m)
  obtain k v where e: "e = (k, v)" by (cases e)
  have none: "map_of m k = None"
    using Cons.prems e by (auto simp: map_of_eq_None_iff)
  show ?case
    using Cons e none by (auto simp: map_add_def fun_eq_iff split: option.splits)
qed simp

lemma jget_rev: "jmap_ok m \<Longrightarrow> map_of (rev m) k = jget m k"
  by (simp add: jmap_ok_def jget_def map_of_rev_distinct)

lemma jget_jputAll_ok:
  "jmap_ok es \<Longrightarrow> jget (jputAll m es) k = (case jget es k of None \<Rightarrow> jget m k | Some v \<Rightarrow> Some v)"
  by (simp add: jget_jputAll jget_rev)

lemma jmap_ok_jputAll [simp]: "jmap_ok m \<Longrightarrow> jmap_ok (jputAll m es)"
  by (simp add: jputAll_fold jm.ok_fold_put)

end
