(* ===== verification/JavaLib.thy ===== *)
theory JavaLib
  imports Prelude "HOL-Library.Sublist"
begin

text \<open>
  The operations of \<open>java.lang.String\<close>, \<open>java.lang.Integer\<close> and
  \<open>java.io.BufferedReader\<close> that the modelled code calls, with the exceptions they raise.
\<close>

section \<open>Characters and substrings\<close>

definition nl :: char where "nl = CHR 0x0A"
definition cr :: char where "cr = CHR 0x0D"

definition startsWith :: "string \<Rightarrow> string \<Rightarrow> bool" where
  "startsWith s p \<longleftrightarrow> take (length p) s = p"

definition endsWith :: "string \<Rightarrow> string \<Rightarrow> bool" where
  "endsWith s p \<longleftrightarrow> length p \<le> length s \<and> drop (length s - length p) s = p"

lemma startsWith_prefix: "startsWith s p \<longleftrightarrow> prefix p s"
  by (metis append_eq_conv_conj append_take_drop_id prefix_def startsWith_def)

lemma startsWith_append [simp]: "startsWith (p @ s) p"
  by (simp add: startsWith_def)

lemma startsWith_split: "startsWith s p \<Longrightarrow> s = p @ drop (length p) s"
  by (metis append_take_drop_id startsWith_def)

lemma endsWith_append [simp]: "endsWith (s @ p) p"
  by (simp add: endsWith_def)

lemma endsWith_split: "endsWith s p \<Longrightarrow> s = take (length s - length p) s @ p"
  by (metis append_take_drop_id endsWith_def)

fun containsStr :: "string \<Rightarrow> string \<Rightarrow> bool" where
  "containsStr [] p \<longleftrightarrow> p = []"
| "containsStr (c # s) p \<longleftrightarrow> startsWith (c # s) p \<or> containsStr s p"

text \<open>\<open>s.indexOf(c)\<close>, with \<open>None\<close> for -1.\<close>

fun indexOf :: "string \<Rightarrow> char \<Rightarrow> nat option" where
  "indexOf [] c = None"
| "indexOf (x # s) c = (if x = c then Some 0 else map_option Suc (indexOf s c))"

lemma indexOf_None: "indexOf s c = None \<longleftrightarrow> c \<notin> set s"
  by (induction s) auto

lemma indexOf_append: "c \<notin> set s \<Longrightarrow> indexOf (s @ c # t) c = Some (length s)"
  by (induction s) auto

lemma indexOf_Some:
  "indexOf s c = Some i \<longleftrightarrow> i < length s \<and> s ! i = c \<and> c \<notin> set (take i s)"
proof (induction s arbitrary: i)
  case (Cons x s)
  then show ?case by (cases i) auto
qed simp

lemma indexOf_split: "indexOf s c = Some i \<Longrightarrow> s = take i s @ c # drop (Suc i) s"
  by (auto simp: indexOf_Some id_take_nth_drop)

text \<open>\<open>s.substring(b, e)\<close> raises outside \<open>0 \<le> b \<le> e \<le> s.length()\<close>.\<close>

definition substring :: "string \<Rightarrow> int \<Rightarrow> int \<Rightarrow> string res" where
  "substring s b e =
    (if 0 \<le> b \<and> b \<le> e \<and> e \<le> int (length s)
     then Ret (take (nat e - nat b) (drop (nat b) s))
     else Raise IndexOutOfBoundsException)"

definition substringFrom :: "string \<Rightarrow> int \<Rightarrow> string res" where
  "substringFrom s b = substring s b (int (length s))"

lemma substring_nat [simp]:
  "b \<le> e \<Longrightarrow> e \<le> length s \<Longrightarrow> substring s (int b) (int e) = Ret (take (e - b) (drop b s))"
  by (simp add: substring_def)

lemma substringFrom_nat:
  "substringFrom s (int b) = (if b \<le> length s then Ret (drop b s) else Raise IndexOutOfBoundsException)"
  by (simp add: substringFrom_def substring_def)

text \<open>\<open>s.trim()\<close> drops code units up to the space at both ends.\<close>

definition isTrimmed :: "char \<Rightarrow> bool" where
  "isTrimmed c \<longleftrightarrow> (of_char c :: nat) \<le> 32"

definition trim :: "string \<Rightarrow> string" where
  "trim s = rev (dropWhile isTrimmed (rev (dropWhile isTrimmed s)))"

lemma trim_Nil [simp]: "trim [] = []"
  by (simp add: trim_def)

lemma trim_id:
  "s \<noteq> [] \<Longrightarrow> \<not> isTrimmed (hd s) \<Longrightarrow> \<not> isTrimmed (last s) \<Longrightarrow> trim s = s"
  by (simp add: trim_def dropWhile_eq_self_iff [THEN iffD2] hd_rev)

lemma trim_hd:
  assumes ne: "trim s \<noteq> []"
  shows "\<not> isTrimmed (hd (trim s))"
proof -
  let ?d = "dropWhile isTrimmed s"
  have "suffix (dropWhile isTrimmed (rev ?d)) (rev ?d)" by (rule suffix_dropWhile)
  then have "prefix (trim s) ?d" by (simp add: trim_def suffix_to_prefix)
  then obtain zs where d: "?d = trim s @ zs" by (auto simp: prefix_def)
  with ne have "?d \<noteq> []" by auto
  then have "\<not> isTrimmed (hd ?d)" by (rule hd_dropWhile)
  with d ne show ?thesis by simp
qed

lemma trim_last:
  assumes ne: "trim s \<noteq> []"
  shows "\<not> isTrimmed (last (trim s))"
proof -
  let ?r = "dropWhile isTrimmed (rev (dropWhile isTrimmed s))"
  have "?r \<noteq> []" using ne unfolding trim_def by (metis rev_is_Nil_conv)
  then have "\<not> isTrimmed (hd ?r)" by (rule hd_dropWhile)
  then show ?thesis using \<open>?r \<noteq> []\<close> by (simp add: trim_def last_rev)
qed

lemma trim_idem [simp]: "trim (trim s) = trim s"
  using trim_id trim_hd trim_last by (cases "trim s = []") auto

definition replaceChar :: "char \<Rightarrow> char \<Rightarrow> string \<Rightarrow> string" where
  "replaceChar a b s = map (\<lambda>c. if c = a then b else c) s"

section \<open>Splitting\<close>

text \<open>
  \<open>s.split(re)\<close> for a regular expression that matches one fixed string \<open>d\<close>: the whole
  string when there is no match, otherwise the pieces without the trailing empty ones.
\<close>

fun pieces :: "char \<Rightarrow> string \<Rightarrow> string list" where
  "pieces d [] = [[]]"
| "pieces d (c # s) =
    (if c = d then [] # pieces d s
     else (case pieces d s of [] \<Rightarrow> [[c]] | p # ps \<Rightarrow> (c # p) # ps))"

definition dropTrailingEmpty :: "string list \<Rightarrow> string list" where
  "dropTrailingEmpty ps = rev (dropWhile (\<lambda>p. p = []) (rev ps))"

definition split :: "char \<Rightarrow> string \<Rightarrow> string list" where
  "split d s = (if d \<in> set s then dropTrailingEmpty (pieces d s) else [s])"

lemma pieces_Nil [simp]: "pieces d s \<noteq> []"
  by (induction s) (auto split: list.splits)

lemma pieces_no_delim: "d \<notin> set s \<Longrightarrow> pieces d s = [s]"
  by (induction s) auto

lemma pieces_append: "d \<notin> set s \<Longrightarrow> pieces d (s @ d # t) = s # pieces d t"
  by (induction s) auto

lemma pieces_delim_free: "p \<in> set (pieces d s) \<Longrightarrow> d \<notin> set p"
proof (induction s arbitrary: p)
  case (Cons c s)
  obtain q qs where "pieces d s = q # qs" by (cases "pieces d s") auto
  with Cons show ?case by (auto split: if_splits)
qed simp

lemma split_delim_free: "p \<in> set (split d s) \<Longrightarrow> d \<notin> set p"
  by (auto simp: split_def dropTrailingEmpty_def split: if_splits
      dest!: set_dropWhileD pieces_delim_free)

lemma split_pair: "d \<notin> set a \<Longrightarrow> d \<notin> set b \<Longrightarrow> b \<noteq> [] \<Longrightarrow> split d (a @ d # b) = [a, b]"
  by (simp add: split_def pieces_append pieces_no_delim dropTrailingEmpty_def)

section \<open>Lines\<close>

text \<open>
  \<open>BufferedReader.readLine()\<close>: a line ends at \<open>\n\<close>, \<open>\r\<close> or \<open>\r\n\<close>; \<open>None\<close> at the end of
  the stream. The reader is the text still to be read.
\<close>

definition skipNl :: "string \<Rightarrow> string" where
  "skipNl s = (if s \<noteq> [] \<and> hd s = nl then tl s else s)"

fun lineOf :: "string \<Rightarrow> string \<times> string" where
  "lineOf [] = ([], [])"
| "lineOf (c # s) =
    (if c = nl then ([], s)
     else if c = cr then ([], skipNl s)
     else (let (l, r) = lineOf s in (c # l, r)))"

fun readLine :: "string \<Rightarrow> (string \<times> string) option" where
  "readLine [] = None"
| "readLine (c # s) = Some (lineOf (c # s))"

lemma skipNl_length: "length (skipNl s) \<le> length s"
  by (simp add: skipNl_def)

lemma lineOf_length: "length (snd (lineOf s)) \<le> length s"
  by (induction s) (auto split: prod.splits intro: le_SucI skipNl_length)

lemma lineOf_length_Cons: "length (snd (lineOf (c # s))) < length (c # s)"
  using lineOf_length [of s] skipNl_length [of s] by (auto split: prod.splits)

lemma readLine_length: "readLine s = Some (l, r) \<Longrightarrow> length r < length s"
proof (cases s)
  case (Cons c s')
  assume "readLine s = Some (l, r)"
  with Cons have "lineOf (c # s') = (l, r)" by simp
  with Cons lineOf_length_Cons [of c s'] show ?thesis by simp
qed simp

function readLines :: "string \<Rightarrow> string list" where
  "readLines s = (case readLine s of None \<Rightarrow> [] | Some (l, r) \<Rightarrow> l # readLines r)"
  by pat_completeness auto
termination
  by (relation "measure length") (auto dest: readLine_length)

declare readLines.simps [simp del]

lemma readLines_Nil [simp]: "readLines [] = []"
  by (subst readLines.simps) simp

definition lineFree :: "string \<Rightarrow> bool" where
  "lineFree s \<longleftrightarrow> nl \<notin> set s \<and> cr \<notin> set s"

lemma nl_neq_cr [simp]: "nl \<noteq> cr" "cr \<noteq> nl"
  by (simp_all add: nl_def cr_def)

lemma lineOf_nl: "lineFree l \<Longrightarrow> lineOf (l @ nl # s) = (l, s)"
  by (induction l) (auto simp: lineFree_def)

lemma lineOf_end: "lineFree l \<Longrightarrow> lineOf l = (l, [])"
  by (induction l) (auto simp: lineFree_def)

lemma readLines_nl: "lineFree l \<Longrightarrow> readLines (l @ nl # s) = l # readLines s"
proof -
  assume l: "lineFree l"
  obtain c s' where "l @ nl # s = c # s'" by (cases l) auto
  then show ?thesis
    using lineOf_nl [OF l, of s] by (subst readLines.simps) simp
qed

lemma readLines_last: "lineFree l \<Longrightarrow> l \<noteq> [] \<Longrightarrow> readLines l = [l]"
  by (subst readLines.simps, cases l) (use lineOf_end [of l] in auto)

lemma lineFree_lineOf: "lineFree (fst (lineOf s))"
  by (induction s rule: lineOf.induct) (auto simp: lineFree_def split: prod.splits)

lemma readLines_lineFree: "l \<in> set (readLines s) \<Longrightarrow> lineFree l"
proof (induction s rule: readLines.induct)
  case (1 s)
  show ?case
  proof (cases "readLine s")
    case None
    with "1.prems" show ?thesis by (simp add: readLines.simps [of s])
  next
    case (Some lr)
    obtain m r where lr: "lr = (m, r)" by (cases lr)
    have "lineFree m"
      using Some lr lineFree_lineOf [of s] by (cases s) (simp, metis fst_conv option.sel readLine.simps(2))
    with 1 Some lr show ?thesis by (auto simp: readLines.simps [of s])
  qed
qed

section \<open>Numbers\<close>

definition digitVal :: "char \<Rightarrow> int option" where
  "digitVal c = (let n = (of_char c :: nat) in if 48 \<le> n \<and> n \<le> 57 then Some (int n - 48) else None)"

fun digitsVal :: "int \<Rightarrow> string \<Rightarrow> int option" where
  "digitsVal acc [] = Some acc"
| "digitsVal acc (c # s) =
    (case digitVal c of None \<Rightarrow> None | Some d \<Rightarrow> digitsVal (10 * acc + d) s)"

definition unsignedVal :: "string \<Rightarrow> int option" where
  "unsignedVal s = (if s = [] then None else digitsVal 0 s)"

definition signedVal :: "string \<Rightarrow> int option" where
  "signedVal s = (case s of [] \<Rightarrow> None
     | c # t \<Rightarrow> if c = CHR ''-'' then map_option uminus (unsignedVal t)
                else if c = CHR ''+'' then unsignedVal t
                else unsignedVal s)"

text \<open>\<open>Integer.parseInt\<close>, \<open>Long.parseLong\<close> and their kin, for a width in bits.\<close>

definition parseSigned :: "nat \<Rightarrow> string \<Rightarrow> int res" where
  "parseSigned w s = (case signedVal s of None \<Rightarrow> Raise NumberFormatException
     | Some v \<Rightarrow> if - (2 ^ (w - 1)) \<le> v \<and> v < 2 ^ (w - 1) then Ret v else Raise NumberFormatException)"

abbreviation parseInt :: "string \<Rightarrow> int res" where
  "parseInt \<equiv> parseSigned 32"

abbreviation parseLong :: "string \<Rightarrow> int res" where
  "parseLong \<equiv> parseSigned 64"

lemma parseSigned_bounds: "parseSigned w s = Ret v \<Longrightarrow> - (2 ^ (w - 1)) \<le> v \<and> v < 2 ^ (w - 1)"
  by (auto simp: parseSigned_def split: option.splits if_splits)

lemma digitVal_nonneg: "digitVal c = Some d \<Longrightarrow> 0 \<le> d \<and> d \<le> 9"
  by (auto simp: digitVal_def Let_def split: if_splits)

lemma digitsVal_nonneg: "0 \<le> acc \<Longrightarrow> digitsVal acc s = Some v \<Longrightarrow> 0 \<le> v"
proof (induction s arbitrary: acc)
  case (Cons c s)
  from Cons.prems(2) obtain d where "digitVal c = Some d" and "digitsVal (10 * acc + d) s = Some v"
    by (auto split: option.splits)
  moreover from this(1) have "0 \<le> d" using digitVal_nonneg by blast
  ultimately show ?case using Cons.IH [of "10 * acc + d"] Cons.prems(1) by simp
qed simp

lemma unsignedVal_nonneg: "unsignedVal s = Some v \<Longrightarrow> 0 \<le> v"
  by (auto simp: unsignedVal_def split: if_splits dest: digitsVal_nonneg [rotated])

text \<open>Decimal rendering of a non-negative number.\<close>

definition digitChar :: "nat \<Rightarrow> char" where
  "digitChar n = char_of (48 + n mod 10)"

fun showNat :: "nat \<Rightarrow> string" where
  "showNat n = (if n < 10 then [digitChar n] else showNat (n div 10) @ [digitChar n])"

declare showNat.simps [simp del]

lemma digitVal_digitChar [simp]: "digitVal (digitChar n) = Some (int (n mod 10))"
  by (simp add: digitVal_def digitChar_def Let_def of_char_of)

lemma digitsVal_append:
  "digitsVal acc (s @ t) = (case digitsVal acc s of None \<Rightarrow> None | Some v \<Rightarrow> digitsVal v t)"
  by (induction s arbitrary: acc) (auto split: option.splits)

lemma digitsVal_showNat: "digitsVal 0 (showNat n) = Some (int n)"
proof (induction n rule: showNat.induct)
  case (1 n)
  show ?case
  proof (cases "n < 10")
    case True
    then show ?thesis by (simp add: showNat.simps [of n])
  next
    case False
    with 1 show ?thesis
      by (simp add: showNat.simps [of n] digitsVal_append zdiv_int zmod_int)
  qed
qed

lemma digitsVal_zeros: "digitsVal 0 (replicate k CHR ''0'' @ s) = digitsVal 0 s"
  by (induction k) (simp_all add: digitVal_def)

lemma showNat_neq_Nil [simp]: "showNat n \<noteq> []"
  by (subst showNat.simps) simp

lemma length_showNat: "n < 10 ^ k \<Longrightarrow> 0 < k \<Longrightarrow> length (showNat n) \<le> k"
proof (induction n arbitrary: k rule: showNat.induct)
  case (1 n)
  show ?case
  proof (cases "n < 10")
    case True
    with 1 show ?thesis by (simp add: showNat.simps [of n])
  next
    case False
    then obtain j where j: "k = Suc j" "0 < j" using 1 by (cases k; cases "k - 1") auto
    with False 1 show ?thesis by (simp add: showNat.simps [of n])
  qed
qed

text \<open>\<open>%0kd\<close>: the number padded with zeros to \<open>k\<close> places.\<close>

definition padZero :: "nat \<Rightarrow> nat \<Rightarrow> string" where
  "padZero k n = (let s = showNat n in replicate (k - length s) CHR ''0'' @ s)"

lemma padZero_inj: "padZero k m = padZero k' n \<Longrightarrow> m = n"
proof -
  assume "padZero k m = padZero k' n"
  then have "digitsVal 0 (padZero k m) = digitsVal 0 (padZero k' n)" by simp
  then show ?thesis by (simp add: padZero_def Let_def digitsVal_zeros digitsVal_showNat)
qed

lemma length_padZero: "n < 10 ^ k \<Longrightarrow> 0 < k \<Longrightarrow> length (padZero k n) = k"
  using length_showNat [of n k] by (simp add: padZero_def Let_def)

lemma unsignedVal_showNat [simp]: "unsignedVal (showNat n) = Some (int n)"
  by (simp add: unsignedVal_def digitsVal_showNat)

section \<open>Splitting at a fixed string\<close>

fun piecesStr :: "string \<Rightarrow> string \<Rightarrow> string list" where
  "piecesStr d [] = [[]]"
| "piecesStr d (c # s) =
    (if startsWith (c # s) d then [] # piecesStr d (drop (length d - 1) s)
     else (case piecesStr d s of [] \<Rightarrow> [[c]] | p # ps \<Rightarrow> (c # p) # ps))"

definition splitStr :: "string \<Rightarrow> string \<Rightarrow> string list" where
  "splitStr d s = (if containsStr s d then dropTrailingEmpty (piecesStr d s) else [s])"

lemma split_intercalate:
  assumes "ps \<noteq> []" and "\<forall>p\<in>set ps. d \<notin> set p" and "last ps \<noteq> []"
  shows "split d (concat (map (\<lambda>p. p @ [d]) (butlast ps)) @ last ps) = ps"
proof -
  have pc: "pieces d (concat (map (\<lambda>p. p @ [d]) (butlast ps)) @ last ps) = ps"
    using assms(1,2) by (induction ps) (auto simp: pieces_no_delim pieces_append)
  have keep: "dropTrailingEmpty ps = ps"
    using assms(1,3) by (cases ps rule: rev_cases) (auto simp: dropTrailingEmpty_def)
  show ?thesis
  proof (cases "butlast ps = []")
    case True
    with assms have "ps = [last ps]" by (metis append_butlast_last_id append_Nil)
    with assms(2) show ?thesis using True by (metis append_Nil concat.simps(1) list.simps(8) list.set_intros(1) split_def)
  next
    case False
    then show ?thesis using pc keep by (cases "butlast ps") (auto simp: split_def)
  qed
qed

end
