(* ===== verification/Templates.thy ===== *)
theory Templates
  imports JavaLib
begin

text \<open>
  \<open>SimTemplate.java\<close>: the line-based reverse templates. A template line is cut into
  literal and variable tokens (\<open>parseTemplateLine\<close>); matching a content line against the tokens
  (\<open>parseLine\<close>) tries the lengths of each variable from the shortest to the longest and
  backtracks; \<open>parse\<close> matches line by line and merges the bindings.
\<close>

section \<open>Tokens\<close>

record Token =
  tok_text :: string
  tok_isVariable :: bool
  tok_name :: "string option"
  tok_isArray :: bool
  tok_start :: int
  tok_end :: int
  tok_minLen :: int
  tok_maxLen :: int

definition arraySuffix :: string where
  "arraySuffix = ''[]''"

text \<open>The constructors: a literal, and a variable with its length bounds (-1 for none).\<close>

definition litToken :: "string \<Rightarrow> int \<Rightarrow> int \<Rightarrow> Token" where
  "litToken txt s e =
    \<lparr>tok_text = txt, tok_isVariable = False, tok_name = None, tok_isArray = False,
     tok_start = s, tok_end = e, tok_minLen = -1, tok_maxLen = -1\<rparr>"

definition varToken :: "string \<Rightarrow> string \<Rightarrow> int \<Rightarrow> int \<Rightarrow> int \<Rightarrow> int \<Rightarrow> Token" where
  "varToken txt nm s e mn mx =
    (let arr = endsWith nm arraySuffix in
    \<lparr>tok_text = txt, tok_isVariable = True,
     tok_name = Some (if arr then take (length nm - 2) nm else nm), tok_isArray = arr,
     tok_start = s, tok_end = e, tok_minLen = mn, tok_maxLen = mx\<rparr>)"

section \<open>The variable pattern\<close>

text \<open>
  \<open>PATTERN_STR\<close>: an opening brace and a dollar sign, a name over
  \<open>[a-zA-Z0-9_.\-\[\]]\<close>, optionally a colon with digits and a comma with digits, a closing brace.
  The name and digit classes contain none of the characters that may follow them, so the
  greedy match is the only one and the scan needs no backtracking
  (\<open>scanVar_sound\<close> and \<open>scanVar_complete\<close>).
\<close>

definition isNameChar :: "char \<Rightarrow> bool" where
  "isNameChar c \<longleftrightarrow>
    (let n = (of_char c :: nat) in (97 \<le> n \<and> n \<le> 122) \<or> (65 \<le> n \<and> n \<le> 90) \<or> (48 \<le> n \<and> n \<le> 57)) \<or>
    c = CHR ''_'' \<or> c = CHR ''.'' \<or> c = CHR ''-'' \<or> c = CHR ''['' \<or> c = CHR '']''"

definition isDigit :: "char \<Rightarrow> bool" where
  "isDigit c \<longleftrightarrow> (let n = (of_char c :: nat) in 48 \<le> n \<and> n \<le> 57)"

text \<open>Groups 1, 3 and 5 of the pattern.\<close>

record VarMatch =
  vm_name :: string
  vm_min :: "string option"
  vm_max :: "string option"

text \<open>The optional part after the name, at the head of the text: groups 3 and 5 and the rest.\<close>

definition scanBounds :: "string \<Rightarrow> string option \<times> string option \<times> string" where
  "scanBounds s =
    (case s of [] \<Rightarrow> (None, None, s)
     | c # t \<Rightarrow>
       if c \<noteq> CHR '':'' then (None, None, s)
       else (let d1 = takeWhile isDigit t; r1 = dropWhile isDigit t in
         (case r1 of [] \<Rightarrow> (Some d1, None, r1)
          | c' # t' \<Rightarrow>
            if c' \<noteq> CHR '','' then (Some d1, None, r1)
            else (Some d1, Some (takeWhile isDigit t'), dropWhile isDigit t'))))"

definition scanVar :: "string \<Rightarrow> (VarMatch \<times> string) option" where
  "scanVar s =
    (if \<not> startsWith s ''{$'' then None
     else (let nm = takeWhile isNameChar (drop 2 s); (g3, g5, r) = scanBounds (dropWhile isNameChar (drop 2 s)) in
       if nm = [] then None
       else if r \<noteq> [] \<and> hd r = CHR ''}''
         then Some (\<lparr>vm_name = nm, vm_min = g3, vm_max = g5\<rparr>, tl r)
         else None))"

text \<open>\<open>matcher.find()\<close>: the leftmost match, with the text before and after it.\<close>

fun findVar :: "string \<Rightarrow> (string \<times> VarMatch \<times> string) option" where
  "findVar [] = None"
| "findVar (c # s) =
    (case scanVar (c # s) of
       Some (m, r) \<Rightarrow> Some ([], m, r)
     | None \<Rightarrow> (case findVar s of None \<Rightarrow> None | Some (pre, m, r) \<Rightarrow> Some (c # pre, m, r)))"

text \<open>The text a match covers (\<open>matcher.group(0)\<close>).\<close>

definition matchText :: "VarMatch \<Rightarrow> string" where
  "matchText m = ''{$'' @ vm_name m
     @ (case vm_min m of None \<Rightarrow> [] | Some d \<Rightarrow> CHR '':'' # d)
     @ (case vm_max m of None \<Rightarrow> [] | Some d \<Rightarrow> CHR '','' # d)
     @ ''}''"

text \<open>What the pattern accepts, as a predicate on the groups.\<close>

definition matchOk :: "VarMatch \<Rightarrow> bool" where
  "matchOk m \<longleftrightarrow> vm_name m \<noteq> [] \<and> list_all isNameChar (vm_name m) \<and>
     (case vm_min m of None \<Rightarrow> True | Some d \<Rightarrow> list_all isDigit d) \<and>
     (case vm_max m of None \<Rightarrow> True | Some d \<Rightarrow> list_all isDigit d \<and> vm_min m \<noteq> None)"

lemma name_chars: "\<not> isNameChar CHR '':''" "\<not> isNameChar CHR ''}''" "\<not> isNameChar CHR ''{''"
  "\<not> isNameChar CHR '',''"
  by (simp_all add: isNameChar_def)

lemma digit_chars: "\<not> isDigit CHR '',''" "\<not> isDigit CHR ''}''" "\<not> isDigit CHR '':''"
  by (simp_all add: isDigit_def)

lemma scanBounds_split:
  "scanBounds s = (g3, g5, r) \<Longrightarrow>
   s = (case g3 of None \<Rightarrow> [] | Some d \<Rightarrow> CHR '':'' # d)
     @ (case g5 of None \<Rightarrow> [] | Some d \<Rightarrow> CHR '','' # d) @ r \<and>
   (case g3 of None \<Rightarrow> True | Some d \<Rightarrow> list_all isDigit d) \<and>
   (case g5 of None \<Rightarrow> True | Some d \<Rightarrow> list_all isDigit d \<and> g3 \<noteq> None)"
  by (auto simp: scanBounds_def Let_def list_all_iff dest!: set_takeWhileD split: list.splits if_splits)
    (metis takeWhile_dropWhile_id)+

lemma scanVar_sound:
  assumes "scanVar s = Some (m, r)"
  shows "matchOk m \<and> s = matchText m @ r"
proof -
  obtain g3 g5 q where sb: "scanBounds (dropWhile isNameChar (drop 2 s)) = (g3, g5, q)"
    by (metis prod_cases3)
  from assms sb have st: "startsWith s ''{$''" and q: "q = CHR ''}'' # r"
    and m: "m = \<lparr>vm_name = takeWhile isNameChar (drop 2 s), vm_min = g3, vm_max = g5\<rparr>"
    and ne: "takeWhile isNameChar (drop 2 s) \<noteq> []"
    by (auto simp: scanVar_def Let_def split: if_splits) (metis list.collapse)
  have "s = ''{$'' @ takeWhile isNameChar (drop 2 s) @ dropWhile isNameChar (drop 2 s)"
    using startsWith_split [OF st] by (simp add: numeral_2_eq_2)
  then show ?thesis
    using scanBounds_split [OF sb] q m ne
    by (cases g5) (auto simp: matchOk_def matchText_def list_all_iff dest!: set_takeWhileD)
qed

lemma span_all: "list_all P xs \<Longrightarrow> ys = [] \<or> \<not> P (hd ys) \<Longrightarrow>
    takeWhile P (xs @ ys) = xs \<and> dropWhile P (xs @ ys) = ys"
  by (induction xs) (cases ys; auto)+

lemma scanVar_complete: "matchOk m \<Longrightarrow> scanVar (matchText m @ r) = Some (m, r)"
proof -
  assume ok: "matchOk m"
  let ?b5 = "(case vm_max m of None \<Rightarrow> [] | Some d \<Rightarrow> CHR '','' # d) @ CHR ''}'' # r"
  let ?b = "(case vm_min m of None \<Rightarrow> [] | Some d \<Rightarrow> CHR '':'' # d) @ ?b5"
  have txt_eq: "matchText m @ r = ''{$'' @ vm_name m @ ?b"
    by (simp add: matchText_def)
  have nm: "takeWhile isNameChar (vm_name m @ ?b) = vm_name m \<and> dropWhile isNameChar (vm_name m @ ?b) = ?b"
    using ok by (intro span_all) (auto simp: matchOk_def name_chars split: option.splits)
  have d5: "takeWhile isDigit (d @ CHR ''}'' # r) = d \<and> dropWhile isDigit (d @ CHR ''}'' # r) = CHR ''}'' # r"
    if "list_all isDigit d" for d
    using that by (intro span_all) (auto simp: digit_chars)
  have d3: "takeWhile isDigit (d @ ?b5) = d \<and> dropWhile isDigit (d @ ?b5) = ?b5" if "list_all isDigit d" for d
    using that by (intro span_all) (auto simp: digit_chars split: option.splits)
  have sb: "scanBounds ?b = (vm_min m, vm_max m, CHR ''}'' # r)"
  proof (cases "vm_min m")
    case None
    with ok show ?thesis by (auto simp: scanBounds_def matchOk_def split: option.splits)
  next
    case (Some d)
    with ok d3 have "takeWhile isDigit (d @ ?b5) = d" "dropWhile isDigit (d @ ?b5) = ?b5"
      by (auto simp: matchOk_def)
    with Some ok d5 show ?thesis
      by (cases "vm_max m") (auto simp: scanBounds_def matchOk_def Let_def)
  qed
  show ?thesis
    unfolding txt_eq scanVar_def using nm sb ok by (simp add: startsWith_def matchOk_def)
qed

lemma scanVar_length: "scanVar s = Some (m, r) \<Longrightarrow> length r < length s"
  using scanVar_sound by (fastforce simp: matchText_def)

lemma findVar_length: "findVar s = Some (pre, m, r) \<Longrightarrow> length r < length s"
  by (induction s arbitrary: pre) (auto dest: scanVar_length split: option.splits prod.splits)

lemma findVar_sound: "findVar s = Some (pre, m, r) \<Longrightarrow> matchOk m \<and> s = pre @ matchText m @ r"
  by (induction s arbitrary: pre) (auto dest: scanVar_sound split: option.splits prod.splits)

section \<open>Cutting a template line into tokens\<close>

definition getIntValue :: "string \<Rightarrow> int res" where
  "getIntValue s = (if s = [] then Ret (-1) else parseInt s)"

text \<open>The token of one match whose first character has the index \<open>st\<close>.\<close>

definition matchToken :: "VarMatch \<Rightarrow> int \<Rightarrow> Token res" where
  "matchToken m st =
    (let e = st + int (length (matchText m)) - 1 in
     case (vm_min m, vm_max m) of
       (None, None) \<Rightarrow> Ret (varToken (matchText m) (vm_name m) st e (-1) (-1))
     | (Some g3, None) \<Rightarrow>
         bindE (getIntValue g3) (\<lambda>n. Ret (varToken (matchText m) (vm_name m) st e n n))
     | (g3, Some g5) \<Rightarrow>
         (case g3 of None \<Rightarrow> Raise NullPointerException
          | Some d \<Rightarrow> bindE (getIntValue d) (\<lambda>mn. bindE (getIntValue g5) (\<lambda>mx.
              Ret (varToken (matchText m) (vm_name m) st e mn mx)))))"

text \<open>The loop over the matches; \<open>st\<close> is the end of the previous token plus one.\<close>

function tokensFrom :: "int \<Rightarrow> string \<Rightarrow> Token list res" where
  "tokensFrom st s =
    (case findVar s of
       None \<Rightarrow> Ret (if s \<noteq> [] then [litToken s st (st + int (length s) - 1)] else [])
     | Some (pre, m, r) \<Rightarrow>
         bindE (matchToken m (st + int (length pre))) (\<lambda>t.
         bindE (tokensFrom (tok_end t + 1) r) (\<lambda>ts.
           Ret ((if pre \<noteq> [] then [litToken pre st (tok_start t - 1)] else []) @ t # ts))))"
  by pat_completeness auto
termination
  by (relation "measure (\<lambda>(st, s). length s)") (auto dest: findVar_length)

declare tokensFrom.simps [simp del]

definition parseTemplateLine :: "string \<Rightarrow> Token list res" where
  "parseTemplateLine line = tokensFrom 0 line"

section \<open>Matching one content line\<close>

type_synonym ctx = "(string, jval) jmap"

text \<open>
  The binding of one variable to the text \<open>v\<close>, added to the bindings of the tokens after it:
  a scalar keeps a value that is already there, an array gets the text in front.
\<close>

definition bindVar :: "Token \<Rightarrow> string \<Rightarrow> ctx \<Rightarrow> ctx res" where
  "bindVar t v m =
    (let k = the (tok_name t) in
     if \<not> tok_isArray t then
       Ret (case jget m k of None \<Rightarrow> jput k (JStr v) m
            | Some x \<Rightarrow> if x = JNull then jput k (JStr v) m else m)
     else (case jget m k of
         None \<Rightarrow> Ret (jput k (JArr [JStr v]) m)
       | Some (JArr vs) \<Rightarrow> Ret (jput k (JArr (JStr v # vs)) m)
       | Some JNull \<Rightarrow> Ret (jput k (JArr [JStr v]) m)
       | Some _ \<Rightarrow> Raise ClassCastException))"

text \<open>The loop \<open>for (int i = min; i <= max; i++)\<close> up to the first non-null result.\<close>

function tryFrom :: "(int \<Rightarrow> 'a option res) \<Rightarrow> int \<Rightarrow> int \<Rightarrow> 'a option res" where
  "tryFrom f i mx =
    (if i \<le> mx
     then (case f i of Inl e \<Rightarrow> Raise e | Inr (Some r) \<Rightarrow> Ret (Some r) | Inr None \<Rightarrow> tryFrom f (i + 1) mx)
     else Ret None)"
  by pat_completeness auto
termination
  by (relation "measure (\<lambda>(f, i, mx). nat (mx + 1 - i))") auto

declare tryFrom.simps [simp del]

definition tokMin :: "Token \<Rightarrow> int" where
  "tokMin t = (if tok_minLen t < 0 then 0 else tok_minLen t)"

definition tokMax :: "Token \<Rightarrow> string \<Rightarrow> int" where
  "tokMax t s = (if tok_maxLen t < 0 then int (length s) else tok_maxLen t)"

text \<open>The list argument is the part of \<open>tokenList\<close> from \<open>tokenIndex\<close> on.\<close>

fun parseLine :: "string \<Rightarrow> Token list \<Rightarrow> ctx option res" where
  "parseLine s [] = (if s = [] then Ret (Some []) else Ret None)"
| "parseLine s (t # ts) =
    (if s = [] then Ret None
     else if \<not> tok_isVariable t then
       (if \<not> startsWith s (tok_text t) then Ret None
        else parseLine (drop (length (tok_text t)) s) ts)
     else tryFrom (\<lambda>i.
         bindE (substringFrom s i) (\<lambda>rest.
         bindE (parseLine rest ts) (\<lambda>res.
           case res of None \<Rightarrow> Ret None
           | Some m \<Rightarrow> bindE (substring s 0 i) (\<lambda>v. bindE (bindVar t v m) (\<lambda>m'. Ret (Some m'))))))
       (tokMin t) (tokMax t s))"

section \<open>The template object\<close>

record SimTemplate =
  templateContent :: string
  allTokens :: "Token list list"

text \<open>\<open>init()\<close>, run by the constructor.\<close>

definition newSimTemplate :: "string \<Rightarrow> SimTemplate res" where
  "newSimTemplate content =
    bindE (mapE parseTemplateLine (readLines content)) (\<lambda>toks.
      Ret \<lparr>templateContent = content, allTokens = toks\<rparr>)"

text \<open>The constructor on a reader rebuilds the text with a line feed after every line.\<close>

definition newSimTemplateReader :: "string \<Rightarrow> SimTemplate res" where
  "newSimTemplateReader reader = newSimTemplate (concat (map (\<lambda>l. l @ [nl]) (readLines reader)))"

text \<open>\<open>merge\<close>: a later line overrides an earlier one, except that two arrays are joined.\<close>

definition mergeEntry :: "string \<times> jval \<Rightarrow> ctx \<Rightarrow> ctx" where
  "mergeEntry e source =
    (case (jget source (fst e), snd e) of
       (Some (JArr xs), JArr ys) \<Rightarrow> jput (fst e) (JArr (xs @ ys)) source
     | _ \<Rightarrow> jput (fst e) (snd e) source)"

definition merge :: "ctx \<Rightarrow> ctx \<Rightarrow> ctx" where
  "merge source dest = fold mergeEntry dest source"

text \<open>
  \<open>parse(BufferedReader)\<close>: the loop over the content lines and the token lines still to be
  matched (\<open>allTokens\<close> from \<open>lineNum\<close> on), then the check that no token line is left.
\<close>

fun parseLines :: "string list \<Rightarrow> Token list list \<Rightarrow> ctx \<Rightarrow> ctx option res" where
  "parseLines [] toks ret = Ret (if toks = [] then Some ret else None)"
| "parseLines (l # ls) [] ret = Ret None"
| "parseLines (l # ls) (ts # toks) ret =
    bindE (parseLine l ts) (\<lambda>res.
      case res of None \<Rightarrow> Ret None | Some m \<Rightarrow> parseLines ls toks (merge ret m))"

text \<open>\<open>parse(String)\<close>; \<open>null\<close> content gives \<open>null\<close>.\<close>

definition parse :: "SimTemplate \<Rightarrow> string option \<Rightarrow> ctx option res" where
  "parse t content =
    (case content of None \<Rightarrow> Ret None
     | Some c \<Rightarrow> parseLines (readLines c) (allTokens t) [])"

end
