(* ===== verification/TemplateSpec.thy ===== *)
theory TemplateSpec
  imports Templates
begin

text \<open>
  What a reverse template promises: a line matches when it can be cut into one piece per token
  (\<open>segments\<close>), the extracted values are those of the cut whose pieces are shortest from left to
  right, and the tokens of a template line are a lossless, gap-free cut of the line.
\<close>

section \<open>Lossless tokens\<close>

fun contiguous :: "int \<Rightarrow> Token list \<Rightarrow> bool" where
  "contiguous st [] \<longleftrightarrow> True"
| "contiguous st (t # ts) \<longleftrightarrow>
    tok_start t = st \<and> tok_end t = st + int (length (tok_text t)) - 1 \<and> tok_text t \<noteq> [] \<and>
    contiguous (tok_end t + 1) ts"

lemma matchText_nonempty [simp]: "matchText m \<noteq> []"
  by (simp add: matchText_def)

lemma litToken_simps [simp]:
  "tok_text (litToken x s e) = x" "tok_start (litToken x s e) = s" "tok_end (litToken x s e) = e"
  "tok_isVariable (litToken x s e) = False" "tok_name (litToken x s e) = None"
  by (simp_all add: litToken_def)

lemma varToken_simps [simp]:
  "tok_text (varToken x n s e mn mx) = x" "tok_start (varToken x n s e mn mx) = s"
  "tok_end (varToken x n s e mn mx) = e" "tok_isVariable (varToken x n s e mn mx) = True"
  "tok_minLen (varToken x n s e mn mx) = mn" "tok_maxLen (varToken x n s e mn mx) = mx"
  by (simp_all add: varToken_def Let_def)

lemma matchToken_shape:
  assumes "matchToken m st = Ret t"
  obtains mn mx where "t = varToken (matchText m) (vm_name m) st (st + int (length (matchText m)) - 1) mn mx"
  using assms
  by (auto simp: matchToken_def Let_def split: option.splits elim!: bindE_InrE)

lemma tokensFrom_lossless:
  "tokensFrom st s = Ret ts \<Longrightarrow> concat (map tok_text ts) = s \<and> contiguous st ts"
proof (induction st s arbitrary: ts rule: tokensFrom.induct)
  case (1 st s)
  show ?case
  proof (cases "findVar s")
    case None
    with "1.prems" show ?thesis by (auto simp: tokensFrom.simps [of st s])
  next
    case (Some x)
    then obtain pre m r where f: "findVar s = Some (pre, m, r)" by (cases x) auto
    with "1.prems" obtain t us where
      t: "matchToken m (st + int (length pre)) = Ret t" and
      us: "tokensFrom (tok_end t + 1) r = Ret us" and
      ts: "ts = (if pre \<noteq> [] then [litToken pre st (tok_start t - 1)] else []) @ t # us"
      by (auto simp: tokensFrom.simps [of st s] elim!: bindE_InrE)
    from "1.IH" [OF f refl refl t us] have ih: "concat (map tok_text us) = r" "contiguous (tok_end t + 1) us"
      by auto
    from t obtain mn mx where "t = varToken (matchText m) (vm_name m) (st + int (length pre))
        (st + int (length pre) + int (length (matchText m)) - 1) mn mx"
      by (rule matchToken_shape)
    with ih ts findVar_sound [OF f] show ?thesis by auto
  qed
qed

section \<open>Cuts of a line\<close>

text \<open>One piece per token; a token is only tried where some text is left.\<close>

definition admissible :: "Token \<Rightarrow> string \<Rightarrow> string \<Rightarrow> bool" where
  "admissible t v s \<longleftrightarrow> s \<noteq> [] \<and> prefix v s \<and>
     (if tok_isVariable t then tokMin t \<le> int (length v) \<and> int (length v) \<le> tokMax t s
      else v = tok_text t)"

fun segments :: "Token list \<Rightarrow> string list \<Rightarrow> string \<Rightarrow> bool" where
  "segments [] vs s \<longleftrightarrow> vs = [] \<and> s = []"
| "segments (t # ts) vs s \<longleftrightarrow>
    (case vs of [] \<Rightarrow> False
     | v # vs' \<Rightarrow> admissible t v s \<and> segments ts vs' (drop (length v) s))"

lemma segments_Cons [simp]:
  "segments (t # ts) (v # vs) s \<longleftrightarrow> admissible t v s \<and> segments ts vs (drop (length v) s)"
  "segments (t # ts) [] s \<longleftrightarrow> False"
  by simp_all

declare segments.simps(2) [simp del]

text \<open>The bindings of a cut: the variables from right to left.\<close>

fun bindings :: "Token list \<Rightarrow> string list \<Rightarrow> ctx res" where
  "bindings (t # ts) (v # vs) =
    (if tok_isVariable t then bindE (bindings ts vs) (bindVar t v) else bindings ts vs)"
| "bindings _ _ = Ret []"

text \<open>The lexicographic order on the lengths of the pieces.\<close>

fun lexLe :: "nat list \<Rightarrow> nat list \<Rightarrow> bool" where
  "lexLe [] ys = True"
| "lexLe (x # xs) [] = False"
| "lexLe (x # xs) (y # ys) \<longleftrightarrow> x < y \<or> x = y \<and> lexLe xs ys"

section \<open>The loop\<close>

lemma tryFrom_Some:
  "tryFrom f i mx = Ret (Some r) \<Longrightarrow>
   \<exists>j. i \<le> j \<and> j \<le> mx \<and> f j = Ret (Some r) \<and> (\<forall>k. i \<le> k \<and> k < j \<longrightarrow> f k = Ret None)"
proof (induction f i mx rule: tryFrom.induct)
  case (1 f i mx)
  from "1.prems" have le: "i \<le> mx" by (auto simp: tryFrom.simps [of f i mx] split: if_splits)
  show ?case
  proof (cases "f i = Ret None")
    case True
    with "1.prems" le have "tryFrom f (i + 1) mx = Ret (Some r)" by (simp add: tryFrom.simps [of f i mx])
    with "1.IH" [OF le True refl] obtain j where j:
      "i + 1 \<le> j" "j \<le> mx" "f j = Ret (Some r)" "\<forall>k. i + 1 \<le> k \<and> k < j \<longrightarrow> f k = Ret None" by blast
    have "f k = Ret None" if "i \<le> k" "k < j" for k
      using that True j(4) by (cases "k = i") auto
    with j show ?thesis by (intro exI [of _ j]) auto
  next
    case False
    with "1.prems" le have "f i = Ret (Some r)"
      by (auto simp: tryFrom.simps [of f i mx] split: sum.splits option.splits)
    with le show ?thesis by (intro exI [of _ i]) auto
  qed
qed

lemma tryFrom_None:
  "tryFrom f i mx = Ret None \<Longrightarrow> i \<le> k \<Longrightarrow> k \<le> mx \<Longrightarrow> f k = Ret None"
proof (induction f i mx rule: tryFrom.induct)
  case (1 f i mx)
  then have le: "i \<le> mx" by simp
  with "1.prems" have fi: "f i = Ret None" and rest: "tryFrom f (i + 1) mx = Ret None"
    by (auto simp: tryFrom.simps [of f i mx] split: sum.splits option.splits)
  show ?case
  proof (cases "k = i")
    case False
    with "1.IH" [OF le fi refl rest] "1.prems" show ?thesis by simp
  qed (simp add: fi)
qed

lemma tryFrom_Raise:
  "tryFrom f i mx = Raise e \<Longrightarrow> \<exists>j. i \<le> j \<and> j \<le> mx \<and> f j = Raise e"
proof (induction f i mx rule: tryFrom.induct)
  case (1 f i mx)
  then have le: "i \<le> mx" by (auto simp: tryFrom.simps [of f i mx] split: if_splits)
  show ?case
  proof (cases "f i = Ret None")
    case True
    with "1.prems" le have "tryFrom f (i + 1) mx = Raise e" by (simp add: tryFrom.simps [of f i mx])
    with "1.IH" [OF le True refl] obtain j where "i + 1 \<le> j" "j \<le> mx" "f j = Raise e" by blast
    then show ?thesis by (intro exI [of _ j]) auto
  next
    case False
    with "1.prems" le have "f i = Raise e"
      by (auto simp: tryFrom.simps [of f i mx] split: sum.splits option.splits)
    with le show ?thesis by blast
  qed
qed

lemma tryFrom_first_raises: "i \<le> mx \<Longrightarrow> f i = Raise e \<Longrightarrow> tryFrom f i mx = Raise e"
  by (simp add: tryFrom.simps [of f i mx])

text \<open>One round of the loop of \<open>parseLine\<close>.\<close>

definition tryLength :: "string \<Rightarrow> Token \<Rightarrow> Token list \<Rightarrow> int \<Rightarrow> ctx option res" where
  "tryLength s t ts i =
    bindE (substringFrom s i) (\<lambda>rest.
    bindE (parseLine rest ts) (\<lambda>res.
      case res of None \<Rightarrow> Ret None
      | Some m \<Rightarrow> bindE (substring s 0 i) (\<lambda>v. bindE (bindVar t v m) (\<lambda>m'. Ret (Some m')))))"

lemma parseLine_var:
  "s \<noteq> [] \<Longrightarrow> tok_isVariable t \<Longrightarrow>
   parseLine s (t # ts) = tryFrom (tryLength s t ts) (tokMin t) (tokMax t s)"
  by (simp add: tryLength_def [abs_def])

lemma tokMin_nonneg [simp]: "0 \<le> tokMin t"
  by (simp add: tokMin_def)

lemma tryLength_inside:
  "k \<le> length s \<Longrightarrow> tryLength s t ts (int k) =
    bindE (parseLine (drop k s) ts) (\<lambda>res.
      case res of None \<Rightarrow> Ret None
      | Some m \<Rightarrow> bindE (bindVar t (take k s) m) (\<lambda>m'. Ret (Some m')))"
  by (simp add: tryLength_def substringFrom_nat substring_def split: option.splits cong: option.case_cong)

lemma tryLength_outside:
  "int (length s) < i \<Longrightarrow> tryLength s t ts i = Raise IndexOutOfBoundsException"
  by (simp add: tryLength_def substringFrom_def substring_def)

lemma tryLength_Inr:
  assumes "tryLength s t ts i = Ret r" and "0 \<le> i"
  shows "\<exists>k. i = int k \<and> k \<le> length s"
proof -
  from assms tryLength_outside have "\<not> int (length s) < i" by fastforce
  with assms(2) show ?thesis by (intro exI [of _ "nat i"]) auto
qed

section \<open>Soundness and completeness of the match\<close>

lemma admissible_var:
  "tok_isVariable t \<Longrightarrow> s \<noteq> [] \<Longrightarrow> k \<le> length s \<Longrightarrow>
   admissible t (take k s) s \<longleftrightarrow> tokMin t \<le> int k \<and> int k \<le> tokMax t s"
  by (simp add: admissible_def min_absorb2 take_is_prefix)

lemma admissible_take: "admissible t v s \<Longrightarrow> v = take (length v) s \<and> length v \<le> length s \<and> s \<noteq> []"
  by (auto simp: admissible_def prefix_def)

text \<open>The cut the match takes, shortest pieces first.\<close>

definition shortest :: "Token list \<Rightarrow> string list \<Rightarrow> string \<Rightarrow> bool" where
  "shortest ts vs s \<longleftrightarrow> segments ts vs s \<and>
     (\<forall>ws. segments ts ws s \<longrightarrow> lexLe (map length vs) (map length ws))"

lemma lit_segments:
  "\<not> tok_isVariable t \<Longrightarrow> s \<noteq> [] \<Longrightarrow>
   segments (t # ts) vs s \<longleftrightarrow>
   startsWith s (tok_text t) \<and> (\<exists>vs'. vs = tok_text t # vs' \<and> segments ts vs' (drop (length (tok_text t)) s))"
  by (cases vs) (auto simp: admissible_def startsWith_prefix)

lemma lit_shortest:
  assumes "\<not> tok_isVariable t" and "s \<noteq> []" and "startsWith s (tok_text t)"
    and "shortest ts vs (drop (length (tok_text t)) s)"
  shows "shortest (t # ts) (tok_text t # vs) s"
  using assms by (auto simp: shortest_def lit_segments simp del: segments_Cons)

lemma parseLine_None_complete:
  "parseLine s ts = Ret None \<Longrightarrow> \<not> segments ts vs s"
proof (induction ts arbitrary: s vs)
  case (Cons t ts)
  show ?case
  proof (cases "s = [] \<or> \<not> tok_isVariable t")
    case True
    with Cons show ?thesis
      by (cases vs; cases "s = []") (auto simp: admissible_def startsWith_prefix split: if_splits)
  next
    case False
    show ?thesis
    proof
      assume seg: "segments (t # ts) vs s"
      then obtain v vs' where v: "admissible t v s" "segments ts vs' (drop (length v) s)"
        by (cases vs) auto
      let ?k = "length v"
      from v(1) have k: "?k \<le> length s" "tokMin t \<le> int ?k" "int ?k \<le> tokMax t s"
        using False admissible_take [OF v(1)] by (auto simp: admissible_def)
      from Cons.prems False have "tryFrom (tryLength s t ts) (tokMin t) (tokMax t s) = Ret None"
        by (simp add: parseLine_var del: parseLine.simps)
      then have "tryLength s t ts (int ?k) = Ret None" using k by (auto dest: tryFrom_None)
      then have "parseLine (drop ?k s) ts = Ret None"
        using k by (auto simp: tryLength_inside bindE_Inr_conv split: option.splits)
      with Cons.IH v(2) show False by blast
    qed
  qed
qed (auto split: if_splits)

lemma parseLine_Some_sound:
  "parseLine s ts = Ret (Some m) \<Longrightarrow> \<exists>vs. shortest ts vs s \<and> bindings ts vs = Ret m"
proof (induction ts arbitrary: s m)
  case Nil
  then show ?case by (intro exI [of _ "[]"]) (auto simp: shortest_def split: if_splits)
next
  case (Cons t ts)
  from Cons.prems have ne: "s \<noteq> []" by auto
  show ?case
  proof (cases "tok_isVariable t")
    case False
    with Cons.prems ne have "startsWith s (tok_text t)"
      and "parseLine (drop (length (tok_text t)) s) ts = Ret (Some m)"
      by (auto split: if_splits)
    with Cons.IH obtain vs where "shortest ts vs (drop (length (tok_text t)) s)" "bindings ts vs = Ret m"
      by blast
    with False ne \<open>startsWith s (tok_text t)\<close> show ?thesis
      by (intro exI [of _ "tok_text t # vs"]) (auto intro: lit_shortest)
  next
    case True
    with Cons.prems ne have "tryFrom (tryLength s t ts) (tokMin t) (tokMax t s) = Ret (Some m)"
      by (simp add: parseLine_var del: parseLine.simps)
    then obtain j where j: "tokMin t \<le> j" "j \<le> tokMax t s" "tryLength s t ts j = Ret (Some m)"
      "\<forall>k. tokMin t \<le> k \<and> k < j \<longrightarrow> tryLength s t ts k = Ret None"
      by (auto dest: tryFrom_Some)
    then obtain k where k: "j = int k" "k \<le> length s"
      using tryLength_Inr [OF j(3)] tokMin_nonneg [of t] by force
    with j(3) obtain m0 where m0: "parseLine (drop k s) ts = Ret (Some m0)" "bindVar t (take k s) m0 = Ret m"
      by (auto simp: tryLength_inside bindE_Inr_conv split: option.splits)
    with Cons.IH obtain vs where vs: "shortest ts vs (drop k s)" "bindings ts vs = Ret m0" by blast
    let ?vs = "take k s # vs"
    have seg: "segments (t # ts) ?vs s"
      using True ne j k vs(1) by (simp add: admissible_var shortest_def min_absorb2)
    have "lexLe (map length ?vs) (map length ws)" if ws: "segments (t # ts) ws s" for ws
    proof -
      from ws obtain w ws' where w: "ws = w # ws'" "admissible t w s" "segments ts ws' (drop (length w) s)"
        by (cases ws) auto
      have wl: "length w \<le> length s" "tokMin t \<le> int (length w)"
        using w(2) True admissible_take [OF w(2)] by (auto simp: admissible_def)
      have "\<not> length w < k"
      proof
        assume "length w < k"
        with j(4) k wl have "tryLength s t ts (int (length w)) = Ret None" by auto
        with wl have "parseLine (drop (length w) s) ts = Ret None"
          by (auto simp: tryLength_inside bindE_Inr_conv split: option.splits)
        with w(3) parseLine_None_complete show False by blast
      qed
      moreover have "lexLe (map length vs) (map length ws')" if "length w = k"
        using that w(3) vs(1) by (simp add: shortest_def)
      ultimately show ?thesis using w(1) k by (auto simp: min_absorb2)
    qed
    with seg True vs(2) m0(2) show ?thesis
      by (intro exI [of _ ?vs]) (simp add: shortest_def)
  qed
qed

lemma parseLine_segments_Some:
  "segments ts vs s \<Longrightarrow> parseLine s ts \<noteq> Ret None"
  using parseLine_None_complete by blast

lemmas parse_loop = tryFrom_Some tryFrom_None tryLength_inside tryLength_Inr

section \<open>When matching raises\<close>

text \<open>
  Without length bounds, and with every name used either as a scalar or as an array, no
  exception can occur; \<open>parseLine\<close> then decides the match.
\<close>

definition unboundedTokens :: "Token list \<Rightarrow> bool" where
  "unboundedTokens ts \<longleftrightarrow> (\<forall>t \<in> set ts. tok_isVariable t \<longrightarrow> tok_minLen t \<le> 0 \<and> tok_maxLen t < 0)"

definition consistentNames :: "Token list \<Rightarrow> bool" where
  "consistentNames ts \<longleftrightarrow> (\<forall>t \<in> set ts. \<forall>u \<in> set ts. tok_isVariable t \<and> tok_isVariable u \<and>
     the (tok_name t) = the (tok_name u) \<longrightarrow> tok_isArray t = tok_isArray u)"

lemma bindVar_typed:
  assumes "bindVar t v m = Ret m'" and "jget m' k = Some x"
  shows "jget m k = Some x \<or>
    (k = the (tok_name t) \<and> (if tok_isArray t then \<exists>xs. x = JArr xs else x = JStr v))"
  using assms
  by (cases "k = the (tok_name t)") (auto simp: bindVar_def Let_def split: if_splits option.splits jval.splits)

lemma bindings_typed:
  "bindings ts vs = Ret m \<Longrightarrow> jget m k = Some x \<Longrightarrow>
   \<exists>t \<in> set ts. tok_isVariable t \<and> the (tok_name t) = k \<and>
     (if tok_isArray t then \<exists>xs. x = JArr xs else \<exists>v. x = JStr v)"
proof (induction ts vs arbitrary: m rule: bindings.induct)
  case (1 t ts v vs)
  show ?case
  proof (cases "tok_isVariable t")
    case True
    with "1.prems" obtain m0 where m0: "bindings ts vs = Ret m0" "bindVar t v m0 = Ret m"
      by (auto elim: bindE_InrE)
    from bindVar_typed [OF m0(2) "1.prems"(2)] show ?thesis
      using "1.IH"(1) [OF True m0(1)] True by (auto split: if_splits)
  qed (use 1 in auto)
qed auto

lemma parseLine_typed:
  "parseLine s ts = Ret (Some m) \<Longrightarrow> jget m k = Some x \<Longrightarrow>
   \<exists>t \<in> set ts. tok_isVariable t \<and> the (tok_name t) = k \<and>
     (if tok_isArray t then \<exists>xs. x = JArr xs else \<exists>v. x = JStr v)"
  using parseLine_Some_sound bindings_typed by blast

lemma bindVar_no_raise:
  assumes "\<And>x. jget m (the (tok_name t)) = Some x \<Longrightarrow> tok_isArray t \<Longrightarrow> \<exists>xs. x = JArr xs"
  shows "\<exists>m'. bindVar t v m = Ret m'"
  using assms by (auto simp: bindVar_def Let_def split: option.splits jval.splits)

lemma parseLine_no_raise:
  "unboundedTokens ts \<Longrightarrow> consistentNames ts \<Longrightarrow> \<exists>r. parseLine s ts = Ret r"
proof (induction ts arbitrary: s)
  case (Cons t ts)
  have "unboundedTokens ts"
    using Cons.prems(1) unfolding unboundedTokens_def by (meson list.set_intros(2))
  moreover have "consistentNames ts"
    using Cons.prems(2) unfolding consistentNames_def by (meson list.set_intros(2))
  ultimately have IH: "\<exists>r. parseLine s' ts = Ret r" for s'
    by (rule Cons.IH)
  show ?case
  proof (cases "s = [] \<or> \<not> tok_isVariable t")
    case True
    then show ?thesis using IH by auto
  next
    case False
    have loop: "tokMax t s = int (length s)" using Cons.prems(1) False
      by (auto simp: unboundedTokens_def tokMax_def)
    have round: "\<exists>r. tryLength s t ts i = Ret r" if i: "tokMin t \<le> i" "i \<le> tokMax t s" for i
    proof -
      from i loop tokMin_nonneg [of t] obtain k where k: "i = int k" "k \<le> length s"
        by (metis nonneg_int_cases of_nat_le_iff order_trans)
      obtain r where r: "parseLine (drop k s) ts = Ret r" using IH by blast
      have "\<exists>m'. bindVar t (take k s) m = Ret m'" if "r = Some m" for m
      proof (rule bindVar_no_raise)
        fix x assume x: "jget m (the (tok_name t)) = Some x" "tok_isArray t"
        from parseLine_typed [OF r [unfolded that] x(1)] show "\<exists>xs. x = JArr xs"
          using Cons.prems(2) False x(2) by (fastforce simp: consistentNames_def split: if_splits)
      qed
      with k r show ?thesis by (cases r) (auto simp: tryLength_inside)
    qed
    have "\<not> (\<exists>e. tryFrom (tryLength s t ts) (tokMin t) (tokMax t s) = Raise e)"
      using round tryFrom_Raise by fastforce
    with False show ?thesis
      by (cases "tryFrom (tryLength s t ts) (tokMin t) (tokMax t s)") (auto simp: parseLine_var simp del: parseLine.simps)
  qed
qed auto

lemma parseLine_short_raises:
  assumes "tok_isVariable t" and "s \<noteq> []" and "int (length s) < tok_minLen t"
    and "tok_minLen t \<le> tok_maxLen t"
  shows "parseLine s (t # ts) = Raise IndexOutOfBoundsException"
proof -
  from assms(3) have "0 \<le> tok_minLen t" by simp
  with assms have "tokMin t = tok_minLen t" "tokMax t s = tok_maxLen t"
    by (simp_all add: tokMin_def tokMax_def)
  moreover have "tryLength s t ts (tok_minLen t) = Raise IndexOutOfBoundsException"
    using assms(3) by (rule tryLength_outside)
  ultimately show ?thesis
    using assms(1,2,4) by (simp add: parseLine_var tryFrom_first_raises del: parseLine.simps)
qed

section \<open>Putting the values back\<close>

definition renderToken :: "ctx \<Rightarrow> Token \<Rightarrow> string" where
  "renderToken m t =
    (if tok_isVariable t then (case jget m (the (tok_name t)) of Some (JStr v) \<Rightarrow> v | _ \<Rightarrow> [])
     else tok_text t)"

definition scalarDistinct :: "Token list \<Rightarrow> bool" where
  "scalarDistinct ts \<longleftrightarrow> distinct (map (\<lambda>t. the (tok_name t)) (filter tok_isVariable ts)) \<and>
     (\<forall>t \<in> set ts. tok_isVariable t \<longrightarrow> \<not> tok_isArray t)"

lemma segments_concat: "segments ts vs s \<Longrightarrow> concat vs = s"
proof (induction ts vs s rule: segments.induct)
  case (2 t ts vs s)
  then obtain v vs' where v: "vs = v # vs'" by (cases vs) auto
  with 2 show ?case using admissible_take [of t v s] by (metis append_take_drop_id concat.simps(2) segments_Cons(1))
qed auto

lemma bindings_fresh:
  "bindings ts vs = Ret m \<Longrightarrow> k \<notin> the ` tok_name ` set (filter tok_isVariable ts) \<Longrightarrow> jget m k = None"
  using bindings_typed by (cases "jget m k") fastforce+

lemma bindings_render:
  "segments ts vs s \<Longrightarrow> bindings ts vs = Ret m \<Longrightarrow> scalarDistinct ts \<Longrightarrow> map (renderToken m) ts = vs"
proof (induction ts vs s arbitrary: m rule: segments.induct)
  case (2 t ts vs s)
  then obtain v vs' where v: "vs = v # vs'" "segments ts vs' (drop (length v) s)" "admissible t v s"
    by (cases vs) auto
  show ?case
  proof (cases "tok_isVariable t")
    case True
    with "2.prems"(2) v(1) obtain m0 where m0: "bindings ts vs' = Ret m0" "bindVar t v m0 = Ret m"
      by (auto elim: bindE_InrE)
    have fresh: "jget m0 (the (tok_name t)) = None" and sd: "scalarDistinct ts" and sc: "\<not> tok_isArray t"
      using "2.prems"(3) True bindings_fresh [OF m0(1)] by (auto simp: scalarDistinct_def image_image)
    then have m: "m = jput (the (tok_name t)) (JStr v) m0"
      using m0(2) by (simp add: bindVar_def Let_def)
    have other: "the (tok_name u) \<noteq> the (tok_name t)" if "u \<in> set ts" "tok_isVariable u" for u
      using that "2.prems"(3) True by (force simp: scalarDistinct_def image_iff)
    have same: "renderToken m u = renderToken m0 u" if "u \<in> set ts" for u
      using that other by (auto simp: renderToken_def m)
    have "map (renderToken m0) ts = vs'" using "2.IH" v m0(1) sd by blast
    moreover have "map (renderToken m) ts = map (renderToken m0) ts" using same by simp
    moreover have "renderToken m t = v" using True m by (simp add: renderToken_def)
    ultimately show ?thesis using v(1) by simp
  next
    case False
    with 2 v have "map (renderToken m) ts = vs'" by (auto simp: scalarDistinct_def)
    moreover have "renderToken m t = v" using False v(3) by (simp add: renderToken_def admissible_def)
    ultimately show ?thesis using v(1) by simp
  qed
qed auto

section \<open>Printing a template line\<close>

datatype piece = Lit string | Var VarMatch

fun printPiece :: "piece \<Rightarrow> string" where
  "printPiece (Lit l) = l"
| "printPiece (Var m) = matchText m"

fun pieceOk :: "piece \<Rightarrow> bool" where
  "pieceOk (Lit l) \<longleftrightarrow> l \<noteq> [] \<and> CHR ''{'' \<notin> set l"
| "pieceOk (Var m) \<longleftrightarrow> matchOk m"

fun piecesOk :: "piece list \<Rightarrow> bool" where
  "piecesOk (Lit l # Lit l' # ps) = False"
| "piecesOk (p # ps) \<longleftrightarrow> pieceOk p \<and> piecesOk ps"
| "piecesOk [] = True"

fun expectedTokens :: "int \<Rightarrow> piece list \<Rightarrow> Token list res" where
  "expectedTokens st [] = Ret []"
| "expectedTokens st (Lit l # ps) =
    bindE (expectedTokens (st + int (length l)) ps) (\<lambda>ts. Ret (litToken l st (st + int (length l) - 1) # ts))"
| "expectedTokens st (Var m # ps) =
    bindE (matchToken m st) (\<lambda>t. bindE (expectedTokens (tok_end t + 1) ps) (\<lambda>ts. Ret (t # ts)))"

lemma findVar_lit:
  "CHR ''{'' \<notin> set l \<Longrightarrow>
   findVar (l @ s) = (case findVar s of None \<Rightarrow> None | Some (p, m, r) \<Rightarrow> Some (l @ p, m, r))"
proof (induction l)
  case Nil
  then show ?case by (auto split: option.splits)
next
  case (Cons c l)
  then have "scanVar (c # l @ s) = None" by (auto simp: scanVar_def startsWith_def)
  with Cons show ?case by (auto split: option.splits)
qed

lemma findVar_match: "matchOk m \<Longrightarrow> findVar (matchText m @ r) = Some ([], m, r)"
proof -
  assume "matchOk m"
  then have "scanVar (matchText m @ r) = Some (m, r)" by (rule scanVar_complete)
  then show ?thesis by (cases "matchText m @ r") auto
qed

lemma matchToken_start: "matchToken m st = Ret t \<Longrightarrow> tok_start t = st"
  by (erule matchToken_shape) simp

lemma bindE_Cons_inj: "bindE a (\<lambda>ts. Ret (t # ts)) = bindE b (\<lambda>ts. Ret (t # ts)) \<Longrightarrow> a = b"
  by (cases a; cases b) auto

lemma tokensFrom_print: "piecesOk ps \<Longrightarrow> tokensFrom st (concat (map printPiece ps)) = expectedTokens st ps"
proof (induction st ps rule: expectedTokens.induct)
  case (1 st)
  then show ?case by (simp add: tokensFrom.simps)
next
  case (2 st l ps)
  then have l: "l \<noteq> []" "CHR ''{'' \<notin> set l" by (cases ps; cases "hd ps"; auto)+
  show ?case
  proof (cases ps)
    case Nil
    with l findVar_lit [OF l(2), of "[]"] show ?thesis
      by (simp add: tokensFrom.simps [of st l])
  next
    case (Cons p qs)
    with 2 obtain m where m: "p = Var m" "matchOk m" "piecesOk qs" by (cases p) auto
    let ?r = "concat (map printPiece qs)"
    have f: "findVar (l @ matchText m @ ?r) = Some (l, m, ?r)"
      using findVar_lit [OF l(2), of "matchText m @ ?r"] findVar_match [OF m(2)] by simp
    have g: "findVar (matchText m @ ?r) = Some ([], m, ?r)" by (rule findVar_match [OF m(2)])
    have "tokensFrom (st + int (length l)) (concat (map printPiece ps)) = expectedTokens (st + int (length l)) ps"
      using 2 Cons m by simp
    then show ?thesis
      using f g l(1) Cons m(1)
      by (cases "matchToken m (st + int (length l))")
        (auto simp: tokensFrom.simps [of st "l @ matchText m @ ?r"] matchToken_start
          tokensFrom.simps [of "st + int (length l)" "matchText m @ ?r"] bindE_assoc
          dest!: bindE_Cons_inj)
  qed
next
  case (3 st m ps)
  let ?r = "concat (map printPiece ps)"
  have ok: "matchOk m" "piecesOk ps" using "3.prems" by auto
  show ?case
    using findVar_match [OF ok(1), of ?r] "3.IH" ok(2)
    by (cases "matchToken m st") (auto simp: tokensFrom.simps [of st "matchText m @ ?r"])
qed

section \<open>Several lines\<close>

lemma parseLines_Some:
  "parseLines ls toks m0 = Ret (Some m) \<Longrightarrow>
   list_all2 (\<lambda>l ts. \<exists>b. parseLine l ts = Ret (Some b)) ls toks"
  by (induction ls toks m0 rule: parseLines.induct)
    (auto simp: bindE_Inr_conv split: if_splits option.splits)

lemma parseLines_count:
  "length ls \<noteq> length toks \<Longrightarrow> parseLines ls toks m0 \<noteq> Ret (Some m)"
  using parseLines_Some list_all2_lengthD by blast

lemma parseLines_total:
  "list_all2 (\<lambda>l ts. \<exists>b. parseLine l ts = Ret (Some b)) ls toks \<Longrightarrow> \<exists>m. parseLines ls toks m0 = Ret (Some m)"
proof (induction ls toks m0 rule: parseLines.induct)
  case (3 l ls ts toks ret)
  then obtain b where "parseLine l ts = Ret (Some b)" by auto
  with 3 show ?case by (auto simp: bindE_Inr_conv)
qed auto

lemmas parseLines_iff = parseLines_Some parseLines_total

section \<open>Properties\<close>



text \<open>A template line without length bounds, in which no name is used both as a scalar and as
  an array, never raises: \<open>parseLine\<close> returns bindings exactly when the line can be cut.\<close>

theorem parseLine_total:
  assumes "unboundedTokens ts" and "consistentNames ts"
  shows "(\<exists>r. parseLine s ts = Ret r) \<and>
    ((\<exists>m. parseLine s ts = Ret (Some m)) \<longleftrightarrow> (\<exists>vs. segments ts vs s))"
proof -
  obtain r where r: "parseLine s ts = Ret r" using parseLine_no_raise [OF assms] by blast
  show ?thesis
  proof (cases r)
    case None
    then show ?thesis using r parseLine_None_complete by simp
  next
    case (Some m)
    with r obtain vs where "shortest ts vs s" using parseLine_Some_sound by blast
    then have "segments ts vs s" by (simp add: shortest_def)
    then show ?thesis using r Some by auto
  qed
qed

theorem parseLine_total_witness:
  "\<exists>r. parseLine ''to be'' [varToken ''{$x}'' ''x'' 0 3 (-1) (-1), litToken '' '' 4 4] = Ret r"
  by (rule parseLine_total [THEN conjunct1])
    (simp_all add: unboundedTokens_def consistentNames_def)

text \<open>A content line shorter than the minimal length of the bounded variable it has reached
  raises StringIndexOutOfBoundsException instead of being a mismatch: the loop calls
  \<open>substring\<close> with an index past the end of the line.\<close>

theorem parseLine_bounded_raises:
  assumes "tok_isVariable t" and "s \<noteq> []" and "int (length s) < tok_minLen t"
    and "tok_minLen t \<le> tok_maxLen t"
  shows "parseLine s (t # ts) = Raise IndexOutOfBoundsException"
  using assms by (rule parseLine_short_raises)

theorem parseLine_bounded_raises_witness:
  "bindE (parseTemplateLine ''{$len:4}'') (parseLine ''012'') = Raise IndexOutOfBoundsException"
proof -
  have "parseTemplateLine ''{$len:4}'' = Ret [varToken ''{$len:4}'' ''len'' 0 7 4 4]"
    by code_simp
  then show ?thesis
    using parseLine_bounded_raises [of "varToken ''{$len:4}'' ''len'' 0 7 4 4" "''012''" "[]"] by simp
qed

text \<open>The tokens of a template line are a lossless and gap-free cut of it: their texts
  concatenate to the line and their positions follow one another from 0, for every line on
  which \<open>parseTemplateLine\<close> returns.\<close>

theorem parseTemplateLine_lossless:
  assumes "parseTemplateLine line = Ret ts"
  shows "concat (map tok_text ts) = line \<and> contiguous 0 ts"
  using assms unfolding parseTemplateLine_def by (rule tokensFrom_lossless)

theorem parseTemplateLine_lossless_witness:
  "concat (map tok_text [litToken ''is '' 0 2, varToken ''{$good}'' ''good'' 3 9 (-1) (-1)]) = ''is {$good}'' \<and>
   contiguous 0 [litToken ''is '' 0 2, varToken ''{$good}'' ''good'' 3 9 (-1) (-1)]"
proof (rule parseTemplateLine_lossless)
  show "parseTemplateLine ''is {$good}'' = Ret [litToken ''is '' 0 2, varToken ''{$good}'' ''good'' 3 9 (-1) (-1)]"
    by code_simp
qed

text \<open>Printing literals and variables as a template line and cutting the line again gives back
  exactly these literals and variables, at their positions; a variable whose length bound does
  not fit an int raises, whatever stands around it.\<close>

theorem parseTemplateLine_print:
  assumes "piecesOk ps"
  shows "parseTemplateLine (concat (map printPiece ps)) = expectedTokens 0 ps"
  using assms unfolding parseTemplateLine_def by (rule tokensFrom_print)

theorem parseTemplateLine_print_witness:
  "parseTemplateLine (concat (map printPiece
      [Lit ''x='', Var \<lparr>vm_name = ''n[]'', vm_min = Some ''1'', vm_max = Some ''3''\<rparr>, Lit '';''])) =
   Ret [litToken ''x='' 0 1, varToken ''{$n[]:1,3}'' ''n[]'' 2 11 1 3, litToken '';'' 12 12]"
proof -
  let ?ps = "[Lit ''x='', Var \<lparr>vm_name = ''n[]'', vm_min = Some ''1'', vm_max = Some ''3''\<rparr>, Lit '';'']"
  have "piecesOk ?ps" by code_simp
  then have "parseTemplateLine (concat (map printPiece ?ps)) = expectedTokens 0 ?ps"
    by (rule parseTemplateLine_print)
  also have "\<dots> = Ret [litToken ''x='' 0 1, varToken ''{$n[]:1,3}'' ''n[]'' 2 11 1 3, litToken '';'' 12 12]"
    by code_simp
  finally show ?thesis .
qed

text \<open>Putting the extracted values back in place of the variables rebuilds the matched line,
  for a template line whose variables are scalars with different names.\<close>

theorem parseLine_rebuilds:
  assumes "parseLine s ts = Ret (Some m)" and "scalarDistinct ts"
  shows "concat (map (renderToken m) ts) = s"
proof -
  obtain vs where "segments ts vs s" "bindings ts vs = Ret m"
    using parseLine_Some_sound [OF assms(1)] by (auto simp: shortest_def)
  then show ?thesis using bindings_render segments_concat assms(2) by metis
qed

theorem parseLine_rebuilds_witness:
  "concat (map (renderToken [(''y'', JStr ''cd''), (''x'', JStr ''a'')])
     [varToken ''{$x}'' ''x'' 0 3 (-1) (-1), litToken ''b'' 4 4, varToken ''{$y}'' ''y'' 5 8 (-1) (-1)]) = ''abcd''"
proof (rule parseLine_rebuilds)
  show "parseLine ''abcd'' [varToken ''{$x}'' ''x'' 0 3 (-1) (-1), litToken ''b'' 4 4,
      varToken ''{$y}'' ''y'' 5 8 (-1) (-1)] = Ret (Some [(''y'', JStr ''cd''), (''x'', JStr ''a'')])"
    by code_simp
  show "scalarDistinct [varToken ''{$x}'' ''x'' 0 3 (-1) (-1), litToken ''b'' 4 4,
      varToken ''{$y}'' ''y'' 5 8 (-1) (-1)]"
    by code_simp
qed

text \<open>A template of several lines matches a content exactly when both have the same number of
  lines and every content line matches its template line; with fewer or more lines there is no
  match. Absent content never matches.\<close>

theorem parse_lines:
  "(\<exists>m. parse t c = Ret (Some m)) \<longleftrightarrow>
    (\<exists>s. c = Some s \<and>
      list_all2 (\<lambda>l ts. \<exists>b. parseLine l ts = Ret (Some b)) (readLines s) (allTokens t))"
  by (auto simp: parse_def split: option.splits dest: parseLines_Some parseLines_total)

end
