(* ===== verification/SimUtils.thy ===== *)
theory SimUtils
  imports JavaLib "HOL-Library.Word"
begin

text \<open>
  The string helpers of \<open>util/SimUtils.java\<close>: property and header lines, the unified names of
  the brokered simulators, delimiter lists, the URL coder and decoder, and the identifier
  generator. \<open>URLEncoder\<close> and \<open>URLDecoder\<close> are arguments of the URL functions; the lemmas
  about them assume what their documentation promises, collected in the locale
  \<open>url_codec\<close>, which is interpreted on a percent coder.
\<close>

section \<open>Property and header lines\<close>

definition parseProperty :: "string \<Rightarrow> (string \<times> string) option" where
  "parseProperty line =
    (case indexOf line CHR '':'' of
       Some index \<Rightarrow> Some (trim (take index line), trim (drop (index + 1) line))
     | None \<Rightarrow> None)"

text \<open>The end index of \<open>substring(0, indexOf(':'))\<close> is -1 on a line without a colon.\<close>

definition parseHeaderLine :: "string \<Rightarrow> (string \<times> string) res" where
  "parseHeaderLine headerLine =
    (let index = (case indexOf headerLine CHR '':'' of Some i \<Rightarrow> int i | None \<Rightarrow> -1) in
     bindE (substring headerLine 0 index) (\<lambda>name.
     bindE (substringFrom headerLine (index + 1)) (\<lambda>value.
       Ret (trim name, trim value))))"

lemma parseProperty_Some:
  "CHR '':'' \<notin> set n \<Longrightarrow> parseProperty (n @ CHR '':'' # v) = Some (trim n, trim v)"
  by (simp add: parseProperty_def indexOf_append)

lemma parseProperty_None: "parseProperty l = None \<longleftrightarrow> CHR '':'' \<notin> set l"
  unfolding indexOf_None [symmetric] by (simp add: parseProperty_def split: option.splits)

lemma parseHeaderLine_parseProperty:
  "parseHeaderLine l =
    (case parseProperty l of None \<Rightarrow> Raise IndexOutOfBoundsException | Some p \<Rightarrow> Ret p)"
proof (cases "indexOf l CHR '':''")
  case None
  then show ?thesis by (simp add: parseHeaderLine_def parseProperty_def substring_def)
next
  case (Some i)
  then have "i < length l" by (simp add: indexOf_Some)
  with Some show ?thesis
    by (simp add: parseHeaderLine_def parseProperty_def substring_def substringFrom_def nat_add_distrib)
qed

section \<open>Lines of content\<close>

text \<open>The loop of \<open>concatContent\<close>: the delimiter follows every line but the last.\<close>

fun concatLines :: "string \<Rightarrow> string list \<Rightarrow> string" where
  "concatLines delim [] = []"
| "concatLines delim (l # ls) = l @ (if ls \<noteq> [] then delim else []) @ concatLines delim ls"

definition concatContentDelim :: "string list \<Rightarrow> string \<Rightarrow> string option" where
  "concatContentDelim lines delim = (if lines \<noteq> [] then Some (concatLines delim lines) else None)"

definition concatContent :: "string list \<Rightarrow> string option" where
  "concatContent lines = concatContentDelim lines [nl]"

lemma concatLines_Cons: "ls \<noteq> [] \<Longrightarrow> concatLines d (l # ls) = l @ d @ concatLines d ls"
  by simp

lemma concatLines_snoc: "ls \<noteq> [] \<Longrightarrow> concatLines d (ls @ [l]) = concatLines d ls @ d @ l"
  by (induction ls) (auto split: if_splits)

lemma readLines_concatLines:
  assumes "list_all lineFree ls" and "ls \<noteq> [] \<Longrightarrow> last ls \<noteq> []"
  shows "readLines (concatLines [nl] ls) = ls"
  using assms
proof (induction ls)
  case (Cons l ls)
  then show ?case
    by (cases "ls = []") (auto simp: readLines_last readLines_nl)
qed simp

section \<open>Unified names\<close>

definition createUnifiedName :: "string \<Rightarrow> string \<Rightarrow> string" where
  "createUnifiedName localName brokerName = localName @ ''@'' @ brokerName"

definition getBrokerName :: "string \<Rightarrow> string res" where
  "getBrokerName unifiedName =
    (let parts = split CHR ''@'' unifiedName in
     if 1 < length parts then Ret (parts ! 1) else Raise IndexOutOfBoundsException)"

lemma getBrokerName_create:
  assumes "CHR ''@'' \<notin> set l" and "CHR ''@'' \<notin> set b"
  shows "getBrokerName (createUnifiedName l b)
    = (if b = [] then Raise IndexOutOfBoundsException else Ret b)"
  using assms
  by (auto simp: getBrokerName_def createUnifiedName_def split_pair)
    (simp_all add: split_def pieces_append pieces_no_delim dropTrailingEmpty_def)

section \<open>Delimiter lists\<close>

definition hexVal :: "char \<Rightarrow> int option" where
  "hexVal c = (let n = (of_char c :: nat) in
     if 48 \<le> n \<and> n \<le> 57 then Some (int n - 48)
     else if 97 \<le> n \<and> n \<le> 102 then Some (int n - 87)
     else if 65 \<le> n \<and> n \<le> 70 then Some (int n - 55) else None)"

fun hexDigits :: "int \<Rightarrow> string \<Rightarrow> int option" where
  "hexDigits acc [] = Some acc"
| "hexDigits acc (c # s) =
    (case hexVal c of None \<Rightarrow> None | Some d \<Rightarrow> hexDigits (16 * acc + d) s)"

text \<open>\<open>new BigInteger(s, 16)\<close>\<close>

definition bigIntegerHex :: "string \<Rightarrow> int res" where
  "bigIntegerHex s =
    (let (neg, t) = (case s of [] \<Rightarrow> (False, [])
        | c # t \<Rightarrow> if c = CHR ''-'' then (True, t) else if c = CHR ''+'' then (False, t) else (False, s)) in
     if t = [] then Raise NumberFormatException
     else (case hexDigits 0 t of None \<Rightarrow> Raise NumberFormatException
       | Some v \<Rightarrow> Ret (if neg then - v else v)))"

definition parseDelimiter :: "string \<Rightarrow> 8 word list res" where
  "parseDelimiter part =
    (let dels = splitStr ''0x'' (trim part) in
     if dels = [] then Raise (RuntimeException ''NegativeArraySizeException'')
     else mapE (\<lambda>d. bindE (bigIntegerHex d) (\<lambda>v. Ret (word_of_int v))) (tl dels))"

definition parseDelimiters :: "string \<Rightarrow> 8 word list list res" where
  "parseDelimiters delimitersStr = mapE parseDelimiter (split CHR '','' delimitersStr)"

text \<open>The string variant decodes the bytes with the platform's charset.\<close>

definition parseDelimitersAsString :: "(8 word list \<Rightarrow> string) \<Rightarrow> string \<Rightarrow> string list res" where
  "parseDelimitersAsString newString delimitersStr =
    bindE (parseDelimiters delimitersStr) (\<lambda>ret. Ret (map newString ret))"

section \<open>java.net.URLEncoder and URLDecoder\<close>

text \<open>
  The coder leaves letters, digits and four marks alone, turns a space into a plus sign, and
  writes every byte of a run of other characters as a percent sign and two hexadecimal digits.
  The charset is an argument: the program encodes with the platform's and decodes with UTF-8.
\<close>

definition urlSafe :: "char \<Rightarrow> bool" where
  "urlSafe c \<longleftrightarrow>
    (let n = (of_char c :: nat) in (97 \<le> n \<and> n \<le> 122) \<or> (65 \<le> n \<and> n \<le> 90) \<or> (48 \<le> n \<and> n \<le> 57)) \<or>
    c = CHR ''-'' \<or> c = CHR ''_'' \<or> c = CHR ''.'' \<or> c = CHR ''*''"

definition urlEscaped :: "char \<Rightarrow> bool" where
  "urlEscaped c \<longleftrightarrow> \<not> urlSafe c \<and> c \<noteq> CHR '' ''"

definition hexChar :: "nat \<Rightarrow> char" where
  "hexChar n = (if n < 10 then char_of (48 + n) else char_of (55 + n))"

definition percent :: "8 word \<Rightarrow> string" where
  "percent b = [CHR ''%'', hexChar (unat b div 16), hexChar (unat b mod 16)]"

function urlEncode :: "(string \<Rightarrow> 8 word list) \<Rightarrow> string \<Rightarrow> string" where
  "urlEncode getBytes [] = []"
| "urlEncode getBytes (c # s) =
    (if urlSafe c then c # urlEncode getBytes s
     else if c = CHR '' '' then CHR ''+'' # urlEncode getBytes s
     else concat (map percent (getBytes (c # takeWhile urlEscaped s)))
       @ urlEncode getBytes (dropWhile urlEscaped s))"
  by pat_completeness auto
termination
  by (relation "measure (\<lambda>(f, s). length s)") (auto simp: length_dropWhile_le less_Suc_eq_le)

text \<open>The bytes of the percent run at the head of the text, and what follows it.\<close>

fun percentRun :: "string \<Rightarrow> (8 word list \<times> string) res" where
  "percentRun (c # a # b # s) =
    (if c = CHR ''%'' then
       (case bigIntegerHex [a, b] of
          Inl e \<Rightarrow> Raise (RuntimeException ''IllegalArgumentException'')
        | Inr v \<Rightarrow>
          if v < 0 then Raise (RuntimeException ''IllegalArgumentException'')
          else bindE (percentRun s) (\<lambda>(bs, r). Ret (word_of_int v # bs, r)))
     else Ret ([], c # a # b # s))"
| "percentRun s =
    (if s \<noteq> [] \<and> hd s = CHR ''%'' then Raise (RuntimeException ''IllegalArgumentException'')
     else Ret ([], s))"

lemma percentRun_length: "percentRun s = Inr (bs, r) \<Longrightarrow> length r \<le> length s"
  by (induction s arbitrary: bs rule: percentRun.induct)
    (force elim!: bindE_InrE split: if_splits sum.splits)+

lemma percentRun_progress:
  "percentRun (CHR ''%'' # s) = Inr (bs, r) \<Longrightarrow> length r < Suc (length s)"
  by (cases "CHR ''%'' # s" rule: percentRun.cases)
    (auto dest!: percentRun_length elim!: bindE_InrE split: if_splits sum.splits)

function urlDecode :: "(8 word list \<Rightarrow> string) \<Rightarrow> string \<Rightarrow> string res" where
  "urlDecode newString [] = Ret []"
| "urlDecode newString (c # s) =
    (if c = CHR ''+'' then bindE (urlDecode newString s) (\<lambda>t. Ret (CHR '' '' # t))
     else if c = CHR ''%'' then
       (case percentRun (CHR ''%'' # s) of
          Inl e \<Rightarrow> Raise e
        | Inr (bs, r) \<Rightarrow> bindE (urlDecode newString r) (\<lambda>t. Ret (newString bs @ t)))
     else bindE (urlDecode newString s) (\<lambda>t. Ret (c # t)))"
  by pat_completeness auto
termination
  by (relation "measure (\<lambda>(f, s). length s)") (auto dest: percentRun_progress)

declare urlDecode.simps(2) [simp del]

text \<open>What the program relies on of a charset: decoding gives back the encoded text.\<close>

locale charset =
  fixes getBytes :: "string \<Rightarrow> 8 word list"
    and newString :: "8 word list \<Rightarrow> string"
  assumes decode_encode: "newString (getBytes s) = s"
    and decode_Nil: "newString [] = []"

lemma byte_nibbles: "unat b div 16 < 16" "unat b mod 16 < 16" for b :: "8 word"
  using unsigned_less [of b, where ?'a = nat] by (simp_all add: less_mult_imp_div_less)

lemma hexVal_hexChar: "n < 16 \<Longrightarrow> hexVal (hexChar n) = Some (int n)"
  by (auto simp: hexVal_def hexChar_def Let_def of_char_of)

lemma hexChar_unsigned: "hexChar n \<noteq> CHR ''-''" "hexChar n \<noteq> CHR ''+''" if "n < 16"
  using hexVal_hexChar [OF that] by (auto simp: hexVal_def)

lemma hexChar_urlSafe: "n < 16 \<Longrightarrow> urlSafe (hexChar n)"
  by (auto simp: urlSafe_def hexChar_def Let_def of_char_of)

lemma hex_byte:
  "bigIntegerHex [hexChar (unat b div 16), hexChar (unat b mod 16)] = Ret (uint b)" for b :: "8 word"
proof -
  have "16 * (unat b div 16) + unat b mod 16 = unat b" by simp
  then have "16 * int (unat b div 16) + int (unat b mod 16) = uint b"
    by (metis of_nat_add of_nat_mult of_nat_numeral uint_nat)
  then show ?thesis
    using hexVal_hexChar [OF byte_nibbles(1)] hexVal_hexChar [OF byte_nibbles(2)]
      hexChar_unsigned [OF byte_nibbles(1)]
    by (simp add: bigIntegerHex_def)
qed

lemma percentRun_percents:
  assumes "r = [] \<or> hd r \<noteq> CHR ''%''"
  shows "percentRun (concat (map percent bs) @ r) = Ret (bs, r)"
proof (induction bs)
  case Nil
  show ?case using assms by (cases r rule: percentRun.cases) auto
next
  case (Cons b bs)
  then show ?case by (simp add: percent_def hex_byte)
qed

lemma urlEncode_chars:
  "c \<in> set (urlEncode g s) \<Longrightarrow> urlSafe c \<or> c = CHR ''+'' \<or> c = CHR ''%''"
proof (induction g s rule: urlEncode.induct)
  case (2 g x s)
  then show ?case by (auto simp: percent_def byte_nibbles hexChar_urlSafe split: if_splits)
qed simp

section \<open>URLs\<close>

definition urlKey :: "(string \<Rightarrow> string res) \<Rightarrow> string \<Rightarrow> string res" where
  "urlKey decode pair =
    (case indexOf pair CHR ''='' of
       Some (Suc i) \<Rightarrow> decode (take (Suc i) pair)
     | _ \<Rightarrow> Ret pair)"

definition urlValue :: "(string \<Rightarrow> string res) \<Rightarrow> string \<Rightarrow> string option res" where
  "urlValue decode pair =
    (case indexOf pair CHR ''='' of
       Some (Suc i) \<Rightarrow>
         if length pair > Suc i + 1
         then bindE (decode (drop (Suc i + 1) pair)) (\<lambda>v. Ret (Some v)) else Ret None
     | _ \<Rightarrow> Ret None)"

fun decodePairs :: "(string \<Rightarrow> string res) \<Rightarrow> nat \<Rightarrow> string list \<Rightarrow> string res" where
  "decodePairs decode count [] = Ret []"
| "decodePairs decode count (pair # pairs) =
    bindE (urlKey decode pair) (\<lambda>key.
    bindE (urlValue decode pair) (\<lambda>value.
    bindE (decodePairs decode (count + 1) pairs) (\<lambda>rest.
      Ret ((if count > 1 then ''&'' else []) @ key @ ''='' @
        (case value of None \<Rightarrow> [] | Some v \<Rightarrow> v) @ rest))))"

definition decodeURL :: "(string \<Rightarrow> string res) \<Rightarrow> string \<Rightarrow> string res" where
  "decodeURL decode url =
    (case split CHR ''?'' url of
       [] \<Rightarrow> Raise IndexOutOfBoundsException
     | [base] \<Rightarrow> Ret base
     | base # query # _ \<Rightarrow>
         bindE (decodePairs decode 1 (split CHR ''&'' query)) (\<lambda>q. Ret (base @ ''?'' @ q)))"

fun parsePairs :: "(string \<Rightarrow> string res) \<Rightarrow> string list \<Rightarrow> (string, string) jmap
    \<Rightarrow> (string, string) jmap res" where
  "parsePairs decode [] ret = Ret ret"
| "parsePairs decode (pair # pairs) ret =
    bindE (urlKey decode pair) (\<lambda>key.
    bindE (urlValue decode pair) (\<lambda>value.
      parsePairs decode pairs (case value of None \<Rightarrow> ret | Some v \<Rightarrow> jput key v ret)))"

definition parseURL :: "(string \<Rightarrow> string res) \<Rightarrow> string \<Rightarrow> (string, string) jmap res" where
  "parseURL decode url =
    (case split CHR ''?'' url of
       base # query # _ \<Rightarrow> parsePairs decode (split CHR ''&'' query) []
     | _ \<Rightarrow> Ret [])"

text \<open>A pair without an equals sign makes \<open>substring(0, -1)\<close> raise.\<close>

fun encodePairs :: "(string \<Rightarrow> string) \<Rightarrow> nat \<Rightarrow> string list \<Rightarrow> string res" where
  "encodePairs encode i [] = Ret []"
| "encodePairs encode i (pair # pairs) =
    (let index2 = (case indexOf pair CHR ''='' of Some j \<Rightarrow> int j | None \<Rightarrow> -1) in
     bindE (substring pair 0 index2) (\<lambda>key.
     bindE (substringFrom pair (index2 + 1)) (\<lambda>value.
     bindE (encodePairs encode (i + 1) pairs) (\<lambda>rest.
       Ret ((if i \<noteq> 1 then ''&'' else []) @ encode key @ ''='' @ encode value @ rest)))))"

definition encodeURL :: "(string \<Rightarrow> string) \<Rightarrow> string \<Rightarrow> string res" where
  "encodeURL encode url =
    (case indexOf url CHR ''?'' of
       None \<Rightarrow> Ret url
     | Some index \<Rightarrow>
         bindE (encodePairs encode 1 (split CHR ''&'' (drop (index + 1) url))) (\<lambda>q.
           Ret (take (index + 1) url @ q)))"

section \<open>Identifiers\<close>

record IDGenerator =
  idg_format :: string
  idg_extraLength :: int
  idg_name :: string
  idg_maxCount :: "64 word"
  idg_index :: "64 word"

fun timesTen :: "nat \<Rightarrow> 64 word \<Rightarrow> 64 word" where
  "timesTen 0 w = w"
| "timesTen (Suc n) w = timesTen n (w * 10)"

definition newIDGenerator :: "string \<Rightarrow> string \<Rightarrow> int \<Rightarrow> IDGenerator" where
  "newIDGenerator name dateFormat extraLength =
    \<lparr>idg_format = dateFormat, idg_extraLength = extraLength, idg_name = name,
     idg_maxCount = timesTen (nat extraLength) 1 - 1, idg_index = 0\<rparr>"

text \<open>
  \<open>nextID\<close>, with the formatted date as an argument. \<open>%0nd\<close> is a legal format for a
  positive width only; the index, which is never negative, has advanced when \<open>printf\<close> raises.
\<close>

definition nextID :: "string \<Rightarrow> IDGenerator \<Rightarrow> string res \<times> IDGenerator" where
  "nextID date g =
    (let i = idg_index g + 1 in
     if idg_extraLength g \<le> 0
     then (Raise (RuntimeException ''IllegalFormatException''), g\<lparr>idg_index := i\<rparr>)
     else (Ret (date @ padZero (nat (idg_extraLength g)) (unat (idg_index g))),
       g\<lparr>idg_index := (if idg_maxCount g \<le>s i then 0 else i)\<rparr>))"

type_synonym idGenerators = "(string, IDGenerator) jmap"

definition getInstance :: "string \<Rightarrow> string \<Rightarrow> int \<Rightarrow> idGenerators \<Rightarrow> IDGenerator \<times> idGenerators" where
  "getInstance name format extraLength m =
    (case jget m name of
       Some inst \<Rightarrow> (inst, m)
     | None \<Rightarrow> (let inst = newIDGenerator name format extraLength in (inst, jput name inst m)))"

text \<open>The generator object is shared: its new state is the one the map holds.\<close>

definition genID :: "string \<Rightarrow> string \<Rightarrow> int \<Rightarrow> string \<Rightarrow> idGenerators \<Rightarrow> string res \<times> idGenerators" where
  "genID name format extraLength date m =
    (let (inst, m') = getInstance name format extraLength m; (r, inst') = nextID date inst in
     (r, jput name inst' m'))"


section \<open>The identifier generator cycles\<close>

lemma timesTen_pow: "timesTen n w = w * 10 ^ n"
  by (induction n arbitrary: w) (simp_all add: ac_simps)

text \<open>The identifiers of consecutive calls, one formatted date per call.\<close>

fun nextIDs :: "string list \<Rightarrow> IDGenerator \<Rightarrow> string res list \<times> IDGenerator" where
  "nextIDs [] g = ([], g)"
| "nextIDs (d # ds) g = (let (r, g') = nextID d g; (rs, g'') = nextIDs ds g' in (r # rs, g''))"

text \<open>The generators with a width the \<open>long\<close> counter can hold, and an index in range.\<close>

definition idgOk :: "nat \<Rightarrow> nat \<Rightarrow> IDGenerator \<Rightarrow> bool" where
  "idgOk k n g \<longleftrightarrow> 0 < k \<and> k \<le> 18 \<and> idg_extraLength g = int k \<and>
     idg_maxCount g = 10 ^ k - 1 \<and> idg_index g = of_nat n \<and> n < 10 ^ k - 1"

lemma pow10_bound: "k \<le> 18 \<Longrightarrow> (10::nat) ^ k \<le> 10 ^ 18"
  by (rule power_increasing) simp_all

lemma newIDGenerator_ok: "0 < k \<Longrightarrow> k \<le> 18 \<Longrightarrow> idgOk k 0 (newIDGenerator nm fmt (int k))"
  using power_increasing [of 1 k "10::nat"]
  by (simp add: idgOk_def newIDGenerator_def timesTen_pow)

lemma small_sint:
  assumes "n < 2 ^ 63"
  shows "sint (of_nat n :: 64 word) = int n"
  using assms by (simp add: sint_uint unsigned_of_nat take_bit_nat_eq_self signed_take_bit_int_eq_self)

lemma nextID_ok:
  assumes "idgOk k n g"
  shows "nextID d g = (Ret (d @ padZero k n), snd (nextID d g))"
    and "idgOk k (Suc n mod (10 ^ k - 1)) (snd (nextID d g))"
proof -
  from assms have b: "(10::nat) ^ k \<le> 10 ^ 18" "10 \<le> (10::nat) ^ k" and n: "n < 10 ^ k - 1"
    using pow10_bound power_increasing [of 1 k "10::nat"] by (auto simp: idgOk_def)
  have u: "unat (of_nat n :: 64 word) = n"
    using n b by (simp add: unsigned_of_nat take_bit_nat_eq_self)
  show "nextID d g = (Ret (d @ padZero k n), snd (nextID d g))"
    using assms u by (simp add: nextID_def idgOk_def Let_def)
  have m: "idg_maxCount g = of_nat (10 ^ k - 1)" and i: "idg_index g + 1 = of_nat (Suc n)"
    using assms b(2) by (simp_all add: idgOk_def of_nat_diff)
  have lim: "10 ^ k - 1 < (2::nat) ^ 63" "Suc n < 2 ^ 63"
    using n b by simp_all
  have le: "idg_maxCount g \<le>s idg_index g + 1 \<longleftrightarrow> 10 ^ k - 1 \<le> Suc n"
    unfolding m i word_sle_eq small_sint [OF lim(1)] small_sint [OF lim(2)] by (rule of_nat_le_iff)
  show "idgOk k (Suc n mod (10 ^ k - 1)) (snd (nextID d g))"
  proof (cases "10 ^ k - 1 \<le> Suc n")
    case True
    with n have "Suc n = 10 ^ k - 1" by simp
    with True assms le show ?thesis by (simp add: nextID_def idgOk_def Let_def)
  next
    case False
    with assms le i show ?thesis by (simp add: nextID_def idgOk_def Let_def)
  qed
qed


section \<open>Round trips of URLs\<close>

definition latin1Bytes :: "string \<Rightarrow> 8 word list" where
  "latin1Bytes s = map (\<lambda>c. of_nat (of_char c)) s"

definition latin1String :: "8 word list \<Rightarrow> string" where
  "latin1String bs = map (\<lambda>b. char_of (unat b)) bs"

lemma latin1_char: "char_of (unat (of_nat (of_char c) :: 8 word)) = c"
  using nat_of_char_less_256 [of c] by (simp add: unsigned_of_nat take_bit_nat_eq_self)

interpretation latin1: charset latin1Bytes latin1String
  by unfold_locales (simp_all add: latin1Bytes_def latin1String_def comp_def latin1_char)

text \<open>A query string and its pairs.\<close>

definition pairText :: "string \<times> string \<Rightarrow> string" where
  "pairText p = fst p @ CHR ''='' # snd p"

definition queryText :: "(string \<times> string) list \<Rightarrow> string" where
  "queryText ps = concatLines ''&'' (map pairText ps)"

definition pairOk :: "string \<times> string \<Rightarrow> bool" where
  "pairOk p \<longleftrightarrow> fst p \<noteq> [] \<and> CHR ''='' \<notin> set (fst p) \<and> CHR ''&'' \<notin> set (fst p) \<and> CHR ''&'' \<notin> set (snd p)"

lemma pairText_Pair: "pairText (a, b) = a @ CHR ''='' # b"
  by (simp add: pairText_def)

lemma concatLines_butlast:
  "ls \<noteq> [] \<Longrightarrow> concatLines [d] ls = concat (map (\<lambda>p. p @ [d]) (butlast ls)) @ last ls"
  by (induction ls) auto

lemma split_concatLines:
  "ls \<noteq> [] \<Longrightarrow> \<forall>l\<in>set ls. d \<notin> set l \<and> l \<noteq> [] \<Longrightarrow> split d (concatLines [d] ls) = ls"
  by (simp add: concatLines_butlast split_intercalate)

lemma split_queryText:
  "ps \<noteq> [] \<Longrightarrow> list_all pairOk ps \<Longrightarrow> split CHR ''&'' (queryText ps) = map pairText ps"
  unfolding queryText_def by (rule split_concatLines) (auto simp: list_all_iff pairOk_def pairText_def)

lemma indexOf_pairText:
  "CHR ''='' \<notin> set (fst p) \<Longrightarrow> indexOf (pairText p) CHR ''='' = Some (length (fst p))"
  by (simp add: pairText_def indexOf_append)

lemma encodePairs_pairs:
  "list_all pairOk ps \<Longrightarrow> 1 \<le> i \<Longrightarrow>
   encodePairs enc i (map pairText ps) =
     Ret ((if i \<noteq> 1 \<and> ps \<noteq> [] then ''&'' else []) @ concatLines ''&'' (map (\<lambda>p. pairText (enc (fst p), enc (snd p))) ps))"
proof (induction ps arbitrary: i)
  case (Cons p ps)
  have "substring (pairText p) 0 (int (length (fst p))) = Ret (fst p)"
    "substringFrom (pairText p) (int (length (fst p)) + 1) = Ret (snd p)"
    by (simp_all add: substring_def substringFrom_def pairText_def nat_add_distrib)
  then show ?case
    using Cons by (auto simp: indexOf_pairText pairOk_def pairText_Pair)
qed simp

lemma decodePairs_pairs:
  assumes "list_all (\<lambda>p. fst p \<noteq> [] \<and> CHR ''='' \<notin> set (fst p) \<and> dec (fst p) = Ret (f (fst p)) \<and>
      dec (snd p) = Ret (f (snd p))) ps" and "f [] = []" and "1 \<le> n"
  shows "decodePairs dec n (map pairText ps) =
     Ret ((if n > 1 \<and> ps \<noteq> [] then ''&'' else []) @ concatLines ''&'' (map (\<lambda>p. pairText (f (fst p), f (snd p))) ps))"
  using assms(1,3)
proof (induction ps arbitrary: n)
  case (Cons p ps)
  obtain c k where k: "fst p = c # k" using Cons.prems by (cases "fst p") auto
  have "indexOf (pairText p) CHR ''='' = Some (Suc (length k))"
    using Cons.prems k by (simp add: indexOf_pairText)
  then have "urlKey dec (pairText p) = Ret (f (fst p))"
    "urlValue dec (pairText p) = Ret (if snd p = [] then None else Some (f (snd p)))"
    using Cons.prems k by (simp_all add: urlKey_def urlValue_def pairText_def)
  then show ?case
    using Cons assms(2) by (auto simp: pairText_Pair)
qed simp

context charset
begin

lemma urlDecode_run:
  assumes "bs \<noteq> []" and "r = [] \<or> hd r \<noteq> CHR ''%''"
  shows "urlDecode newString (concat (map percent bs) @ r)
    = bindE (urlDecode newString r) (\<lambda>t. Ret (newString bs @ t))"
proof -
  obtain b bs' where bs: "bs = b # bs'" using assms(1) by (cases bs) auto
  obtain s where s: "concat (map percent bs) @ r = CHR ''%'' # s"
    by (simp add: bs percent_def)
  with percentRun_percents [OF assms(2), of bs]
  have "percentRun (CHR ''%'' # s) = Ret (bs, r)" by simp
  then show ?thesis unfolding s by (simp add: urlDecode.simps(2))
qed

lemma getBytes_nonempty: "s \<noteq> [] \<Longrightarrow> getBytes s \<noteq> []"
  using decode_encode [of s] decode_Nil by auto

lemma urlEncode_hd:
  assumes "s \<noteq> [] \<longrightarrow> \<not> urlEscaped (hd s)"
  shows "urlEncode getBytes s = [] \<or> hd (urlEncode getBytes s) \<noteq> CHR ''%''"
  using assms by (cases s) (auto simp: urlEscaped_def urlSafe_def)

lemma urlDecode_urlEncode: "urlDecode newString (urlEncode getBytes s) = Ret s"
proof (induction s rule: length_induct)
  case (1 s)
  show ?case
  proof (cases s)
    case (Cons c t)
    have unesc: "c \<noteq> CHR ''+''" "c \<noteq> CHR ''%''" if "urlSafe c"
      using that by (auto simp: urlSafe_def)
    have t: "urlDecode newString (urlEncode getBytes t) = Ret t" using 1 Cons by simp
    have "length (dropWhile urlEscaped t) < length s"
      using Cons length_dropWhile_le [of urlEscaped t] by simp
    then have d: "urlDecode newString (urlEncode getBytes (dropWhile urlEscaped t))
        = Ret (dropWhile urlEscaped t)" using 1 by blast
    have h: "urlEncode getBytes (dropWhile urlEscaped t) = [] \<or>
        hd (urlEncode getBytes (dropWhile urlEscaped t)) \<noteq> CHR ''%''"
      by (rule urlEncode_hd) (simp add: hd_dropWhile)
    show ?thesis
      using Cons t d unesc urlDecode_run [OF getBytes_nonempty h]
      by (simp add: urlDecode.simps(2) decode_encode)
  qed simp
qed

lemma urlEncode_chars': "CHR ''='' \<notin> set (urlEncode g s)" "CHR ''&'' \<notin> set (urlEncode g s)"
    "CHR ''?'' \<notin> set (urlEncode g s)"
  by (auto dest!: urlEncode_chars simp: urlSafe_def)

lemma urlEncode_eq_Nil: "urlEncode getBytes s = [] \<longleftrightarrow> s = []"
  using getBytes_nonempty by (cases s) (auto simp: percent_def)

end

lemma encodeURL_query:
  assumes "CHR ''?'' \<notin> set base" and "list_all pairOk ps" and "ps \<noteq> []"
  shows "encodeURL enc (base @ CHR ''?'' # queryText ps)
    = Ret (base @ CHR ''?'' # queryText (map (\<lambda>p. (enc (fst p), enc (snd p))) ps))"
  using assms by (simp add: encodeURL_def indexOf_append split_queryText encodePairs_pairs)
    (simp add: queryText_def comp_def)

lemma concatLines_set: "set (concatLines [d] ls) \<subseteq> insert d (\<Union> (set ` set ls))"
  by (induction ls) auto

lemma queryText_free:
  assumes "list_all (\<lambda>p. c \<notin> set (fst p) \<and> c \<notin> set (snd p)) ps" and "c \<noteq> CHR ''&''" "c \<noteq> CHR ''=''"
  shows "c \<notin> set (queryText ps)"
  using assms concatLines_set [of "CHR ''&''" "map pairText ps"]
  by (fastforce simp: queryText_def list_all_iff pairText_def)

lemma decodeURL_query:
  assumes "CHR ''?'' \<notin> set base" and "CHR ''?'' \<notin> set (queryText ps)" and "list_all pairOk ps" and "ps \<noteq> []"
  shows "decodeURL dec (base @ CHR ''?'' # queryText ps)
    = bindE (decodePairs dec 1 (map pairText ps)) (\<lambda>q. Ret (base @ CHR ''?'' # q))"
proof -
  have "queryText ps \<noteq> []" using split_queryText [OF assms(4,3)] assms(4)
    by (cases ps) (auto simp: split_def pairText_def)
  then have "split CHR ''?'' (base @ CHR ''?'' # queryText ps) = [base, queryText ps]"
    using assms(1,2) by (simp add: split_pair)
  then show ?thesis using assms by (simp add: decodeURL_def split_queryText)
qed

text \<open>Encoding the query part of a URL and decoding it again gives back the URL, for every
  query whose names are not empty, for any charset whose decoder inverts its encoder.\<close>

theorem decodeURL_encodeURL:
  assumes "charset getBytes newString" and "CHR ''?'' \<notin> set base"
    and "ps \<noteq> []" and "list_all pairOk ps"
  shows "bindE (encodeURL (urlEncode getBytes) (base @ CHR ''?'' # queryText ps)) (decodeURL (urlDecode newString))
    = Ret (base @ CHR ''?'' # queryText ps)"
proof -
  let ?enc = "urlEncode getBytes" and ?f = "\<lambda>x. projr (urlDecode newString x)"
  let ?qs = "map (\<lambda>p. (?enc (fst p), ?enc (snd p))) ps"
  note chars = charset.urlEncode_chars' [OF assms(1)]
  have ok: "list_all pairOk ?qs"
    using assms(4) chars by (auto simp: list_all_iff pairOk_def charset.urlEncode_eq_Nil [OF assms(1)])
  have free: "CHR ''?'' \<notin> set (queryText ?qs)"
    using chars by (intro queryText_free) (auto simp: list_all_iff)
  have dec: "decodePairs (urlDecode newString) 1 (map pairText ?qs)
      = Ret (concatLines ''&'' (map (\<lambda>p. pairText (?f (fst p), ?f (snd p))) ?qs))"
    using ok by (subst decodePairs_pairs [where f = ?f])
      (auto simp: list_all_iff pairOk_def charset.urlDecode_urlEncode [OF assms(1)])
  show ?thesis
    using assms(2-4) ok free dec
    by (simp add: encodeURL_query decodeURL_query)
      (simp add: charset.urlDecode_urlEncode [OF assms(1)] comp_def queryText_def)
qed

theorem decodeURL_encodeURL_witness:
  "bindE (encodeURL (urlEncode latin1Bytes) ''/a?x=1 2&y=%'') (decodeURL (urlDecode latin1String))
    = Ret ''/a?x=1 2&y=%''"
  using decodeURL_encodeURL [OF latin1.charset_axioms, of "''/a''" "[(''x'', ''1 2''), (''y'', ''%'')]"]
  by (simp add: queryText_def pairText_def pairOk_def)

lemma nextIDs_nth:
  assumes "idgOk k n g" and "i < length ds"
  shows "fst (nextIDs ds g) ! i = Ret (ds ! i @ padZero k ((n + i) mod (10 ^ k - 1)))"
  using assms
proof (induction ds arbitrary: n g i)
  case (Cons d ds)
  obtain g' where g': "nextID d g = (Ret (d @ padZero k n), g')"
    using nextID_ok(1) [OF Cons.prems(1), of d] by blast
  then have ok: "idgOk k (Suc n mod (10 ^ k - 1)) g'"
    using nextID_ok(2) [OF Cons.prems(1), of d] by simp
  have n: "n < 10 ^ k - 1" using Cons.prems(1) by (simp add: idgOk_def)
  show ?case
  proof (cases i)
    case 0
    with g' n show ?thesis by (simp split: prod.splits)
  next
    case (Suc j)
    then show ?thesis
      using Cons.IH [OF ok, of j] Cons.prems(2) g'
      by (simp add: mod_add_left_eq split_beta)
  qed
qed simp

text \<open>The identifiers of one generator, whatever the dates: two of them are equal only when
  their dates are, and a multiple of \<open>10 ^ k - 1\<close> calls lies between them (the last number
  of the range is never given out).\<close>

theorem nextIDs_equal_iff:
  assumes "0 < k" and "k \<le> 18" and "i < j" and "j < length ds"
  shows "fst (nextIDs ds (newIDGenerator nm fmt (int k))) ! i = fst (nextIDs ds (newIDGenerator nm fmt (int k))) ! j
    \<longleftrightarrow> ds ! i = ds ! j \<and> (j - i) mod (10 ^ k - 1) = 0"
proof -
  let ?m = "10 ^ k - 1 :: nat"
  note ok = newIDGenerator_ok [OF assms(1,2), of nm fmt]
  have "0 < ?m" using assms(1) power_increasing [of 1 k "10::nat"] by simp
  then have lt: "a mod ?m < 10 ^ k" for a
    using mod_less_divisor [of ?m a] by linarith
  have "padZero k (i mod ?m) = padZero k (j mod ?m) \<longleftrightarrow> i mod ?m = j mod ?m"
    by (auto dest: padZero_inj)
  moreover have "i mod ?m = j mod ?m \<longleftrightarrow> (j - i) mod ?m = 0"
    using assms(3) mod_eq_dvd_iff_nat [of i j ?m] by (auto simp: mod_eq_0_iff_dvd)
  moreover have "length (padZero k (i mod ?m)) = length (padZero k (j mod ?m))"
    using lt assms(1) by (simp add: length_padZero)
  ultimately show ?thesis
    using assms(3,4) nextIDs_nth [OF ok, of i ds] nextIDs_nth [OF ok, of j ds] by simp
qed

theorem nextIDs_equal_iff_witness:
  "fst (nextIDs (replicate 12 ''d'') (newIDGenerator ''n'' ''f'' 1)) ! 0
    = fst (nextIDs (replicate 12 ''d'') (newIDGenerator ''n'' ''f'' 1)) ! 9"
  using nextIDs_equal_iff [of 1 0 9 "replicate 12 ''d''" "''n''" "''f''"] by simp

text \<open>A width of 19 digits overflows the \<open>long\<close> that holds the limit; the counter of such a
  generator never leaves 0 and every call on the same date gives the same identifier.\<close>

theorem nextID_overflow:
  "nextID d (newIDGenerator nm fmt 19)
    = (Ret (d @ padZero 19 0), newIDGenerator nm fmt 19)"
proof -
  have "idg_maxCount (newIDGenerator nm fmt 19) \<le>s 1"
    by (simp add: newIDGenerator_def timesTen_pow word_sle_eq)
  then show ?thesis by (simp add: nextID_def newIDGenerator_def)
qed

end
