(* ===== verification/RequestTemplate.thy ===== *)
theory RequestTemplate
  imports Templates SimUtils
begin

text \<open>
  \<open>SimRequestTemplate.java\<close>, \<open>SimRegexTemplate.java\<close> and \<open>util/RequestHandler.java\<close>: the
  request side of a rule, its parser, and the matching of a request against it with the chain of
  body handlers.

  The engines behind the handlers (regular expressions, XML and XPath, JSON, Groovy) are the
  record \<open>Engines\<close>: the definitions take them as an argument and assume nothing about them.
\<close>

section \<open>Requests\<close>

text \<open>What a template reads of \<open>SimRequest\<close>; \<open>None\<close> is \<open>null\<close>.\<close>

record SimRequest =
  req_topLine :: "string option"
  req_headerNames :: "string list"
  req_headerLine :: "string \<Rightarrow> string option"
  req_authLine :: "string option"
  req_body :: "string option"

section \<open>Engines\<close>

text \<open>
  \<open>eng_regexOk\<close> tells whether a pattern compiles, \<open>eng_regex\<close> gives the named groups of a full
  match. The XPath engine answers \<open>None\<close> for its checked exceptions. The JSON reader returns a
  \<open>JArr\<close> for a \<open>JSONArray\<close>. A script gives a map or another object.
\<close>

datatype GroovyResult = GMap ctx | GObject jval

record Engines =
  eng_regexOk :: "string \<Rightarrow> bool"
  eng_regex :: "string \<Rightarrow> string \<Rightarrow> (string \<times> string option) list option"
  eng_xmlOk :: "string \<Rightarrow> bool"
  eng_xpathString :: "string \<Rightarrow> string \<Rightarrow> string option"
  eng_xpathNodes :: "string \<Rightarrow> string \<Rightarrow> string list option"
  eng_jsonParse :: "string option \<Rightarrow> unit res"
  eng_jsonRead :: "string option \<Rightarrow> string \<Rightarrow> jval res"
  eng_jsonObject :: "string option \<Rightarrow> string \<Rightarrow> jval res"
  eng_groovy :: "ctx \<Rightarrow> string option \<Rightarrow> GroovyResult res"

section \<open>Regular expression templates\<close>

definition regexStr :: "string \<Rightarrow> string res" where
  "regexStr content = substring content 1 (int (length content) - 1)"

definition newSimRegexTemplate :: "Engines \<Rightarrow> string \<Rightarrow> string res" where
  "newSimRegexTemplate eng content =
    bindE (regexStr content) (\<lambda>r.
      if eng_regexOk eng r then Ret r else Raise PatternSyntaxException)"

text \<open>A group that took no part in the match is \<open>null\<close> in the result.\<close>

definition regexParse :: "Engines \<Rightarrow> string \<Rightarrow> string option \<Rightarrow> ctx option" where
  "regexParse eng pattern content =
    (case content of None \<Rightarrow> None
     | Some c \<Rightarrow> map_option (\<lambda>gs. jputAll [] (map (\<lambda>(n, v). (n, case v of None \<Rightarrow> JNull | Some s \<Rightarrow> JStr s)) gs))
         (eng_regex eng pattern c))"

datatype TopTemplate = PlainTop SimTemplate | RegexTop string

definition parseTop :: "Engines \<Rightarrow> TopTemplate \<Rightarrow> string option \<Rightarrow> ctx option res" where
  "parseTop eng t content =
    (case t of PlainTop st \<Rightarrow> parse st content | RegexTop p \<Rightarrow> Ret (regexParse eng p content))"

section \<open>The request template\<close>

record HeaderItem =
  hi_name :: string
  hi_value :: string
  hi_optional :: bool
  hi_template :: SimTemplate

definition newHeaderItem :: "string \<Rightarrow> string \<Rightarrow> bool \<Rightarrow> HeaderItem res" where
  "newHeaderItem name value optional =
    bindE (newSimTemplate (name @ '': '' @ value)) (\<lambda>t.
      Ret \<lparr>hi_name = name, hi_value = value, hi_optional = optional, hi_template = t\<rparr>)"

definition headerItemToString :: "HeaderItem \<Rightarrow> string" where
  "headerItemToString item = (if hi_optional item then ''*'' else []) @ hi_name item @ '': '' @ hi_value item"

type_synonym headerMap = "(string, HeaderItem) jmap"

record SimRequestTemplate =
  topLineTemplate :: "TopTemplate option"
  headerTemplates :: headerMap
  authenticationsTemplate :: "HeaderItem option"
  bodyContent :: "string option"
  extraHeader :: headerMap

definition emptyRequestTemplate :: SimRequestTemplate where
  "emptyRequestTemplate =
    \<lparr>topLineTemplate = None, headerTemplates = [], authenticationsTemplate = None,
     bodyContent = None, extraHeader = []\<rparr>"

definition HEADER_AUTHENTICATION :: string where
  "HEADER_AUTHENTICATION = ''Authentication''"

definition initTopLine :: "Engines \<Rightarrow> string \<Rightarrow> TopTemplate res" where
  "initTopLine eng line0 =
    (let line = trim line0 in
     if line \<noteq> [] \<and> hd line = CHR ''/'' \<and> last line = CHR ''/''
     then bindE (newSimRegexTemplate eng line) (\<lambda>p. Ret (RegexTop p))
     else bindE (newSimTemplate line) (\<lambda>t. Ret (PlainTop t)))"

text \<open>A leading star marks the header as optional and is cut off.\<close>

definition stripOptional :: "string \<Rightarrow> bool \<times> string" where
  "stripOptional name = (if startsWith name ''*'' then (True, drop 1 name) else (False, name))"

definition initHeader :: "string \<Rightarrow> SimRequestTemplate \<Rightarrow> SimRequestTemplate res" where
  "initHeader line t =
    (case parseProperty line of
       None \<Rightarrow> Ret t
     | Some (name0, value) \<Rightarrow>
         (let (optional, name) = stripOptional name0 in
          bindE (newHeaderItem name value optional) (\<lambda>item.
            Ret (if name = HEADER_AUTHENTICATION then t\<lparr>authenticationsTemplate := Some item\<rparr>
                 else if startsWith name ''_'' then t\<lparr>extraHeader := jput name item (extraHeader t)\<rparr>
                 else t\<lparr>headerTemplates := jput name item (headerTemplates t)\<rparr>))))"

text \<open>A line of the body: a line feed goes in front unless the buffer is still empty.\<close>

definition appendBody :: "string \<Rightarrow> string \<Rightarrow> string" where
  "appendBody body line = (if body \<noteq> [] then body @ [nl] else body) @ line"

text \<open>The lines after the first one; the second argument is the body buffer.\<close>

fun initLines :: "string list \<Rightarrow> string option \<Rightarrow> SimRequestTemplate
    \<Rightarrow> (SimRequestTemplate \<times> string option) res" where
  "initLines [] body t = Ret (t, body)"
| "initLines (line # ls) None t =
    bindE (initHeader line t) (\<lambda>t'. initLines ls (if line = [] then Some [] else None) t')"
| "initLines (line # ls) (Some body) t = initLines ls (Some (appendBody body line)) t"

definition newSimRequestTemplate :: "Engines \<Rightarrow> string \<Rightarrow> SimRequestTemplate res" where
  "newSimRequestTemplate eng content =
    (case readLines content of
       [] \<Rightarrow> Ret emptyRequestTemplate
     | line # ls \<Rightarrow>
         bindE (initTopLine eng line) (\<lambda>top.
         bindE (initLines ls None (emptyRequestTemplate\<lparr>topLineTemplate := Some top\<rparr>)) (\<lambda>(t, body).
           Ret (case body of
               None \<Rightarrow> t
             | Some b \<Rightarrow> if b \<noteq> [] then t\<lparr>bodyContent := Some b\<rparr> else t))))"

section \<open>Body handlers\<close>

definition HEADER_NAME_BODY_TYPE :: string where
  "HEADER_NAME_BODY_TYPE = ''_Body-Type''"

definition HEADER_NAME_JSON_CLASS_NAME :: string where
  "HEADER_NAME_JSON_CLASS_NAME = ''_JSonObject.classname''"

definition HEADER_NAME_JSON_VAR_NAME :: string where
  "HEADER_NAME_JSON_VAR_NAME = ''_JSonObject.varname''"

type_synonym requestHandler = "ctx \<Rightarrow> headerMap \<Rightarrow> string option \<Rightarrow> SimRequest \<Rightarrow> ctx option res"

definition bodyTypeIs :: "string \<Rightarrow> headerMap \<Rightarrow> bool" where
  "bodyTypeIs ty headers \<longleftrightarrow>
    (case jget headers HEADER_NAME_BODY_TYPE of None \<Rightarrow> False | Some item \<Rightarrow> hi_value item = ty)"

definition defaultRequestHandler :: requestHandler where
  "defaultRequestHandler allContext headers templateBody request =
    (case templateBody of
       None \<Rightarrow> Ret (Some [])
     | Some b \<Rightarrow> bindE (newSimTemplate b) (\<lambda>t. parse t (req_body request)))"

subsection \<open>XPath\<close>

record XPathExp =
  xe_xpath :: string
  xe_nodeSet :: bool
  xe_optional :: bool

text \<open>\<open>XPathRequestHandler.parse\<close>; a \<open>null\<close> body makes the \<open>StringReader\<close> raise.\<close>

definition addXPath :: "string \<Rightarrow> (string, XPathExp) jmap \<Rightarrow> (string, XPathExp) jmap" where
  "addXPath line m =
    (case parseProperty line of
       None \<Rightarrow> m
     | Some (name0, value) \<Rightarrow>
         (let (optional, name) = stripOptional name0 in
          if endsWith name ''[]''
          then jput (take (length name - 2) name)
                 \<lparr>xe_xpath = value, xe_nodeSet = True, xe_optional = optional\<rparr> m
          else jput name \<lparr>xe_xpath = value, xe_nodeSet = False, xe_optional = optional\<rparr> m))"

definition parseXPathBody :: "string option \<Rightarrow> (string, XPathExp) jmap res" where
  "parseXPathBody templateBody =
    (case templateBody of
       None \<Rightarrow> Raise NullPointerException
     | Some b \<Rightarrow> Ret (fold addXPath (readLines b) []))"

fun retrieveXPaths :: "Engines \<Rightarrow> string \<Rightarrow> (string \<times> XPathExp) list \<Rightarrow> ctx \<Rightarrow> ctx option" where
  "retrieveXPaths eng body [] ret = Some ret"
| "retrieveXPaths eng body ((k, x) # xs) ret =
    (if xe_nodeSet x then
       (case eng_xpathNodes eng body (xe_xpath x) of
          None \<Rightarrow> None
        | Some vs \<Rightarrow>
            if vs = [] \<and> \<not> xe_optional x then None
            else retrieveXPaths eng body xs (jput k (JArr (map JStr vs)) ret))
     else
       (case eng_xpathString eng body (xe_xpath x) of
          None \<Rightarrow> None
        | Some v \<Rightarrow>
            if v = [] \<and> \<not> xe_optional x then None
            else retrieveXPaths eng body xs (jput k (JStr v) ret)))"

definition retrieveXPathValue :: "Engines \<Rightarrow> string option \<Rightarrow> (string, XPathExp) jmap \<Rightarrow> ctx option res" where
  "retrieveXPathValue eng requestBody xPathMap =
    (case requestBody of
       None \<Rightarrow> Raise NullPointerException
     | Some b \<Rightarrow> Ret (if eng_xmlOk eng b then retrieveXPaths eng b xPathMap [] else None))"

definition xPathRequestHandler :: "Engines \<Rightarrow> requestHandler" where
  "xPathRequestHandler eng allContext headers templateBody request =
    (if bodyTypeIs ''XPath'' headers
     then bindE (parseXPathBody templateBody) (retrieveXPathValue eng (req_body request))
     else Ret None)"

subsection \<open>JSON\<close>

fun isEmptyJson :: "jval \<Rightarrow> bool" where
  "isEmptyJson JNull = True"
| "isEmptyJson (JStr s) = (s = [])"
| "isEmptyJson (JArr vs) = (vs = [])"
| "isEmptyJson _ = False"

definition jsonEntry :: "XPathExp \<Rightarrow> jval \<Rightarrow> jval res" where
  "jsonEntry x value =
    (if xe_nodeSet x then Ret (case value of JArr vs \<Rightarrow> JArr vs | v \<Rightarrow> JArr [v])
     else (case value of
         JArr [] \<Rightarrow> Raise IndexOutOfBoundsException
       | JArr (v # _) \<Rightarrow> Ret v
       | v \<Rightarrow> Ret v))"

fun retrievePaths :: "Engines \<Rightarrow> string option \<Rightarrow> (string \<times> XPathExp) list \<Rightarrow> ctx \<Rightarrow> ctx option res" where
  "retrievePaths eng body [] ret = Ret (Some ret)"
| "retrievePaths eng body ((k, x) # xs) ret =
    bindE (eng_jsonRead eng body (xe_xpath x)) (\<lambda>value.
      if isEmptyJson value \<and> \<not> xe_optional x then Ret None
      else bindE (jsonEntry x value) (\<lambda>v. retrievePaths eng body xs (jput k v ret)))"

definition retrievePathValue :: "Engines \<Rightarrow> string option \<Rightarrow> (string, XPathExp) jmap \<Rightarrow> ctx option res" where
  "retrievePathValue eng requestBody pathMap =
    bindE (eng_jsonParse eng requestBody) (\<lambda>_. retrievePaths eng requestBody pathMap [])"

definition jSonPathRequestHandler :: "Engines \<Rightarrow> requestHandler" where
  "jSonPathRequestHandler eng allContext headers templateBody request =
    (if bodyTypeIs ''JSonPath'' headers
     then bindE (parseXPathBody templateBody) (retrievePathValue eng (req_body request))
     else Ret None)"

definition retrieveJSonObject :: "Engines \<Rightarrow> string option \<Rightarrow> headerMap \<Rightarrow> ctx res" where
  "retrieveJSonObject eng requestBody headers =
    (case jget headers HEADER_NAME_JSON_CLASS_NAME of
       None \<Rightarrow> Raise NullPointerException
     | Some cls \<Rightarrow>
         bindE (eng_jsonObject eng requestBody (hi_value cls)) (\<lambda>obj.
           case jget headers HEADER_NAME_JSON_VAR_NAME of
             None \<Rightarrow> Raise NullPointerException
           | Some var \<Rightarrow> Ret (jput (hi_value var) obj [])))"

definition jSonObjectRequestHandler :: "Engines \<Rightarrow> requestHandler" where
  "jSonObjectRequestHandler eng allContext headers templateBody request =
    (if bodyTypeIs ''JSonObject'' headers
     then bindE (retrieveJSonObject eng (req_body request) headers) (\<lambda>m. Ret (Some m))
     else Ret None)"

subsection \<open>Groovy\<close>

definition groovyBinding :: "ctx \<Rightarrow> string option \<Rightarrow> ctx" where
  "groovyBinding allContext body =
    jput ''body'' (case body of None \<Rightarrow> JNull | Some b \<Rightarrow> JStr b) (jputAll [] allContext)"

definition groovyRequestHandler :: "Engines \<Rightarrow> requestHandler" where
  "groovyRequestHandler eng allContext headers templateBody request =
    (if bodyTypeIs ''Groovy'' headers
     then bindE (eng_groovy eng (groovyBinding allContext (req_body request)) templateBody) (\<lambda>r.
       Ret (case r of GMap m \<Rightarrow> Some m | GObject _ \<Rightarrow> None))
     else Ret None)"

subsection \<open>The chain\<close>

fun requestChain :: "requestHandler list \<Rightarrow> requestHandler" where
  "requestChain [] allContext headers templateBody request = Ret None"
| "requestChain (h # hs) allContext headers templateBody request =
    bindE (h allContext headers templateBody request) (\<lambda>ret.
      if ret \<noteq> None then Ret ret else requestChain hs allContext headers templateBody request)"

text \<open>\<open>addHandler\<close> keeps the last handler, the default one, last.\<close>

definition addHandler :: "'h \<Rightarrow> 'h list \<Rightarrow> 'h list" where
  "addHandler handler hs = (if hs \<noteq> [] then butlast hs @ [handler, last hs] else [handler])"

definition requestHandlers :: "Engines \<Rightarrow> requestHandler list" where
  "requestHandlers eng =
    [xPathRequestHandler eng, jSonPathRequestHandler eng, jSonObjectRequestHandler eng,
     groovyRequestHandler eng, defaultRequestHandler]"

definition handleRequestBody :: "Engines \<Rightarrow> requestHandler" where
  "handleRequestBody eng = requestChain (requestHandlers eng)"

section \<open>Matching\<close>

text \<open>\<open>replaceAll\<close> with a space for every \<open>\r\n\<close>, \<open>\r\<close> or \<open>\n\<close>.\<close>

fun joinLines :: "string \<Rightarrow> string" where
  "joinLines [] = []"
| "joinLines (c # s) =
    (if c = cr then CHR '' '' # (case s of [] \<Rightarrow> [] | d # s' \<Rightarrow> if d = nl then joinLines s' else joinLines s)
     else (if c = nl then CHR '' '' else c) # joinLines s)"

text \<open>One header or the authentication line: \<open>None\<close> stands for \<open>return null\<close>.\<close>

definition matchItem :: "HeaderItem \<Rightarrow> string option \<Rightarrow> ctx \<Rightarrow> ctx option res" where
  "matchItem item line ret =
    bindE (parse (hi_template item) line) (\<lambda>res.
      Ret (case res of
          None \<Rightarrow> if hi_optional item then Some ret else None
        | Some m \<Rightarrow> Some (jputAll ret m)))"

fun matchHeaders :: "(string \<times> HeaderItem) list \<Rightarrow> SimRequest \<Rightarrow> ctx \<Rightarrow> ctx option res" where
  "matchHeaders [] request ret = Ret (Some ret)"
| "matchHeaders ((k, item) # hs) request ret =
    bindE (matchItem item (req_headerLine request k) ret) (\<lambda>r.
      case r of None \<Rightarrow> Ret None | Some ret' \<Rightarrow> matchHeaders hs request ret')"

definition matchAuth :: "HeaderItem option \<Rightarrow> SimRequest \<Rightarrow> ctx \<Rightarrow> ctx option res" where
  "matchAuth auth request ret =
    (case auth of None \<Rightarrow> Ret (Some ret) | Some item \<Rightarrow> matchItem item (req_authLine request) ret)"

text \<open>A monadic step that stops at the first \<open>null\<close>.\<close>

definition bindNull :: "'a option res \<Rightarrow> ('a \<Rightarrow> 'b option res) \<Rightarrow> 'b option res" where
  "bindNull m f = bindE m (\<lambda>r. case r of None \<Rightarrow> Ret None | Some x \<Rightarrow> f x)"

text \<open>A template without a top line has no \<open>topLineTemplate\<close>.\<close>

definition matchRequest :: "Engines \<Rightarrow> SimRequestTemplate \<Rightarrow> ctx \<Rightarrow> SimRequest \<Rightarrow> ctx option res" where
  "matchRequest eng t allContext request =
    (let topLine = map_option joinLines (req_topLine request) in
     case topLineTemplate t of
       None \<Rightarrow> Raise NullPointerException
     | Some tt \<Rightarrow>
         bindNull (parseTop eng tt topLine) (\<lambda>res.
         bindNull (matchHeaders (headerTemplates t) request (jputAll [] res)) (\<lambda>ret1.
         bindNull (matchAuth (authenticationsTemplate t) request ret1) (\<lambda>ret2.
         bindNull (handleRequestBody eng allContext (extraHeader t) (bodyContent t) request) (\<lambda>res'.
           Ret (Some (jputAll ret2 res')))))))"

end
