(* ===== verification/RequestSpec.thy ===== *)
theory RequestSpec
  imports RequestTemplate TemplateSpec
begin

text \<open>
  What the request side of a rule promises: a printed template is read back, a match succeeds
  exactly when every mandatory part matches, its bindings are those of the parts with later
  parts winning, and the chain of body handlers falls back on the plain text handler.
\<close>

section \<open>Null-propagating steps\<close>

lemma bindNull_Ret_None [simp]: "bindNull (Ret None) f = Ret None"
  by (simp add: bindNull_def)

lemma bindNull_Ret_Some [simp]: "bindNull (Ret (Some x)) f = f x"
  by (simp add: bindNull_def)

lemma bindNull_Raise [simp]: "bindNull (Raise e) f = Raise e"
  by (simp add: bindNull_def)

lemma bindNull_SomeE [res_elims]:
  assumes "bindNull m f = Ret (Some y)"
  obtains x where "m = Ret (Some x)" and "f x = Ret (Some y)"
  using assms by (auto simp: bindNull_def elim!: bindE_InrE split: option.splits)

lemma bindNull_NoneE:
  assumes "bindNull m f = Ret None"
  obtains "m = Ret None" | x where "m = Ret (Some x)" and "f x = Ret None"
  using assms by (auto simp: bindNull_def elim!: bindE_InrE split: option.splits)

section \<open>Matching\<close>

definition itemMatches :: "HeaderItem \<Rightarrow> string option \<Rightarrow> bool" where
  "itemMatches item line \<longleftrightarrow> hi_optional item \<or> (\<exists>m. parse (hi_template item) line = Ret (Some m))"

definition itemBindings :: "HeaderItem \<Rightarrow> string option \<Rightarrow> ctx" where
  "itemBindings item line =
    (case parse (hi_template item) line of Inr (Some m) \<Rightarrow> m | _ \<Rightarrow> [])"

lemma matchItem_iff:
  "matchItem item line ret = Ret r \<Longrightarrow>
   (itemMatches item line \<longrightarrow> r = Some (jputAll ret (itemBindings item line))) \<and>
   (\<not> itemMatches item line \<longrightarrow> r = None)"
  by (auto simp: matchItem_def itemMatches_def itemBindings_def elim!: bindE_InrE split: option.splits)

lemma matchHeaders_iff:
  "matchHeaders hs rq ret = Ret r \<Longrightarrow>
   ((\<forall>(k, item) \<in> set hs. itemMatches item (req_headerLine rq k)) \<longrightarrow>
      r = Some (fold (\<lambda>m ret. jputAll ret m) (map (\<lambda>(k, item). itemBindings item (req_headerLine rq k)) hs) ret)) \<and>
   (\<not> (\<forall>(k, item) \<in> set hs. itemMatches item (req_headerLine rq k)) \<longrightarrow> r = None)"
proof (induction hs arbitrary: ret)
  case (Cons h hs)
  obtain k item where h: "h = (k, item)" by (cases h)
  with Cons.prems obtain r1 where r1: "matchItem item (req_headerLine rq k) ret = Ret r1"
    and r: "(case r1 of None \<Rightarrow> Ret None | Some ret' \<Rightarrow> matchHeaders hs rq ret') = Ret r"
    by (auto elim: bindE_InrE)
  show ?case
    using matchItem_iff [OF r1] r Cons.IH h by (cases "itemMatches item (req_headerLine rq k)") auto
qed simp

definition authMatches :: "HeaderItem option \<Rightarrow> SimRequest \<Rightarrow> bool" where
  "authMatches auth rq \<longleftrightarrow> (case auth of None \<Rightarrow> True | Some item \<Rightarrow> itemMatches item (req_authLine rq))"

definition authBindings :: "HeaderItem option \<Rightarrow> SimRequest \<Rightarrow> ctx" where
  "authBindings auth rq = (case auth of None \<Rightarrow> [] | Some item \<Rightarrow> itemBindings item (req_authLine rq))"

lemma matchAuth_iff:
  "matchAuth auth rq ret = Ret r \<Longrightarrow>
   (authMatches auth rq \<longrightarrow> r = Some (jputAll ret (authBindings auth rq))) \<and>
   (\<not> authMatches auth rq \<longrightarrow> r = None)"
  using matchItem_iff by (auto simp: matchAuth_def authMatches_def authBindings_def split: option.splits)

text \<open>The parts of the template all match.\<close>

definition topMatch :: "Engines \<Rightarrow> SimRequestTemplate \<Rightarrow> SimRequest \<Rightarrow> ctx option res" where
  "topMatch eng t rq =
    (case topLineTemplate t of None \<Rightarrow> Raise NullPointerException
     | Some tt \<Rightarrow> parseTop eng tt (map_option joinLines (req_topLine rq)))"

definition requestMatches :: "Engines \<Rightarrow> SimRequestTemplate \<Rightarrow> ctx \<Rightarrow> SimRequest \<Rightarrow> bool" where
  "requestMatches eng t allContext rq \<longleftrightarrow>
     (\<exists>m. topMatch eng t rq = Ret (Some m)) \<and>
     (\<forall>(k, item) \<in> set (headerTemplates t). itemMatches item (req_headerLine rq k)) \<and>
     authMatches (authenticationsTemplate t) rq \<and>
     (\<exists>m. handleRequestBody eng allContext (extraHeader t) (bodyContent t) rq = Ret (Some m))"

text \<open>The bindings of the parts, in the order in which they are put into the result.\<close>

definition partBindings :: "Engines \<Rightarrow> SimRequestTemplate \<Rightarrow> ctx \<Rightarrow> SimRequest \<Rightarrow> ctx list" where
  "partBindings eng t allContext rq =
     [case topMatch eng t rq of Inr (Some m) \<Rightarrow> m | _ \<Rightarrow> []]
     @ map (\<lambda>(k, item). itemBindings item (req_headerLine rq k)) (headerTemplates t)
     @ [authBindings (authenticationsTemplate t) rq,
        case handleRequestBody eng allContext (extraHeader t) (bodyContent t) rq of Inr (Some m) \<Rightarrow> m | _ \<Rightarrow> []]"

lemma matchRequest_topMatch:
  "matchRequest eng t c rq =
    bindNull (topMatch eng t rq) (\<lambda>res.
    bindNull (matchHeaders (headerTemplates t) rq (jputAll [] res)) (\<lambda>ret1.
    bindNull (matchAuth (authenticationsTemplate t) rq ret1) (\<lambda>ret2.
    bindNull (handleRequestBody eng c (extraHeader t) (bodyContent t) rq) (\<lambda>res'.
      Ret (Some (jputAll ret2 res'))))))"
  by (simp add: matchRequest_def topMatch_def split: option.splits)

text \<open>The lookup in a chain of \<open>putAll\<close>s: the last map that has the key wins.\<close>

lemma jget_fold_jputAll:
  "jget (fold (\<lambda>m ret. jputAll ret m) ms ret) k = map_of (rev (concat ms) @ ret) k"
proof (induction ms arbitrary: ret)
  case (Cons m ms)
  have "jget (fold (\<lambda>m ret. jputAll ret m) (m # ms) ret) k
    = map_of (rev (concat ms) @ jputAll ret m) k"
    by (simp add: Cons.IH)
  also have "\<dots> = map_of (rev (concat (m # ms)) @ ret) k"
    using jget_jputAll [of ret m k] by (auto simp: jget_def map_add_def split: option.splits)
  finally show ?case .
qed (simp add: jget_def)

lemma matchRequest_Some:
  assumes "matchRequest eng t c rq = Ret (Some m)"
  shows "requestMatches eng t c rq \<and>
    m = fold (\<lambda>m ret. jputAll ret m) (partBindings eng t c rq) []"
proof -
  from assms obtain m0 m1 m2 m3 where
    0: "topMatch eng t rq = Ret (Some m0)" and
    1: "matchHeaders (headerTemplates t) rq (jputAll [] m0) = Ret (Some m1)" and
    2: "matchAuth (authenticationsTemplate t) rq m1 = Ret (Some m2)" and
    3: "handleRequestBody eng c (extraHeader t) (bodyContent t) rq = Ret (Some m3)" and
    m: "m = jputAll m2 m3"
    by (auto simp: matchRequest_topMatch elim!: bindNull_SomeE)
  from matchHeaders_iff [OF 1]
  have h: "\<forall>(k, item) \<in> set (headerTemplates t). itemMatches item (req_headerLine rq k)"
    and m1: "m1 = fold (\<lambda>m ret. jputAll ret m)
      (map (\<lambda>(k, item). itemBindings item (req_headerLine rq k)) (headerTemplates t)) (jputAll [] m0)"
    by blast+
  from matchAuth_iff [OF 2] have a: "authMatches (authenticationsTemplate t) rq"
    and m2: "m2 = jputAll m1 (authBindings (authenticationsTemplate t) rq)"
    by blast+
  show ?thesis
    using 0 3 h a by (simp add: requestMatches_def partBindings_def m m1 m2)
qed

lemma matchRequest_None:
  assumes "matchRequest eng t c rq = Ret None"
  shows "\<not> requestMatches eng t c rq"
proof
  assume r: "requestMatches eng t c rq"
  then obtain m0 m3 where 0: "topMatch eng t rq = Ret (Some m0)"
    and 3: "handleRequestBody eng c (extraHeader t) (bodyContent t) rq = Ret (Some m3)"
    by (auto simp: requestMatches_def)
  from assms 0 3 consider "matchHeaders (headerTemplates t) rq (jputAll [] m0) = Ret None"
    | m1 where "matchAuth (authenticationsTemplate t) rq m1 = Ret None"
    by (auto simp: matchRequest_topMatch elim!: bindNull_NoneE)
  then show False
    using r matchHeaders_iff matchAuth_iff by cases (fastforce simp: requestMatches_def)+
qed

text \<open>Engines that know no regular expression and no structured body.\<close>

definition plainEngines :: Engines where
  "plainEngines =
    \<lparr>eng_regexOk = (\<lambda>p. False), eng_regex = (\<lambda>p s. None), eng_xmlOk = (\<lambda>b. False),
     eng_xpathString = (\<lambda>b x. None), eng_xpathNodes = (\<lambda>b x. None),
     eng_jsonParse = (\<lambda>b. Ret ()), eng_jsonRead = (\<lambda>b p. Ret JNull),
     eng_jsonObject = (\<lambda>b c. Ret JNull), eng_groovy = (\<lambda>c b. Ret (GObject JNull))\<rparr>"


section \<open>The handler chain\<close>

text \<open>The handler that the body type of the template selects.\<close>

definition selectedHandler :: "Engines \<Rightarrow> headerMap \<Rightarrow> requestHandler" where
  "selectedHandler eng headers =
    (case jget headers HEADER_NAME_BODY_TYPE of
       None \<Rightarrow> defaultRequestHandler
     | Some item \<Rightarrow>
         if hi_value item = ''XPath'' then xPathRequestHandler eng
         else if hi_value item = ''JSonPath'' then jSonPathRequestHandler eng
         else if hi_value item = ''JSonObject'' then jSonObjectRequestHandler eng
         else if hi_value item = ''Groovy'' then groovyRequestHandler eng
         else defaultRequestHandler)"

lemma defaultRequestHandler_idem:
  "bindE (defaultRequestHandler c h b rq) (\<lambda>r. if r \<noteq> None then Ret r else defaultRequestHandler c h b rq)
    = defaultRequestHandler c h b rq"
  by (cases "defaultRequestHandler c h b rq") auto

lemma bindE_Ret [simp]: "bindE m (\<lambda>r. if \<exists>y. r = Some y then Ret r else Ret None) = m"
  by (cases m) auto

lemmas handler_defs = xPathRequestHandler_def jSonPathRequestHandler_def
  jSonObjectRequestHandler_def groovyRequestHandler_def

text \<open>The chain gives the answer of the one handler the body type selects, and when that
  handler answers \<open>null\<close> it falls back on matching the template's body as plain text, so an
  XPath or JSON rule that does not match is tried once more against its own source text.\<close>

theorem handleRequestBody_selects:
  "handleRequestBody eng c headers body rq =
    bindE (selectedHandler eng headers c headers body rq) (\<lambda>r.
      if r \<noteq> None then Ret r else defaultRequestHandler c headers body rq)"
proof -
  show ?thesis
  proof (cases "jget headers HEADER_NAME_BODY_TYPE")
    case None
    then have "\<not> bodyTypeIs ty headers" for ty by (simp add: bodyTypeIs_def)
    with None defaultRequestHandler_idem show ?thesis
      by (simp add: handleRequestBody_def requestHandlers_def handler_defs selectedHandler_def
          cong del: if_weak_cong)
  next
    case (Some item)
    then have "bodyTypeIs ty headers \<longleftrightarrow> hi_value item = ty" for ty by (simp add: bodyTypeIs_def)
    with Some defaultRequestHandler_idem show ?thesis
      by (simp add: handleRequestBody_def requestHandlers_def handler_defs selectedHandler_def
          cong del: if_weak_cong)
  qed
qed

section \<open>Reading a printed template\<close>

definition topText :: "TopTemplate \<Rightarrow> string" where
  "topText tt = (case tt of PlainTop st \<Rightarrow> templateContent st | RegexTop p \<Rightarrow> ''/'' @ p @ ''/'')"

definition templateItems :: "SimRequestTemplate \<Rightarrow> HeaderItem list" where
  "templateItems t = map snd (headerTemplates t)
     @ (case authenticationsTemplate t of None \<Rightarrow> [] | Some item \<Rightarrow> [item]) @ map snd (extraHeader t)"

definition printRequestTemplate :: "SimRequestTemplate \<Rightarrow> string" where
  "printRequestTemplate t =
    (case topLineTemplate t of None \<Rightarrow> [] | Some tt \<Rightarrow> topText tt @ [nl])
    @ concat (map (\<lambda>item. headerItemToString item @ [nl]) (templateItems t))
    @ (case bodyContent t of None \<Rightarrow> [] | Some b \<Rightarrow> nl # b)"

definition topOk :: "Engines \<Rightarrow> TopTemplate \<Rightarrow> bool" where
  "topOk eng tt \<longleftrightarrow> lineFree (topText tt) \<and>
    (case tt of
       PlainTop st \<Rightarrow> newSimTemplate (templateContent st) = Ret st \<and> trim (templateContent st) = templateContent st \<and>
         \<not> (templateContent st \<noteq> [] \<and> hd (templateContent st) = CHR ''/'' \<and> last (templateContent st) = CHR ''/'')
     | RegexTop p \<Rightarrow> eng_regexOk eng p)"

definition itemOk :: "HeaderItem \<Rightarrow> bool" where
  "itemOk item \<longleftrightarrow>
     newHeaderItem (hi_name item) (hi_value item) (hi_optional item) = Ret item \<and>
     trim (hi_name item) = hi_name item \<and> CHR '':'' \<notin> set (hi_name item) \<and>
     \<not> startsWith (hi_name item) ''*'' \<and> lineFree (hi_name item) \<and>
     trim (hi_value item) = hi_value item \<and> lineFree (hi_value item)"

definition bodyOk :: "string \<Rightarrow> bool" where
  "bodyOk b \<longleftrightarrow> (\<exists>l ls. b = concatLines [nl] (l # ls) \<and> list_all lineFree (l # ls) \<and>
     l \<noteq> [] \<and> last (l # ls) \<noteq> [])"

definition requestTemplateOk :: "Engines \<Rightarrow> SimRequestTemplate \<Rightarrow> bool" where
  "requestTemplateOk eng t \<longleftrightarrow>
     (\<exists>tt. topLineTemplate t = Some tt \<and> topOk eng tt) \<and>
     list_all itemOk (templateItems t) \<and>
     list_all (\<lambda>(k, item). k = hi_name item \<and> k \<noteq> HEADER_AUTHENTICATION \<and> \<not> startsWith k ''_'')
       (headerTemplates t) \<and> jmap_ok (headerTemplates t) \<and>
     (\<forall>item. authenticationsTemplate t = Some item \<longrightarrow> hi_name item = HEADER_AUTHENTICATION) \<and>
     list_all (\<lambda>(k, item). k = hi_name item \<and> startsWith k ''_'') (extraHeader t) \<and> jmap_ok (extraHeader t) \<and>
     (\<forall>b. bodyContent t = Some b \<longrightarrow> bodyOk b)"

lemma trim_space: "trim (CHR '' '' # s) = trim s"
  by (simp add: trim_def isTrimmed_def)

lemma trim_star: "trim n = n \<Longrightarrow> trim (CHR ''*'' # n) = CHR ''*'' # n"
  using trim_last [of n] by (intro trim_id) (auto simp: isTrimmed_def)

lemma parseProperty_item:
  "itemOk item \<Longrightarrow> parseProperty (headerItemToString item)
    = Some ((if hi_optional item then ''*'' else []) @ hi_name item, hi_value item)"
  using parseProperty_Some [of "hi_name item" "CHR '' '' # hi_value item"]
    parseProperty_Some [of "CHR ''*'' # hi_name item" "CHR '' '' # hi_value item"]
  by (auto simp: itemOk_def headerItemToString_def trim_space trim_star)

definition addItem :: "HeaderItem \<Rightarrow> SimRequestTemplate \<Rightarrow> SimRequestTemplate" where
  "addItem item t =
    (if hi_name item = HEADER_AUTHENTICATION then t\<lparr>authenticationsTemplate := Some item\<rparr>
     else if startsWith (hi_name item) ''_'' then t\<lparr>extraHeader := jput (hi_name item) item (extraHeader t)\<rparr>
     else t\<lparr>headerTemplates := jput (hi_name item) item (headerTemplates t)\<rparr>)"

lemma initHeader_item: "itemOk item \<Longrightarrow> initHeader (headerItemToString item) t = Ret (addItem item t)"
  by (auto simp: initHeader_def parseProperty_item stripOptional_def addItem_def itemOk_def startsWith_def)

lemma headerItemToString_nonempty [simp]: "headerItemToString item \<noteq> []"
  by (simp add: headerItemToString_def)

lemma initLines_items:
  "list_all itemOk items \<Longrightarrow>
   initLines (map headerItemToString items @ rest) None t = initLines rest None (fold addItem items t)"
  by (induction items arbitrary: t) (auto simp: initHeader_item)

lemma initLines_body: "initLines ls (Some b) t = Ret (t, Some (foldl appendBody b ls))"
  by (induction ls arbitrary: b) auto

lemma foldl_appendBody: "b \<noteq> [] \<Longrightarrow> foldl appendBody b ls = b @ concat (map (\<lambda>l. nl # l) ls)"
  by (induction ls arbitrary: b) (auto simp: appendBody_def)

lemma concatLines_concat: "concatLines [nl] (l # ls) = l @ concat (map (\<lambda>l. nl # l) ls)"
  by (induction ls arbitrary: l) auto

lemma bodyOk_read: "bodyOk b \<Longrightarrow> b \<noteq> [] \<and> foldl appendBody [] (readLines b) = b"
  unfolding bodyOk_def
proof (elim exE conjE)
  fix l ls
  assume b: "b = concatLines [nl] (l # ls)" and ok: "list_all lineFree (l # ls)"
    "l \<noteq> []" "last (l # ls) \<noteq> []"
  have "readLines b = l # ls" unfolding b using ok by (intro readLines_concatLines) auto
  then show ?thesis
    using ok(2) foldl_appendBody [of l ls]
    by (simp add: b concatLines_concat appendBody_def del: concatLines.simps)
qed

lemma update_absent: "k \<notin> fst ` set m \<Longrightarrow> AList.update k v m = m @ [(k, v)]"
  by (induction m) auto

lemma fold_addItem_headers:
  "list_all (\<lambda>(k, item). k = hi_name item \<and> k \<noteq> HEADER_AUTHENTICATION \<and> \<not> startsWith k ''_'') hs \<Longrightarrow>
   distinct (map fst (headerTemplates t @ hs)) \<Longrightarrow>
   fold addItem (map snd hs) t = t\<lparr>headerTemplates := headerTemplates t @ hs\<rparr>"
  by (induction hs arbitrary: t) (auto simp: addItem_def jput_def update_absent)

lemma fold_addItem_extra:
  "list_all (\<lambda>(k, item). k = hi_name item \<and> startsWith k ''_'') hs \<Longrightarrow>
   distinct (map fst (extraHeader t @ hs)) \<Longrightarrow>
   fold addItem (map snd hs) t = t\<lparr>extraHeader := extraHeader t @ hs\<rparr>"
proof (induction hs arbitrary: t)
  case (Cons h hs)
  obtain k item where h: "h = (k, item)" by (cases h)
  have "k \<noteq> HEADER_AUTHENTICATION"
    using Cons.prems(1) h by (auto simp: HEADER_AUTHENTICATION_def startsWith_def)
  with Cons h show ?case by (auto simp: addItem_def jput_def update_absent)
qed simp

lemma lineFree_append [simp]: "lineFree (s @ t) \<longleftrightarrow> lineFree s \<and> lineFree t"
  by (auto simp: lineFree_def)

lemma lineFree_Cons: "lineFree (c # s) \<longleftrightarrow> c \<noteq> nl \<and> c \<noteq> cr \<and> lineFree s"
  by (auto simp: lineFree_def)

lemma headerItemToString_lineFree: "itemOk item \<Longrightarrow> lineFree (headerItemToString item)"
  by (auto simp: itemOk_def headerItemToString_def lineFree_Cons nl_def cr_def lineFree_def)

lemma readLines_lines:
  "list_all lineFree ls \<Longrightarrow> readLines (concat (map (\<lambda>l. l @ [nl]) ls) @ s) = ls @ readLines s"
  by (induction ls) (auto simp: readLines_nl)

lemma readLines_print:
  assumes "topLineTemplate t = Some tt" and "lineFree (topText tt)" and "list_all itemOk (templateItems t)"
  shows "readLines (printRequestTemplate t) = topText tt # map headerItemToString (templateItems t)
    @ (case bodyContent t of None \<Rightarrow> [] | Some b \<Rightarrow> [] # readLines b)"
proof -
  have "list_all lineFree (map headerItemToString (templateItems t))"
    using assms(3) headerItemToString_lineFree by (auto simp: list_all_iff)
  moreover have "readLines (nl # b) = [] # readLines b" for b
    using readLines_nl [of "[]" b] by (simp add: lineFree_def)
  ultimately show ?thesis
    using assms readLines_lines [of "map headerItemToString (templateItems t)"]
    by (auto simp: printRequestTemplate_def readLines_nl comp_def split: option.splits)
qed

lemma initTopLine_text: "topOk eng tt \<Longrightarrow> initTopLine eng (topText tt) = Ret tt"
proof (cases tt)
  case (RegexTop p)
  assume ok: "topOk eng tt"
  have "trim (''/'' @ p @ ''/'') = ''/'' @ p @ ''/''"
    by (intro trim_id) (auto simp: isTrimmed_def)
  then show ?thesis
    using RegexTop ok
    by (simp add: topOk_def topText_def initTopLine_def newSimRegexTemplate_def regexStr_def substring_def)
qed (auto simp: topOk_def topText_def initTopLine_def Let_def)

text \<open>C10: every well formed request template, written out with its top line, its headers, the
  stars of the optional ones and its body, is read back as itself.\<close>

theorem newSimRequestTemplate_print:
  assumes "requestTemplateOk eng t"
  shows "newSimRequestTemplate eng (printRequestTemplate t) = Ret t"
proof -
  obtain tt where tt: "topLineTemplate t = Some tt" "topOk eng tt"
    using assms by (auto simp: requestTemplateOk_def)
  let ?t0 = "emptyRequestTemplate\<lparr>topLineTemplate := Some tt\<rparr>"
  have hs: "fold addItem (map snd (headerTemplates t)) ?t0 = ?t0\<lparr>headerTemplates := headerTemplates t\<rparr>"
    using assms by (subst fold_addItem_headers) (auto simp: requestTemplateOk_def jmap_ok_def emptyRequestTemplate_def)
  have auth: "fold addItem (case authenticationsTemplate t of None \<Rightarrow> [] | Some item \<Rightarrow> [item])
      (?t0\<lparr>headerTemplates := headerTemplates t\<rparr>)
      = ?t0\<lparr>headerTemplates := headerTemplates t, authenticationsTemplate := authenticationsTemplate t\<rparr>"
    using assms by (auto simp: requestTemplateOk_def addItem_def emptyRequestTemplate_def split: option.splits)
  have all: "fold addItem (templateItems t) ?t0 = t\<lparr>bodyContent := None\<rparr>"
    unfolding templateItems_def fold_append comp_def hs auth
    using assms tt by (subst fold_addItem_extra)
      (auto simp: requestTemplateOk_def jmap_ok_def emptyRequestTemplate_def)
  have ok: "list_all itemOk (templateItems t)" "lineFree (topText tt)"
    using assms tt by (auto simp: requestTemplateOk_def topOk_def)
  show ?thesis
  proof (cases "bodyContent t")
    case None
    then show ?thesis
      using initLines_items [OF ok(1), of "[]" ?t0] all
      by (simp add: newSimRequestTemplate_def readLines_print [OF tt(1) ok(2,1)] initTopLine_text [OF tt(2)])
  next
    case (Some b)
    with assms have "b \<noteq> [] \<and> foldl appendBody [] (readLines b) = b"
      by (intro bodyOk_read) (auto simp: requestTemplateOk_def)
    then show ?thesis
      using initLines_items [OF ok(1), of "[] # readLines b" ?t0] all Some
      by (simp add: newSimRequestTemplate_def readLines_print [OF tt(1) ok(2,1)] initTopLine_text [OF tt(2)]
          initHeader_def parseProperty_def initLines_body)
  qed
qed

text \<open>A template with an optional header, an authentication line, a body type and a body.\<close>

definition sampleItem :: "string \<Rightarrow> string \<Rightarrow> bool \<Rightarrow> Token list \<Rightarrow> HeaderItem" where
  "sampleItem n v opt ts = \<lparr>hi_name = n, hi_value = v, hi_optional = opt,
     hi_template = \<lparr>templateContent = n @ '': '' @ v, allTokens = [ts]\<rparr>\<rparr>"

definition sampleTemplate :: SimRequestTemplate where
  "sampleTemplate =
    \<lparr>topLineTemplate = Some (PlainTop \<lparr>templateContent = ''GET /{$p}'',
       allTokens = [[litToken ''GET /'' 0 4, varToken ''{$p}'' ''p'' 5 8 (-1) (-1)]]\<rparr>),
     headerTemplates = [(''Host'', sampleItem ''Host'' ''{$h}'' True
       [litToken ''Host: '' 0 5, varToken ''{$h}'' ''h'' 6 9 (-1) (-1)])],
     authenticationsTemplate = Some (sampleItem ''Authentication'' ''x'' False [litToken ''Authentication: x'' 0 16]),
     bodyContent = Some (concatLines [nl] [''a'', ''b'']),
     extraHeader = [(''_Body-Type'', sampleItem ''_Body-Type'' ''XPath'' False [litToken ''_Body-Type: XPath'' 0 16])]\<rparr>"

lemma sampleItem_ok:
  "itemOk (sampleItem ''Host'' ''{$h}'' True [litToken ''Host: '' 0 5, varToken ''{$h}'' ''h'' 6 9 (-1) (-1)])"
  "itemOk (sampleItem ''Authentication'' ''x'' False [litToken ''Authentication: x'' 0 16])"
  "itemOk (sampleItem ''_Body-Type'' ''XPath'' False [litToken ''_Body-Type: XPath'' 0 16])"
  by code_simp+

lemma sampleTop_ok:
  "topOk eng (PlainTop \<lparr>templateContent = ''GET /{$p}'',
     allTokens = [[litToken ''GET /'' 0 4, varToken ''{$p}'' ''p'' 5 8 (-1) (-1)]]\<rparr>)"
proof -
  have "newSimTemplate ''GET /{$p}'' = Ret \<lparr>templateContent = ''GET /{$p}'',
      allTokens = [[litToken ''GET /'' 0 4, varToken ''{$p}'' ''p'' 5 8 (-1) (-1)]]\<rparr>"
    and "trim ''GET /{$p}'' = ''GET /{$p}''" and "lineFree ''GET /{$p}''"
    by code_simp+
  then show ?thesis by (simp add: topOk_def topText_def)
qed

lemma sampleTemplate_ok: "requestTemplateOk eng sampleTemplate"
proof -
  have "bodyOk (concatLines [nl] [''a'', ''b''])"
    unfolding bodyOk_def by (intro exI [of _ "''a''"] exI [of _ "[''b'']"]) (simp add: lineFree_def nl_def cr_def)
  then show ?thesis
    using sampleTop_ok sampleItem_ok
    by (simp add: requestTemplateOk_def sampleTemplate_def templateItems_def jmap_ok_def)
      (simp add: sampleItem_def HEADER_AUTHENTICATION_def startsWith_def)
qed

theorem newSimRequestTemplate_print_witness:
  "newSimRequestTemplate plainEngines (printRequestTemplate sampleTemplate) = Ret sampleTemplate"
  by (rule newSimRequestTemplate_print [OF sampleTemplate_ok])

text \<open>The sample template against a request without its optional header.\<close>

definition sampleRequest :: SimRequest where
  "sampleRequest =
    \<lparr>req_topLine = Some ''GET /index'', req_headerNames = [], req_headerLine = (\<lambda>h. None),
     req_authLine = Some ''Authentication: x'', req_body = Some (concatLines [nl] [''a'', ''b''])\<rparr>"

lemma sampleTemplate_matches:
  "matchRequest plainEngines sampleTemplate [] sampleRequest = Ret (Some [(''p'', JStr ''index'')])"
  by code_simp


end
