(* ===== verification/ResponseTemplate.thy ===== *)
theory ResponseTemplate
  imports Templates SimUtils
begin

text \<open>
  \<open>SimResponseTemplate.java\<close>, \<open>SimResponse.java\<close>, \<open>util/ResponseHandler.java\<close> and
  \<open>util/MediaTypeHelper.java\<close>: the response side of a rule, its parser, and the generation of a
  response from the variables of a match.

  What the handlers call (Velocity, Groovy, URL connections, the beans, gzip) is the record
  \<open>Services\<close>, whose operations act on a world of any type.
\<close>

section \<open>The response template\<close>

record SimResponseTemplate =
  rt_code :: int
  rt_headers :: "(string, string) jmap"
  rt_body :: string

definition genCode :: "string \<Rightarrow> int res" where
  "genCode line =
    (let parts = split CHR '' '' line in
     if 2 \<le> length parts then parseInt (parts ! 1)
     else Raise (RuntimeException (''can not get code on ['' @ line @ '']'')))"

text \<open>Unlike the request side, the name keeps its blanks and everything else about it.\<close>

definition respHeaderLine :: "string \<Rightarrow> (string, string) jmap \<Rightarrow> (string, string) jmap" where
  "respHeaderLine line headers =
    (case indexOf line CHR '':'' of
       None \<Rightarrow> headers
     | Some index \<Rightarrow> jput (take index line) (trim (drop (index + 1) line)) headers)"

definition appendRespBody :: "string \<Rightarrow> string \<Rightarrow> string" where
  "appendRespBody sb line = (if sb \<noteq> [] then sb @ [nl] else sb) @ line"

fun respLines :: "string list \<Rightarrow> string option \<Rightarrow> (string, string) jmap
    \<Rightarrow> (string, string) jmap \<times> string option" where
  "respLines [] sb headers = (headers, sb)"
| "respLines (line # ls) None headers =
    respLines ls (if line = [] then Some [] else None) (respHeaderLine line headers)"
| "respLines (line # ls) (Some sb) headers = respLines ls (Some (appendRespBody sb line)) headers"

definition newSimResponseTemplate :: "string \<Rightarrow> SimResponseTemplate res" where
  "newSimResponseTemplate content =
    (case readLines content of
       [] \<Rightarrow> Ret \<lparr>rt_code = 0, rt_headers = [], rt_body = []\<rparr>
     | line # ls \<Rightarrow>
         bindE (genCode line) (\<lambda>code.
           let (headers, sb) = respLines ls None [] in
           Ret \<lparr>rt_code = code, rt_headers = headers,
             rt_body = (case sb of Some b \<Rightarrow> b | None \<Rightarrow> [])\<rparr>))"

section \<open>Responses\<close>

type_synonym bytes = "8 word list"

record SimResponse =
  resp_code :: int
  resp_headers :: ctx
  resp_body :: "bytes option"

definition newSimResponseMessage :: "(string \<Rightarrow> bytes) \<Rightarrow> string \<Rightarrow> SimResponse" where
  "newSimResponseMessage getBytes message =
    \<lparr>resp_code = 200, resp_headers = [], resp_body = Some (getBytes message)\<rparr>"

definition getAllInternalHeaders :: "SimResponse \<Rightarrow> ctx" where
  "getAllInternalHeaders r = filter (\<lambda>(k, v). startsWith k ''_'') (resp_headers r)"

definition getAllPublicHeaders :: "SimResponse \<Rightarrow> ctx" where
  "getAllPublicHeaders r = filter (\<lambda>(k, v). \<not> startsWith k ''_'') (resp_headers r)"

text \<open>The two magic bytes are 31 and -117 (139).\<close>

definition isCompressed :: "SimResponse \<Rightarrow> bool res" where
  "isCompressed r =
    (let gz = (\<lambda>k. jget (resp_headers r) k = Some (JStr ''gzip'')) in
     if gz ''content-encoding'' \<or> gz ''Content-encoding'' \<or> gz ''Content-Encoding'' then Ret True
     else case resp_body r of
         None \<Rightarrow> Raise NullPointerException
       | Some b \<Rightarrow> Ret (length b > 2 \<and> b ! 0 = 31 \<and> b ! 1 = 139))"

section \<open>Services\<close>

text \<open>
  \<open>sv_merge\<close> evaluates a Velocity text in a context, which the text may change.
  \<open>sv_groovyUri\<close> gives the string of the script's result, \<open>None\<close> for \<open>null\<close>.
\<close>

record 'w Services =
  sv_getBytes :: "string \<Rightarrow> bytes"
  sv_newString :: "bytes \<Rightarrow> string"
  sv_gzip :: "bytes \<Rightarrow> bytes"
  sv_gunzip :: "bytes \<Rightarrow> bytes res"
  sv_merge :: "ctx \<Rightarrow> string \<Rightarrow> string \<Rightarrow> (string \<times> ctx, 'w) prog"
  sv_fetch :: "string \<Rightarrow> (bytes, 'w) prog"
  sv_contentType :: "string \<Rightarrow> string"
  sv_groovyUri :: "ctx \<Rightarrow> string \<Rightarrow> (string option, 'w) prog"
  sv_invoke :: "string \<Rightarrow> string option \<Rightarrow> ctx \<Rightarrow> (jval, 'w) prog"
  sv_toJson :: "string \<Rightarrow> ctx \<Rightarrow> jval \<Rightarrow> (bytes, 'w) prog"
  sv_show :: "jval \<Rightarrow> string"
  sv_sleep :: "int \<Rightarrow> (unit, 'w) prog"

definition getBodyAsString :: "'w Services \<Rightarrow> SimResponse \<Rightarrow> string res" where
  "getBodyAsString sv r =
    bindE (isCompressed r) (\<lambda>z.
      case resp_body r of
        None \<Rightarrow> Raise NullPointerException
      | Some b \<Rightarrow>
          if z then (case sv_gunzip sv b of
              Inl _ \<Rightarrow> Raise (RuntimeException ''error when decompress the content'')
            | Inr d \<Rightarrow> Ret (sv_newString sv d))
          else Ret (sv_newString sv b))"

text \<open>\<open>setBody\<close> decides on the compression by the body it replaces.\<close>

definition setBody :: "'w Services \<Rightarrow> bytes \<Rightarrow> SimResponse \<Rightarrow> SimResponse res" where
  "setBody sv body r =
    bindE (isCompressed r) (\<lambda>z. Ret (r\<lparr>resp_body := Some (if z then sv_gzip sv body else body)\<rparr>))"

section \<open>Media types\<close>

definition textTypeArray :: "string list" where
  "textTypeArray =
    [''application/atom+xml'', ''application/json'', ''application/svg+xml'', ''application/xhtml+xml'',
     ''application/xml'', ''text/html'', ''text/plain'', ''text/xml'']"

definition isText :: "string option \<Rightarrow> bool" where
  "isText ty = (case ty of None \<Rightarrow> True | Some t \<Rightarrow> list_ex (\<lambda>textType. containsStr t textType) textTypeArray)"

section \<open>Response handlers\<close>

text \<open>
  A handler gets the headers and the Velocity context as objects it changes; both are part of its
  result. The body is \<open>None\<close> for \<open>null\<close>, which passes the turn to the next handler.
\<close>

type_synonym 'w responseHandler =
  "ctx \<Rightarrow> ctx \<Rightarrow> SimResponseTemplate \<Rightarrow> (bytes option \<times> ctx \<times> ctx, 'w) prog"

text \<open>\<open>(String) headers.remove(name)\<close> and the headers that remain.\<close>

definition castString :: "jval option \<Rightarrow> string option res" where
  "castString v =
    (case v of None \<Rightarrow> Ret None | Some JNull \<Rightarrow> Ret None | Some (JStr s) \<Rightarrow> Ret (Some s)
     | Some _ \<Rightarrow> Raise ClassCastException)"

definition HEADER_NAME_CONTENT_TYPE :: string where "HEADER_NAME_CONTENT_TYPE = ''_Content-Type''"
definition HEADER_NAME_BRIDGE :: string where "HEADER_NAME_BRIDGE = ''_Bridge''"
definition HEADER_NAME_BRIDGE_TYPE :: string where "HEADER_NAME_BRIDGE_TYPE = ''_Bridge.Type''"
definition HEADER_NAME_CLASS :: string where "HEADER_NAME_CLASS = ''_Class.Name''"
definition HEADER_NAME_METHOD :: string where "HEADER_NAME_METHOD = ''_Method.Name''"
definition HEADER_NAME_WAIT :: string where "HEADER_NAME_WAIT = ''_Wait.Time''"

definition defaultResponseHandler :: "'w Services \<Rightarrow> 'w responseHandler" where
  "defaultResponseHandler sv headers vc resp =
    (let vc = jput ''SimUtils'' (JObj 0) vc in
     bindS (sv_merge sv vc ''body'' (rt_body resp)) (\<lambda>(s, vc').
       retS (Some (sv_getBytes sv s), headers, vc')))"

definition bridgeResponseHandler :: "'w Services \<Rightarrow> 'w responseHandler" where
  "bridgeResponseHandler sv headers vc resp =
    bindS (liftS (castString (jget headers HEADER_NAME_BRIDGE))) (\<lambda>bridge.
    let headers = jremove HEADER_NAME_BRIDGE headers in
    bindS (liftS (castString (jget headers HEADER_NAME_BRIDGE_TYPE))) (\<lambda>bridgeType.
    let headers = jremove HEADER_NAME_BRIDGE_TYPE headers in
    case bridge of
      None \<Rightarrow> retS (None, headers, vc)
    | Some url \<Rightarrow>
        bindS (sv_fetch sv url) (\<lambda>bodyBytes.
        let headers = jput HEADER_NAME_CONTENT_TYPE (JStr (sv_contentType sv url)) headers in
        if bridgeType = Some ''VM'' then
          bindS (sv_merge sv vc ''body'' (sv_newString sv bodyBytes)) (\<lambda>(s, vc').
            retS (Some (sv_getBytes sv s), headers, vc'))
        else if bridgeType = Some ''Groovy'' then
          bindS (sv_groovyUri sv vc url) (\<lambda>ret.
            retS (map_option (sv_getBytes sv) ret, headers, vc))
        else retS (Some bodyBytes, headers, vc))))"

definition functionResult :: "'w Services \<Rightarrow> string \<Rightarrow> ctx \<Rightarrow> string option \<Rightarrow> jval \<Rightarrow> (bytes, 'w) prog" where
  "functionResult sv className vc contentType result =
    (if result = JNull then retS []
     else if (case contentType of None \<Rightarrow> False | Some t \<Rightarrow> containsStr t ''application/json'')
       then sv_toJson sv className vc result
     else case result of
       JStr s \<Rightarrow>
         if isText contentType then retS (sv_getBytes sv s)
         else liftS (Raise (RuntimeException (''unsupport Content-Type ['' @ the contentType @ ''] with result ['' @ s @ '']'')))
     | _ \<Rightarrow>
         (case contentType of
            None \<Rightarrow> sv_toJson sv className vc result
          | Some t \<Rightarrow> liftS (Raise (RuntimeException (''unsupport Content-Type ['' @ t @ ''] with result ['' @ sv_show sv result @ '']'')))))"

definition functionResponseHandler :: "'w Services \<Rightarrow> 'w responseHandler" where
  "functionResponseHandler sv headers vc resp =
    bindS (liftS (castString (jget headers HEADER_NAME_CLASS))) (\<lambda>className.
    let headers = jremove HEADER_NAME_CLASS headers in
    bindS (liftS (castString (jget headers HEADER_NAME_METHOD))) (\<lambda>methodName.
    let headers = jremove HEADER_NAME_METHOD headers in
    bindS (liftS (castString (jget headers HEADER_NAME_CONTENT_TYPE))) (\<lambda>contentType.
    case className of
      None \<Rightarrow> retS (None, headers, vc)
    | Some cls \<Rightarrow>
        let vc = jputAll vc headers in
        bindS (sv_invoke sv cls methodName vc) (\<lambda>result.
        bindS (functionResult sv cls vc contentType result) (\<lambda>b.
          retS (Some b, headers, vc))))))"

text \<open>\<open>Thread.sleep\<close> refuses a negative time.\<close>

definition waitResponseHandler :: "'w Services \<Rightarrow> 'w responseHandler" where
  "waitResponseHandler sv headers vc resp =
    bindS (liftS (castString (jget headers HEADER_NAME_WAIT))) (\<lambda>waitTime.
    let headers = jremove HEADER_NAME_WAIT headers in
    case waitTime of
      None \<Rightarrow> retS (None, headers, vc)
    | Some s \<Rightarrow>
        bindS (liftS (parseLong s)) (\<lambda>time2Wait.
        if time2Wait < 0 then liftS (Raise (RuntimeException ''timeout value is negative''))
        else bindS (sv_sleep sv time2Wait) (\<lambda>_. retS (Some [], headers, vc))))"

fun responseChain :: "'w responseHandler list \<Rightarrow> 'w responseHandler" where
  "responseChain [] headers vc resp = retS (None, headers, vc)"
| "responseChain (h # hs) headers vc resp =
    bindS (h headers vc resp) (\<lambda>(ret, headers', vc').
      if ret \<noteq> None then retS (ret, headers', vc') else responseChain hs headers' vc' resp)"

definition responseHandlers :: "'w Services \<Rightarrow> 'w responseHandler list" where
  "responseHandlers sv =
    [bridgeResponseHandler sv, functionResponseHandler sv, waitResponseHandler sv, defaultResponseHandler sv]"

section \<open>Generation\<close>

definition putBoth :: "string \<Rightarrow> jval \<Rightarrow> ctx \<Rightarrow> ctx" where
  "putBoth k v vc = jput (replaceChar CHR ''.'' CHR ''_'' k) v (jput k v vc)"

fun mergeHeaders :: "'w Services \<Rightarrow> (string \<times> string) list \<Rightarrow> ctx \<Rightarrow> ctx \<Rightarrow> (ctx \<times> ctx, 'w) prog" where
  "mergeHeaders sv [] headers vc = retS (headers, vc)"
| "mergeHeaders sv ((k, v) # hs) headers vc =
    bindS (sv_merge sv vc k v) (\<lambda>(headerValue, vc').
      mergeHeaders sv hs (jput k (JStr headerValue) headers) (putBoth k (JStr headerValue) vc'))"

definition initialContext :: "ctx \<Rightarrow> ctx" where
  "initialContext context = fold (\<lambda>(k, v). putBoth k v) context [(''SimUtils'', JObj 0)]"

definition generate :: "'w Services \<Rightarrow> ctx \<Rightarrow> SimResponseTemplate \<Rightarrow> (SimResponse, 'w) prog" where
  "generate sv context resp =
    bindS (mergeHeaders sv (rt_headers resp) [] (initialContext context)) (\<lambda>(headers, vc).
    bindS (responseChain (responseHandlers sv) headers vc resp) (\<lambda>(body, headers', vc').
      retS \<lparr>resp_code = rt_code resp, resp_headers = headers', resp_body = body\<rparr>))"

end
