(* ===== verification/ResponseSpec.thy ===== *)
theory ResponseSpec
  imports ResponseTemplate RequestSpec
begin

text \<open>
  What the response side promises: a printed response template is read back, a generated response
  always has a body and carries no bridge header, and a body that was set is the body that is
  read, whatever the compression.
\<close>

section \<open>Reading a printed response\<close>

definition printResponseTemplate :: "SimResponseTemplate \<Rightarrow> string" where
  "printResponseTemplate t =
    ''HTTP/1.1 '' @ showNat (nat (rt_code t)) @ '' OK'' @ [nl]
    @ concat (map (\<lambda>(k, v). (k @ '': '' @ v) @ [nl]) (rt_headers t))
    @ (if rt_body t = [] then [] else nl # rt_body t)"

definition responseTemplateOk :: "SimResponseTemplate \<Rightarrow> bool" where
  "responseTemplateOk t \<longleftrightarrow> 0 \<le> rt_code t \<and> rt_code t < 2 ^ 31 \<and> jmap_ok (rt_headers t) \<and>
     list_all (\<lambda>(k, v). CHR '':'' \<notin> set k \<and> lineFree k \<and> lineFree v \<and> trim v = v) (rt_headers t) \<and>
     (rt_body t = [] \<or> bodyOk (rt_body t))"

lemma showNat_digits: "c \<in> set (showNat n) \<Longrightarrow> 48 \<le> (of_char c :: nat) \<and> (of_char c :: nat) \<le> 57"
proof (induction n rule: showNat.induct)
  case (1 n)
  then show ?case by (auto simp: showNat.simps [of n] digitChar_def of_char_of split: if_splits)
qed

lemma showNat_free [simp]: "CHR '' '' \<notin> set (showNat n)" "nl \<notin> set (showNat n)" "cr \<notin> set (showNat n)"
  by (auto dest: showNat_digits simp: nl_def cr_def)

lemma signedVal_showNat: "signedVal (showNat n) = Some (int n)"
proof -
  obtain c s where s: "showNat n = c # s" by (cases "showNat n") auto
  have "c \<noteq> CHR ''-''" "c \<noteq> CHR ''+''" using showNat_digits [of c n] s by auto
  then show ?thesis using unsignedVal_showNat [of n] s by (simp add: signedVal_def)
qed

lemma parseInt_showNat: "int n < 2 ^ 31 \<Longrightarrow> parseInt (showNat n) = Ret (int n)"
  by (simp add: parseSigned_def signedVal_showNat)

lemma genCode_line:
  assumes "int n < 2 ^ 31"
  shows "genCode (''HTTP/1.1 '' @ showNat n @ '' OK'') = Ret (int n)"
proof -
  have "split CHR '' '' (''HTTP/1.1 '' @ showNat n @ '' OK'') = [''HTTP/1.1'', showNat n, ''OK'']"
    using split_intercalate [of "[''HTTP/1.1'', showNat n, ''OK'']" "CHR '' ''"] by simp
  then show ?thesis using assms by (simp add: genCode_def parseInt_showNat)
qed

definition addRespHeader :: "string \<times> string \<Rightarrow> (string, string) jmap \<Rightarrow> (string, string) jmap" where
  "addRespHeader h m = jput (fst h) (snd h) m"

lemma respHeaderLine_print:
  "CHR '':'' \<notin> set k \<Longrightarrow> trim v = v \<Longrightarrow> respHeaderLine (k @ '': '' @ v) m = jput k v m"
  using indexOf_append [of "CHR '':''" k "CHR '' '' # v"] by (simp add: respHeaderLine_def trim_space)

lemma respLines_headers:
  "list_all (\<lambda>(k, v). CHR '':'' \<notin> set k \<and> trim v = v) hs \<Longrightarrow> distinct (map fst (m @ hs)) \<Longrightarrow>
   respLines (map (\<lambda>(k, v). k @ '': '' @ v) hs @ rest) None m = respLines rest None (m @ hs)"
proof (induction hs arbitrary: m)
  case (Cons h hs)
  obtain k v where h: "h = (k, v)" by (cases h)
  have "jput k v m = m @ [(k, v)]" using Cons.prems(2) h by (simp add: jput_def update_absent)
  with Cons h show ?case
    using respHeaderLine_print [of k v m] by simp
qed simp

lemma respLines_body: "respLines ls (Some b) m = (m, Some (foldl appendRespBody b ls))"
  by (induction ls arbitrary: b) auto

lemma appendRespBody_eq: "appendRespBody = appendBody"
  by (simp add: fun_eq_iff appendRespBody_def appendBody_def)

text \<open>A response template whose code is a non-negative 32-bit number, written out as a status
  line, its headers and its body, is read back as itself.\<close>

theorem newSimResponseTemplate_print:
  assumes "responseTemplateOk t"
  shows "newSimResponseTemplate (printResponseTemplate t) = Ret t"
proof -
  let ?hs = "map (\<lambda>(k, v). k @ '': '' @ v) (rt_headers t)"
  let ?status = "''HTTP/1.1 '' @ showNat (nat (rt_code t)) @ '' OK''"
  have hs: "list_all (\<lambda>(k, v). CHR '':'' \<notin> set k \<and> trim v = v) (rt_headers t)"
    "list_all lineFree ?hs" and dist: "distinct (map fst ([] @ rt_headers t))"
    using assms by (auto simp: responseTemplateOk_def list_all_iff jmap_ok_def lineFree_def nl_def cr_def)
  have code: "genCode ?status = Ret (rt_code t)"
    using genCode_line [of "nat (rt_code t)"] assms by (simp add: responseTemplateOk_def)
  have st: "lineFree ?status" by (simp add: lineFree_def) (simp add: nl_def cr_def)
  have blank: "readLines (nl # b) = [] # readLines b" for b
    using readLines_nl [of "[]" b] by (simp add: lineFree_def)
  have "printResponseTemplate t = ?status @ nl # concat (map (\<lambda>l. l @ [nl]) ?hs)
      @ (if rt_body t = [] then [] else nl # rt_body t)"
    by (simp add: printResponseTemplate_def comp_def case_prod_unfold)
  then have lines: "readLines (printResponseTemplate t) = ?status # ?hs
      @ (if rt_body t = [] then [] else [] # readLines (rt_body t))"
    using readLines_nl [OF st] readLines_lines [OF hs(2)] blank by simp
  show ?thesis
  proof (cases "rt_body t = []")
    case True
    then show ?thesis
      using respLines_headers [OF hs(1) dist, of "[]"] lines code
      by (simp add: newSimResponseTemplate_def)
  next
    case False
    then have "foldl appendBody [] (readLines (rt_body t)) = rt_body t"
      using assms bodyOk_read by (simp add: responseTemplateOk_def)
    with False show ?thesis
      using respLines_headers [OF hs(1) dist, of "[] # readLines (rt_body t)"] lines code
      by (simp add: newSimResponseTemplate_def respHeaderLine_def respLines_body appendRespBody_eq)
  qed
qed

definition sampleResponse :: SimResponseTemplate where
  "sampleResponse = \<lparr>rt_code = 200, rt_headers = [(''_Content-Type'', ''text/plain'')],
     rt_body = concatLines [nl] [''hello'', '''', ''you'']\<rparr>"

lemma sampleResponse_ok: "responseTemplateOk sampleResponse"
proof -
  have "bodyOk (concatLines [nl] [''hello'', '''', ''you''])"
    unfolding bodyOk_def
    by (intro exI [of _ "''hello''"] exI [of _ "['''', ''you'']"]) (simp add: lineFree_def nl_def cr_def)
  moreover have "trim ''text/plain'' = ''text/plain''" by code_simp
  ultimately show ?thesis
    by (simp add: responseTemplateOk_def sampleResponse_def jmap_ok_def lineFree_def nl_def cr_def)
qed

theorem newSimResponseTemplate_print_witness:
  "newSimResponseTemplate (printResponseTemplate sampleResponse) = Ret sampleResponse"
  by (rule newSimResponseTemplate_print [OF sampleResponse_ok])

section \<open>Generated responses\<close>

text \<open>What a handler leaves: it answers only with a body, and it never adds a bridge header.\<close>

definition bridgeFree :: "ctx \<Rightarrow> bool" where
  "bridgeFree headers \<longleftrightarrow> jget headers HEADER_NAME_BRIDGE = None \<and> jget headers HEADER_NAME_BRIDGE_TYPE = None"

lemma header_names:
  "HEADER_NAME_BRIDGE \<noteq> HEADER_NAME_BRIDGE_TYPE" "HEADER_NAME_CONTENT_TYPE \<noteq> HEADER_NAME_BRIDGE"
  "HEADER_NAME_CONTENT_TYPE \<noteq> HEADER_NAME_BRIDGE_TYPE"
  by (simp_all add: HEADER_NAME_BRIDGE_def HEADER_NAME_BRIDGE_TYPE_def HEADER_NAME_CONTENT_TYPE_def)

lemma bridgeFree_jremove: "bridgeFree h \<Longrightarrow> bridgeFree (jremove k h)"
  by (simp add: bridgeFree_def jm.get_remove)

lemma bridge_bridgeFree:
  "bridgeResponseHandler sv h vc resp w = (Ret (b, h', vc'), w') \<Longrightarrow> bridgeFree h'"
  using header_names
  by (auto simp: bridgeResponseHandler_def bridgeFree_def Let_def jm.get_remove jm.get_put
      elim!: bindS_InrE split: option.splits if_splits)

lemma function_bridgeFree:
  "functionResponseHandler sv h vc resp w = (Ret (b, h', vc'), w') \<Longrightarrow> bridgeFree h \<Longrightarrow> bridgeFree h'"
  by (auto simp: functionResponseHandler_def Let_def bridgeFree_jremove
      elim!: bindS_InrE split: option.splits)

lemma wait_bridgeFree:
  "waitResponseHandler sv h vc resp w = (Ret (b, h', vc'), w') \<Longrightarrow> bridgeFree h \<Longrightarrow> bridgeFree h'"
  by (auto simp: waitResponseHandler_def Let_def bridgeFree_jremove
      elim!: bindS_InrE split: option.splits if_splits)

lemma default_answers:
  "defaultResponseHandler sv h vc resp w = (Ret (b, h', vc'), w') \<Longrightarrow> b \<noteq> None \<and> h' = h"
  by (auto simp: defaultResponseHandler_def Let_def elim!: bindS_InrE)

text \<open>C9: every response that is generated has a body, whichever handler made it, carries the
  code of its template, and none of the two bridge headers, which select the handler.\<close>

theorem generate_complete:
  assumes "generate sv context resp w = (Ret r, w')"
  shows "resp_body r \<noteq> None \<and> resp_code r = rt_code resp \<and> bridgeFree (resp_headers r)"
proof -
  from assms obtain h vc w1 b h' vc' where
    chain: "responseChain (responseHandlers sv) h vc resp w1 = (Ret (b, h', vc'), w')"
    and r: "r = \<lparr>resp_code = rt_code resp, resp_headers = h', resp_body = b\<rparr>"
    by (auto simp: generate_def elim!: bindS_InrE)
  show ?thesis
    using chain unfolding r responseHandlers_def
    by (auto elim!: bindS_InrE split: if_splits)
      (metis bridge_bridgeFree function_bridgeFree wait_bridgeFree default_answers)+
qed

text \<open>Services that evaluate every text to itself, with a counting world.\<close>

definition plainServices :: "nat Services" where
  "plainServices =
    \<lparr>sv_getBytes = latin1Bytes, sv_newString = latin1String,
     sv_gzip = (\<lambda>b. [31, 139, 0] @ b),
     sv_gunzip = (\<lambda>b. if take 3 b = [31, 139, 0] then Ret (drop 3 b) else Raise (IOException ''not gzip'')),
     sv_merge = (\<lambda>vc tag s. retS (s, vc)), sv_fetch = (\<lambda>url. retS (latin1Bytes url)),
     sv_contentType = (\<lambda>url. ''text/plain''), sv_groovyUri = (\<lambda>vc url. retS None),
     sv_invoke = (\<lambda>c m vc n. (Ret JNull, Suc n)), sv_toJson = (\<lambda>c vc v. retS []),
     sv_show = (\<lambda>v. []), sv_sleep = (\<lambda>t n. (Ret (), Suc n))\<rparr>"

text \<open>A rule whose bridge is a script without a result: the default handler answers.\<close>

definition bridgedResponse :: SimResponseTemplate where
  "bridgedResponse = \<lparr>rt_code = 200, rt_headers = [(''_Bridge'', ''u''), (''_Bridge.Type'', ''Groovy'')], rt_body = ''b''\<rparr>"

lemma bridgedResponse_generated:
  "generate plainServices [] bridgedResponse 0 =
    (Ret \<lparr>resp_code = 200, resp_headers = [(''_Content-Type'', JStr ''text/plain'')],
      resp_body = Some (latin1Bytes ''b'')\<rparr>, 0)"
  by code_simp

theorem generate_complete_witness:
  "bridgeFree (resp_headers (projr (fst (generate plainServices [] bridgedResponse 0))))"
  using generate_complete [OF bridgedResponse_generated] by (simp add: bridgedResponse_generated)

section \<open>Bodies\<close>

definition gzipMagic :: "bytes \<Rightarrow> bool" where
  "gzipMagic b \<longleftrightarrow> length b > 2 \<and> b ! 0 = 31 \<and> b ! 1 = 139"

text \<open>A body set on a response is the body that is read back, compressed or not, provided that
  gunzip inverts gzip and gzip writes its magic bytes. The one exception is a body that itself
  starts with these bytes, set on a response that is not compressed: it is read decompressed.\<close>

theorem getBodyAsString_setBody:
  assumes "setBody sv b r = Ret r'"
    and "sv_gunzip sv (sv_gzip sv b) = Ret b" and "gzipMagic (sv_gzip sv b)"
  shows "getBodyAsString sv r' =
    (if isCompressed r = Ret False \<and> gzipMagic b
     then (case sv_gunzip sv b of Inl _ \<Rightarrow> Raise (RuntimeException ''error when decompress the content'')
           | Inr d \<Rightarrow> Ret (sv_newString sv d))
     else Ret (sv_newString sv b))"
proof -
  obtain z where z: "isCompressed r = Ret z"
    and r': "r' = r\<lparr>resp_body := Some (if z then sv_gzip sv b else b)\<rparr>"
    using assms(1) by (auto simp: setBody_def elim!: bindE_InrE)
  show ?thesis
  proof (cases z)
    case True
    then have "isCompressed r' = Ret True"
      using assms(3) by (simp add: r' isCompressed_def gzipMagic_def Let_def)
    with True z assms(2) show ?thesis by (simp add: getBodyAsString_def r')
  next
    case False
    with z have "isCompressed r' = Ret (gzipMagic b)"
      by (auto simp: r' isCompressed_def gzipMagic_def Let_def split: if_splits)
    with False z show ?thesis by (auto simp: getBodyAsString_def r' split: sum.splits)
  qed
qed

theorem getBodyAsString_setBody_witness:
  "getBodyAsString plainServices
    (projr (setBody plainServices (latin1Bytes ''hi'')
      \<lparr>resp_code = 200, resp_headers = [(''Content-Encoding'', JStr ''gzip'')], resp_body = None\<rparr>))
    = Ret ''hi''"
proof -
  let ?r = "\<lparr>resp_code = 200, resp_headers = [(''Content-Encoding'', JStr ''gzip'')], resp_body = None\<rparr>"
  have z: "isCompressed ?r = Ret True" by (simp add: isCompressed_def jget_def)
  then have s: "setBody plainServices (latin1Bytes ''hi'') ?r
      = Ret (?r\<lparr>resp_body := Some (sv_gzip plainServices (latin1Bytes ''hi''))\<rparr>)"
    by (simp add: setBody_def)
  have "sv_gunzip plainServices (sv_gzip plainServices b) = Ret b"
    "gzipMagic (sv_gzip plainServices b)"
    "sv_newString plainServices (latin1Bytes t) = t" for b t
    by (simp_all add: plainServices_def gzipMagic_def latin1.decode_encode)
  then show ?thesis
    using getBodyAsString_setBody [OF s] z unfolding s by simp
qed

end
