(* ===== verification/Script.thy ===== *)
theory Script
  imports RequestTemplate ResponseTemplate
begin

text \<open>
  \<open>SimScript.java\<close> and \<open>manager/SimulatorFolder.java\<close>: cutting a script file into blocks and
  rules, loading a folder of scripts with its configuration, and the effective rules of a script.

  A script's parent pointer is not part of the tree: what the code reads through it is an
  argument (the parent's configuration when a script is loaded, the chain of ancestors when its
  effective rules are collected).
\<close>

section \<open>Blocks\<close>

definition SEP_LINE :: string where
  "SEP_LINE = replicate 66 CHR ''-''"

definition RESP_START :: string where
  "RESP_START = ''HTTP/''"

text \<open>\<open>addLines\<close> drops one empty line at either end and keeps what is left, if anything is.\<close>

definition dropEmptyFirst :: "string list \<Rightarrow> string list" where
  "dropEmptyFirst ls = (if ls \<noteq> [] \<and> hd ls = [] then tl ls else ls)"

definition dropEmptyLast :: "string list \<Rightarrow> string list" where
  "dropEmptyLast ls = (if ls \<noteq> [] \<and> last ls = [] then butlast ls else ls)"

definition addLines :: "string list list \<Rightarrow> string list \<Rightarrow> string list list" where
  "addLines block ls =
    (let ls' = dropEmptyLast (dropEmptyFirst ls) in if ls' \<noteq> [] then block @ [ls'] else block)"

text \<open>The reader is the list of the lines still to be read; the rest is returned.\<close>

fun reqRespLoop :: "string list \<Rightarrow> string list list \<Rightarrow> string list \<Rightarrow> string list list \<times> string list" where
  "reqRespLoop [] ret lines = (addLines ret lines, [])"
| "reqRespLoop (line # reader) ret lines =
    (if startsWith line RESP_START then reqRespLoop reader (addLines ret lines) [line]
     else if line = SEP_LINE then (addLines ret lines, reader)
     else reqRespLoop reader ret (lines @ [line]))"

definition loadReqResp :: "string list \<Rightarrow> (string list list option \<times> string list) res" where
  "loadReqResp reader =
    (let (ret, rest) = reqRespLoop reader [] [] in
     if length ret = 1 then Raise (IOException ''Last request has no response'')
     else if length ret = 0 then Ret (None, rest)
     else Ret (Some ret, rest))"

section \<open>Rules\<close>

record TemplatePair =
  tp_req :: SimRequestTemplate
  tp_resps :: "SimResponseTemplate list"

text \<open>The lines of a block are never empty, so \<open>concatContent\<close> does not give \<open>null\<close>.\<close>

definition blockText :: "string list \<Rightarrow> string" where
  "blockText ls = (case concatContent ls of Some s \<Rightarrow> s | None \<Rightarrow> [])"

definition pairOfBlock :: "Engines \<Rightarrow> string list list \<Rightarrow> TemplatePair res" where
  "pairOfBlock eng block =
    bindE (mapE (\<lambda>ls. newSimResponseTemplate (blockText ls)) (tl block)) (\<lambda>resps.
    bindE (newSimRequestTemplate eng (blockText (hd block))) (\<lambda>req.
      Ret \<lparr>tp_req = req, tp_resps = resps\<rparr>))"

lemma reqRespLoop_rest: "length (snd (reqRespLoop reader ret lines)) \<le> length reader"
  by (induction reader ret lines rule: reqRespLoop.induct) (auto intro: le_SucI)

lemma reqRespLoop_rest_Cons:
  "length (snd (reqRespLoop (line # reader) ret lines)) < length (line # reader)"
  using reqRespLoop_rest [of reader] by (auto simp: less_Suc_eq_le)

lemma loadReqResp_rest:
  assumes "loadReqResp reader = Inr (Some block, rest)"
  shows "length rest < length reader"
proof (cases reader)
  case Nil
  with assms show ?thesis by (simp add: loadReqResp_def addLines_def dropEmptyFirst_def dropEmptyLast_def)
next
  case (Cons line ls)
  then have "rest = snd (reqRespLoop (line # ls) [] [])"
    using assms by (auto simp: loadReqResp_def split_beta Let_def split: if_splits)
  then show ?thesis using Cons reqRespLoop_rest_Cons [of line ls] by simp
qed

function loadLines :: "Engines \<Rightarrow> string list \<Rightarrow> TemplatePair list res" where
  "loadLines eng reader =
    (case loadReqResp reader of
       Inl e \<Rightarrow> Raise e
     | Inr (None, rest) \<Rightarrow> Ret []
     | Inr (Some block, rest) \<Rightarrow>
         bindE (pairOfBlock eng block) (\<lambda>p.
         bindE (loadLines eng rest) (\<lambda>ps. Ret (p # ps))))"
  by pat_completeness auto
termination
  by (relation "measure (\<lambda>(eng, reader). length reader)") (auto dest: loadReqResp_rest)

declare loadLines.simps [simp del]

definition load :: "Engines \<Rightarrow> string \<Rightarrow> TemplatePair list res" where
  "load eng content = loadLines eng (readLines content)"

section \<open>Configuration\<close>

text \<open>
  What the code uses of \<open>PropertiesConfiguration\<close> (a library class): the empty configuration,
  setting one property, copying all of another one, reading a string, the keys, and parsing a
  properties file (\<open>cf_read\<close>, and \<open>cf_props\<close> for \<open>java.util.Properties\<close> with
  \<open>addProperty\<close>).
\<close>

record 'c ConfigOps =
  cf_new :: 'c
  cf_set :: "string \<Rightarrow> string \<Rightarrow> 'c \<Rightarrow> 'c"
  cf_copy :: "'c \<Rightarrow> 'c \<Rightarrow> 'c"
  cf_get :: "'c \<Rightarrow> string \<Rightarrow> string option"
  cf_keys :: "'c \<Rightarrow> string list"
  cf_read :: "string \<Rightarrow> 'c res"
  cf_props :: "string \<Rightarrow> 'c res"

section \<open>Scripts\<close>

record 'c ScriptNode =
  templatePairs :: "TemplatePair list"
  config :: 'c
  localConfig :: 'c
  ignored :: bool
  myself :: "string option"
  libFile :: "string option"
  isRoot :: bool

datatype 'c SimScript = SimScript (node: "'c ScriptNode") (subScripts: "(string \<times> 'c SimScript) list")

definition PROP_NAME_SIMULATOR_URL :: string where "PROP_NAME_SIMULATOR_URL = ''simulator.url''"
definition PROP_NAME_SIMULATOR_NAME :: string where "PROP_NAME_SIMULATOR_NAME = ''simulator.name''"
definition SCRIPT_EXT :: string where "SCRIPT_EXT = ''.sim''"
definition ZIP_EXT :: string where "ZIP_EXT = ''.zip''"
definition IGNORE_EXT :: string where "IGNORE_EXT = ''.ignore''"
definition LIB_DIR :: string where "LIB_DIR = ''lib''"
definition INIT_FILE :: string where "INIT_FILE = ''init.properties''"

definition setProperty :: "'c ConfigOps \<Rightarrow> string \<Rightarrow> string \<Rightarrow> 'c ScriptNode \<Rightarrow> 'c ScriptNode" where
  "setProperty cf propName value n =
    n\<lparr>localConfig := cf_set cf propName value (localConfig n),
      config := cf_set cf propName value (config n)\<rparr>"

definition copyProperty :: "'c ConfigOps \<Rightarrow> 'c \<Rightarrow> 'c ScriptNode \<Rightarrow> 'c ScriptNode" where
  "copyProperty cf props n =
    n\<lparr>localConfig := cf_copy cf props (localConfig n), config := cf_copy cf props (config n)\<rparr>"

text \<open>The start of the three constructors; the parent's configuration is \<open>None\<close> for the root.\<close>

definition newScriptNode :: "'c ConfigOps \<Rightarrow> 'c option \<Rightarrow> string \<Rightarrow> string \<Rightarrow> 'c ScriptNode" where
  "newScriptNode cf parentConfig path uri =
    setProperty cf PROP_NAME_SIMULATOR_URL uri
      \<lparr>templatePairs = [],
       config = (case parentConfig of None \<Rightarrow> cf_new cf | Some c \<Rightarrow> cf_copy cf c (cf_new cf)),
       localConfig = cf_new cf, ignored = False, myself = Some path, libFile = None,
       isRoot = (parentConfig = None)\<rparr>"

definition getSimulatorName :: "'c ConfigOps \<Rightarrow> 'c ScriptNode \<Rightarrow> string option" where
  "getSimulatorName cf n = (if isRoot n then Some ''root'' else cf_get cf (config n) PROP_NAME_SIMULATOR_NAME)"

definition isValid :: "'c ConfigOps \<Rightarrow> 'c ScriptNode \<Rightarrow> bool" where
  "isValid cf n \<longleftrightarrow> getSimulatorName cf n \<noteq> None"

definition getProperty :: "'c ConfigOps \<Rightarrow> string \<Rightarrow> 'c ScriptNode \<Rightarrow> string option" where
  "getProperty cf propName n = cf_get cf (config n) propName"

definition getMandatoryProperty :: "'c ConfigOps \<Rightarrow> string \<Rightarrow> string \<Rightarrow> 'c ScriptNode \<Rightarrow> string res" where
  "getMandatoryProperty cf propName errMsg n =
    (case cf_get cf (config n) propName of None \<Rightarrow> Raise (RuntimeException errMsg) | Some s \<Rightarrow> Ret s)"

text \<open>The rules of a script and of its ancestors, nearest first.\<close>

definition getEffectiveTemplatePairs :: "'c ScriptNode list \<Rightarrow> 'c ScriptNode \<Rightarrow> TemplatePair list" where
  "getEffectiveTemplatePairs parents n = templatePairs n @ concat (map templatePairs parents)"

section \<open>Folders\<close>

text \<open>The listing of a directory in the order of \<open>File.listFiles\<close>.\<close>

datatype FsNode =
    FsFile (fs_name: string) string
  | FsDir (fs_name: string) "FsNode list"

fun isFsFile :: "FsNode \<Rightarrow> bool" where
  "isFsFile (FsFile _ _) = True"
| "isFsFile (FsDir _ _) = False"

definition acceptsScriptFile :: "FsNode \<Rightarrow> bool" where
  "acceptsScriptFile f \<longleftrightarrow>
    isFsFile f \<and> (endsWith (fs_name f) SCRIPT_EXT \<or> endsWith (fs_name f) IGNORE_EXT \<or> fs_name f = INIT_FILE) \<or>
    \<not> isFsFile f"

text \<open>
  What the loaders use besides the configuration: the body engines and the URL of a path. The
  loop of \<open>loadFolder(File)\<close> gets every entry with the loader of the sub-folder it would be.
\<close>

record 'c LoadEnv =
  le_engines :: Engines
  le_config :: "'c ConfigOps"
  le_toURI :: "string \<Rightarrow> string"

type_synonym 'c loader = "'c \<Rightarrow> string \<Rightarrow> 'c SimScript res"

definition addPairs :: "TemplatePair list \<Rightarrow> 'c ScriptNode \<Rightarrow> 'c ScriptNode" where
  "addPairs ps n = n\<lparr>templatePairs := templatePairs n @ ps\<rparr>"

fun loadEntries :: "'c LoadEnv \<Rightarrow> bool \<Rightarrow> (FsNode \<times> 'c loader) list \<Rightarrow> string
    \<Rightarrow> 'c ScriptNode \<Rightarrow> (string \<times> 'c SimScript) list \<Rightarrow> 'c SimScript res" where
  "loadEntries env sub [] path n subs = Ret (SimScript n subs)"
| "loadEntries env sub ((FsFile name content, ld) # es) path n subs =
    (if name = INIT_FILE then
       bindE (cf_read (le_config env) content) (\<lambda>props.
         loadEntries env sub es path (copyProperty (le_config env) props n) subs)
     else if endsWith name SCRIPT_EXT then
       bindE (load (le_engines env) content) (\<lambda>ps.
         loadEntries env sub es path (addPairs ps n) subs)
     else if endsWith name IGNORE_EXT then Ret (SimScript (n\<lparr>ignored := True\<rparr>) subs)
     else loadEntries env sub es path n subs)"
| "loadEntries env sub ((FsDir name children, ld) # es) path n subs =
    (if name = LIB_DIR then
       loadEntries env sub es path (n\<lparr>libFile := Some (path @ ''/'' @ name)\<rparr>) subs
     else if sub then
       bindE (ld (config n) (path @ ''/'' @ name)) (\<lambda>s.
         loadEntries env sub es path n (if ignored (node s) then subs else jput name s subs))
     else loadEntries env sub es path n subs)"

text \<open>The accepted entries, plain files first (the sort is stable).\<close>

definition sortEntries :: "(FsNode \<times> 'a) list \<Rightarrow> (FsNode \<times> 'a) list" where
  "sortEntries es =
    (let acc = filter (acceptsScriptFile \<circ> fst) es in
     filter (isFsFile \<circ> fst) acc @ filter (Not \<circ> isFsFile \<circ> fst) acc)"

text \<open>\<open>SimScript(SimScript, File)\<close>\<close>

primrec newSimScript :: "'c LoadEnv \<Rightarrow> FsNode \<Rightarrow> 'c loader" where
  "newSimScript env (FsFile name content) = (\<lambda>parentConfig path. Raise (IOException (''no folder ['' @ path @ ''] exists'')))"
| "newSimScript env (FsDir name children) = (\<lambda>parentConfig path.
     loadEntries env True (sortEntries (map (\<lambda>f. (f, newSimScript env f)) children)) path
       (newScriptNode (le_config env) (Some parentConfig) path (le_toURI env path)) [])"

text \<open>\<open>SimScript(File)\<close>, the root: no parent and no sub-folders.\<close>

definition newRootScript :: "'c LoadEnv \<Rightarrow> FsNode list \<Rightarrow> string \<Rightarrow> 'c SimScript res" where
  "newRootScript env children path =
    loadEntries env False (sortEntries (map (\<lambda>f. (f, newSimScript env f)) children)) path
      (newScriptNode (le_config env) None path (le_toURI env path)) []"

section \<open>Folders sent over the wire\<close>

datatype SimulatorFolder =
  SimulatorFolder (sf_name: string) (sf_files: "(string \<times> string) list") (sf_subFolders: "SimulatorFolder list")

text \<open>\<open>SimulatorFile.loadContent\<close> ends every line with a line feed.\<close>

definition loadContent :: "string \<Rightarrow> string" where
  "loadContent s = concat (map (\<lambda>l. l @ [nl]) (readLines s))"

definition acceptsFolderFile :: "FsNode \<Rightarrow> bool" where
  "acceptsFolderFile f \<longleftrightarrow>
    \<not> isFsFile f \<or> endsWith (fs_name f) SCRIPT_EXT \<or> fs_name f = INIT_FILE \<or> endsWith (fs_name f) IGNORE_EXT"

text \<open>\<open>SimulatorFolder(File)\<close> on a directory: the accepted files and, apart, the sub-folders.\<close>

fun folderFile :: "FsNode \<Rightarrow> (string \<times> string) list" where
  "folderFile (FsFile name content) =
    (if acceptsFolderFile (FsFile name content) then [(name, loadContent content)] else [])"
| "folderFile (FsDir name children) = []"

primrec newSimulatorFolder :: "FsNode \<Rightarrow> SimulatorFolder" where
  "newSimulatorFolder (FsFile name content) = SimulatorFolder name [] []"
| "newSimulatorFolder (FsDir name children) =
    SimulatorFolder name (concat (map folderFile children))
      (map snd (filter (Not \<circ> isFsFile \<circ> fst) (map (\<lambda>f. (f, newSimulatorFolder f)) children)))"

text \<open>\<open>loadFolder(SimulatorFolder)\<close>: the loop over the files stops at an ignore file, the loop
  over the sub-folders runs in any case.\<close>

fun loadFolderFiles :: "'c LoadEnv \<Rightarrow> (string \<times> string) list \<Rightarrow> 'c ScriptNode \<Rightarrow> 'c ScriptNode res" where
  "loadFolderFiles env [] n = Ret n"
| "loadFolderFiles env ((name, content) # fs) n =
    (if name = INIT_FILE then
       bindE (cf_props (le_config env) content) (\<lambda>conf.
         loadFolderFiles env fs (copyProperty (le_config env) conf n))
     else if endsWith name SCRIPT_EXT then
       bindE (load (le_engines env) content) (\<lambda>ps. loadFolderFiles env fs (addPairs ps n))
     else if endsWith name IGNORE_EXT then Ret (n\<lparr>ignored := True\<rparr>)
     else loadFolderFiles env fs n)"

fun loadSubFolders :: "(string \<times> 'c loader) list \<Rightarrow> string \<Rightarrow> 'c ScriptNode
    \<Rightarrow> (string \<times> 'c SimScript) list \<Rightarrow> 'c SimScript res" where
  "loadSubFolders [] path n subs = Ret (SimScript n subs)"
| "loadSubFolders ((name, ld) # fs) path n subs =
    bindE (ld (config n) (path @ name)) (\<lambda>s.
      loadSubFolders fs path n (if ignored (node s) then subs else jput name s subs))"

text \<open>\<open>SimScript(SimScript, SimulatorFolder)\<close>; the path stands for \<open>parent + folder.getName()\<close>.\<close>

primrec newFolderScript :: "'c LoadEnv \<Rightarrow> SimulatorFolder \<Rightarrow> 'c loader" where
  "newFolderScript env (SimulatorFolder name files subFolders) = (\<lambda>parentConfig path.
     bindE (loadFolderFiles env files
         (newScriptNode (le_config env) (Some parentConfig) path (le_toURI env path))) (\<lambda>n.
       loadSubFolders (map (\<lambda>f. (sf_name f, newFolderScript env f)) subFolders) path n []))"

end
