(* ===== verification/ScriptSpec.thy ===== *)
theory ScriptSpec
  imports Script RequestSpec ResponseSpec
begin

text \<open>
  What loading promises: a printed script is read back rule by rule, an empty block hides
  everything after it, the two folder loaders agree, and a script's configuration is its
  parent's overridden by its own.
\<close>

section \<open>Blocks\<close>

definition plainLine :: "string \<Rightarrow> bool" where
  "plainLine l \<longleftrightarrow> \<not> startsWith l RESP_START \<and> l \<noteq> SEP_LINE"

definition groupOk :: "string list \<Rightarrow> bool" where
  "groupOk ls \<longleftrightarrow> ls \<noteq> [] \<and> hd ls \<noteq> [] \<and> last ls \<noteq> []"

definition blockOk :: "string list list \<Rightarrow> bool" where
  "blockOk b \<longleftrightarrow> 2 \<le> length b \<and> list_all groupOk b \<and> list_all plainLine (hd b) \<and>
     list_all (\<lambda>ls. startsWith (hd ls) RESP_START \<and> list_all plainLine (tl ls)) (tl b)"

lemma addLines_groupOk: "groupOk ls \<Longrightarrow> addLines ret ls = ret @ [ls]"
  by (simp add: groupOk_def addLines_def dropEmptyFirst_def dropEmptyLast_def)

lemma RESP_not_SEP: "startsWith l RESP_START \<Longrightarrow> l \<noteq> SEP_LINE"
  by (auto simp: startsWith_def RESP_START_def SEP_LINE_def)

lemma reqRespLoop_plain:
  "list_all plainLine ls \<Longrightarrow> reqRespLoop (ls @ rest) ret lines = reqRespLoop rest ret (lines @ ls)"
  by (induction ls arbitrary: lines) (auto simp: plainLine_def)

lemma reqRespLoop_resps:
  "list_all (\<lambda>ls. startsWith (hd ls) RESP_START \<and> list_all plainLine (tl ls)) rs \<Longrightarrow>
   list_all groupOk (lines # rs) \<Longrightarrow>
   reqRespLoop (concat rs @ SEP_LINE # rest) ret lines = (ret @ lines # rs, rest)"
proof (induction rs arbitrary: ret lines)
  case Nil
  have "\<not> startsWith SEP_LINE RESP_START" by (simp add: startsWith_def RESP_START_def SEP_LINE_def)
  with Nil show ?case by (simp add: addLines_groupOk)
next
  case (Cons r rs)
  obtain h t where r: "r = h # t" using Cons.prems(2) by (cases r) (auto simp: groupOk_def)
  have t: "list_all plainLine t" and h: "startsWith h RESP_START" using Cons.prems(1) r by auto
  have "reqRespLoop (concat (r # rs) @ SEP_LINE # rest) ret lines
    = reqRespLoop (t @ concat rs @ SEP_LINE # rest) (ret @ [lines]) [h]"
    using Cons.prems(2) h r by (simp add: addLines_groupOk)
  also have "\<dots> = reqRespLoop (concat rs @ SEP_LINE # rest) (ret @ [lines]) r"
    using reqRespLoop_plain [OF t] r by simp
  finally show ?case using Cons by simp
qed

lemma loadReqResp_block:
  assumes "blockOk b"
  shows "loadReqResp (concat b @ SEP_LINE # rest) = Ret (Some b, rest)"
proof -
  obtain rq rs where b: "b = rq # rs" using assms by (cases b) (auto simp: blockOk_def)
  with assms have ne: "rs \<noteq> []" by (auto simp: blockOk_def)
  have "reqRespLoop (concat b @ SEP_LINE # rest) [] [] = (b, rest)"
    using assms reqRespLoop_plain [of rq "concat rs @ SEP_LINE # rest" "[]" "[]"]
      reqRespLoop_resps [of rs rq rest "[]"]
    by (simp add: b blockOk_def)
  then show ?thesis using b ne by (cases rs) (simp_all add: loadReqResp_def)
qed

definition blocksLines :: "string list list list \<Rightarrow> string list" where
  "blocksLines bs = concat (map (\<lambda>b. concat b @ [SEP_LINE]) bs)"

lemma loadLines_blocks:
  "list_all blockOk bs \<Longrightarrow>
   loadLines eng (blocksLines bs @ rest) =
     bindE (mapE (pairOfBlock eng) bs) (\<lambda>ps. bindE (loadLines eng rest) (\<lambda>qs. Ret (ps @ qs)))"
proof (induction bs)
  case Nil
  show ?case by (cases "loadLines eng rest") (simp_all add: blocksLines_def)
next
  case (Cons b bs)
  have "loadReqResp (blocksLines (b # bs) @ rest) = Ret (Some b, blocksLines bs @ rest)"
    using loadReqResp_block [of b "blocksLines bs @ rest"] Cons.prems by (simp add: blocksLines_def)
  then show ?case
    using Cons by (subst loadLines.simps) (simp add: bindE_assoc)
qed

lemma loadLines_Nil: "loadLines eng [] = Ret []"
  by (subst loadLines.simps) (simp add: loadReqResp_def addLines_def dropEmptyFirst_def dropEmptyLast_def)

lemma loadLines_SEP: "loadLines eng (SEP_LINE # rest) = Ret []"
proof -
  have "\<not> startsWith SEP_LINE RESP_START" by (simp add: startsWith_def RESP_START_def SEP_LINE_def)
  then show ?thesis
    by (subst loadLines.simps) (simp add: loadReqResp_def addLines_def dropEmptyFirst_def dropEmptyLast_def)
qed

section \<open>Scripts\<close>

definition pairBlock :: "TemplatePair \<Rightarrow> string list list" where
  "pairBlock p = readLines (printRequestTemplate (tp_req p)) # map (readLines \<circ> printResponseTemplate) (tp_resps p)"

definition rulePairOk :: "Engines \<Rightarrow> TemplatePair \<Rightarrow> bool" where
  "rulePairOk eng p \<longleftrightarrow> requestTemplateOk eng (tp_req p) \<and> list_all responseTemplateOk (tp_resps p) \<and>
     blockOk (pairBlock p)"

definition scriptText :: "string list \<Rightarrow> string" where
  "scriptText ls = concat (map (\<lambda>l. l @ [nl]) ls)"

definition printScript :: "TemplatePair list \<Rightarrow> string" where
  "printScript ps = scriptText (blocksLines (map pairBlock ps))"

lemma readLines_scriptText: "list_all lineFree ls \<Longrightarrow> readLines (scriptText ls) = ls"
  using readLines_lines [of ls "[]"] by (simp add: scriptText_def)

lemma blockText_lines: "list_all lineFree ls \<Longrightarrow> groupOk ls \<Longrightarrow> readLines (blockText ls) = ls"
  by (simp add: blockText_def concatContent_def concatContentDelim_def groupOk_def readLines_concatLines)

lemma newSimRequestTemplate_lines:
  "readLines s = readLines s' \<Longrightarrow> newSimRequestTemplate eng s = newSimRequestTemplate eng s'"
  by (simp add: newSimRequestTemplate_def)

lemma newSimResponseTemplate_lines:
  "readLines s = readLines s' \<Longrightarrow> newSimResponseTemplate s = newSimResponseTemplate s'"
  by (simp add: newSimResponseTemplate_def)

lemma readLines_lineFree_all: "list_all lineFree (readLines s)"
  using readLines_lineFree by (auto simp: list_all_iff)

lemma blockText_readLines: "groupOk (readLines s) \<Longrightarrow> readLines (blockText (readLines s)) = readLines s"
  by (simp add: blockText_lines readLines_lineFree_all)

lemma pairOfBlock_pairBlock:
  assumes "rulePairOk eng p"
  shows "pairOfBlock eng (pairBlock p) = Ret p"
proof -
  have g: "groupOk (readLines (printRequestTemplate (tp_req p)))"
    "\<forall>t\<in>set (tp_resps p). groupOk (readLines (printResponseTemplate t))"
    using assms by (auto simp: rulePairOk_def blockOk_def pairBlock_def list_all_iff)
  have rq: "newSimRequestTemplate eng (blockText (readLines (printRequestTemplate (tp_req p)))) = Ret (tp_req p)"
    using newSimRequestTemplate_lines [OF blockText_readLines [OF g(1)]] newSimRequestTemplate_print assms
    by (simp add: rulePairOk_def)
  have "newSimResponseTemplate (blockText (readLines (printResponseTemplate t))) = Ret t"
    if "t \<in> set (tp_resps p)" for t
    using newSimResponseTemplate_lines [OF blockText_readLines] newSimResponseTemplate_print g(2) assms that
    by (simp add: rulePairOk_def list_all_iff)
  then have "mapE (\<lambda>ls. newSimResponseTemplate (blockText ls)) (map (readLines \<circ> printResponseTemplate) (tp_resps p))
      = Ret (tp_resps p)"
    by (induction "tp_resps p" arbitrary: p rule: list.induct) (simp_all add: mapE_Inr_conv list_all2_conv_all_nth)
  with rq show ?thesis by (simp add: pairOfBlock_def pairBlock_def)
qed

lemma printScript_lineFree: "list_all lineFree (blocksLines (map pairBlock ps))"
  using readLines_lineFree
  by (fastforce simp: blocksLines_def pairBlock_def list_all_iff lineFree_def SEP_LINE_def nl_def cr_def)

lemma load_printScript_append:
  assumes "list_all (rulePairOk eng) ps"
  shows "load eng (printScript ps @ s) = bindE (load eng s) (\<lambda>qs. Ret (ps @ qs))"
proof -
  have "readLines (printScript ps @ s) = blocksLines (map pairBlock ps) @ readLines s"
    using readLines_lines [OF printScript_lineFree] by (simp add: printScript_def scriptText_def)
  moreover have "list_all blockOk (map pairBlock ps)"
    using assms by (auto simp: list_all_iff rulePairOk_def)
  moreover have "mapE (pairOfBlock eng) (map pairBlock ps) = Ret ps"
    using assms pairOfBlock_pairBlock by (induction ps) auto
  ultimately show ?thesis by (simp add: load_def loadLines_blocks)
qed

text \<open>C2: well formed rules, written out one after the other with a separator line after each, are
  loaded as themselves, in order, and the text after them is loaded as if it stood alone.\<close>

theorem load_printScript:
  assumes "list_all (rulePairOk eng) ps"
  shows "load eng (printScript ps @ s) = bindE (load eng s) (\<lambda>qs. Ret (ps @ qs))"
  using assms by (rule load_printScript_append)

definition samplePair :: TemplatePair where
  "samplePair = \<lparr>tp_req = sampleTemplate, tp_resps = [sampleResponse, sampleResponse]\<rparr>"

lemma samplePair_ok: "rulePairOk plainEngines samplePair"
proof -
  have "blockOk (pairBlock samplePair)" by code_simp
  then show ?thesis
    using sampleTemplate_ok sampleResponse_ok by (simp add: rulePairOk_def samplePair_def)
qed

theorem load_printScript_witness:
  "load plainEngines (printScript [samplePair, samplePair] @ ''x'') = Raise (IOException ''Last request has no response'')"
proof -
  have "load plainEngines ''x'' = Raise (IOException ''Last request has no response'')"
    by code_simp
  then show ?thesis
    using load_printScript [of plainEngines "[samplePair, samplePair]" "''x''"] samplePair_ok by simp
qed

text \<open>Two separator lines in a row end the loading without an error: the rules after them are
  not loaded.\<close>

theorem load_empty_block:
  assumes "list_all (rulePairOk eng) ps"
  shows "load eng (printScript ps @ SEP_LINE @ nl # rest) = Ret ps"
proof -
  have "lineFree SEP_LINE" by (simp add: lineFree_def SEP_LINE_def nl_def cr_def)
  then have "load eng (SEP_LINE @ nl # rest) = Ret []"
    by (simp add: load_def readLines_nl loadLines_SEP)
  then show ?thesis by (simp add: load_printScript_append [OF assms])
qed

theorem load_empty_block_witness:
  "load plainEngines (printScript [samplePair] @ SEP_LINE @ nl # printScript [samplePair]) = Ret [samplePair]"
  using load_empty_block [of plainEngines "[samplePair]"] samplePair_ok by simp

section \<open>The two folder loaders\<close>

text \<open>What a script does is decided by its rules and its sub-scripts' rules.\<close>

datatype RuleTree = RuleTree "TemplatePair list" "(string \<times> RuleTree) list"

primrec ruleTree :: "'c SimScript \<Rightarrow> RuleTree" where
  "ruleTree (SimScript n subs) = RuleTree (templatePairs n) (map (map_prod id ruleTree) subs)"

text \<open>The rules of the plain files of a folder, and whether an ignore file ended the loop.\<close>

fun fileRules :: "Engines \<Rightarrow> (string \<times> string) list \<Rightarrow> (TemplatePair list \<times> bool) res" where
  "fileRules eng [] = Ret ([], False)"
| "fileRules eng ((name, content) # fs) =
    (if name = INIT_FILE then fileRules eng fs
     else if endsWith name SCRIPT_EXT then
       bindE (load eng content) (\<lambda>ps. bindE (fileRules eng fs) (\<lambda>(qs, ig). Ret (ps @ qs, ig)))
     else if endsWith name IGNORE_EXT then Ret ([], True)
     else fileRules eng fs)"

lemma load_loadContent: "load eng (loadContent s) = load eng s"
  using readLines_scriptText [OF readLines_lineFree_all, of s]
  by (simp add: load_def loadContent_def scriptText_def)

text \<open>What the loop over the files does to a node.\<close>

definition after :: "Engines \<Rightarrow> (string \<times> string) list \<Rightarrow> 'c ScriptNode \<Rightarrow> 'c ScriptNode \<Rightarrow> bool \<Rightarrow> bool" where
  "after eng fs n n' ig \<longleftrightarrow> (\<exists>ps. fileRules eng fs = Ret (ps, ig) \<and>
     templatePairs n' = templatePairs n @ ps \<and> ignored n' = (ignored n \<or> ig))"

lemma after_Nil: "after eng [] n n False"
  by (simp add: after_def)

lemma after_init:
  "after eng fs (copyProperty cf props n) n' ig \<Longrightarrow> name = INIT_FILE \<Longrightarrow> after eng ((name, c) # fs) n n' ig"
  by (simp add: after_def copyProperty_def)

lemma after_sim:
  "load eng c = Ret qs \<Longrightarrow> after eng fs (addPairs qs n) n' ig \<Longrightarrow> name \<noteq> INIT_FILE \<Longrightarrow>
   endsWith name SCRIPT_EXT \<Longrightarrow> after eng ((name, c) # fs) n n' ig"
  by (auto simp: after_def addPairs_def)

lemma after_ignore:
  "name \<noteq> INIT_FILE \<Longrightarrow> \<not> endsWith name SCRIPT_EXT \<Longrightarrow> endsWith name IGNORE_EXT \<Longrightarrow>
   after eng ((name, c) # fs) n (n\<lparr>ignored := True\<rparr>) True"
  by (simp add: after_def)

lemma after_other:
  "after eng fs n n' ig \<Longrightarrow> name \<noteq> INIT_FILE \<Longrightarrow> \<not> endsWith name SCRIPT_EXT \<Longrightarrow>
   \<not> endsWith name IGNORE_EXT \<Longrightarrow> after eng ((name, c) # fs) n n' ig"
  by (simp add: after_def)

lemma loadFolderFiles_after:
  "loadFolderFiles env fs n = Ret n' \<Longrightarrow> \<exists>ig. after (le_engines env) fs n n' ig"
proof (induction fs arbitrary: n)
  case Nil
  then show ?case using after_Nil by auto
next
  case (Cons f fs)
  obtain name c where f: "f = (name, c)" by (cases f)
  show ?case
    using Cons.prems Cons.IH unfolding f
    by (auto elim!: bindE_InrE split: if_splits intro: after_ignore)
      (metis after_init after_sim after_other)+
qed

fun fileParts :: "FsNode \<Rightarrow> string \<times> string" where
  "fileParts (FsFile name content) = (name, content)"
| "fileParts (FsDir name children) = (name, [])"

lemma loadEntries_after:
  "loadEntries env sub (fs @ ds) path n subs = Ret s \<Longrightarrow> list_all (isFsFile \<circ> fst) fs \<Longrightarrow>
   \<exists>ig n'. after (le_engines env) (map (fileParts \<circ> fst) fs) n n' ig \<and>
     (if ig then s = SimScript n' subs else loadEntries env sub ds path n' subs = Ret s)"
proof (induction fs arbitrary: n)
  case Nil
  then show ?case using after_Nil by fastforce
next
  case (Cons f fs)
  obtain name c ld where f: "f = (FsFile name c, ld)"
    using Cons.prems(2) by (cases f; cases "fst f") auto
  have fs: "list_all (isFsFile \<circ> fst) fs" using Cons.prems(2) by (simp add: comp_def)
  consider (init) "name = INIT_FILE" | (sim) "name \<noteq> INIT_FILE" "endsWith name SCRIPT_EXT"
    | (ign) "name \<noteq> INIT_FILE" "\<not> endsWith name SCRIPT_EXT" "endsWith name IGNORE_EXT"
    | (other) "name \<noteq> INIT_FILE" "\<not> endsWith name SCRIPT_EXT" "\<not> endsWith name IGNORE_EXT"
    by blast
  then show ?case
  proof cases
    case init
    with Cons.prems(1) f obtain props where
      "loadEntries env sub (fs @ ds) path (copyProperty (le_config env) props n) subs = Ret s"
      by (auto elim!: bindE_InrE)
    from Cons.IH [OF this fs] obtain ig n' where
      "after (le_engines env) (map (fileParts \<circ> fst) fs) (copyProperty (le_config env) props n) n' ig"
      and last: "if ig then s = SimScript n' subs else loadEntries env sub ds path n' subs = Ret s"
      by blast
    then have "after (le_engines env) (map (fileParts \<circ> fst) (f # fs)) n n' ig"
      using f init by (simp add: after_init)
    with last show ?thesis by blast
  next
    case sim
    with Cons.prems(1) f obtain qs where q: "load (le_engines env) c = Ret qs"
      and "loadEntries env sub (fs @ ds) path (addPairs qs n) subs = Ret s"
      by (auto elim!: bindE_InrE)
    from Cons.IH [OF this(2) fs] obtain ig n' where
      "after (le_engines env) (map (fileParts \<circ> fst) fs) (addPairs qs n) n' ig"
      and last: "if ig then s = SimScript n' subs else loadEntries env sub ds path n' subs = Ret s"
      by blast
    then have "after (le_engines env) (map (fileParts \<circ> fst) (f # fs)) n n' ig"
      using f sim by (simp add: after_sim [OF q])
    with last show ?thesis by blast
  next
    case ign
    with Cons.prems(1) f have "s = SimScript (n\<lparr>ignored := True\<rparr>) subs" by simp
    then have "if True then s = SimScript (n\<lparr>ignored := True\<rparr>) subs else loadEntries env sub ds path n subs = Ret s"
      by simp
    moreover have "after (le_engines env) (map (fileParts \<circ> fst) (f # fs)) n (n\<lparr>ignored := True\<rparr>) True"
      using f after_ignore [OF ign] by simp
    ultimately show ?thesis by (metis (full_types))
  next
    case other
    with Cons.prems(1) f have "loadEntries env sub (fs @ ds) path n subs = Ret s" by simp
    from Cons.IH [OF this fs] obtain ig n' where
      "after (le_engines env) (map (fileParts \<circ> fst) fs) n n' ig"
      and last: "if ig then s = SimScript n' subs else loadEntries env sub ds path n' subs = Ret s"
      by blast
    then have "after (le_engines env) (map (fileParts \<circ> fst) (f # fs)) n n' ig"
      using f other by (simp add: after_other)
    with last show ?thesis by blast
  qed
qed

text \<open>Both loaders see the same files.\<close>

lemma folderFiles_eq:
  "fileRules eng (concat (map folderFile es))
    = fileRules eng (map fileParts (filter isFsFile (filter acceptsScriptFile es)))"
proof (induction es)
  case (Cons e es)
  show ?case
  proof (cases e)
    case (FsFile name c)
    with Cons show ?thesis
      by (auto simp: acceptsFolderFile_def acceptsScriptFile_def load_loadContent)
  qed (use Cons in \<open>simp add: acceptsScriptFile_def\<close>)
qed simp

definition subTrees :: "(string \<times> 'c SimScript) list \<Rightarrow> (string \<times> RuleTree) list" where
  "subTrees subs = map (map_prod id ruleTree) subs"

lemma subTrees_jput: "subTrees (jput k s subs) = jput k (ruleTree s) (subTrees subs)"
  unfolding subTrees_def jput_def by (induction subs) auto

lemma ruleTree_subTrees: "ruleTree (SimScript n subs) = RuleTree (templatePairs n) (subTrees subs)"
  by (simp add: subTrees_def)

lemma sortEntries_map:
  "sortEntries (map (\<lambda>f. (f, g f)) es) =
    map (\<lambda>f. (f, g f)) (filter isFsFile (filter acceptsScriptFile es)) @
    map (\<lambda>f. (f, g f)) (filter (Not \<circ> isFsFile) es)"
proof -
  have "filter (\<lambda>f. \<not> isFsFile f) (filter acceptsScriptFile es) = filter (\<lambda>f. \<not> isFsFile f) es"
    unfolding filter_filter by (rule filter_cong) (auto simp: acceptsScriptFile_def)
  then show ?thesis by (simp add: sortEntries_def filter_map comp_def del: filter_filter)
qed

text \<open>No sub-folder is a library folder, which only one of the loaders leaves out.\<close>

primrec libFree :: "FsNode \<Rightarrow> bool" where
  "libFree (FsFile name content) = True"
| "libFree (FsDir name children) =
    list_all (\<lambda>(f, ok). ok \<and> (isFsFile f \<or> fs_name f \<noteq> LIB_DIR)) (map (\<lambda>f. (f, libFree f)) children)"

text \<open>Two scripts a parent treats alike: both are ignored, or their rules are the same.\<close>

definition sameRules :: "'c SimScript \<Rightarrow> 'd SimScript \<Rightarrow> bool" where
  "sameRules s s' \<longleftrightarrow> ignored (node s) = ignored (node s') \<and>
     (\<not> ignored (node s) \<longrightarrow> ruleTree s = ruleTree s')"

lemma sub_folders_agree:
  assumes "\<And>f. f \<in> set ds \<Longrightarrow> \<not> isFsFile f \<and> fs_name f \<noteq> LIB_DIR"
    and "\<And>f c p c' p' s s'. f \<in> set ds \<Longrightarrow> ld f c p = Ret s \<Longrightarrow> ld' f c' p' = Ret s' \<Longrightarrow> sameRules s s'"
    and "loadEntries env True (map (\<lambda>f. (f, ld f)) ds) path n subs = Ret s"
    and "loadSubFolders (map (\<lambda>f. (fs_name f, ld' f)) ds) path' n' subs' = Ret s'"
    and "templatePairs n = templatePairs n'" and "ignored n = ignored n'"
    and "subTrees subs = subTrees subs'"
  shows "ignored (node s) = ignored (node s') \<and> ruleTree s = ruleTree s'"
  using assms
proof (induction ds arbitrary: subs subs')
  case Nil
  then have "s = SimScript n subs" and "s' = SimScript n' subs'" by simp_all
  with Nil.prems(5-7) show ?case by (simp only: ruleTree_subTrees SimScript.sel)
next
  case (Cons d ds)
  obtain name es where d: "d = FsDir name es" "name \<noteq> LIB_DIR" using Cons.prems(1) [of d] by (cases d) auto
  from Cons.prems(3) d obtain t where t: "ld d (config n) (path @ ''/'' @ name) = Ret t"
    and l: "loadEntries env True (map (\<lambda>f. (f, ld f)) ds) path n (if ignored (node t) then subs else jput name t subs) = Ret s"
    by (auto elim!: bindE_InrE)
  from Cons.prems(4) d obtain t' where t': "ld' d (config n') (path' @ name) = Ret t'"
    and l': "loadSubFolders (map (\<lambda>f. (fs_name f, ld' f)) ds) path' n' (if ignored (node t') then subs' else jput name t' subs') = Ret s'"
    by (auto elim!: bindE_InrE)
  have "sameRules t t'" using Cons.prems(2) [OF _ t t'] by simp
  then have "subTrees (if ignored (node t) then subs else jput name t subs)
    = subTrees (if ignored (node t') then subs' else jput name t' subs')"
    using Cons.prems(7) by (auto simp: sameRules_def subTrees_jput)
  note IH = Cons.IH [OF _ _ l l' Cons.prems(5,6) this]
  show ?case
  proof (rule IH)
    fix f assume "f \<in> set ds"
    then show "\<not> isFsFile f \<and> fs_name f \<noteq> LIB_DIR" using Cons.prems(1) by simp
  next
    fix f c p c' p' t t'
    assume "f \<in> set ds" "ld f c p = Ret t" "ld' f c' p' = Ret t'"
    then show "sameRules t t'" by (intro Cons.prems(2)) auto
  qed
qed

lemma loadSubFolders_node: "loadSubFolders fs path n subs = Ret s \<Longrightarrow> node s = n"
  by (induction fs path n subs rule: loadSubFolders.induct) (auto elim!: bindE_InrE)

lemma loaders_agree:
  "newSimScript env f c p = Ret s \<Longrightarrow> newFolderScript env' (newSimulatorFolder f) c' p' = Ret s' \<Longrightarrow>
   le_engines env = le_engines env' \<Longrightarrow> libFree f \<Longrightarrow> sameRules s s'"
proof (induction f arbitrary: c p s c' p' s')
  case (FsDir name es)
  let ?ds = "filter (Not \<circ> isFsFile) es" and ?fs = "filter isFsFile (filter acceptsScriptFile es)"
  let ?n = "newScriptNode (le_config env) (Some c) p (le_toURI env p)"
  let ?n' = "newScriptNode (le_config env') (Some c') p' (le_toURI env' p')"
  have init: "templatePairs ?n = []" "templatePairs ?n' = []" "\<not> ignored ?n" "\<not> ignored ?n'"
    by (simp_all add: newScriptNode_def setProperty_def)
  from FsDir.prems(1) have "loadEntries env True (map (\<lambda>f. (f, newSimScript env f)) ?fs
      @ map (\<lambda>f. (f, newSimScript env f)) ?ds) p ?n [] = Ret s"
    by (simp add: sortEntries_map)
  from loadEntries_after [OF this] obtain ig n where
    1: "after (le_engines env) (map fileParts ?fs) ?n n ig" and
    2: "if ig then s = SimScript n [] else loadEntries env True (map (\<lambda>f. (f, newSimScript env f)) ?ds) p n [] = Ret s"
    by (auto simp: list_all_iff comp_def)
  have subs: "map (\<lambda>g. (sf_name g, newFolderScript env' g))
      (map snd (filter (Not \<circ> isFsFile \<circ> fst) (map (\<lambda>f. (f, newSimulatorFolder f)) es)))
      = map (\<lambda>f. (fs_name f, newFolderScript env' (newSimulatorFolder f))) ?ds"
  proof -
    have "sf_name (newSimulatorFolder f) = fs_name f" for f by (cases f) auto
    then show ?thesis by (simp add: filter_map comp_def)
  qed
  from FsDir.prems(2) subs obtain n' where
    3: "loadFolderFiles env' (concat (map folderFile es)) ?n' = Ret n'" and
    4: "loadSubFolders (map (\<lambda>f. (fs_name f, newFolderScript env' (newSimulatorFolder f))) ?ds) p' n' [] = Ret s'"
    by (auto elim!: bindE_InrE simp: comp_def)
  from loadFolderFiles_after [OF 3] obtain ig' where
    5: "after (le_engines env) (map fileParts ?fs) ?n' n' ig'"
    by (auto simp: after_def FsDir.prems(3) folderFiles_eq)
  have same: "ig' = ig" "templatePairs n = templatePairs n'" "ignored n = ig" "ignored n' = ig"
    using 1 5 init by (auto simp: after_def)
  show ?case
  proof (cases ig)
    case True
    then show ?thesis using 2 same loadSubFolders_node [OF 4] by (simp add: sameRules_def)
  next
    case False
    have ok: "\<not> isFsFile f \<and> fs_name f \<noteq> LIB_DIR \<and> libFree f \<and> f \<in> set es" if "f \<in> set ?ds" for f
      using that FsDir.prems(4) by (auto simp: list_all_iff)
    have "ignored (node s) = ignored (node s') \<and> ruleTree s = ruleTree s'"
      using ok FsDir.IH FsDir.prems(3) 2 4 False same
      by (intro sub_folders_agree [of ?ds "newSimScript env" "\<lambda>f. newFolderScript env' (newSimulatorFolder f)" env p n "[]" s p' n' "[]" s']) (auto simp: subTrees_def)
    then show ?thesis by (simp add: sameRules_def)
  qed
qed simp

text \<open>C23: a folder without library folders has the same rules, sub-script by sub-script, when it is
  loaded from the file system and when it is first read into a \<open>SimulatorFolder\<close> and loaded
  from there; and both loaders agree on whether it is ignored.\<close>

theorem loaders_same_rules:
  assumes "newSimScript env f c p = Ret s"
    and "newFolderScript env' (newSimulatorFolder f) c' p' = Ret s'"
    and "le_engines env = le_engines env'" and "libFree f"
  shows "ignored (node s) = ignored (node s') \<and> (\<not> ignored (node s) \<longrightarrow> ruleTree s = ruleTree s')"
  using loaders_agree [OF assms] by (simp add: sameRules_def)

section \<open>Configurations\<close>

text \<open>
  What the code relies on of the configuration class: a new one is empty, setting a property and
  copying a configuration overwrite. \<open>val\<close> is the raw lookup (before interpolation).
\<close>

locale script_config =
  fixes cf :: "'c ConfigOps" and val :: "'c \<Rightarrow> string \<Rightarrow> string option"
  assumes val_new: "val (cf_new cf) k = None"
    and val_set: "val (cf_set cf k v c) k' = (if k' = k then Some v else val c k')"
    and val_copy: "val (cf_copy cf s t) k = (case val s k of None \<Rightarrow> val t k | Some v \<Rightarrow> Some v)"

text \<open>The configuration of a node is that of its parent overridden by its own settings.\<close>

definition overrides :: "('c \<Rightarrow> string \<Rightarrow> string option) \<Rightarrow> 'c option \<Rightarrow> 'c ScriptNode \<Rightarrow> bool" where
  "overrides val parent n \<longleftrightarrow> (\<forall>k. val (config n) k =
     (case val (localConfig n) k of Some v \<Rightarrow> Some v
      | None \<Rightarrow> (case parent of None \<Rightarrow> None | Some c \<Rightarrow> val c k)))"

primrec inherits :: "('c \<Rightarrow> string \<Rightarrow> string option) \<Rightarrow> 'c SimScript \<Rightarrow> 'c option \<Rightarrow> bool" where
  "inherits val (SimScript n subs) = (\<lambda>parent. overrides val parent n \<and>
     list_all (\<lambda>(k, ok). ok (Some (config n))) (map (map_prod id (inherits val)) subs))"

lemma inherits_SimScript: "inherits val (SimScript n subs) parent \<longleftrightarrow> overrides val parent n \<and>
    (\<forall>(k, s) \<in> set subs. inherits val s (Some (config n)))"
  by (auto simp: list_all_iff)

declare inherits.simps [simp del]

lemma overrides_same:
  "config n' = config n \<Longrightarrow> localConfig n' = localConfig n \<Longrightarrow> overrides val parent n \<Longrightarrow> overrides val parent n'"
  by (simp add: overrides_def)

lemma overrides_addPairs [simp]: "overrides val parent n \<Longrightarrow> overrides val parent (addPairs ps n)"
  by (simp add: overrides_def addPairs_def)

lemma overrides_flags [simp]:
  "overrides val parent n \<Longrightarrow> overrides val parent (n\<lparr>ignored := b\<rparr>)"
  "overrides val parent n \<Longrightarrow> overrides val parent (n\<lparr>libFile := f\<rparr>)"
  by (simp_all add: overrides_def)

lemma sortEntries_dirs_last:
  "\<exists>fs ds. sortEntries es = fs @ ds \<and> list_all (isFsFile \<circ> fst) fs \<and> list_all (Not \<circ> isFsFile \<circ> fst) ds \<and>
     set fs \<subseteq> set es \<and> set ds \<subseteq> set es"
  by (rule exI, rule exI, rule conjI, simp add: sortEntries_def Let_def) (auto simp: list_all_iff)

definition goodLoader :: "('c \<Rightarrow> string \<Rightarrow> string option) \<Rightarrow> 'c loader \<Rightarrow> bool" where
  "goodLoader val ld \<longleftrightarrow> (\<forall>c p s. ld c p = Ret s \<longrightarrow> inherits val s (Some c))"

lemma inherits_add:
  "inherits val (SimScript n subs) parent \<Longrightarrow> inherits val t (Some (config n)) \<Longrightarrow>
   inherits val (SimScript n (if b then subs else jput name t subs)) parent"
  using set_jput [of name t subs] by (fastforce simp: inherits_SimScript)

context script_config
begin

lemma overrides_setProperty: "overrides val parent n \<Longrightarrow> overrides val parent (setProperty cf p v n)"
  by (simp add: overrides_def setProperty_def val_set)

lemma overrides_copyProperty: "overrides val parent n \<Longrightarrow> overrides val parent (copyProperty cf c n)"
  by (simp add: overrides_def copyProperty_def val_copy split: option.splits)

lemma overrides_new: "overrides val parent (newScriptNode cf parent path uri)"
  unfolding newScriptNode_def
  by (rule overrides_setProperty) (simp add: overrides_def val_new val_copy split: option.splits)

lemma loadFolderFiles_overrides:
  "le_config env = cf \<Longrightarrow> loadFolderFiles env fs n = Ret n' \<Longrightarrow> overrides val parent n \<Longrightarrow> overrides val parent n'"
  by (induction env fs n rule: loadFolderFiles.induct)
    (auto elim!: bindE_InrE split: if_splits simp: overrides_copyProperty)

lemma loadSubFolders_inherits:
  assumes "\<forall>(name, ld) \<in> set fs. goodLoader val ld"
    and "loadSubFolders fs path n subs = Ret s" and "inherits val (SimScript n subs) parent"
  shows "inherits val s parent"
  using assms
proof (induction fs path n subs rule: loadSubFolders.induct)
  case (2 name ld fs path n subs)
  from "2.prems"(2) obtain t where t: "ld (config n) (path @ name) = Ret t"
    and l: "loadSubFolders fs path n (if ignored (node t) then subs else jput name t subs) = Ret s"
    by (auto elim!: bindE_InrE)
  have "inherits val t (Some (config n))" using "2.prems"(1) t by (auto simp: goodLoader_def)
  from "2.IH" [OF t _ l inherits_add [OF "2.prems"(3) this]] "2.prems"(1) show ?case by simp
qed simp

lemma newFolderScript_inherits:
  "le_config env = cf \<Longrightarrow> newFolderScript env f c p = Ret s \<Longrightarrow> inherits val s (Some c)"
proof (induction f arbitrary: c p s)
  case (SimulatorFolder name files subFolders)
  from SimulatorFolder.prems obtain n where
    n: "loadFolderFiles env files (newScriptNode cf (Some c) p (le_toURI env p)) = Ret n" and
    l: "loadSubFolders (map (\<lambda>f. (sf_name f, newFolderScript env f)) subFolders) p n [] = Ret s"
    by (auto elim!: bindE_InrE)
  have "overrides val (Some c) n" using loadFolderFiles_overrides [OF SimulatorFolder.prems(1) n] overrides_new .
  then have "inherits val (SimScript n []) (Some c)" by (simp add: inherits_SimScript)
  with l show ?case
    using SimulatorFolder.IH SimulatorFolder.prems(1)
    by (intro loadSubFolders_inherits [OF _ l]) (auto simp: goodLoader_def)
qed

lemma loadEntries_files_overrides:
  "le_config env = cf \<Longrightarrow> list_all (isFsFile \<circ> fst) fs \<Longrightarrow> overrides val parent n \<Longrightarrow>
   loadEntries env sub (fs @ ds) path n subs = Ret s \<Longrightarrow>
   \<exists>n'. overrides val parent n' \<and> (s = SimScript n' subs \<or> loadEntries env sub ds path n' subs = Ret s)"
proof (induction fs arbitrary: n)
  case (Cons f fs)
  obtain name c ld where f: "f = (FsFile name c, ld)"
    using Cons.prems(2) by (cases f; cases "fst f") auto
  have fs: "list_all (isFsFile \<circ> fst) fs" using Cons.prems(2) by (simp add: comp_def)
  consider (init) props where "loadEntries env sub (fs @ ds) path (copyProperty (le_config env) props n) subs = Ret s"
    | (sim) ps where "loadEntries env sub (fs @ ds) path (addPairs ps n) subs = Ret s"
    | (ign) "s = SimScript (n\<lparr>ignored := True\<rparr>) subs"
    | (other) "loadEntries env sub (fs @ ds) path n subs = Ret s"
  proof (cases "name = INIT_FILE")
    case True
    with Cons.prems(4) f show thesis by (auto elim!: bindE_InrE intro: init)
  next
    case False
    with Cons.prems(4) f show thesis
      by (cases "endsWith name SCRIPT_EXT"; cases "endsWith name IGNORE_EXT")
        (auto elim!: bindE_InrE intro: sim ign other)
  qed
  then show ?case
  proof cases
    case ign
    then show ?thesis using overrides_flags(1) [OF Cons.prems(3)] by blast
  next
    case init
    then show ?thesis
      using Cons.IH [OF Cons.prems(1) fs] overrides_copyProperty [OF Cons.prems(3)] Cons.prems(1) by blast
  next
    case sim
    then show ?thesis
      using Cons.IH [OF Cons.prems(1) fs] overrides_addPairs [OF Cons.prems(3)] by blast
  next
    case other
    then show ?thesis using Cons.IH [OF Cons.prems(1) fs Cons.prems(3)] by blast
  qed
qed auto

lemma loadEntries_dirs_inherits:
  assumes "list_all (Not \<circ> isFsFile \<circ> fst) ds"
    and "\<forall>(f, ld) \<in> set ds. goodLoader val ld"
    and "loadEntries env sub ds path n subs = Ret s" and "inherits val (SimScript n subs) parent"
  shows "inherits val s parent"
  using assms
proof (induction ds arbitrary: n subs)
  case (Cons d ds)
  obtain name es ld where d: "d = (FsDir name es, ld)"
    using Cons.prems(1) by (cases d; cases "fst d") auto
  have ds: "list_all (Not \<circ> isFsFile \<circ> fst) ds" using Cons.prems(1) by (simp add: comp_def)
  have "\<exists>n' subs'. loadEntries env sub ds path n' subs' = Ret s \<and> inherits val (SimScript n' subs') parent"
  proof (cases "name = LIB_DIR \<or> \<not> sub")
    case True
    let ?n = "if name = LIB_DIR then n\<lparr>libFile := Some (path @ ''/'' @ name)\<rparr> else n"
    have "inherits val (SimScript ?n subs) parent" using Cons.prems(4) by (auto simp: inherits_SimScript)
    moreover have "loadEntries env sub ds path ?n subs = Ret s" using Cons.prems(3) d True by auto
    ultimately show ?thesis by blast
  next
    case False
    with Cons.prems(3) d obtain t where t: "ld (config n) (path @ ''/'' @ name) = Ret t"
      and l: "loadEntries env sub ds path n (if ignored (node t) then subs else jput name t subs) = Ret s"
      by (auto elim!: bindE_InrE)
    have "inherits val t (Some (config n))" using Cons.prems(2) t d by (auto simp: goodLoader_def)
    from l inherits_add [OF Cons.prems(4) this] show ?thesis by blast
  qed
  then obtain n' subs' where "loadEntries env sub ds path n' subs' = Ret s"
    and "inherits val (SimScript n' subs') parent" by blast
  then show ?case using Cons.IH [OF ds] Cons.prems(2) by simp
qed simp

lemma loadEntries_inherits:
  assumes "le_config env = cf" and "overrides val parent n"
    and "\<forall>(f, ld) \<in> set es. goodLoader val ld"
    and "loadEntries env sub (sortEntries es) path n [] = Ret s"
  shows "inherits val s parent"
proof -
  obtain fs ds where es: "sortEntries es = fs @ ds" "list_all (isFsFile \<circ> fst) fs"
    "list_all (Not \<circ> isFsFile \<circ> fst) ds" "set ds \<subseteq> set es"
    using sortEntries_dirs_last by blast
  from assms(4) es(1) have l: "loadEntries env sub (fs @ ds) path n [] = Ret s" by simp
  from loadEntries_files_overrides [OF assms(1) es(2) assms(2) l] obtain n'
    where n': "overrides val parent n'" "s = SimScript n' [] \<or> loadEntries env sub ds path n' [] = Ret s"
    by blast
  have i: "inherits val (SimScript n' []) parent" using n'(1) by (simp add: inherits_SimScript)
  from n'(2) show ?thesis
  proof
    assume "loadEntries env sub ds path n' [] = Ret s"
    then show ?thesis
      by (rule loadEntries_dirs_inherits [OF es(3) _ _ i, rotated]) (use assms(3) es(4) in blast)
  qed (use i in simp)
qed

lemma newSimScript_inherits:
  "le_config env = cf \<Longrightarrow> newSimScript env f c p = Ret s \<Longrightarrow> inherits val s (Some c)"
proof (induction f arbitrary: c p s)
  case (FsDir name es)
  have "loadEntries env True (sortEntries (map (\<lambda>f. (f, newSimScript env f)) es)) p
      (newScriptNode cf (Some c) p (le_toURI env p)) [] = Ret s"
    using FsDir.prems by simp
  then show ?case
    by (rule loadEntries_inherits [OF FsDir.prems(1) overrides_new, rotated])
      (use FsDir in \<open>auto simp: goodLoader_def\<close>)
qed simp

end

text \<open>Configurations as plain maps, with one \<open>key=value\<close> per line in a file.\<close>

definition readPlain :: "string \<Rightarrow> (string, string) jmap" where
  "readPlain s = fold (\<lambda>l m. case indexOf l CHR ''='' of None \<Rightarrow> m
     | Some i \<Rightarrow> jput (trim (take i l)) (trim (drop (i + 1) l)) m) (readLines s) []"

definition plainConfig :: "(string, string) jmap ConfigOps" where
  "plainConfig = \<lparr>cf_new = [], cf_set = jput, cf_copy = (\<lambda>s t. fold (\<lambda>(k, v). jput k v) (rev s) t),
     cf_get = jget, cf_keys = map fst, cf_read = (\<lambda>s. Ret (readPlain s)), cf_props = (\<lambda>s. Ret (readPlain s))\<rparr>"

lemma plainConfig_copy: "jget (fold (\<lambda>(k, v). jput k v) (rev s) t) k
    = (case jget s k of None \<Rightarrow> jget t k | Some v \<Rightarrow> Some v)"
  by (simp add: jm.get_fold_put) (simp add: jget_def)

interpretation plain: script_config plainConfig jget
  by unfold_locales (simp_all add: plainConfig_def jm.get_put plainConfig_copy)

text \<open>C7: in every script that is loaded, by either loader and at every depth, a property has the
  value of the script itself if it sets the property, and otherwise the value of its parent.\<close>

theorem scripts_inherit:
  assumes "script_config cf val" and "le_config env = cf"
    and "newSimScript env f c p = Ret s \<or> newFolderScript env g c p = Ret s"
  shows "inherits val s (Some c)"
  using assms script_config.newSimScript_inherits script_config.newFolderScript_inherits by metis

text \<open>A folder with a configuration file, a rule file and a sub-folder.\<close>

definition sampleRule :: string where
  "sampleRule = ''GET /'' @ [nl, nl] @ ''HTTP/1.1 200 OK'' @ [nl, nl] @ ''hi'' @ [nl]"

definition sampleFolder :: FsNode where
  "sampleFolder = FsDir ''a''
    [FsDir ''b'' [FsFile ''c.sim'' sampleRule],
     FsFile ''init.properties'' ''simulator.name=x'',
     FsFile ''a.sim'' sampleRule, FsFile ''notes.txt'' ''GET'']"

definition sampleEnv :: "(string, string) jmap LoadEnv" where
  "sampleEnv = \<lparr>le_engines = plainEngines, le_config = plainConfig, le_toURI = (\<lambda>p. ''file:'' @ p)\<rparr>"

lemma sampleFolder_loads:
  "case newSimScript sampleEnv sampleFolder [] ''/r/a'' of Inl _ \<Rightarrow> False
   | Inr s \<Rightarrow> \<not> ignored (node s) \<and> length (templatePairs (node s)) = 1 \<and> length (subScripts s) = 1"
  by code_simp

lemma sampleFolder_loads':
  "case newFolderScript sampleEnv (newSimulatorFolder sampleFolder) [] ''x'' of Inl _ \<Rightarrow> False | Inr s \<Rightarrow> True"
  by code_simp

theorem loaders_same_rules_witness:
  "\<exists>s s'. newSimScript sampleEnv sampleFolder [] ''/r/a'' = Ret s \<and>
     newFolderScript sampleEnv (newSimulatorFolder sampleFolder) [] ''x'' = Ret s' \<and> ruleTree s = ruleTree s'"
proof -
  obtain s s' where s: "newSimScript sampleEnv sampleFolder [] ''/r/a'' = Ret s" "\<not> ignored (node s)"
    and s': "newFolderScript sampleEnv (newSimulatorFolder sampleFolder) [] ''x'' = Ret s'"
    using sampleFolder_loads sampleFolder_loads' by (auto split: sum.splits)
  have "libFree sampleFolder" by code_simp
  then show ?thesis using loaders_same_rules [OF s(1) s'] s s' by blast
qed

theorem scripts_inherit_witness:
  "\<exists>s. newSimScript sampleEnv sampleFolder [(''k'', ''v'')] ''/r/a'' = Ret s \<and> inherits jget s (Some [(''k'', ''v'')])"
proof -
  have "case newSimScript sampleEnv sampleFolder [(''k'', ''v'')] ''/r/a'' of Inl _ \<Rightarrow> False | Inr s \<Rightarrow> True"
    by code_simp
  then obtain s where s: "newSimScript sampleEnv sampleFolder [(''k'', ''v'')] ''/r/a'' = Ret s"
    by (auto split: sum.splits)
  have "le_config sampleEnv = plainConfig" by (simp add: sampleEnv_def)
  from scripts_inherit [OF plain.script_config_axioms this disjI1 [OF s]] s show ?thesis by blast
qed

end
