(* ===== verification/Respond.thy ===== *)
theory Respond
  imports Script
begin

text \<open>
  \<open>SimScript.genResponse\<close> and \<open>AbstractSimRequest.fillResponse\<close>: the first rule that matches
  and does not skip answers a request, and each response goes to the request's own channel or to
  the simulator its target header names.

  The channels are the record \<open>Sinks\<close>: writing the response to the request's own channel, the
  running and the session-less flag of a named simulator, and the filling by that simulator.
\<close>

section \<open>Filling a response\<close>

record 'w Sinks =
  sk_doFill :: "SimResponse \<Rightarrow> (SimResponse, 'w) prog"
  sk_simulator :: "string \<Rightarrow> 'w \<Rightarrow> (bool \<times> bool) option"
  sk_simFill :: "string \<Rightarrow> SimResponse \<Rightarrow> (SimResponse, 'w) prog"
  sk_respContext :: ctx

definition HEADER_NAME_RESPONSE_TARGETSIMULATOR :: string where
  "HEADER_NAME_RESPONSE_TARGETSIMULATOR = ''_response.targetSimulator''"

text \<open>\<open>(String) headers.remove(...)\<close> on the headers of a response.\<close>

definition removeTarget :: "SimResponse \<Rightarrow> (string option \<times> SimResponse) res" where
  "removeTarget r =
    bindE (castString (jget (resp_headers r) HEADER_NAME_RESPONSE_TARGETSIMULATOR)) (\<lambda>s.
      Ret (s, r\<lparr>resp_headers := jremove HEADER_NAME_RESPONSE_TARGETSIMULATOR (resp_headers r)\<rparr>))"

definition forwardResponse :: "'w Sinks \<Rightarrow> string \<Rightarrow> SimResponse \<Rightarrow> (SimResponse, 'w) prog" where
  "forwardResponse sk simulator r w =
    (case sk_simulator sk simulator w of
       None \<Rightarrow> (Raise (RuntimeException (''no such simulator ['' @ simulator @ '']'')), w)
     | Some (running, sessionLess) \<Rightarrow>
         if \<not> running then (Raise (IOException (''Simulator ['' @ simulator @ ''] is not running'')), w)
         else if \<not> sessionLess then
           (Raise (IOException (''Simulator ['' @ simulator @ ''] is not an instance of SimSesseionLessSimulator'')), w)
         else sk_simFill sk simulator r w)"

definition fillResponse :: "'w Sinks \<Rightarrow> SimResponse \<Rightarrow> (SimResponse, 'w) prog" where
  "fillResponse sk r =
    bindS (liftS (removeTarget r)) (\<lambda>(simulator, r0).
    bindS (case simulator of
        Some s \<Rightarrow> retS (Some s, r0)
      | None \<Rightarrow> bindS (sk_doFill sk r0) (\<lambda>r1. liftS (removeTarget r1))) (\<lambda>(simulator, r2).
    case simulator of None \<Rightarrow> retS r2 | Some s \<Rightarrow> forwardResponse sk s r2))"

section \<open>Answering a request\<close>

fun respondAll :: "'w Services \<Rightarrow> 'w Sinks \<Rightarrow> ctx \<Rightarrow> SimResponseTemplate list \<Rightarrow> (SimResponse list, 'w) prog" where
  "respondAll sv sk allContext [] = retS []"
| "respondAll sv sk allContext (t # ts) =
    bindS (generate sv allContext t) (\<lambda>response.
    bindS (fillResponse sk response) (\<lambda>response'.
    bindS (respondAll sv sk allContext ts) (\<lambda>ret. retS (response' # ret))))"

definition showTopLine :: "SimRequest \<Rightarrow> string" where
  "showTopLine rq = (case req_topLine rq of None \<Rightarrow> ''null'' | Some s \<Rightarrow> s)"

definition noMatch :: "SimRequest \<Rightarrow> jerror" where
  "noMatch rq = IOException (''Can not match request: ['' @ showTopLine rq @ '']'')"

text \<open>The variables of a match are put into the common context before its responses are made.\<close>

definition ruleContext :: "'w Sinks \<Rightarrow> ctx \<Rightarrow> ctx \<Rightarrow> ctx" where
  "ruleContext sk allContext context = jputAll (jputAll allContext context) (sk_respContext sk)"

text \<open>The loop over the rules. The match itself stands outside the \<open>try\<close> block.\<close>

fun genRules :: "Engines \<Rightarrow> 'w Services \<Rightarrow> 'w Sinks \<Rightarrow> SimRequest \<Rightarrow> TemplatePair list \<Rightarrow> ctx
    \<Rightarrow> (SimResponse list, 'w) prog" where
  "genRules eng sv sk rq [] allContext w = (Raise (noMatch rq), w)"
| "genRules eng sv sk rq (p # ps) allContext w =
    (case matchRequest eng (tp_req p) allContext rq of
       Inl e \<Rightarrow> (Raise e, w)
     | Inr None \<Rightarrow> genRules eng sv sk rq ps allContext w
     | Inr (Some context) \<Rightarrow>
         (case respondAll sv sk (ruleContext sk allContext context) (tp_resps p) w of
            (Inl e, w') \<Rightarrow>
              if e = SimMatchSkipException then genRules eng sv sk rq ps (ruleContext sk allContext context) w'
              else (Raise e, w')
          | (Inr ret, w') \<Rightarrow> (Ret ret, w')))"

definition configContext :: "'c ConfigOps \<Rightarrow> 'c \<Rightarrow> ctx" where
  "configContext cf c =
    fold (\<lambda>k. jput k (case cf_get cf c k of None \<Rightarrow> JNull | Some v \<Rightarrow> JStr v)) (cf_keys cf c) []"

definition genResponse :: "'c ConfigOps \<Rightarrow> Engines \<Rightarrow> 'w Services \<Rightarrow> 'w Sinks
    \<Rightarrow> 'c ScriptNode list \<Rightarrow> 'c ScriptNode \<Rightarrow> SimRequest \<Rightarrow> (SimResponse list, 'w) prog" where
  "genResponse cf eng sv sk parents n rq =
    genRules eng sv sk rq (getEffectiveTemplatePairs parents n) (configContext cf (config n))"

end
