(* ===== verification/RespondSpec.thy ===== *)
theory RespondSpec
  imports Respond ScriptSpec
begin

text \<open>
  What answering a request promises: the answer is that of the first rule, the script's own rules
  before its ancestors', that matches and is not skipped; a response with a target never reaches
  the request's own channel.
\<close>

section \<open>The first answering rule\<close>

text \<open>
  The rules that do not answer: they do not match, or their responses end with a skip. The
  context and the world are those the next rule is tried with.
\<close>

inductive passes :: "Engines \<Rightarrow> 'w Services \<Rightarrow> 'w Sinks \<Rightarrow> SimRequest \<Rightarrow> TemplatePair list
    \<Rightarrow> ctx \<Rightarrow> 'w \<Rightarrow> ctx \<Rightarrow> 'w \<Rightarrow> bool"
  for eng :: Engines and sv :: "'w Services" and sk :: "'w Sinks" and rq :: SimRequest where
  pass_done: "passes eng sv sk rq [] c w c w"
| pass_miss: "matchRequest eng (tp_req p) c rq = Ret None \<Longrightarrow> passes eng sv sk rq ps c w c' w' \<Longrightarrow>
    passes eng sv sk rq (p # ps) c w c' w'"
| pass_skip: "matchRequest eng (tp_req p) c rq = Ret (Some m) \<Longrightarrow>
    respondAll sv sk (ruleContext sk c m) (tp_resps p) w = (Raise SimMatchSkipException, w1) \<Longrightarrow>
    passes eng sv sk rq ps (ruleContext sk c m) w1 c' w' \<Longrightarrow>
    passes eng sv sk rq (p # ps) c w c' w'"

inductive_cases passes_NilE [elim!]: "passes eng sv sk rq [] c w c' w'"
inductive_cases passes_ConsE: "passes eng sv sk rq (p # ps) c w c' w'"

definition answers :: "Engines \<Rightarrow> 'w Services \<Rightarrow> 'w Sinks \<Rightarrow> SimRequest \<Rightarrow> TemplatePair \<Rightarrow> ctx \<Rightarrow> 'w
    \<Rightarrow> SimResponse list \<Rightarrow> 'w \<Rightarrow> bool" where
  "answers eng sv sk rq p c w rs w' \<longleftrightarrow> (\<exists>m. matchRequest eng (tp_req p) c rq = Ret (Some m) \<and>
     respondAll sv sk (ruleContext sk c m) (tp_resps p) w = (Ret rs, w'))"

lemma genRules_passes:
  "passes eng sv sk rq pre c w c' w' \<Longrightarrow> genRules eng sv sk rq (pre @ post) c w = genRules eng sv sk rq post c' w'"
  by (induction rule: passes.induct) simp_all

lemma genRules_answers:
  "answers eng sv sk rq p c w rs w' \<Longrightarrow> genRules eng sv sk rq (p # post) c w = (Ret rs, w')"
  by (auto simp: answers_def)

lemma genRules_Ret_first:
  "genRules eng sv sk rq ps c w = (Ret rs, w') \<Longrightarrow>
   \<exists>pre p post c1 w1. ps = pre @ p # post \<and> passes eng sv sk rq pre c w c1 w1 \<and> answers eng sv sk rq p c1 w1 rs w'"
proof (induction ps arbitrary: c w)
  case (Cons p ps)
  show ?case
  proof (cases "answers eng sv sk rq p c w rs w'")
    case True
    then show ?thesis by (metis append_Nil pass_done)
  next
    case False
    from Cons.prems False consider (miss) "matchRequest eng (tp_req p) c rq = Ret None" "genRules eng sv sk rq ps c w = (Ret rs, w')"
      | (skip) m w1 where "matchRequest eng (tp_req p) c rq = Ret (Some m)"
        "respondAll sv sk (ruleContext sk c m) (tp_resps p) w = (Raise SimMatchSkipException, w1)"
        "genRules eng sv sk rq ps (ruleContext sk c m) w1 = (Ret rs, w')"
      by (auto simp: answers_def split: sum.splits option.splits prod.splits if_splits)
    then show ?thesis
    proof cases
      case miss
      with Cons.IH obtain pre q post c1 w1 where "ps = pre @ q # post"
        "passes eng sv sk rq pre c w c1 w1" "answers eng sv sk rq q c1 w1 rs w'" by blast
      then show ?thesis using pass_miss [OF miss(1)] by (metis append_Cons)
    next
      case skip
      with Cons.IH obtain pre q post c1 w2 where "ps = pre @ q # post"
        "passes eng sv sk rq pre (ruleContext sk c m) w1 c1 w2" "answers eng sv sk rq q c1 w2 rs w'" by blast
      then show ?thesis using pass_skip [OF skip(1,2)] by (metis append_Cons)
    qed
  qed
qed simp

lemma genRules_first:
  "genRules eng sv sk rq ps c w = (Ret rs, w') \<longleftrightarrow>
   (\<exists>pre p post c1 w1. ps = pre @ p # post \<and> passes eng sv sk rq pre c w c1 w1 \<and> answers eng sv sk rq p c1 w1 rs w')"
  by (rule iffI, erule genRules_Ret_first, elim exE conjE) (simp add: genRules_passes genRules_answers del: genRules.simps)

text \<open>C1: a request is answered with some responses exactly when there is a first rule, in the order
  own rules, parent's rules, grandparent's rules, that matches and whose responses are made,
  after rules that did not match or were skipped; and they are that rule's responses.\<close>

theorem genResponse_first:
  "genResponse cf eng sv sk parents n rq w = (Ret rs, w') \<longleftrightarrow>
   (\<exists>pre p post c1 w1. templatePairs n @ concat (map templatePairs parents) = pre @ p # post \<and>
      passes eng sv sk rq pre (configContext cf (config n)) w c1 w1 \<and> answers eng sv sk rq p c1 w1 rs w')"
  unfolding genResponse_def getEffectiveTemplatePairs_def by (rule genRules_first)

lemma passes_append:
  "passes eng sv sk rq ps c w c1 w1 \<Longrightarrow> passes eng sv sk rq qs c1 w1 c2 w2 \<Longrightarrow> passes eng sv sk rq (ps @ qs) c w c2 w2"
  by (induction rule: passes.induct) (auto intro: passes.intros)

lemma passes_misses:
  "list_all (\<lambda>p. matchRequest eng (tp_req p) c rq = Ret None) ps \<Longrightarrow> passes eng sv sk rq ps c w c w"
  by (induction ps) (auto intro: passes.intros)

text \<open>When no rule of the script and its ancestors matches, the request is refused with an
  \<open>IOException\<close> naming its top line, and nothing has been done.\<close>

theorem genResponse_refuses:
  assumes "list_all (\<lambda>p. matchRequest eng (tp_req p) (configContext cf (config n)) rq = Ret None)
    (templatePairs n @ concat (map templatePairs parents))"
  shows "genResponse cf eng sv sk parents n rq w =
    (Raise (IOException (''Can not match request: ['' @ showTopLine rq @ '']'')), w)"
  using genRules_passes [OF passes_misses [OF assms], of sv sk "[]" w]
  by (simp add: genResponse_def getEffectiveTemplatePairs_def noMatch_def)

section \<open>Where a response goes\<close>

lemma target_removed [simp]:
  "jget (jremove HEADER_NAME_RESPONSE_TARGETSIMULATOR h) HEADER_NAME_RESPONSE_TARGETSIMULATOR = None"
  by simp

text \<open>A response whose headers name a target simulator goes to that simulator alone, without the
  target header, and only if the simulator runs and is session-less; the request's own channel is
  not written, whatever it would do.\<close>

theorem fillResponse_target:
  assumes "jget (resp_headers r) HEADER_NAME_RESPONSE_TARGETSIMULATOR = Some (JStr t)"
    and "sk_simulator sk t w = Some (running, sessionLess)"
  shows "fillResponse sk r w =
    (if \<not> running then (Raise (IOException (''Simulator ['' @ t @ ''] is not running'')), w)
     else if \<not> sessionLess then
       (Raise (IOException (''Simulator ['' @ t @ ''] is not an instance of SimSesseionLessSimulator'')), w)
     else sk_simFill sk t
       (r\<lparr>resp_headers := jremove HEADER_NAME_RESPONSE_TARGETSIMULATOR (resp_headers r)\<rparr>) w)"
  using assms by (simp add: fillResponse_def removeTarget_def castString_def forwardResponse_def bindS_apply)

text \<open>A response that stays on the request's own channel is written once and carries no target
  header when it is returned.\<close>

theorem fillResponse_own:
  assumes "jget (resp_headers r) HEADER_NAME_RESPONSE_TARGETSIMULATOR = None"
    and "sk_doFill sk (r\<lparr>resp_headers := jremove HEADER_NAME_RESPONSE_TARGETSIMULATOR (resp_headers r)\<rparr>) w = (Ret r1, w1)"
    and "castString (jget (resp_headers r1) HEADER_NAME_RESPONSE_TARGETSIMULATOR) = Ret None"
  shows "\<exists>r2. fillResponse sk r w = (Ret r2, w1) \<and> resp_body r2 = resp_body r1 \<and>
    jget (resp_headers r2) HEADER_NAME_RESPONSE_TARGETSIMULATOR = None"
  using assms by (simp add: fillResponse_def removeTarget_def castString_def bindS_apply)

section \<open>Samples\<close>

definition plainSinks :: "nat Sinks" where
  "plainSinks = \<lparr>sk_doFill = (\<lambda>r n. (Ret r, n + 10)),
     sk_simulator = (\<lambda>s n. if s = ''up'' then Some (True, True) else if s = ''down'' then Some (False, True) else None),
     sk_simFill = (\<lambda>s r n. (Ret r, n + 100)), sk_respContext = []\<rparr>"

definition targetedResponse :: "string \<Rightarrow> SimResponse" where
  "targetedResponse t = \<lparr>resp_code = 200, resp_headers = [(HEADER_NAME_RESPONSE_TARGETSIMULATOR, JStr t)], resp_body = None\<rparr>"

theorem fillResponse_target_witness:
  "fillResponse plainSinks (targetedResponse ''up'') 0
    = (Ret \<lparr>resp_code = 200, resp_headers = [], resp_body = None\<rparr>, 100)"
proof -
  have "jget (resp_headers (targetedResponse ''up'')) HEADER_NAME_RESPONSE_TARGETSIMULATOR = Some (JStr ''up'')"
    by (simp add: targetedResponse_def jget_def)
  from fillResponse_target [OF this, of plainSinks 0 True True] show ?thesis
    by (simp add: plainSinks_def targetedResponse_def jremove_def)
qed

definition untargetedResponse :: SimResponse where
  "untargetedResponse = \<lparr>resp_code = 200, resp_headers = [(''A'', JStr ''b'')], resp_body = Some [1]\<rparr>"

theorem fillResponse_own_witness:
  "\<exists>r2. fillResponse plainSinks untargetedResponse 0 = (Ret r2, 10) \<and> resp_body r2 = Some [1]"
proof -
  have h: "HEADER_NAME_RESPONSE_TARGETSIMULATOR \<noteq> ''A''"
    by (simp add: HEADER_NAME_RESPONSE_TARGETSIMULATOR_def)
  then show ?thesis
    using fillResponse_own [of untargetedResponse plainSinks 0 untargetedResponse 10]
    by (auto simp: plainSinks_def untargetedResponse_def jremove_def jget_def castString_def)
qed

definition sampleNode :: "(string, string) jmap ScriptNode" where
  "sampleNode = addPairs [samplePair] (newScriptNode plainConfig (Some []) ''p'' ''file:p'')"

definition otherRequest :: SimRequest where
  "otherRequest = sampleRequest\<lparr>req_topLine := Some ''POST /index''\<rparr>"

lemma otherRequest_misses:
  "matchRequest plainEngines sampleTemplate (configContext plainConfig (config sampleNode)) otherRequest = Ret None"
  by code_simp

theorem genResponse_refuses_witness:
  "genResponse plainConfig plainEngines plainServices plainSinks [] sampleNode otherRequest 0
    = (Raise (IOException ''Can not match request: [POST /index]''), 0)"
proof -
  have "templatePairs sampleNode = [samplePair]" "tp_req samplePair = sampleTemplate"
    by (simp_all add: sampleNode_def addPairs_def newScriptNode_def setProperty_def samplePair_def)
  then show ?thesis
    using genResponse_refuses [of plainEngines plainConfig sampleNode otherRequest "[]" plainServices plainSinks 0]
      otherRequest_misses
    by (simp add: otherRequest_def showTopLine_def)
qed

end
