(* ===== verification/Monitor.thy ===== *)
theory Monitor
  imports ResponseTemplate RequestTemplate
begin

text \<open>
  \<open>util/ListenerHub.java\<close> and the package \<open>monitor\<close>: the hub that hands every event of a
  simulator to its listeners, the message counter with its 32-bit counters, the proxy between
  them, and the tracer.
\<close>

section \<open>The listener hub\<close>

text \<open>
  The two sets in one iteration order. What a listener does with an event is an argument
  \<open>deliver\<close>: it tells whether the listener raised an exception and gives the world afterwards.
\<close>

record 'l Hub =
  fixedListeners :: "'l list"
  floatListeners :: "'l list"

definition newHub :: "'l Hub" where
  "newHub = \<lparr>fixedListeners = [], floatListeners = []\<rparr>"

definition setAdd :: "'l \<Rightarrow> 'l list \<Rightarrow> 'l list" where
  "setAdd l ls = (if l \<in> set ls then ls else ls @ [l])"

definition addFixedListener :: "'l \<Rightarrow> 'l Hub \<Rightarrow> 'l Hub" where
  "addFixedListener l h = h\<lparr>fixedListeners := setAdd l (fixedListeners h)\<rparr>"

definition addListener :: "'l \<Rightarrow> 'l Hub \<Rightarrow> 'l Hub" where
  "addListener l h = h\<lparr>floatListeners := setAdd l (floatListeners h)\<rparr>"

definition removeListener :: "'l \<Rightarrow> 'l Hub \<Rightarrow> 'l Hub" where
  "removeListener l h = h\<lparr>floatListeners := removeAll l (floatListeners h)\<rparr>"

definition removeAllListeners :: "'l Hub \<Rightarrow> 'l Hub" where
  "removeAllListeners h = h\<lparr>floatListeners := []\<rparr>"

text \<open>The loop of \<open>fireEvent\<close> over one set; an exception of a listener is logged.\<close>

fun fireAll :: "('l \<Rightarrow> 'e \<Rightarrow> 'w \<Rightarrow> bool \<times> 'w) \<Rightarrow> 'l list \<Rightarrow> 'e \<Rightarrow> 'w \<Rightarrow> 'w" where
  "fireAll deliver [] e w = w"
| "fireAll deliver (l # ls) e w = (let (raised, w') = deliver l e w in fireAll deliver ls e w')"

definition fireEvent :: "('l \<Rightarrow> 'e \<Rightarrow> 'w \<Rightarrow> bool \<times> 'w) \<Rightarrow> 'l Hub \<Rightarrow> 'e \<Rightarrow> 'w \<Rightarrow> 'w" where
  "fireEvent deliver h e w = fireAll deliver (floatListeners h) e (fireAll deliver (fixedListeners h) e w)"

section \<open>Events\<close>

datatype SimEvent =
    OnStart string
  | OnStop string
  | OnHandleMessage string SimRequest "SimResponse list" bool

fun eventName :: "SimEvent \<Rightarrow> string" where
  "eventName (OnStart n) = n"
| "eventName (OnStop n) = n"
| "eventName (OnHandleMessage n _ _ _) = n"

section \<open>The message counter\<close>

record Counter =
  c_name :: string
  c_startTime :: int
  c_successful :: "32 word"
  c_failed :: "32 word"

definition newCounter :: "string \<Rightarrow> int \<Rightarrow> Counter" where
  "newCounter name now = \<lparr>c_name = name, c_startTime = now, c_successful = 0, c_failed = 0\<rparr>"

definition addSuccessfullMessage :: "Counter \<Rightarrow> Counter" where
  "addSuccessfullMessage c = c\<lparr>c_successful := c_successful c + 1\<rparr>"

definition addFailedMessage :: "Counter \<Rightarrow> Counter" where
  "addFailedMessage c = c\<lparr>c_failed := c_failed c + 1\<rparr>"

definition getDuration :: "int \<Rightarrow> Counter \<Rightarrow> int" where
  "getDuration now c = now - c_startTime c"

type_synonym counterMap = "(string, Counter) jmap"

definition initCounter :: "int \<Rightarrow> string \<Rightarrow> counterMap \<Rightarrow> counterMap" where
  "initCounter now name m = jput name (newCounter name now) m"

definition countMessage :: "bool \<Rightarrow> string \<Rightarrow> counterMap \<Rightarrow> counterMap" where
  "countMessage status name m =
    (case jget m name of
       None \<Rightarrow> m
     | Some c \<Rightarrow> jput name (if status then addSuccessfullMessage c else addFailedMessage c) m)"

fun onCounterEvent :: "int \<Rightarrow> SimEvent \<Rightarrow> counterMap \<Rightarrow> counterMap" where
  "onCounterEvent now (OnStart name) m = jput name (newCounter name now) m"
| "onCounterEvent now (OnStop name) m = jremove name m"
| "onCounterEvent now (OnHandleMessage name _ _ status) m = countMessage status name m"

section \<open>The proxy\<close>

text \<open>
  The listeners of the proxy get an event one after the other; an exception ends the loop and
  leaves the proxy, to be caught by the hub.
\<close>

fun proxyEvent :: "('l \<Rightarrow> 'e \<Rightarrow> 'w \<Rightarrow> bool \<times> 'w) \<Rightarrow> 'l list \<Rightarrow> 'e \<Rightarrow> 'w \<Rightarrow> bool \<times> 'w" where
  "proxyEvent deliver [] e w = (False, w)"
| "proxyEvent deliver (l # ls) e w =
    (let (raised, w') = deliver l e w in if raised then (True, w') else proxyEvent deliver ls e w')"

section \<open>The tracer\<close>

text \<open>The tracer's file, once it is open; a stream that could not be opened is \<open>null\<close>.\<close>

definition println :: "string \<Rightarrow> string" where
  "println s = s @ [nl]"

definition showNull :: "string option \<Rightarrow> string" where
  "showNull s = (case s of None \<Rightarrow> ''null'' | Some t \<Rightarrow> t)"

definition printRequest :: "SimRequest \<Rightarrow> string" where
  "printRequest rq = println (showNull (req_topLine rq))
    @ concat (map (\<lambda>h. println (showNull (req_headerLine rq h))) (req_headerNames rq))
    @ println (showNull (req_body rq))"

definition printResponse :: "'w Services \<Rightarrow> SimResponse \<Rightarrow> string res" where
  "printResponse sv r =
    bindE (getBodyAsString sv r) (\<lambda>b.
      Ret (println (''HTTP/1.1 '' @ (if resp_code r < 0 then ''-'' else []) @ showNat (nat \<bar>resp_code r\<bar>))
        @ concat (map (\<lambda>(k, v). println (k @ '': '' @ sv_show sv v)) (resp_headers r))
        @ println b))"

definition traceEvent :: "'w Services \<Rightarrow> (string \<Rightarrow> bool) \<Rightarrow> SimEvent \<Rightarrow> string option \<Rightarrow> string option res" where
  "traceEvent sv opens e pw =
    (case e of
       OnStart name \<Rightarrow> Ret (if opens name then Some [] else pw)
     | OnStop name \<Rightarrow> (case pw of None \<Rightarrow> Raise NullPointerException | Some out \<Rightarrow> Ret (Some out))
     | OnHandleMessage name rq resps status \<Rightarrow>
         (case pw of None \<Rightarrow> Raise NullPointerException
          | Some out \<Rightarrow>
              bindE (mapE (printResponse sv) resps) (\<lambda>rs.
                Ret (Some (out @ printRequest rq @ concat rs @ println (replicate 39 CHR ''-''))))))"

section \<open>The listeners of a simulator\<close>

text \<open>
  The hub of every simulator holds the proxy as its fixed listener; the proxy holds the counter;
  the listeners named in a configuration are the program's users' classes, told apart by a number.
\<close>

datatype ProxyListener = MessageCounter | ProxyUser nat

datatype HubListener = ListenerProxy | HubUser nat

record 'u MonitorWorld =
  mw_now :: int
  mw_proxyListeners :: "ProxyListener list"
  mw_counters :: counterMap
  mw_user :: 'u

type_synonym 'u userDeliver = "nat \<Rightarrow> SimEvent \<Rightarrow> 'u \<Rightarrow> bool \<times> 'u"

definition deliverUser :: "'u userDeliver \<Rightarrow> nat \<Rightarrow> SimEvent \<Rightarrow> 'u MonitorWorld \<Rightarrow> bool \<times> 'u MonitorWorld" where
  "deliverUser user n e w = (let (raised, u) = user n e (mw_user w) in (raised, w\<lparr>mw_user := u\<rparr>))"

fun deliverProxy :: "'u userDeliver \<Rightarrow> ProxyListener \<Rightarrow> SimEvent \<Rightarrow> 'u MonitorWorld \<Rightarrow> bool \<times> 'u MonitorWorld" where
  "deliverProxy user MessageCounter e w =
    (False, w\<lparr>mw_counters := onCounterEvent (mw_now w) e (mw_counters w)\<rparr>)"
| "deliverProxy user (ProxyUser n) e w = deliverUser user n e w"

fun deliverHub :: "'u userDeliver \<Rightarrow> HubListener \<Rightarrow> SimEvent \<Rightarrow> 'u MonitorWorld \<Rightarrow> bool \<times> 'u MonitorWorld" where
  "deliverHub user ListenerProxy e w = proxyEvent (deliverProxy user) (mw_proxyListeners w) e w"
| "deliverHub user (HubUser n) e w = deliverUser user n e w"

definition fireSim :: "'u userDeliver \<Rightarrow> HubListener Hub \<Rightarrow> SimEvent \<Rightarrow> 'u MonitorWorld \<Rightarrow> 'u MonitorWorld" where
  "fireSim user = fireEvent (deliverHub user)"

end
