(* ===== verification/MonitorSpec.thy ===== *)
theory MonitorSpec
  imports Monitor
begin

text \<open>
  What monitoring promises: every listener of a hub gets every event whatever the others do, and
  the counters count the messages of their simulator.
\<close>

section \<open>Delivery\<close>

lemma fireAll_append: "fireAll d (ls @ ms) e w = fireAll d ms e (fireAll d ls e w)"
  by (induction d ls e w rule: fireAll.induct) (simp_all add: Let_def split: prod.splits)

text \<open>A hub whose listeners write every event they get into a log, some of them raising.\<close>

definition logDeliver :: "('l \<Rightarrow> 'e \<Rightarrow> bool) \<Rightarrow> 'l \<Rightarrow> 'e \<Rightarrow> ('l \<times> 'e) list \<Rightarrow> bool \<times> ('l \<times> 'e) list" where
  "logDeliver raises l e w = (raises l e, w @ [(l, e)])"

lemma fireAll_log: "fireAll (logDeliver raises) ls e w = w @ map (\<lambda>l. (l, e)) ls"
  by (induction ls arbitrary: w) (simp_all add: logDeliver_def)

text \<open>The operations of a hub, as steps on it.\<close>

datatype 'l hubOp = AddFixed 'l | Add 'l | Remove 'l | RemoveAll

fun hubStep :: "'l hubOp \<Rightarrow> 'l Hub \<Rightarrow> 'l Hub" where
  "hubStep (AddFixed l) = addFixedListener l"
| "hubStep (Add l) = addListener l"
| "hubStep (Remove l) = removeListener l"
| "hubStep RemoveAll = removeAllListeners"

definition hubOf :: "'l hubOp list \<Rightarrow> 'l Hub" where
  "hubOf ops = fold hubStep ops newHub"

text \<open>The listeners that a history of operations leaves: the fixed ones, and those added after they
  were last removed.\<close>

fun fixedOf :: "'l hubOp list \<Rightarrow> 'l set" where
  "fixedOf [] = {}"
| "fixedOf (AddFixed l # ops) = insert l (fixedOf ops)"
| "fixedOf (_ # ops) = fixedOf ops"

fun floatOf :: "'l set \<Rightarrow> 'l hubOp list \<Rightarrow> 'l set" where
  "floatOf S [] = S"
| "floatOf S (Add l # ops) = floatOf (insert l S) ops"
| "floatOf S (Remove l # ops) = floatOf (S - {l}) ops"
| "floatOf S (RemoveAll # ops) = floatOf {} ops"
| "floatOf S (AddFixed l # ops) = floatOf S ops"

lemmas hub_defs = addFixedListener_def addListener_def removeListener_def removeAllListeners_def setAdd_def

lemma hubStep_distinct:
  "distinct (fixedListeners h) \<Longrightarrow> distinct (floatListeners h) \<Longrightarrow>
   distinct (fixedListeners (hubStep op h)) \<and> distinct (floatListeners (hubStep op h))"
  by (cases op) (auto simp: hub_defs distinct_removeAll)

lemma hubOf_sets:
  "set (fixedListeners (fold hubStep ops h)) = set (fixedListeners h) \<union> fixedOf ops \<and>
   set (floatListeners (fold hubStep ops h)) = floatOf (set (floatListeners h)) ops"
proof (induction ops arbitrary: h)
  case (Cons op ops)
  show ?case using Cons.IH [of "hubStep op h"] by (cases op) (simp_all add: hub_defs insert_absorb)
qed simp

lemma hubOf_distinct: "distinct (fixedListeners (hubOf ops)) \<and> distinct (floatListeners (hubOf ops))"
proof -
  have "distinct (fixedListeners (fold hubStep ops h)) \<and> distinct (floatListeners (fold hubStep ops h))"
    if "distinct (fixedListeners h) \<and> distinct (floatListeners h)" for h :: "'a Hub"
    using that by (induction ops arbitrary: h) (simp_all add: hubStep_distinct)
  then show ?thesis by (simp add: hubOf_def newHub_def)
qed

text \<open>After any history of a hub, an event reaches every listener that is fixed, and every one
  added since it was last removed, exactly once each and the fixed ones first, whichever of them
  raise exceptions.\<close>

theorem fireEvent_reaches:
  "\<exists>fs gs. fireEvent (logDeliver raises) (hubOf ops) e [] = map (\<lambda>l. (l, e)) (fs @ gs) \<and>
     set fs = fixedOf ops \<and> set gs = floatOf {} ops \<and> distinct fs \<and> distinct gs"
  using hubOf_sets [of ops newHub] hubOf_distinct [of ops]
  by (intro exI [of _ "fixedListeners (hubOf ops)"] exI [of _ "floatListeners (hubOf ops)"])
    (simp add: fireEvent_def fireAll_log hubOf_def newHub_def)

section \<open>Counting\<close>

lemma deliverUser_counters [simp]:
  "mw_counters (snd (deliverUser user n e w)) = mw_counters w"
  "mw_proxyListeners (snd (deliverUser user n e w)) = mw_proxyListeners w"
  "mw_now (snd (deliverUser user n e w)) = mw_now w"
  by (simp_all add: deliverUser_def split: prod.splits)

definition usersOnly :: "HubListener list \<Rightarrow> bool" where
  "usersOnly ls \<longleftrightarrow> ListenerProxy \<notin> set ls"

lemma fireAll_users:
  "usersOnly ls \<Longrightarrow> mw_counters (fireAll (deliverHub user) ls e w) = mw_counters w \<and>
    mw_proxyListeners (fireAll (deliverHub user) ls e w) = mw_proxyListeners w \<and>
    mw_now (fireAll (deliverHub user) ls e w) = mw_now w"
proof (induction ls arbitrary: w)
  case (Cons l ls)
  then obtain n where l: "l = HubUser n" by (cases l) (auto simp: usersOnly_def)
  have "usersOnly ls" using Cons.prems by (simp add: usersOnly_def)
  from Cons.IH [OF this, of "snd (deliverUser user n e w)"] l show ?case by (simp add: split_beta)
qed simp

text \<open>The hub of a simulator as the repository builds it: the proxy is its one fixed listener.\<close>

definition simHub :: "HubListener Hub \<Rightarrow> bool" where
  "simHub h \<longleftrightarrow> fixedListeners h = [ListenerProxy] \<and> usersOnly (floatListeners h)"

lemma fireSim_counters:
  assumes "simHub h" and "mw_proxyListeners w = [MessageCounter]"
  shows "mw_counters (fireSim user h e w) = onCounterEvent (mw_now w) e (mw_counters w)"
    and "mw_proxyListeners (fireSim user h e w) = [MessageCounter]"
    and "mw_now (fireSim user h e w) = mw_now w"
  using assms fireAll_users [of "floatListeners h" user e]
  by (simp_all add: fireSim_def fireEvent_def simHub_def)

text \<open>The events of several simulators, each fired at the hub of its own simulator.\<close>

fun fireMany :: "'u userDeliver \<Rightarrow> (HubListener Hub \<times> SimEvent) list \<Rightarrow> 'u MonitorWorld \<Rightarrow> 'u MonitorWorld" where
  "fireMany user [] w = w"
| "fireMany user ((h, e) # es) w = fireMany user es (fireSim user h e w)"

fun isMessage :: "string \<Rightarrow> bool \<Rightarrow> SimEvent \<Rightarrow> bool" where
  "isMessage name status (OnHandleMessage n rq resps st) \<longleftrightarrow> n = name \<and> st = status"
| "isMessage name status _ \<longleftrightarrow> False"

definition countOf :: "string \<Rightarrow> bool \<Rightarrow> (HubListener Hub \<times> SimEvent) list \<Rightarrow> nat" where
  "countOf name status es = length (filter (isMessage name status \<circ> snd) es)"

definition messagesOrOthers :: "string \<Rightarrow> (HubListener Hub \<times> SimEvent) list \<Rightarrow> bool" where
  "messagesOrOthers name es \<longleftrightarrow> list_all (\<lambda>(h, e). simHub h \<and>
     (eventName e = name \<longrightarrow> isMessage name True e \<or> isMessage name False e)) es"

lemma fireMany_counter:
  "messagesOrOthers name es \<Longrightarrow> mw_proxyListeners w = [MessageCounter] \<Longrightarrow> jget (mw_counters w) name = Some c \<Longrightarrow>
   jget (mw_counters (fireMany user es w)) name =
     Some (c\<lparr>c_successful := c_successful c + of_nat (countOf name True es),
             c_failed := c_failed c + of_nat (countOf name False es)\<rparr>)"
proof (induction es arbitrary: w c)
  case Nil
  then show ?case by (simp add: countOf_def)
next
  case (Cons he es)
  obtain h e where he: "he = (h, e)" by (cases he)
  have es: "messagesOrOthers name es" and h: "simHub h"
    and e: "eventName e = name \<longrightarrow> isMessage name True e \<or> isMessage name False e"
    using Cons.prems(1) he by (auto simp: messagesOrOthers_def)
  note fired = fireSim_counters [OF h Cons.prems(2), of user e]
  show ?case
  proof (cases "eventName e = name")
    case False
    then have "jget (mw_counters (fireSim user h e w)) name = Some c" and "\<not> isMessage name b e" for b
      using Cons.prems(3) fired(1)
      by (cases e; auto simp: countMessage_def jm.get_put jm.get_remove split: option.splits)+
    then show ?thesis using Cons.IH [OF es fired(2)] he by (simp add: countOf_def)
  next
    case True
    with e obtain rq resps st where e': "e = OnHandleMessage name rq resps st" by (cases e) auto
    have "jget (mw_counters (fireSim user h e w)) name
        = Some (if st then addSuccessfullMessage c else addFailedMessage c)"
      using fired(1) Cons.prems(3) by (simp add: e' countMessage_def)
    from Cons.IH [OF es fired(2) this] he show ?thesis
      by (simp add: countOf_def e' addSuccessfullMessage_def addFailedMessage_def ac_simps)
  qed
qed

text \<open>C26: from the start of a simulator on, and as long as it is not stopped, its counter holds the
  number of its successful and failed messages modulo \<open>2 ^ 32\<close>, whatever happens to other
  simulators in between and whichever listeners raise exceptions.\<close>

theorem counter_counts:
  assumes "mw_proxyListeners w = [MessageCounter]" and "simHub h" and "messagesOrOthers name es"
  shows "\<exists>c. jget (mw_counters (fireMany user ((h, OnStart name) # es) w)) name = Some c \<and>
    c_name c = name \<and> c_startTime c = mw_now w \<and>
    c_successful c = of_nat (countOf name True es) \<and> c_failed c = of_nat (countOf name False es)"
proof -
  note fired = fireSim_counters [OF assms(2,1), of user "OnStart name"]
  have "jget (mw_counters (fireSim user h (OnStart name) w)) name = Some (newCounter name (mw_now w))"
    using fired(1) by simp
  from fireMany_counter [OF assms(3) fired(2) this] show ?thesis
    by (simp add: newCounter_def)
qed

definition loudHub :: "HubListener Hub" where
  "loudHub = \<lparr>fixedListeners = [ListenerProxy], floatListeners = [HubUser 0]\<rparr>"

definition sampleWorld :: "nat MonitorWorld" where
  "sampleWorld = \<lparr>mw_now = 7, mw_proxyListeners = [MessageCounter], mw_counters = [], mw_user = 0\<rparr>"

definition someMessage :: "string \<Rightarrow> bool \<Rightarrow> HubListener Hub \<times> SimEvent" where
  "someMessage n st = (loudHub, OnHandleMessage n
     \<lparr>req_topLine = None, req_headerNames = [], req_headerLine = (\<lambda>h. None), req_authLine = None, req_body = None\<rparr> [] st)"

theorem counter_counts_witness:
  "\<exists>c. jget (mw_counters (fireMany (\<lambda>n e u. (True, Suc u))
      ((loudHub, OnStart ''a'') # [someMessage ''a'' True, someMessage ''b'' True, (loudHub, OnStop ''b''), someMessage ''a'' False])
      sampleWorld)) ''a'' = Some c \<and> c_successful c = 1 \<and> c_failed c = 1"
proof -
  have "simHub loudHub" by (simp add: simHub_def loudHub_def usersOnly_def)
  then show ?thesis
    using counter_counts [of sampleWorld loudHub "''a''"
        "[someMessage ''a'' True, someMessage ''b'' True, (loudHub, OnStop ''b''), someMessage ''a'' False]"
        "\<lambda>n e u. (True, Suc u)"]
    by (auto simp: sampleWorld_def messagesOrOthers_def someMessage_def countOf_def)
qed

end
