(* ===== verification/Beans.thy ===== *)
theory Beans
  imports ResponseTemplate
begin

text \<open>
  \<open>util/BeanRepository.java\<close>: the conversion of context values to parameter types, the
  instantiation of beans, the cache of one bean per simulator and class, and their invocation.

  Reflection is an argument: a class is a record of its constructors, methods and interfaces,
  whose bodies act on a world. An object is a number.
\<close>

section \<open>Parameter values\<close>

datatype ParamType =
    TCharacter | TInteger | TLong | TByte | TShort | TBoolean | TDouble | TFloat | TString
  | Tchar | Tint | Tlong | Tbyte | Tshort | Tboolean | Tdouble | Tfloat | TObject | TOther

definition toLowerChar :: "char \<Rightarrow> char" where
  "toLowerChar c = (let n = (of_char c :: nat) in if 65 \<le> n \<and> n \<le> 90 then char_of (n + 32) else c)"

definition parseBoolean :: "string \<Rightarrow> bool" where
  "parseBoolean s \<longleftrightarrow> map toLowerChar s = ''true''"

definition cannotUse :: "string option \<Rightarrow> string \<Rightarrow> jerror" where
  "cannotUse v paramName = RuntimeException (''Can not use ['' @ (case v of None \<Rightarrow> ''null'' | Some s \<Rightarrow> s)
     @ ''] as parameter ['' @ paramName @ '']'')"

text \<open>A parse error becomes a runtime exception with the same message as a type without a case.\<close>

definition orCannotUse :: "string \<Rightarrow> string \<Rightarrow> jval res \<Rightarrow> jval res" where
  "orCannotUse s paramName r =
    (case r of Inl NumberFormatException \<Rightarrow> Raise (cannotUse (Some s) paramName) | x \<Rightarrow> x)"

text \<open>\<open>fp\<close> reads a floating point literal as an opaque number.\<close>

definition pickString :: "(string \<Rightarrow> nat res) \<Rightarrow> ParamType \<Rightarrow> string \<Rightarrow> string \<Rightarrow> jval res" where
  "pickString fp ty paramName s = orCannotUse s paramName
    (let ch = (case s of [c] \<Rightarrow> Ret (JChar c) | _ \<Rightarrow> Raise (cannotUse (Some s) paramName));
         num = (\<lambda>w f. bindE (parseSigned w s) (\<lambda>v. Ret (f v))) in
     case ty of
       TCharacter \<Rightarrow> ch | Tchar \<Rightarrow> ch
     | TInteger \<Rightarrow> num 32 JInt | Tint \<Rightarrow> num 32 JInt
     | TLong \<Rightarrow> num 64 JLong | Tlong \<Rightarrow> num 64 JLong
     | TByte \<Rightarrow> num 8 JByte | Tbyte \<Rightarrow> num 8 JByte
     | TShort \<Rightarrow> num 16 JShort | Tshort \<Rightarrow> num 16 JShort
     | TBoolean \<Rightarrow> Ret (JBool (parseBoolean s)) | Tboolean \<Rightarrow> Ret (JBool (parseBoolean s))
     | TDouble \<Rightarrow> bindE (fp s) (\<lambda>v. Ret (JDouble v)) | Tdouble \<Rightarrow> bindE (fp s) (\<lambda>v. Ret (JDouble v))
     | TFloat \<Rightarrow> bindE (fp s) (\<lambda>v. Ret (JFloat v)) | Tfloat \<Rightarrow> bindE (fp s) (\<lambda>v. Ret (JFloat v))
     | TString \<Rightarrow> Ret (JStr s) | TObject \<Rightarrow> Ret (JStr s)
     | TOther \<Rightarrow> Raise (cannotUse (Some s) paramName))"

definition nullable :: "ParamType \<Rightarrow> bool" where
  "nullable ty \<longleftrightarrow> ty \<in> {TCharacter, TInteger, TLong, TByte, TShort, TBoolean, TDouble, TFloat, TString, TObject}"

definition smartValuePickup :: "(string \<Rightarrow> nat res) \<Rightarrow> ParamType \<Rightarrow> string \<Rightarrow> jval option \<Rightarrow> jval res" where
  "smartValuePickup fp ty paramName value =
    (case value of
       Some (JStr s) \<Rightarrow> pickString fp ty paramName s
     | None \<Rightarrow> if nullable ty then Ret JNull else Raise (cannotUse None paramName)
     | Some JNull \<Rightarrow> if nullable ty then Ret JNull else Raise (cannotUse None paramName)
     | Some v \<Rightarrow> Ret v)"

type_synonym params = "(ParamType \<times> string) list"

definition prepareMethodParameters :: "(string \<Rightarrow> nat res) \<Rightarrow> params \<Rightarrow> ctx \<Rightarrow> jval list res" where
  "prepareMethodParameters fp ps vc = mapE (\<lambda>(ty, name). smartValuePickup fp ty name (jget vc name)) ps"

section \<open>Classes\<close>

record 'w JConstructor =
  con_annotated :: bool
  con_params :: params
  con_new :: "jval list \<Rightarrow> (nat, 'w) prog"

record 'w JMethod =
  me_name :: string
  me_params :: params
  me_body :: "nat \<Rightarrow> jval list \<Rightarrow> (jval, 'w) prog"

record 'w JClass =
  cl_name :: string
  cl_constructors :: "'w JConstructor list"
  cl_methods :: "'w JMethod list"
  cl_init :: "(nat \<Rightarrow> string option \<Rightarrow> ctx \<Rightarrow> (unit, 'w) prog) option"
  cl_onCreate :: "(nat \<Rightarrow> string option \<Rightarrow> (unit, 'w) prog) option"
  cl_onClose :: "nat \<Rightarrow> string option \<Rightarrow> (unit, 'w) prog"

text \<open>The annotated constructor, or else the last one without parameters before it.\<close>

fun findConstructor :: "'w JConstructor list \<Rightarrow> 'w JConstructor option \<Rightarrow> 'w JConstructor option" where
  "findConstructor [] found = found"
| "findConstructor (c # cs) found =
    (if con_annotated c then Some c
     else findConstructor cs (if con_params c = [] then Some c else found))"

definition createInstance :: "(string \<Rightarrow> nat res) \<Rightarrow> 'w JClass \<Rightarrow> ctx \<Rightarrow> (nat, 'w) prog" where
  "createInstance fp cl vc =
    (case findConstructor (cl_constructors cl) None of
       None \<Rightarrow> liftS (Raise (RuntimeException (''no proper constructor for ['' @ cl_name cl @ '']'')))
     | Some c \<Rightarrow>
         bindS (liftS (prepareMethodParameters fp (con_params c) vc)) (\<lambda>paramValues.
           (\<lambda>w. case con_new c paramValues w of
              (Inl e, w') \<Rightarrow> (Raise (RuntimeException (''Error when create instance of ['' @ cl_name cl @ '']'')), w')
            | (Inr obj, w') \<Rightarrow> (Ret obj, w'))))"

section \<open>The repository\<close>

text \<open>The bean of a class keeps the class, for the test of its interfaces.\<close>

type_synonym 'w beanMap = "(string option, (string, nat \<times> 'w JClass) jmap) jmap"

record 'w BeanWorld =
  bw_beans :: "'w beanMap"
  bw_world :: 'w

definition onWorld :: "('a, 'w) prog \<Rightarrow> ('a, 'w BeanWorld) prog" where
  "onWorld m w = (let (r, v) = m (bw_world w) in (r, w\<lparr>bw_world := v\<rparr>))"

definition PROP_NAME_SIMULATOR :: string where
  "PROP_NAME_SIMULATOR = ''simulator.name''"

text \<open>\<open>Properties.put\<close> refuses \<open>null\<close>.\<close>

definition context2Properties :: "ctx \<Rightarrow> ctx res" where
  "context2Properties vc =
    (if list_ex (\<lambda>(k, v). v = JNull) vc then Raise NullPointerException else Ret vc)"

definition simBeans :: "string option \<Rightarrow> 'w BeanWorld \<Rightarrow> (string, nat \<times> 'w JClass) jmap" where
  "simBeans sim w = (case jget (bw_beans w) sim of None \<Rightarrow> [] | Some m \<Rightarrow> m)"

definition newBean :: "(string \<Rightarrow> nat res) \<Rightarrow> 'w JClass \<Rightarrow> string option \<Rightarrow> ctx \<Rightarrow> (nat, 'w BeanWorld) prog" where
  "newBean fp cl sim vc =
    bindS (onWorld (createInstance fp cl vc)) (\<lambda>obj.
    bindS (case cl_init cl of None \<Rightarrow> retS ()
      | Some init \<Rightarrow> bindS (liftS (context2Properties vc)) (\<lambda>props. onWorld (init obj sim props))) (\<lambda>_.
    bindS (case cl_onCreate cl of None \<Rightarrow> retS () | Some f \<Rightarrow> onWorld (f obj sim)) (\<lambda>_.
      retS obj)))"

definition addBean :: "(string \<Rightarrow> nat res) \<Rightarrow> 'w JClass \<Rightarrow> ctx \<Rightarrow> (nat \<times> 'w JClass, 'w BeanWorld) prog" where
  "addBean fp cl vc =
    bindS (liftS (castString (jget vc PROP_NAME_SIMULATOR))) (\<lambda>sim.
    (\<lambda>w. let w1 = w\<lparr>bw_beans := jput sim (simBeans sim w) (bw_beans w)\<rparr> in
       case jget (simBeans sim w) (cl_name cl) of
         Some bean \<Rightarrow> (Ret bean, w1)
       | None \<Rightarrow>
           bindS (newBean fp cl sim vc) (\<lambda>obj w2.
             (Ret (obj, cl), w2\<lparr>bw_beans := jput sim (jput (cl_name cl) (obj, cl) (simBeans sim w2)) (bw_beans w2)\<rparr>)) w1))"

text \<open>The loop over the beans; the exception of a listener ends it.\<close>

fun closeBeans :: "string option \<Rightarrow> (string \<times> nat \<times> 'w JClass) list \<Rightarrow> (unit, 'w BeanWorld) prog" where
  "closeBeans sim [] = retS ()"
| "closeBeans sim ((name, obj, cl) # bs) =
    bindS (if cl_onCreate cl = None then retS () else onWorld (cl_onClose cl obj sim)) (\<lambda>_. closeBeans sim bs)"

definition removeSimulatorBeans :: "string option \<Rightarrow> (unit, 'w BeanWorld) prog" where
  "removeSimulatorBeans sim w =
    closeBeans sim (simBeans sim w) (w\<lparr>bw_beans := jremove sim (bw_beans w)\<rparr>)"

definition findMethod :: "'w JClass \<Rightarrow> string option \<Rightarrow> 'w JMethod option" where
  "findMethod cl methodName = find (\<lambda>m. Some (me_name m) = methodName) (cl_methods cl)"

text \<open>The cause of an \<open>InvocationTargetException\<close>: a runtime exception is thrown as it is.\<close>

fun unwrapCause :: "jerror \<Rightarrow> jerror" where
  "unwrapCause (IOException msg) = RuntimeException msg"
| "unwrapCause e = e"

definition invokeMethod :: "(string \<Rightarrow> nat res) \<Rightarrow> nat \<Rightarrow> 'w JMethod \<Rightarrow> ctx \<Rightarrow> (jval, 'w BeanWorld) prog" where
  "invokeMethod fp obj m vc =
    bindS (liftS (prepareMethodParameters fp (me_params m) vc)) (\<lambda>paramValues.
    (\<lambda>w. case onWorld (me_body m obj paramValues) w of
       (Inl e, w') \<Rightarrow> (Raise (unwrapCause e), w')
     | (Inr v, w') \<Rightarrow> (Ret v, w')))"

definition invoke :: "(string \<Rightarrow> nat res) \<Rightarrow> (string \<Rightarrow> 'w JClass option) \<Rightarrow> string \<Rightarrow> string option \<Rightarrow> ctx
    \<Rightarrow> (jval, 'w BeanWorld) prog" where
  "invoke fp classes className methodName vc =
    (case classes className of
       None \<Rightarrow> liftS (Raise (RuntimeException (''error to create instance of class ['' @ className @ '']'')))
     | Some cl \<Rightarrow>
         bindS (addBean fp cl vc) (\<lambda>(obj, beanClass).
           case findMethod beanClass methodName of
             None \<Rightarrow> liftS (Raise (RuntimeException (''no such method ['' @
               (case methodName of None \<Rightarrow> ''null'' | Some m \<Rightarrow> m) @ ''] for bean ['' @ className @ '']'')))
           | Some m \<Rightarrow> invokeMethod fp obj m vc))"

end
