(* ===== verification/BeansSpec.thy ===== *)
theory BeansSpec
  imports Beans
begin

text \<open>
  What the bean repository promises: converted values fit their parameter types, there is one
  bean per simulator and class, and removing a simulator's beans leaves the others alone.
\<close>

section \<open>Parameter values\<close>

definition within :: "nat \<Rightarrow> int \<Rightarrow> bool" where
  "within w n \<longleftrightarrow> - (2 ^ (w - 1)) \<le> n \<and> n < 2 ^ (w - 1)"

definition fits :: "ParamType \<Rightarrow> jval \<Rightarrow> bool" where
  "fits ty v \<longleftrightarrow> (case v of
     JNull \<Rightarrow> nullable ty
   | JChar c \<Rightarrow> ty \<in> {TCharacter, Tchar}
   | JInt n \<Rightarrow> ty \<in> {TInteger, Tint} \<and> within 32 n
   | JLong n \<Rightarrow> ty \<in> {TLong, Tlong} \<and> within 64 n
   | JByte n \<Rightarrow> ty \<in> {TByte, Tbyte} \<and> within 8 n
   | JShort n \<Rightarrow> ty \<in> {TShort, Tshort} \<and> within 16 n
   | JBool b \<Rightarrow> ty \<in> {TBoolean, Tboolean}
   | JDouble d \<Rightarrow> ty \<in> {TDouble, Tdouble}
   | JFloat d \<Rightarrow> ty \<in> {TFloat, Tfloat}
   | JStr s \<Rightarrow> ty \<in> {TString, TObject}
   | JArr vs \<Rightarrow> False
   | JObj n \<Rightarrow> False)"

lemma parseSigned_within: "parseSigned w s = Ret v \<Longrightarrow> within w v"
  unfolding within_def by (rule parseSigned_bounds)

lemma orCannotUse_Ret: "orCannotUse s n r = Ret v \<longleftrightarrow> r = Ret v"
  by (auto simp: orCannotUse_def split: sum.splits jerror.splits)

lemma orCannotUse_Raise:
  "orCannotUse s n r = Raise e \<longleftrightarrow>
    (r = Raise NumberFormatException \<and> e = cannotUse (Some s) n) \<or> (r = Raise e \<and> e \<noteq> NumberFormatException)"
  by (cases r) (auto simp: orCannotUse_def split: jerror.splits)

lemma parseSigned_error: "parseSigned k s = Raise e \<Longrightarrow> e = NumberFormatException"
  by (auto simp: parseSigned_def split: option.splits if_splits)

lemma pickString_fits: "pickString fp ty n s = Ret v \<Longrightarrow> fits ty v"
  unfolding pickString_def orCannotUse_Ret Let_def
  by (cases ty) (auto simp: fits_def elim!: bindE_InrE dest: parseSigned_within split: list.splits)

lemma pickString_error:
  assumes "\<And>t e. fp t = Raise e \<Longrightarrow> e = NumberFormatException"
  shows "pickString fp ty n s = Raise e \<Longrightarrow> e = cannotUse (Some s) n"
  unfolding pickString_def orCannotUse_Raise Let_def
  by (cases ty) (auto simp: bindE_Inl_conv dest: parseSigned_error assms split: list.splits)

text \<open>C28: a string or a missing value is converted to a value of the parameter's type, within the
  range of its width, or refused with one message that names the value and the parameter.\<close>

theorem smartValuePickup_typed:
  assumes "\<And>t e. fp t = Raise e \<Longrightarrow> e = NumberFormatException"
    and "value = None \<or> value = Some JNull \<or> value = Some (JStr s)"
  shows "case smartValuePickup fp ty n value of Inr v \<Rightarrow> fits ty v
    | Inl e \<Rightarrow> \<exists>t. e = cannotUse t n"
proof -
  have null: "nullable ty \<Longrightarrow> fits ty JNull" by (simp add: fits_def)
  have err: "e = cannotUse (Some s) n" if "pickString fp ty n s = Raise e" for e
    using assms(1) that by (rule pickString_error)
  from assms(2) null pickString_fits [of fp ty n s] err show ?thesis
    by (auto simp: smartValuePickup_def split: sum.splits)
qed

theorem smartValuePickup_typed_witness:
  "case smartValuePickup (\<lambda>s. Raise NumberFormatException) TByte ''b'' (Some (JStr ''-128'')) of
     Inr v \<Rightarrow> fits TByte v | Inl e \<Rightarrow> \<exists>t. e = cannotUse t ''b''"
  by (rule smartValuePickup_typed) simp_all

section \<open>One bean per simulator and class\<close>

lemma bindS_preserves:
  assumes "\<And>r v. m w = (r, v) \<Longrightarrow> P v" and "\<And>x v r u. P v \<Longrightarrow> f x v = (r, u) \<Longrightarrow> P u" and "bindS m f w = (r, w')"
  shows "P w'"
  using assms by (auto simp: bindS_def split: prod.splits sum.splits)

lemma onWorld_beans: "onWorld m w = (r, w') \<Longrightarrow> bw_beans w' = bw_beans w"
  by (auto simp: onWorld_def split: prod.splits)

lemma newBean_beans: "newBean fp cl sim vc w = (r, w') \<Longrightarrow> bw_beans w' = bw_beans w"
  by (auto simp: newBean_def bindS_def dest!: onWorld_beans split: prod.splits sum.splits option.splits)

lemma simBeans_put [simp]:
  "simBeans sim (w\<lparr>bw_beans := jput sim' m (bw_beans v)\<rparr>) = (if sim = sim' then m else simBeans sim v)"
  by (simp add: simBeans_def jm.get_put)

lemma simBeans_cong: "bw_beans w = bw_beans v \<Longrightarrow> simBeans sim w = simBeans sim v"
  by (simp add: simBeans_def)

lemma jput_same: "jget m k = Some v \<Longrightarrow> jput k v m = m"
  unfolding jget_def jput_def by (induction m) auto

lemma addBean_Ret:
  assumes "addBean fp cl vc w = (Ret b, w')"
  shows "\<exists>sim. castString (jget vc PROP_NAME_SIMULATOR) = Ret sim \<and>
     jget (simBeans sim w') (cl_name cl) = Some b \<and> jget (bw_beans w') sim = Some (simBeans sim w') \<and>
     (\<forall>sim'. sim' \<noteq> sim \<longrightarrow> simBeans sim' w' = simBeans sim' w)"
proof -
  obtain sim where sim: "castString (jget vc PROP_NAME_SIMULATOR) = Ret sim"
    using assms by (auto simp: addBean_def elim!: bindS_InrE)
  let ?w1 = "w\<lparr>bw_beans := jput sim (simBeans sim w) (bw_beans w)\<rparr>"
  show ?thesis
  proof (cases "jget (simBeans sim w) (cl_name cl)")
    case (Some bean)
    with assms sim show ?thesis by (auto simp: addBean_def bindS_def)
  next
    case None
    with assms sim obtain obj w2 where n: "newBean fp cl sim vc ?w1 = (Ret obj, w2)"
      and w': "b = (obj, cl)" "w' = w2\<lparr>bw_beans := jput sim (jput (cl_name cl) (obj, cl) (simBeans sim w2)) (bw_beans w2)\<rparr>"
      by (auto simp: addBean_def bindS_def Let_def split: prod.splits sum.splits)
    have "simBeans sim' w2 = simBeans sim' ?w1" for sim'
      using newBean_beans [OF n] by (rule simBeans_cong)
    with sim w' show ?thesis by (auto simp: simBeans_def jm.get_put split: option.splits)
  qed
qed


definition sampleClass :: "nat JClass" where
  "sampleClass = \<lparr>cl_name = ''a.B'', cl_constructors = [\<lparr>con_annotated = False, con_params = [],
       con_new = (\<lambda>vs n. (Ret n, Suc n))\<rparr>],
     cl_methods = [], cl_init = None, cl_onCreate = Some (\<lambda>obj sim n. (Ret (), n)),
     cl_onClose = (\<lambda>obj sim n. (Raise (RuntimeException ''close''), n))\<rparr>"

definition emptyBeans :: "nat BeanWorld" where
  "emptyBeans = \<lparr>bw_beans = [], bw_world = 0\<rparr>"


section \<open>Removing beans\<close>

lemma closeBeans_beans: "closeBeans sim bs w = (r, w') \<Longrightarrow> bw_beans w' = bw_beans w"
proof (induction bs arbitrary: w)
  case (Cons b bs)
  obtain name obj cl where b: "b = (name, obj, cl)" by (cases b)
  show ?case
    using Cons.prems unfolding b
    by (auto simp: bindS_def dest!: onWorld_beans Cons.IH split: prod.splits sum.splits if_splits)
qed simp

text \<open>Removing the beans of a simulator removes all of them, even when one of them raises an
  exception as it is closed, and leaves every other simulator its own.\<close>

theorem removeSimulatorBeans_removes:
  "simBeans sim (snd (removeSimulatorBeans sim w)) = [] \<and>
   (sim' = sim \<or> simBeans sim' (snd (removeSimulatorBeans sim w)) = simBeans sim' w)"
proof -
  obtain r w' where rw: "removeSimulatorBeans sim w = (r, w')" by (cases "removeSimulatorBeans sim w")
  then have "bw_beans w' = jremove sim (bw_beans w)"
    using closeBeans_beans by (fastforce simp: removeSimulatorBeans_def)
  with rw show ?thesis by (simp add: simBeans_def jm.get_remove)
qed

end
