(* ===== verification/Lifecycle.thy ===== *)
theory Lifecycle
  imports Beans Monitor
begin

text \<open>
  \<open>SimSimulator.java\<close>, \<open>SimulatorRepository.java\<close> and \<open>SimulatorService.java\<close>: starting and
  stopping a simulator, the map of simulators with refresh and restart, and the autostart.

  What a kind of simulator does in \<open>doStart\<close> and \<open>doStop\<close> is part of the simulator's record;
  scripts are seen through the properties the code reads from them.
\<close>

section \<open>The world\<close>

record ('w, 'u) LifeWorld =
  lw_beans :: "'w BeanWorld"
  lw_monitor :: "'u MonitorWorld"

definition onBeans :: "('a, 'w BeanWorld) prog \<Rightarrow> ('a, ('w, 'u) LifeWorld) prog" where
  "onBeans m w = (let (r, v) = m (lw_beans w) in (r, w\<lparr>lw_beans := v\<rparr>))"

definition onMonitor :: "('u MonitorWorld \<Rightarrow> 'u MonitorWorld) \<Rightarrow> ('w, 'u) LifeWorld \<Rightarrow> ('w, 'u) LifeWorld" where
  "onMonitor f w = w\<lparr>lw_monitor := f (lw_monitor w)\<rparr>"

section \<open>A simulator\<close>

text \<open>
  \<open>sim_doStart\<close> also tells the running URL the subclass sets, if it gets that far;
  \<open>sim_close\<close> is \<open>script.close()\<close>, which swallows its exceptions.
\<close>

record 'w Sim =
  sim_name :: string
  sim_listeners :: "string option"
  sim_autostart :: bool
  sim_proxyURL :: "string option"
  sim_running :: bool
  sim_runningURL :: "string option"
  sim_hub :: "HubListener Hub"
  sim_doStart :: "(unit, 'w) prog"
  sim_startURL :: "'w \<Rightarrow> string option"
  sim_doStop :: "(unit, 'w) prog"
  sim_close :: "'w \<Rightarrow> 'w"

text \<open>The proxy settings that \<open>init\<close> reads.\<close>

definition initProxy :: "string option \<Rightarrow> string option \<Rightarrow> string option res" where
  "initProxy proxyProp urlProp =
    (if (case proxyProp of None \<Rightarrow> False | Some s \<Rightarrow> parseBoolean s)
     then (case urlProp of None \<Rightarrow> Raise (RuntimeException ''no proxy url defined'') | Some u \<Rightarrow> Ret (Some u))
     else Ret None)"

text \<open>
  The user's side: the listener objects a class name stands for, with their initialisation, and
  what they do with events.
\<close>

record ('w, 'u) Users =
  us_newListener :: "string \<Rightarrow> (nat, 'w) prog"
  us_deliver :: "'u userDeliver"

definition inner :: "('a, 'w) prog \<Rightarrow> ('a, ('w, 'u) LifeWorld) prog" where
  "inner m = onBeans (onWorld m)"

fun addListeners :: "('w, 'u) Users \<Rightarrow> string list \<Rightarrow> HubListener Hub \<Rightarrow> ('w, 'u) LifeWorld
    \<Rightarrow> unit res \<times> HubListener Hub \<times> ('w, 'u) LifeWorld" where
  "addListeners us [] hub w = (Ret (), hub, w)"
| "addListeners us (c # cs) hub w =
    (case inner (us_newListener us (trim c)) w of
       (Inl e, w') \<Rightarrow> (Raise (IOException ''error when create simpulator listener''), hub, w')
     | (Inr l, w') \<Rightarrow> addListeners us cs (addListener (HubUser l) hub) w')"

text \<open>The result, the simulator afterwards and the world afterwards.\<close>

type_synonym ('w, 'u) simStep = "unit res \<times> 'w Sim \<times> ('w, 'u) LifeWorld"

text \<open>The handler of \<open>start\<close>: stop what was started, drop the listeners, throw again.\<close>

definition startFailed :: "jerror \<Rightarrow> 'w Sim \<Rightarrow> ('w, 'u) LifeWorld \<Rightarrow> ('w, 'u) simStep" where
  "startFailed e s w =
    (let (_, w') = inner (sim_doStop s) w in
     (Raise e, s\<lparr>sim_hub := removeAllListeners (sim_hub s)\<rparr>, w'))"

definition startSim :: "('w, 'u) Users \<Rightarrow> 'w Sim \<Rightarrow> ('w, 'u) LifeWorld \<Rightarrow> ('w, 'u) simStep" where
  "startSim us s w =
    (if sim_running s then (Ret (), s, w)
     else
       (case (case sim_listeners s of None \<Rightarrow> (Ret (), sim_hub s, w)
              | Some str \<Rightarrow> addListeners us (split CHR '','' str) (sim_hub s) w) of
          (Inl e, hub, w1) \<Rightarrow> startFailed e (s\<lparr>sim_hub := hub\<rparr>) w1
        | (Inr _, hub, w1) \<Rightarrow>
            (let url = sim_startURL s (bw_world (lw_beans w1));
                 s1 = s\<lparr>sim_hub := hub, sim_runningURL := (case url of None \<Rightarrow> sim_runningURL s | Some u \<Rightarrow> Some u)\<rparr> in
             case inner (sim_doStart s) w1 of
               (Inl e, w2) \<Rightarrow> startFailed e s1 w2
             | (Inr _, w2) \<Rightarrow>
                 (Ret (), s1\<lparr>sim_running := True\<rparr>,
                  onMonitor (fireSim (us_deliver us) hub (OnStart (sim_name s))) w2))))"

text \<open>
  \<open>stop\<close>: the \<open>finally\<close> block runs whether \<open>doStop\<close> raises or not, but an exception of a bean
  inside it ends it and replaces the first one.
\<close>

definition stopSim :: "('w, 'u) Users \<Rightarrow> 'w Sim \<Rightarrow> ('w, 'u) LifeWorld \<Rightarrow> ('w, 'u) simStep" where
  "stopSim us s w =
    (if \<not> sim_running s then (Ret (), s, w)
     else let (r0, w0) = inner (sim_doStop s) w in
       (case onBeans (removeSimulatorBeans (Some (sim_name s))) w0 of
          (Inl e, w1) \<Rightarrow> (Raise e, s, w1)
        | (Inr _, w1) \<Rightarrow>
            (r0, s\<lparr>sim_hub := removeAllListeners (sim_hub s), sim_running := False, sim_runningURL := None\<rparr>,
             snd (inner (\<lambda>v. (Ret (), sim_close s v))
               (onMonitor (fireSim (us_deliver us) (sim_hub s) (OnStop (sim_name s))) w1)))))"

definition getRunningURL :: "'w Sim \<Rightarrow> string option" where
  "getRunningURL s = (if sim_running s then sim_runningURL s else None)"

section \<open>The repository\<close>

type_synonym 'w simMap = "(string, 'w Sim) jmap"

type_synonym ('a, 'w, 'u) repStep = "'a res \<times> 'w simMap \<times> ('w, 'u) LifeWorld"

definition noSuchSimulator :: "string \<Rightarrow> jerror" where
  "noSuchSimulator name = RuntimeException (''no such simulator ['' @ name @ '']'')"

definition getAllSimulators :: "'w simMap \<Rightarrow> 'w Sim list" where
  "getAllSimulators m = map snd m"

definition getSimulator :: "string \<Rightarrow> 'w simMap \<Rightarrow> 'w Sim res" where
  "getSimulator name m = (case jget m name of None \<Rightarrow> Raise (noSuchSimulator name) | Some s \<Rightarrow> Ret s)"

text \<open>The simulators are objects: an operation on one is stored back under its name.\<close>

definition startSimulator :: "('w, 'u) Users \<Rightarrow> string \<Rightarrow> 'w simMap \<Rightarrow> ('w, 'u) LifeWorld
    \<Rightarrow> ('w Sim, 'w, 'u) repStep" where
  "startSimulator us name m w =
    (case jget m name of
       None \<Rightarrow> (Raise (noSuchSimulator name), m, w)
     | Some s \<Rightarrow>
         if sim_running s then (Ret s, m, w)
         else (case startSim us s w of
             (Inl e, s', w') \<Rightarrow> (Raise e, jput name s' m, w')
           | (Inr _, s', w') \<Rightarrow> (Ret s', jput name s' m, w')))"

definition stopSimulator :: "('w, 'u) Users \<Rightarrow> string \<Rightarrow> 'w simMap \<Rightarrow> ('w, 'u) LifeWorld
    \<Rightarrow> ('w Sim, 'w, 'u) repStep" where
  "stopSimulator us name m w =
    (case jget m name of
       None \<Rightarrow> (Raise (noSuchSimulator name), m, w)
     | Some s \<Rightarrow>
         if sim_running s then
           (case stopSim us s w of
              (Inl e, s', w') \<Rightarrow> (Raise e, jput name s' m, w')
            | (Inr _, s', w') \<Rightarrow> (Ret s', jput name s' m, w'))
         else (Ret s, m, w))"

text \<open>
  A script seen from the repository: its simulator name and the simulator its class makes of it
  (or the exception of the constructor).
\<close>

record 'w RepScript =
  rs_name :: string
  rs_make :: "'w Sim res"

definition createSimulator :: "'w RepScript \<Rightarrow> ('w, 'u) LifeWorld \<Rightarrow> 'w Sim res \<times> ('w, 'u) LifeWorld" where
  "createSimulator sc w =
    (case rs_make sc of
       Inl e \<Rightarrow> (Raise e, w)
     | Inr s \<Rightarrow>
         (Ret (s\<lparr>sim_hub := addFixedListener ListenerProxy (sim_hub s)\<rparr>),
          onMonitor (\<lambda>mw. mw\<lparr>mw_counters := initCounter (mw_now mw) (sim_name s) (mw_counters mw),
            mw_proxyListeners := setAdd MessageCounter (mw_proxyListeners mw)\<rparr>) w))"

fun addScripts :: "'w RepScript list \<Rightarrow> 'w simMap \<Rightarrow> ('w, 'u) LifeWorld \<Rightarrow> (unit, 'w, 'u) repStep" where
  "addScripts [] m w = (Ret (), m, w)"
| "addScripts (sc # scs) m w =
    (case jget m (rs_name sc) of
       Some _ \<Rightarrow> addScripts scs m w
     | None \<Rightarrow>
         (case createSimulator sc w of
            (Inl e, w') \<Rightarrow> (Raise e, m, w')
          | (Inr s, w') \<Rightarrow> addScripts scs (jput (sim_name s) s m) w'))"

text \<open>\<open>refresh\<close> and \<open>restartSimulator\<close> get the result of \<open>loadScripts(folder)\<close>.\<close>

definition refresh :: "'w RepScript list res \<Rightarrow> 'w simMap \<Rightarrow> ('w, 'u) LifeWorld \<Rightarrow> (unit, 'w, 'u) repStep" where
  "refresh loaded m w =
    (case loaded of
       Inl e \<Rightarrow> (Raise e, m, w)
     | Inr scripts \<Rightarrow> addScripts scripts (filter (\<lambda>(k, s). sim_running s) m) w)"

definition restartSimulator :: "('w, 'u) Users \<Rightarrow> 'w RepScript list res \<Rightarrow> string \<Rightarrow> 'w simMap
    \<Rightarrow> ('w, 'u) LifeWorld \<Rightarrow> ('w Sim, 'w, 'u) repStep" where
  "restartSimulator us loaded name m w =
    (case loaded of
       Inl e \<Rightarrow> (Raise e, m, w)
     | Inr scripts \<Rightarrow>
         (case (case jget m name of
                None \<Rightarrow> (Ret (), m, w)
              | Some s \<Rightarrow>
                  if sim_running s then (let (r, s', w') = stopSim us s w in (r, jput name s' m, w'))
                  else (Ret (), m, w)) of
            (Inl e, m1, w1) \<Rightarrow> (Raise e, m1, w1)
          | (Inr _, m1, w1) \<Rightarrow>
              (case find (\<lambda>sc. rs_name sc = name) scripts of
                 None \<Rightarrow> (Raise (noSuchSimulator name), m1, w1)
               | Some sc \<Rightarrow>
                   (case createSimulator sc w1 of
                      (Inl e, w2) \<Rightarrow> (Raise e, m1, w2)
                    | (Inr s, w2) \<Rightarrow>
                        (case startSim us s w2 of
                           (Inl e, s', w3) \<Rightarrow> (Raise e, jput (sim_name s) s' m1, w3)
                         | (Inr _, s', w3) \<Rightarrow> (Ret s', jput (sim_name s) s' m1, w3))))))"

section \<open>The service\<close>

text \<open>The autostart: every simulator with the property set is started; a failure is logged.\<close>

fun startEach :: "('w, 'u) Users \<Rightarrow> 'w Sim list \<Rightarrow> 'w simMap \<Rightarrow> ('w, 'u) LifeWorld
    \<Rightarrow> 'w simMap \<times> ('w, 'u) LifeWorld" where
  "startEach us [] m w = (m, w)"
| "startEach us (s # ss) m w =
    (if sim_autostart s
     then (let (_, m', w') = startSimulator us (sim_name s) m w in startEach us ss m' w')
     else startEach us ss m w)"

definition startService :: "('w, 'u) Users \<Rightarrow> 'w simMap \<Rightarrow> ('w, 'u) LifeWorld \<Rightarrow> 'w simMap \<times> ('w, 'u) LifeWorld" where
  "startService us m w = startEach us (getAllSimulators m) m w"

end
