(* ===== verification/LifecycleSpec.thy ===== *)
theory LifecycleSpec
  imports Lifecycle MonitorSpec BeansSpec
begin

text \<open>
  What the lifecycle promises: a start that returns leaves the simulator running and one that
  raises leaves it stopped and without listeners, a stop releases everything unless a bean
  objects, refresh keeps what runs, restart replaces it, and the autostart tries everything.
\<close>

section \<open>The interface of a simulator\<close>

text \<open>A run of starts and stops, each in a world of its own (other simulators act in between).\<close>

fun runOps :: "('s \<Rightarrow> 'v \<Rightarrow> unit res \<times> 's \<times> 'v) \<Rightarrow> ('s \<Rightarrow> 'v \<Rightarrow> unit res \<times> 's \<times> 'v) \<Rightarrow> (bool \<times> 'v) list \<Rightarrow> 's \<Rightarrow> 's" where
  "runOps start stop [] s = s"
| "runOps start stop ((isStart, w) # ops) s =
    runOps start stop ops (fst (snd ((if isStart then start else stop) s w)))"

locale lifecycle =
  fixes start stop :: "'s \<Rightarrow> 'v \<Rightarrow> unit res \<times> 's \<times> 'v"
    and running :: "'s \<Rightarrow> bool" and inv :: "'s \<Rightarrow> bool" and ident :: "'s \<Rightarrow> 'n"
  assumes start_inv: "inv s \<Longrightarrow> start s w = (r, s', w') \<Longrightarrow> inv s'"
    and stop_inv: "inv s \<Longrightarrow> stop s w = (r, s', w') \<Longrightarrow> inv s'"
    and start_running: "start s w = (Ret (), s', w') \<Longrightarrow> running s'"
    and start_failed: "\<not> running s \<Longrightarrow> start s w = (Raise e, s', w') \<Longrightarrow> \<not> running s'"
    and start_ident: "start s w = (r, s', w') \<Longrightarrow> ident s' = ident s"
    and stop_ident: "stop s w = (r, s', w') \<Longrightarrow> ident s' = ident s"
begin

lemma runOps_inv: "inv s \<Longrightarrow> inv (runOps start stop ops s)"
proof (induction ops arbitrary: s)
  case (Cons op ops)
  obtain b w where op: "op = (b, w)" by (cases op)
  obtain r s' w' where st: "(if b then start else stop) s w = (r, s', w')"
    by (cases "(if b then start else stop) s w")
  then have "inv s'"
    using Cons.prems start_inv [of s w r s' w'] stop_inv [of s w r s' w'] by (cases b) simp_all
  with Cons.IH [of s'] st op show ?case by simp
qed simp

lemma runOps_ident: "ident (runOps start stop ops s) = ident s"
proof (induction ops arbitrary: s)
  case (Cons op ops)
  obtain b w where op: "op = (b, w)" by (cases op)
  obtain r s' w' where st: "(if b then start else stop) s w = (r, s', w')"
    by (cases "(if b then start else stop) s w")
  then have "ident s' = ident s"
    using start_ident [of s w r s' w'] stop_ident [of s w r s' w'] by (cases b) simp_all
  with Cons.IH [of s'] st op show ?case by simp
qed simp

lemma start_iff: "\<not> running s \<Longrightarrow> start s w = (r, s', w') \<Longrightarrow> running s' \<longleftrightarrow> r = Ret ()"
  using start_running start_failed by (cases r) auto

end

section \<open>Simulators\<close>

definition simInv :: "'w Sim \<Rightarrow> bool" where
  "simInv s \<longleftrightarrow> simHub (sim_hub s) \<and> (sim_running s \<or> floatListeners (sim_hub s) = [])"

lemma simHub_removeAll: "simHub h \<Longrightarrow> simHub (removeAllListeners h)"
  by (simp add: simHub_def removeAllListeners_def usersOnly_def)

lemma simHub_addUser: "simHub h \<Longrightarrow> simHub (addListener (HubUser l) h)"
  by (simp add: simHub_def addListener_def usersOnly_def setAdd_def)

lemma float_removeAll [simp]: "floatListeners (removeAllListeners h) = []"
  by (simp add: removeAllListeners_def)

lemma addListeners_simHub: "addListeners us cs h w = (r, h', w') \<Longrightarrow> simHub h \<Longrightarrow> simHub h'"
  by (induction us cs h w rule: addListeners.induct) (auto simp: simHub_addUser split: prod.splits sum.splits)

lemma startFailed_eq:
  "startFailed e s w = (r, s', w') \<longleftrightarrow> r = Raise e \<and> s' = s\<lparr>sim_hub := removeAllListeners (sim_hub s)\<rparr> \<and>
    w' = snd (inner (sim_doStop s) w)"
  by (auto simp: startFailed_def split: prod.splits)

text \<open>The three ways a start can end.\<close>

lemma startSim_cases:
  assumes "startSim us s w = (r, s', w')"
  obtains (already) "sim_running s" "r = Ret ()" "s' = s"
  | (failed) e h u where "\<not> sim_running s" "r = Raise e" "s' = s\<lparr>sim_hub := removeAllListeners h, sim_runningURL := u\<rparr>"
      "simHub (sim_hub s) \<Longrightarrow> simHub h"
  | (started) h u where "\<not> sim_running s" "r = Ret ()" "s' = s\<lparr>sim_hub := h, sim_runningURL := u, sim_running := True\<rparr>"
      "simHub (sim_hub s) \<Longrightarrow> simHub h"
proof (cases "sim_running s")
  case True
  with assms show thesis by (intro already) (auto simp: startSim_def)
next
  case False
  obtain r1 h w1 where ls: "(case sim_listeners s of None \<Rightarrow> (Ret (), sim_hub s, w)
      | Some str \<Rightarrow> addListeners us (split CHR '','' str) (sim_hub s) w) = (r1, h, w1)"
    by (rule prod_cases3)
  then have h: "simHub (sim_hub s) \<Longrightarrow> simHub h"
    by (auto split: option.splits dest: addListeners_simHub)
  show thesis
  proof (cases r1)
    case (Inl e)
    with assms False ls show thesis
      by (intro failed [where e = e and h = h and u = "sim_runningURL s"]) (auto simp: startSim_def startFailed_eq h)
  next
    case (Inr x)
    let ?u = "case sim_startURL s (bw_world (lw_beans w1)) of None \<Rightarrow> sim_runningURL s | Some u \<Rightarrow> Some u"
    obtain r2 w2 where d: "inner (sim_doStart s) w1 = (r2, w2)" by (rule prod.exhaust)
    show thesis
    proof (cases r2)
      case (Inl e)
      with assms False ls Inr d show thesis
        by (intro failed [where e = e and h = h and u = ?u]) (auto simp: startSim_def startFailed_eq Let_def h)
    next
      case (Inr y)
      with assms False ls \<open>r1 = Inr x\<close> d show thesis
        by (intro started [where h = h and u = ?u]) (auto simp: startSim_def Let_def h)
    qed
  qed
qed

text \<open>The two ways a stop of a running simulator can end.\<close>

lemma stopSim_cases:
  assumes "stopSim us s w = (r, s', w')"
  obtains (idle) "\<not> sim_running s" "r = Ret ()" "s' = s" "w' = w"
  | (stuck) e w0 where "sim_running s" "w0 = snd (inner (sim_doStop s) w)"
      "onBeans (removeSimulatorBeans (Some (sim_name s))) w0 = (Raise e, w')" "r = Raise e" "s' = s"
  | (stopped) w0 w1 where "sim_running s" "inner (sim_doStop s) w = (r, w0)"
      "onBeans (removeSimulatorBeans (Some (sim_name s))) w0 = (Ret (), w1)"
      "s' = s\<lparr>sim_hub := removeAllListeners (sim_hub s), sim_running := False, sim_runningURL := None\<rparr>"
proof (cases "sim_running s")
  case False
  with assms show thesis by (intro idle) (auto simp: stopSim_def)
next
  case True
  obtain r0 w0 where d: "inner (sim_doStop s) w = (r0, w0)" by (rule prod.exhaust)
  obtain r1 w1 where b: "onBeans (removeSimulatorBeans (Some (sim_name s))) w0 = (r1, w1)" by (rule prod.exhaust)
  show thesis
  proof (cases r1)
    case (Inl e)
    with assms True d b show thesis by (intro stuck [of w0 e]) (auto simp: stopSim_def)
  next
    case (Inr x)
    with assms True d b show thesis by (intro stopped [of w0 w1]) (auto simp: stopSim_def Let_def)
  qed
qed

interpretation sims: lifecycle "startSim us" "stopSim us" sim_running simInv sim_name for us
proof unfold_locales
  fix s :: "'a Sim" and w :: "('a, 'b) LifeWorld" and r s' w'
  show "simInv s \<Longrightarrow> startSim us s w = (r, s', w') \<Longrightarrow> simInv s'"
    by (erule startSim_cases) (auto simp: simInv_def simHub_removeAll)
  show "simInv s \<Longrightarrow> stopSim us s w = (r, s', w') \<Longrightarrow> simInv s'"
    by (erule stopSim_cases) (auto simp: simInv_def simHub_removeAll)
  show "startSim us s w = (Ret (), s', w') \<Longrightarrow> sim_running s'"
    by (erule startSim_cases) auto
  show "\<not> sim_running s \<Longrightarrow> startSim us s w = (Raise e, s', w') \<Longrightarrow> \<not> sim_running s'" for e
    by (erule startSim_cases) auto
  show "startSim us s w = (r, s', w') \<Longrightarrow> sim_name s' = sim_name s"
    by (erule startSim_cases) auto
  show "stopSim us s w = (r, s', w') \<Longrightarrow> sim_name s' = sim_name s"
    by (erule stopSim_cases) auto
qed

section \<open>Starting and stopping\<close>

text \<open>C6: a simulator that has been started and stopped in any order, in whatever worlds, is running
  after a start exactly when the start returns; a start that raises leaves no listener behind.\<close>

theorem startSim_outcome:
  assumes "simInv s0" and "s = runOps (startSim us) (stopSim us) ops s0" and "\<not> sim_running s"
    and "startSim us s w = (r, s', w')"
  shows "(sim_running s' \<longleftrightarrow> r = Ret ()) \<and> sim_name s' = sim_name s0 \<and>
    (sim_running s' \<or> floatListeners (sim_hub s') = []) \<and> fixedListeners (sim_hub s') = [ListenerProxy]"
proof -
  have "simInv s" using sims.runOps_inv [OF assms(1)] assms(2) by simp
  then have "simInv s'" using sims.start_inv assms(4) by blast
  moreover have "sim_name s' = sim_name s0"
    using sims.start_ident [OF assms(4)] sims.runOps_ident [of us ops s0] assms(2) by simp
  ultimately show ?thesis
    using sims.start_iff [OF assms(3,4)] by (simp add: simInv_def simHub_def)
qed

definition freshSim :: "string \<Rightarrow> string option \<Rightarrow> nat Sim" where
  "freshSim name ls = \<lparr>sim_name = name, sim_listeners = ls, sim_autostart = True, sim_proxyURL = None,
     sim_running = False, sim_runningURL = None,
     sim_hub = addFixedListener ListenerProxy newHub,
     sim_doStart = (\<lambda>n. if n = 13 then (Raise (IOException ''port in use''), n) else (Ret (), n + 1)),
     sim_startURL = (\<lambda>n. Some ''url''), sim_doStop = (\<lambda>n. (Ret (), n - 1)), sim_close = id\<rparr>"

lemma freshSim_inv: "simInv (freshSim name ls)"
  by (simp add: simInv_def simHub_def freshSim_def addFixedListener_def newHub_def usersOnly_def setAdd_def)

definition sampleUsers :: "(nat, nat) Users" where
  "sampleUsers = \<lparr>us_newListener = (\<lambda>c n. if c = ''bad'' then (Raise (RuntimeException ''class''), n) else (Ret n, n)),
     us_deliver = (\<lambda>n e u. (True, Suc u))\<rparr>"

definition lifeWorld :: "nat \<Rightarrow> (nat, nat) LifeWorld" where
  "lifeWorld n = \<lparr>lw_beans = \<lparr>bw_beans = [], bw_world = n\<rparr>, lw_monitor = sampleWorld\<rparr>"

theorem startSim_outcome_witness:
  "\<not> sim_running (fst (snd (startSim sampleUsers (freshSim ''s'' (Some ''a, bad'')) (lifeWorld 1))))"
proof -
  let ?s = "freshSim ''s'' (Some ''a, bad'')"
  have "fst (startSim sampleUsers ?s (lifeWorld 1)) = Raise (IOException ''error when create simpulator listener'')"
    by code_simp
  moreover have "\<not> sim_running ?s" by (simp add: freshSim_def)
  moreover obtain r s' w' where "startSim sampleUsers ?s (lifeWorld 1) = (r, s', w')" by (rule prod_cases3)
  ultimately show ?thesis
    using startSim_outcome [OF freshSim_inv, of ?s sampleUsers "[]" "''s''" "Some ''a, bad''" "lifeWorld 1" r s' w'] by simp
qed

lemma inner_beans: "inner m w = (r, w') \<Longrightarrow> bw_beans (lw_beans w') = bw_beans (lw_beans w)"
  by (auto simp: inner_def onBeans_def onWorld_def split: prod.splits)

lemma removeSimulatorBeans_empty: "simBeans sim w = [] \<Longrightarrow> fst (removeSimulatorBeans sim w) = Ret ()"
  by (simp add: removeSimulatorBeans_def)

text \<open>Stopping a running simulator, when no bean raises as it is closed, leaves it stopped without
  listeners and URL, whether its \<open>doStop\<close> raises or not, and reports what \<open>doStop\<close> did.\<close>

theorem stopSim_stops:
  assumes "sim_running s" and "inner (sim_doStop s) w = (r0, w0)"
    and "fst (removeSimulatorBeans (Some (sim_name s)) (lw_beans w0)) = Ret ()"
  shows "\<exists>w'. stopSim us s w = (r0, s\<lparr>sim_hub := removeAllListeners (sim_hub s), sim_running := False,
    sim_runningURL := None\<rparr>, w')"
  using assms by (cases "removeSimulatorBeans (Some (sim_name s)) (lw_beans w0)")
    (auto simp: stopSim_def onBeans_def)

theorem stopSim_stops_witness:
  "\<exists>w'. stopSim sampleUsers ((freshSim ''s'' None)\<lparr>sim_running := True\<rparr>) (lifeWorld 1) =
    (Ret (), (freshSim ''s'' None)\<lparr>sim_hub := removeAllListeners (sim_hub (freshSim ''s'' None)),
       sim_running := False, sim_runningURL := None\<rparr>, w')"
  using stopSim_stops [of "(freshSim ''s'' None)\<lparr>sim_running := True\<rparr>" "lifeWorld 1" "Ret ()" "lifeWorld 0" sampleUsers]
  by (auto simp: freshSim_def lifeWorld_def inner_def onBeans_def onWorld_def removeSimulatorBeans_def simBeans_def)

text \<open>A bean that raises as it is closed makes \<open>stop\<close> raise after \<open>doStop\<close> has run: the
  simulator is still marked as running and keeps its listeners, and only a second stop, which
  runs \<open>doStop\<close> once more, completes.\<close>

theorem stopSim_stuck:
  assumes "sim_running s" and "inner (sim_doStop s) w = (r0, w0)"
    and "removeSimulatorBeans (Some (sim_name s)) (lw_beans w0) = (Raise e, b)"
  shows "stopSim us s w = (Raise e, s, w0\<lparr>lw_beans := b\<rparr>) \<and>
    (\<exists>w2. stopSim us s (w0\<lparr>lw_beans := b\<rparr>) = (fst (inner (sim_doStop s) (w0\<lparr>lw_beans := b\<rparr>)),
       s\<lparr>sim_hub := removeAllListeners (sim_hub s), sim_running := False, sim_runningURL := None\<rparr>, w2))"
proof
  show "stopSim us s w = (Raise e, s, w0\<lparr>lw_beans := b\<rparr>)"
    using assms by (simp add: stopSim_def onBeans_def)
  obtain r1 w1 where d: "inner (sim_doStop s) (w0\<lparr>lw_beans := b\<rparr>) = (r1, w1)" by (rule prod.exhaust)
  have "closeBeans (Some (sim_name s)) (simBeans (Some (sim_name s)) (lw_beans w0))
      (lw_beans w0\<lparr>bw_beans := jremove (Some (sim_name s)) (bw_beans (lw_beans w0))\<rparr>) = (Raise e, b)"
    using assms(3) by (simp add: removeSimulatorBeans_def)
  then have "bw_beans (lw_beans w1) = jremove (Some (sim_name s)) (bw_beans (lw_beans w0))"
    using inner_beans [OF d] closeBeans_beans by fastforce
  then have "fst (removeSimulatorBeans (Some (sim_name s)) (lw_beans w1)) = Ret ()"
    by (intro removeSimulatorBeans_empty) (simp add: simBeans_def)
  with d assms(1) show "\<exists>w2. stopSim us s (w0\<lparr>lw_beans := b\<rparr>) = (fst (inner (sim_doStop s) (w0\<lparr>lw_beans := b\<rparr>)),
       s\<lparr>sim_hub := removeAllListeners (sim_hub s), sim_running := False, sim_runningURL := None\<rparr>, w2)"
    by (cases "removeSimulatorBeans (Some (sim_name s)) (lw_beans w1)") (auto simp: stopSim_def onBeans_def)
qed

definition stuckWorld :: "(nat, nat) LifeWorld" where
  "stuckWorld = \<lparr>lw_beans = \<lparr>bw_beans = [(Some ''s'', [(''a.B'', 0, sampleClass)])], bw_world = 1\<rparr>, lw_monitor = sampleWorld\<rparr>"

theorem stopSim_stuck_witness:
  "\<exists>w'. stopSim sampleUsers ((freshSim ''s'' None)\<lparr>sim_running := True\<rparr>) stuckWorld =
    (Raise (RuntimeException ''close''), (freshSim ''s'' None)\<lparr>sim_running := True\<rparr>, w')"
proof -
  let ?s = "(freshSim ''s'' None)\<lparr>sim_running := True\<rparr>"
  have "inner (sim_doStop ?s) stuckWorld =
      (Ret (), stuckWorld\<lparr>lw_beans := lw_beans stuckWorld\<lparr>bw_world := 0\<rparr>\<rparr>)"
    by (simp add: freshSim_def stuckWorld_def inner_def onBeans_def onWorld_def)
  moreover have "removeSimulatorBeans (Some (sim_name ?s)) (lw_beans stuckWorld\<lparr>bw_world := 0\<rparr>) =
      (Raise (RuntimeException ''close''), \<lparr>bw_beans = [], bw_world = 0\<rparr>)"
    by (simp add: freshSim_def stuckWorld_def removeSimulatorBeans_def simBeans_def jget_def jremove_def
        sampleClass_def bindS_def onWorld_def)
  ultimately show ?thesis
    using stopSim_stuck [of ?s stuckWorld] by (simp add: freshSim_def)
qed

section \<open>The repository\<close>

text \<open>The map files every simulator under its own name.\<close>

definition mapOk :: "'w simMap \<Rightarrow> bool" where
  "mapOk m \<longleftrightarrow> jmap_ok m \<and> list_all (\<lambda>(k, s). k = sim_name s) m"

text \<open>The simulator a script makes has the script's name.\<close>

definition scriptOk :: "'w RepScript \<Rightarrow> bool" where
  "scriptOk sc \<longleftrightarrow> (\<forall>s. rs_make sc = Ret s \<longrightarrow> sim_name s = rs_name sc \<and> \<not> sim_running s)"

definition withProxy :: "'w Sim \<Rightarrow> 'w Sim" where
  "withProxy s = s\<lparr>sim_hub := addFixedListener ListenerProxy (sim_hub s)\<rparr>"

definition madeFrom :: "'w RepScript list \<Rightarrow> string \<Rightarrow> 'w Sim option" where
  "madeFrom scripts k =
    (case find (\<lambda>sc. rs_name sc = k) scripts of
       None \<Rightarrow> None
     | Some sc \<Rightarrow> (case rs_make sc of Inl _ \<Rightarrow> None | Inr s \<Rightarrow> Some (withProxy s)))"

lemma createSimulator_Ret:
  "createSimulator sc w = (Ret s, w') \<Longrightarrow> \<exists>s0. rs_make sc = Ret s0 \<and> s = withProxy s0"
  by (auto simp: createSimulator_def withProxy_def split: sum.splits)

lemma withProxy_fields [simp]:
  "sim_name (withProxy s) = sim_name s" "sim_running (withProxy s) = sim_running s"
  by (simp_all add: withProxy_def)

lemma addScripts_get:
  "addScripts scs m w = (Ret (), m', w') \<Longrightarrow> list_all scriptOk scs \<Longrightarrow>
   jget m' k = (case jget m k of Some s \<Rightarrow> Some s | None \<Rightarrow> madeFrom scs k)"
proof (induction scs m w rule: addScripts.induct)
  case (1 m w)
  then show ?case by (simp add: madeFrom_def split: option.splits)
next
  case (2 sc scs m w)
  show ?case
  proof (cases "jget m (rs_name sc)")
    case (Some s)
    with 2 show ?thesis by (auto simp: madeFrom_def split: option.splits)
  next
    case None
    with "2.prems"(1) obtain s w1 where c: "createSimulator sc w = (Ret s, w1)"
      and a: "addScripts scs (jput (sim_name s) s m) w1 = (Ret (), m', w')"
      by (auto split: prod.splits sum.splits)
    obtain s0 where s0: "rs_make sc = Ret s0" "s = withProxy s0"
      using createSimulator_Ret [OF c] by blast
    then have n: "sim_name s = rs_name sc" using "2.prems"(2) by (simp add: scriptOk_def)
    have "jget m' k = (case jget (jput (sim_name s) s m) k of Some s \<Rightarrow> Some s | None \<Rightarrow> madeFrom scs k)"
      using "2.IH"(1) [OF None c [symmetric] refl a] "2.prems"(2) by simp
    then show ?thesis using None n s0 by (auto simp: jm.get_put madeFrom_def split: option.splits)
  qed
qed

lemma jget_filter_running:
  "jmap_ok m \<Longrightarrow> jget (filter (\<lambda>(k, s). sim_running s) m) k =
    (case jget m k of Some s \<Rightarrow> if sim_running s then Some s else None | None \<Rightarrow> None)"
proof (induction m)
  case (Cons e m)
  obtain k' s where e: "e = (k', s)" by (cases e)
  have "k' = k \<Longrightarrow> map_of m k = None" using Cons.prems e
    by (auto simp: jmap_ok_def map_of_eq_None_iff)
  with Cons e show ?case by (auto simp: jget_def jmap_ok_def split: option.splits)
qed (simp add: jget_def)

text \<open>C5: a refresh that returns keeps the running simulators, the very objects, drops all others, and
  files a new, stopped simulator for every loaded script whose name is not taken, the first
  script of a name winning.\<close>

theorem refresh_result:
  assumes "refresh (Ret scripts) m w = (Ret (), m', w')" and "jmap_ok m" and "list_all scriptOk scripts"
  shows "jget m' k =
    (case jget m k of
       Some s \<Rightarrow> if sim_running s then Some s else madeFrom scripts k
     | None \<Rightarrow> madeFrom scripts k)"
proof -
  have "addScripts scripts (filter (\<lambda>(k, s). sim_running s) m) w = (Ret (), m', w')"
    using assms(1) by (simp add: refresh_def)
  from addScripts_get [OF this assms(3)] jget_filter_running [OF assms(2)] show ?thesis
    by (auto split: option.splits)
qed

definition repScript :: "string \<Rightarrow> nat RepScript" where
  "repScript name = \<lparr>rs_name = name, rs_make = Ret ((freshSim name None)\<lparr>sim_hub := newHub\<rparr>)\<rparr>"

definition twoSims :: "nat simMap" where
  "twoSims = [(''a'', (freshSim ''a'' None)\<lparr>sim_running := True\<rparr>), (''b'', freshSim ''b'' None)]"

lemma refresh_returns:
  "\<exists>m' w'. refresh (Ret [repScript ''c'', repScript ''a'']) twoSims (lifeWorld 0) = (Ret (), m', w')"
  by (simp add: refresh_def twoSims_def freshSim_def repScript_def jget_def jput_def createSimulator_def)

theorem refresh_result_witness:
  "\<exists>m' w'. refresh (Ret [repScript ''c'', repScript ''a'']) twoSims (lifeWorld 0) = (Ret (), m', w') \<and>
     jget m' ''a'' = Some ((freshSim ''a'' None)\<lparr>sim_running := True\<rparr>) \<and> jget m' ''b'' = None \<and> jget m' ''c'' \<noteq> None"
proof -
  obtain m' w' where r: "refresh (Ret [repScript ''c'', repScript ''a'']) twoSims (lifeWorld 0) = (Ret (), m', w')"
    using refresh_returns by blast
  have "list_all scriptOk [repScript ''c'', repScript ''a'']"
    by (auto simp: scriptOk_def repScript_def freshSim_def)
  moreover have "jmap_ok twoSims" by (simp add: jmap_ok_def twoSims_def)
  ultimately show ?thesis
    using r refresh_result [OF r]
    by (auto simp: twoSims_def jget_def madeFrom_def repScript_def freshSim_def)
qed



section \<open>The service\<close>

lemma startSimulator_get:
  assumes "jget m (sim_name s) = Some s" and "startSimulator us (sim_name s) m w = (r, m', w')"
  shows "(\<forall>k. k \<noteq> sim_name s \<longrightarrow> jget m' k = jget m k) \<and>
    (\<exists>s'. jget m' (sim_name s) = Some s' \<and> (sim_running s' \<or> (\<exists>e w'. startSim us s w = (Raise e, s', w'))))"
proof (cases "sim_running s")
  case True
  with assms show ?thesis by (auto simp: startSimulator_def)
next
  case False
  obtain r1 s' w1 where a: "startSim us s w = (r1, s', w1)" by (rule prod_cases3)
  then have "r1 = Ret () \<Longrightarrow> sim_running s'" using sims.start_running by blast
  with assms False a show ?thesis
    by (cases r1) (auto simp: startSimulator_def jm.get_put)
qed

lemma startEach_get:
  "startEach us ss m w = (m', w') \<Longrightarrow> distinct (map sim_name ss) \<Longrightarrow>
   (\<forall>s\<in>set ss. jget m (sim_name s) = Some s) \<Longrightarrow>
   (\<forall>k. k \<notin> sim_name ` set ss \<longrightarrow> jget m' k = jget m k) \<and>
   (\<forall>s\<in>set ss. if sim_autostart s
      then \<exists>s'. jget m' (sim_name s) = Some s' \<and> (sim_running s' \<or> (\<exists>v e v'. startSim us s v = (Raise e, s', v')))
      else jget m' (sim_name s) = Some s)"
proof (induction us ss m w rule: startEach.induct)
  case (2 us s ss m w)
  show ?case
  proof (cases "sim_autostart s")
    case False
    with 2 show ?thesis by (auto simp: image_iff)
  next
    case True
    obtain r m1 w1 where a: "startSimulator us (sim_name s) m w = (r, m1, w1)" by (rule prod_cases3)
    from startSimulator_get [OF _ a] "2.prems"(3)
    have o: "\<forall>k. k \<noteq> sim_name s \<longrightarrow> jget m1 k = jget m k"
      and s: "\<exists>s'. jget m1 (sim_name s) = Some s' \<and> (sim_running s' \<or> (\<exists>e w'. startSim us s w = (Raise e, s', w')))"
      by auto
    have rest: "startEach us ss m1 w1 = (m', w')" using "2.prems"(1) True a by simp
    have d: "sim_name s \<notin> sim_name ` set ss" "distinct (map sim_name ss)" using "2.prems"(2) by auto
    have "\<forall>t\<in>set ss. jget m1 (sim_name t) = Some t" using "2.prems"(3) o d(1) by (metis imageI list.set_intros(2))
    note IH = "2.IH"(1) [OF True a [symmetric] refl refl rest d(2) this]
    then have k: "\<forall>k. k \<notin> sim_name ` set ss \<longrightarrow> jget m' k = jget m1 k" by blast
    then have "jget m' (sim_name s) = jget m1 (sim_name s)" using d(1) by blast
    with IH o s True show ?thesis by auto
  qed
qed simp

text \<open>The autostart leaves every simulator without the property as it was, and every other one
  either running or as a start that raised has left it: no failure keeps the others from
  being tried.\<close>

theorem startService_tries_all:
  assumes "mapOk m" and "startService us m w = (m', w')" and "jget m k = Some s"
  shows "if sim_autostart s
    then \<exists>s'. jget m' k = Some s' \<and> (sim_running s' \<or> (\<exists>v e v'. startSim us s v = (Raise e, s', v')))
    else jget m' k = Some s"
proof -
  have names: "map sim_name (map snd m) = map fst m"
    using assms(1) by (induction m) (auto simp: mapOk_def jmap_ok_def)
  have d: "distinct (map sim_name (map snd m))"
    unfolding names using assms(1) by (simp add: mapOk_def jmap_ok_def)
  have g: "\<forall>s\<in>set (map snd m). jget m (sim_name s) = Some s"
    using assms(1) by (auto simp: mapOk_def jmap_ok_def jget_def list_all_iff)
  have s: "s \<in> set (map snd m)" "k = sim_name s"
    using assms(1,3) by (auto simp: jget_def mapOk_def list_all_iff dest!: map_of_SomeD intro: rev_image_eqI)
  from startEach_get [OF _ d g, of us w m' w'] assms(2) s show ?thesis
    by (auto simp: startService_def getAllSimulators_def)
qed

theorem startService_tries_all_witness:
  "\<exists>s'. jget (fst (startService sampleUsers [(''a'', freshSim ''a'' (Some ''bad'')), (''b'', freshSim ''b'' None)] (lifeWorld 0))) ''b''
     = Some s' \<and> (sim_running s' \<or> (\<exists>v e v'. startSim sampleUsers (freshSim ''b'' None) v = (Raise e, s', v')))"
proof -
  let ?m = "[(''a'', freshSim ''a'' (Some ''bad'')), (''b'', freshSim ''b'' None)]"
  have "mapOk ?m" by (simp add: mapOk_def jmap_ok_def freshSim_def)
  moreover have "jget ?m ''b'' = Some (freshSim ''b'' None)" by (simp add: jget_def)
  ultimately show ?thesis
    using startService_tries_all [of ?m sampleUsers "lifeWorld 0" _ _ "''b''"]
    by (cases "startService sampleUsers ?m (lifeWorld 0)") (auto simp: freshSim_def)
qed

end
