(* ===== verification/WebSocket.thy ===== *)
theory WebSocket
  imports Monitor
begin

text \<open>
  \<open>webbit/WebbitWSHandler.java\<close> and the part of \<open>WebbitWSSimRequest.java\<close> it rests on: the
  bundle of WebSocket connections of a channel, filed by identifier, and the handler of the open,
  message and close events.

  The bundle keeps a second reference to one of its lists, the list of the connections without an
  identifier; the lists and the connection objects therefore live in an explicit store.
\<close>

section \<open>The store\<close>

datatype ConnId = Unknown | ConnId string

record ConnObj =
  co_id :: ConnId
  co_connection :: nat
  co_delegator :: "nat option"

record Bundle =
  cb_objects :: "(nat, ConnObj) jmap"
  cb_lists :: "(nat, nat list) jmap"
  connectionMap :: "(ConnId, nat) jmap"
  unknownConnectionList :: nat
  cb_next :: nat

definition newBundle :: Bundle where
  "newBundle = \<lparr>cb_objects = [], cb_lists = [(0, [])], connectionMap = [(Unknown, 0)],
     unknownConnectionList = 0, cb_next = 1\<rparr>"

definition listAt :: "nat \<Rightarrow> Bundle \<Rightarrow> nat list" where
  "listAt ref b = (case jget (cb_lists b) ref of None \<Rightarrow> [] | Some l \<Rightarrow> l)"

definition setListAt :: "nat \<Rightarrow> nat list \<Rightarrow> Bundle \<Rightarrow> Bundle" where
  "setListAt ref l b = b\<lparr>cb_lists := jput ref l (cb_lists b)\<rparr>"

definition connAt :: "nat \<Rightarrow> Bundle \<Rightarrow> ConnObj" where
  "connAt c b = (case jget (cb_objects b) c of
     None \<Rightarrow> \<lparr>co_id = Unknown, co_connection = 0, co_delegator = None\<rparr> | Some obj \<Rightarrow> obj)"

text \<open>\<open>new ConnectionWithDelegator(connection, delegator)\<close>\<close>

definition newConn :: "nat \<Rightarrow> nat option \<Rightarrow> Bundle \<Rightarrow> nat \<times> Bundle" where
  "newConn connection delegator b =
    (let c = cb_next b in
     (c, b\<lparr>cb_objects := jput c \<lparr>co_id = Unknown, co_connection = connection, co_delegator = delegator\<rparr> (cb_objects b),
       cb_next := cb_next b + 1\<rparr>))"

section \<open>The bundle\<close>

definition addConnection :: "nat \<Rightarrow> Bundle \<Rightarrow> Bundle" where
  "addConnection c b =
    (let i = co_id (connAt c b) in
     case jget (connectionMap b) i of
       Some ref \<Rightarrow> setListAt ref (listAt ref b @ [c]) b
     | None \<Rightarrow>
         (let ref = cb_next b in
          setListAt ref [c] (b\<lparr>connectionMap := jput i ref (connectionMap b), cb_next := cb_next b + 1\<rparr>)))"

definition removeConnection :: "nat \<Rightarrow> Bundle \<Rightarrow> Bundle" where
  "removeConnection c b =
    (let i = co_id (connAt c b) in
     case jget (connectionMap b) i of
       None \<Rightarrow> b
     | Some ref \<Rightarrow>
         (let l = remove1 c (listAt ref b); b' = setListAt ref l b in
          if l = [] then b'\<lparr>connectionMap := jremove i (connectionMap b')\<rparr> else b'))"

definition setId :: "nat \<Rightarrow> string \<Rightarrow> Bundle \<Rightarrow> Bundle" where
  "setId c i b =
    (if co_id (connAt c b) = Unknown
     then (let b1 = b\<lparr>cb_objects := jput c (connAt c b\<lparr>co_id := ConnId i\<rparr>) (cb_objects b)\<rparr>;
               u = unknownConnectionList b1;
               b2 = setListAt u (remove1 c (listAt u b1)) b1 in
           addConnection c b2)
     else b)"

definition allLists :: "Bundle \<Rightarrow> nat list list" where
  "allLists b = map (\<lambda>(i, ref). listAt ref b) (connectionMap b)"

text \<open>The \<open>break\<close> leaves the inner loop only: the last list that has the connection wins.\<close>

definition findConnection :: "nat \<Rightarrow> Bundle \<Rightarrow> nat option" where
  "findConnection connection b =
    fold (\<lambda>l ret. case find (\<lambda>c. co_connection (connAt c b) = connection) l of Some c \<Rightarrow> Some c | None \<Rightarrow> ret)
      (allLists b) None"

definition ALL_CHANNELS :: string where "ALL_CHANNELS = ''_ALL_''"

definition findConnections :: "string \<Rightarrow> Bundle \<Rightarrow> nat list option" where
  "findConnections i b =
    (if startsWith i ALL_CHANNELS then Some (concat (allLists b))
     else map_option (\<lambda>ref. listAt ref b) (jget (connectionMap b) (ConnId i)))"

section \<open>The handler\<close>

datatype WsEffect =
    CloseConnection nat
  | StopClient nat
  | SendToClient nat bytes
  | FillRaw nat SimResponse
  | Notify "SimResponse list" bool

text \<open>\<open>ConnectionWithDelegator.close\<close> and \<open>ConnectionBundle.close\<close>\<close>

definition closeConn :: "nat \<Rightarrow> Bundle \<Rightarrow> WsEffect list" where
  "closeConn c b = CloseConnection (co_connection (connAt c b))
     # (case co_delegator (connAt c b) of None \<Rightarrow> [] | Some d \<Rightarrow> [StopClient d])"

definition closeBundle :: "Bundle \<Rightarrow> WsEffect list" where
  "closeBundle b = concat (map (\<lambda>c. closeConn c b) (concat (allLists b)))"

definition sendResponse :: "string \<Rightarrow> SimResponse \<Rightarrow> Bundle \<Rightarrow> WsEffect list res" where
  "sendResponse channel resp b =
    (case findConnections channel b of
       None \<Rightarrow> Raise (IOException (''there is no such channel named ['' @ channel @ '']''))
     | Some [] \<Rightarrow> Raise (IOException (''there is no such channel named ['' @ channel @ '']''))
     | Some conns \<Rightarrow> Ret (map (\<lambda>c. FillRaw (co_connection (connAt c b)) resp) conns))"

text \<open>
  A request after its responses were made: its connection, the outcome of \<open>genResponse\<close>, and
  the headers of the request, into which a response may have put a channel identifier.
\<close>

record WsEvent =
  ev_connection :: nat
  ev_outcome :: "SimResponse list res"
  ev_headers :: "(string, string) jmap"

record WsHandler =
  wh_channel :: string
  wh_proxy :: bool
  wh_getBytes :: "string \<Rightarrow> bytes"

definition HEADER_NAME_CHANNEL_ID :: string where
  "HEADER_NAME_CHANNEL_ID = ''_Channel_ID''"

definition HEADER_NAME_CHANNEL :: string where
  "HEADER_NAME_CHANNEL = ''_Channel''"

definition getHeaderLine :: "(string, string) jmap \<Rightarrow> string \<Rightarrow> string option" where
  "getHeaderLine headers header = map_option (\<lambda>v. header @ '': '' @ v) (jget headers header)"

definition wsTopLine :: "string \<Rightarrow> string \<Rightarrow> string" where
  "wsTopLine type channel = type @ '' '' @ channel @ '' HTTP/1.1''"

text \<open>
  \<open>doFillResponse\<close>: the channel identifier of the response is kept in the request's headers,
  and the response goes to the channel it names or back to the connection of the request. A
  header that is not a string raises.
\<close>

definition wsDoFillResponse ::
  "nat \<Rightarrow> Bundle \<Rightarrow> (string, string) jmap \<Rightarrow> SimResponse \<Rightarrow> (string, string) jmap \<times> WsEffect list res" where
  "wsDoFillResponse connection b headers resp =
    (case bindE (castString (jget (resp_headers resp) HEADER_NAME_CHANNEL)) (\<lambda>actualChannel.
            bindE (castString (jget (resp_headers resp) HEADER_NAME_CHANNEL_ID)) (\<lambda>channelID.
              Ret (actualChannel, channelID))) of
       Inl e \<Rightarrow> (headers, Raise e)
     | Inr (actualChannel, channelID) \<Rightarrow>
         ((case channelID of None \<Rightarrow> headers | Some i \<Rightarrow> jput HEADER_NAME_CHANNEL_ID i headers),
          (case actualChannel of
             Some ch \<Rightarrow> sendResponse ch resp b
           | None \<Rightarrow> Ret [FillRaw connection resp])))"

definition handleIDChange :: "WsHandler \<Rightarrow> WsEvent \<Rightarrow> Bundle \<Rightarrow> Bundle res" where
  "handleIDChange h ev b =
    (case getHeaderLine (ev_headers ev) HEADER_NAME_CHANNEL_ID of
       None \<Rightarrow> Ret b
     | Some headerLine \<Rightarrow>
         bindE (parseHeaderLine headerLine) (\<lambda>(name, value).
           case findConnection (ev_connection ev) b of
             None \<Rightarrow> Raise NullPointerException
           | Some c \<Rightarrow> Ret (setId c (value @ ''@'' @ wh_channel h) b)))"

definition proxyResponse :: "WsHandler \<Rightarrow> SimResponse" where
  "proxyResponse h = newSimResponseMessage (wh_getBytes h) ''Unknown due to proxy mechanism''"

definition notify :: "SimResponse list \<Rightarrow> WsEffect" where
  "notify respList = Notify respList (respList \<noteq> [])"

type_synonym wsStep = "unit res \<times> Bundle \<times> WsEffect list"

text \<open>The \<open>finally\<close> block of \<open>onOpen\<close> and \<open>onMessage\<close>.\<close>

definition finishEvent :: "WsHandler \<Rightarrow> WsEvent \<Rightarrow> unit res \<Rightarrow> Bundle \<Rightarrow> WsEffect list \<Rightarrow> SimResponse list \<Rightarrow> wsStep" where
  "finishEvent h ev r b effs respList =
    (case handleIDChange h ev b of
       Inl e \<Rightarrow> (Raise e, b, effs)
     | Inr b' \<Rightarrow> (r, b', effs @ [notify respList]))"

text \<open>\<open>startClient\<close> is the outcome of connecting to the proxied server.\<close>

definition onOpen :: "WsHandler \<Rightarrow> nat res \<Rightarrow> WsEvent \<Rightarrow> Bundle \<Rightarrow> wsStep" where
  "onOpen h startClient ev b =
    (case ev_outcome ev of
       Inr respList \<Rightarrow>
         (let (c, b1) = newConn (ev_connection ev) None b in
          finishEvent h ev (Ret ()) (addConnection c b1) [] respList)
     | Inl _ \<Rightarrow>
         if wh_proxy h then
           (case startClient of
              Inr d \<Rightarrow>
                (let (c, b1) = newConn (ev_connection ev) (Some d) b in
                 finishEvent h ev (Ret ()) (addConnection c b1) [] [proxyResponse h])
            | Inl e \<Rightarrow>
                if isIOException e then finishEvent h ev (Ret ()) b [] []
                else finishEvent h ev (Raise e) b [] [])
         else finishEvent h ev (Ret ()) b [] [])"

text \<open>The client of a proxied connection; \<open>null\<close> on the way to it raises.\<close>

definition delegatorOf :: "WsEvent \<Rightarrow> Bundle \<Rightarrow> nat res" where
  "delegatorOf ev b =
    (case findConnection (ev_connection ev) b of
       None \<Rightarrow> Raise NullPointerException
     | Some c \<Rightarrow> (case co_delegator (connAt c b) of None \<Rightarrow> Raise NullPointerException | Some d \<Rightarrow> Ret d))"

definition onMessage :: "WsHandler \<Rightarrow> bytes \<Rightarrow> WsEvent \<Rightarrow> Bundle \<Rightarrow> wsStep" where
  "onMessage h message ev b =
    (case ev_outcome ev of
       Inr respList \<Rightarrow> finishEvent h ev (Ret ()) b [] respList
     | Inl _ \<Rightarrow>
         if wh_proxy h then
           (case delegatorOf ev b of
              Inl e \<Rightarrow> finishEvent h ev (Raise e) b [] []
            | Inr d \<Rightarrow> finishEvent h ev (Ret ()) b [SendToClient d message] [proxyResponse h])
         else finishEvent h ev (Ret ()) b [] [])"

definition finishClose :: "WsEvent \<Rightarrow> unit res \<Rightarrow> Bundle \<Rightarrow> WsEffect list \<Rightarrow> SimResponse list \<Rightarrow> wsStep" where
  "finishClose ev r b effs respList =
    (case findConnection (ev_connection ev) b of
       None \<Rightarrow> (Raise NullPointerException, b, effs)
     | Some c \<Rightarrow> (r, removeConnection c b, effs @ [CloseConnection (ev_connection ev), notify respList]))"

definition onClose :: "WsHandler \<Rightarrow> WsEvent \<Rightarrow> Bundle \<Rightarrow> wsStep" where
  "onClose h ev b =
    (case ev_outcome ev of
       Inr respList \<Rightarrow> finishClose ev (Ret ()) b [] respList
     | Inl e \<Rightarrow>
         if \<not> isIOException e then finishClose ev (Raise e) b [] []
         else if wh_proxy h then
           (case delegatorOf ev b of
              Inl e' \<Rightarrow> finishClose ev (Raise e') b [] []
            | Inr d \<Rightarrow> finishClose ev (Ret ()) b [StopClient d] [proxyResponse h])
         else finishClose ev (Ret ()) b [] [])"

section \<open>The channels of a simulator\<close>

text \<open>
  \<open>WebbitSimulator.doStart\<close> makes a handler for every sub-script; here are their bundles, by the name
  of the channel.
\<close>

definition reformatChannelName :: "string \<Rightarrow> string" where
  "reformatChannelName channelName = replaceChar CHR ''.'' CHR ''/'' channelName"

definition newHandlers :: "string list \<Rightarrow> (string, Bundle) jmap" where
  "newHandlers folders = fold (\<lambda>f. jput (''/'' @ reformatChannelName f) newBundle) folders []"

text \<open>\<open>WebbitSimulator.fillResponse\<close>; without a channel it raises, because there is nothing to split.\<close>

definition webbitFillResponse :: "(string, Bundle) jmap \<Rightarrow> SimResponse \<Rightarrow> WsEffect list res" where
  "webbitFillResponse handlers response =
    bindE (castString (jget (resp_headers response) HEADER_NAME_CHANNEL)) (\<lambda>channel.
      case channel of
        None \<Rightarrow> Raise NullPointerException
      | Some ch \<Rightarrow>
          bindE (getBrokerName ch) (\<lambda>channelName.
            case jget handlers channelName of
              None \<Rightarrow> Raise (IOException (''no such ws channel ['' @ channelName @ ''] exists''))
            | Some b \<Rightarrow>
                sendResponse ch (response\<lparr>resp_headers := jremove HEADER_NAME_CHANNEL (resp_headers response)\<rparr>) b))"

end
