(* ===== verification/SessionLess.thy ===== *)
theory SessionLess
  imports Respond WebSocket
begin

text \<open>
  \<open>SimSesseionLessSimulator.java\<close>: the interface of the simulators that can send a response which no
  request of their own asked for. Its contract is a locale; the JMS, the Kafka, the WebSocket and the
  socket simulator are its interpretations, each in the theory that proves its facts. The client is
  \<open>AbstractSimRequest.fillResponse\<close>, for a response that names another simulator.
\<close>

section \<open>The client\<close>

text \<open>The channels of a request when the simulator \<open>status\<close> describes is the one that is named.\<close>

definition forwardSinks :: "(SimResponse \<Rightarrow> (unit, 'e list) prog) \<Rightarrow> (bool \<times> bool) option \<Rightarrow> 'e list Sinks" where
  "forwardSinks fill status =
    \<lparr>sk_doFill = (\<lambda>r. retS r), sk_simulator = (\<lambda>_ _. status),
     sk_simFill = (\<lambda>_ r. bindS (fill r) (\<lambda>_. retS r)), sk_respContext = []\<rparr>"

text \<open>
  A response to a simulator is sent by the endpoint its channel names, and by no other, if the
  simulator runs; or else an exception is raised and nothing is sent. \<open>writes\<close> tells which effects are
  those of an endpoint.
\<close>

definition delivers :: "(SimResponse \<Rightarrow> (unit, 'e list) prog) \<Rightarrow> (string \<Rightarrow> 'p option) \<Rightarrow> ('p \<Rightarrow> 'e \<Rightarrow> bool) \<Rightarrow> bool" where
  "delivers fill endpoint writes \<longleftrightarrow>
    (\<forall>status r target w res w'.
      jget (resp_headers r) HEADER_NAME_RESPONSE_TARGETSIMULATOR = Some (JStr target) \<longrightarrow>
      fillResponse (forwardSinks fill status) r w = (res, w') \<longrightarrow>
      (\<exists>e. res = Raise e \<and> w' = w) \<or>
      (\<exists>ch p es. status = Some (True, True) \<and> jget (resp_headers r) HEADER_NAME_CHANNEL = Some (JStr ch)
        \<and> endpoint ch = Some p \<and> w' = w @ es \<and> es \<noteq> [] \<and> (\<forall>e \<in> set es. writes p e)))"

text \<open>Where sending is modelled by the list of its effects, they are appended.\<close>

definition emitting :: "(SimResponse \<Rightarrow> 'e list res) \<Rightarrow> SimResponse \<Rightarrow> (unit, 'e list) prog" where
  "emitting f r w = (case f r of Inl e \<Rightarrow> (Raise e, w) | Inr es \<Rightarrow> (Ret (), w @ es))"

lemma emitting_Raise: "emitting f r w = (Inl e, w') \<Longrightarrow> w' = w"
  by (simp add: emitting_def split: sum.splits)

lemma emitting_Ret: "emitting f r w = (Inr u, w') \<Longrightarrow> (\<And>es. f r = Inr es \<Longrightarrow> w' = w @ es \<Longrightarrow> thesis) \<Longrightarrow> thesis"
  by (simp add: emitting_def split: sum.splits)

section \<open>The contract\<close>

locale session_less =
  fixes fill :: "SimResponse \<Rightarrow> (unit, 'e list) prog"
    and endpoint :: "string \<Rightarrow> 'p option"
    and writes :: "'p \<Rightarrow> 'e \<Rightarrow> bool"
  assumes fill_raise: "fill r w = (Inl e, w') \<Longrightarrow> w' = w"
    and fill_ret: "fill r w = (Inr u, w') \<Longrightarrow>
      \<exists>ch p es. jget (resp_headers r) HEADER_NAME_CHANNEL = Some (JStr ch) \<and> endpoint ch = Some p
        \<and> w' = w @ es \<and> es \<noteq> [] \<and> (\<forall>e \<in> set es. writes p e)"
begin

lemma fill_cases:
  assumes "fill r w = (res, w')"
  obtains (raised) e where "res = Inl e" and "w' = w"
  | (sent) ch p es where "res = Inr ()" and "jget (resp_headers r) HEADER_NAME_CHANNEL = Some (JStr ch)"
      and "endpoint ch = Some p" and "w' = w @ es" and "es \<noteq> []" and "\<forall>e \<in> set es. writes p e"
proof (cases res)
  case (Inl e)
  then show thesis using assms fill_raise raised by blast
next
  case (Inr u)
  then show thesis using assms fill_ret [of r w u w'] sent by auto
qed

lemma channel_kept:
  "jget (jremove HEADER_NAME_RESPONSE_TARGETSIMULATOR h) HEADER_NAME_CHANNEL = jget h HEADER_NAME_CHANNEL"
proof -
  have "HEADER_NAME_CHANNEL \<noteq> HEADER_NAME_RESPONSE_TARGETSIMULATOR" by code_simp
  then show ?thesis by simp
qed

lemma forward:
  assumes "jget (resp_headers r) HEADER_NAME_RESPONSE_TARGETSIMULATOR = Some (JStr target)"
  shows "fillResponse (forwardSinks fill status) r w =
    (case status of
       None \<Rightarrow> (Raise (RuntimeException (''no such simulator ['' @ target @ '']'')), w)
     | Some (running, sessionLess) \<Rightarrow>
         if \<not> running then (Raise (IOException (''Simulator ['' @ target @ ''] is not running'')), w)
         else if \<not> sessionLess then
           (Raise (IOException (''Simulator ['' @ target @ ''] is not an instance of SimSesseionLessSimulator'')), w)
         else bindS (fill (r\<lparr>resp_headers := jremove HEADER_NAME_RESPONSE_TARGETSIMULATOR (resp_headers r)\<rparr>))
           (\<lambda>_. retS (r\<lparr>resp_headers := jremove HEADER_NAME_RESPONSE_TARGETSIMULATOR (resp_headers r)\<rparr>)) w)"
  using assms by (simp add: fillResponse_def removeTarget_def castString_def bindS_apply forwardResponse_def forwardSinks_def
      split: option.split)

theorem delivered: "delivers fill endpoint writes"
  unfolding delivers_def
proof (intro allI impI)
  fix status r target w res w'
  assume target: "jget (resp_headers r) HEADER_NAME_RESPONSE_TARGETSIMULATOR = Some (JStr target)"
    and run: "fillResponse (forwardSinks fill status) r w = (res, w')"
  let ?r = "r\<lparr>resp_headers := jremove HEADER_NAME_RESPONSE_TARGETSIMULATOR (resp_headers r)\<rparr>"
  show "(\<exists>e. res = Raise e \<and> w' = w) \<or>
    (\<exists>ch p es. status = Some (True, True) \<and> jget (resp_headers r) HEADER_NAME_CHANNEL = Some (JStr ch)
      \<and> endpoint ch = Some p \<and> w' = w @ es \<and> es \<noteq> [] \<and> (\<forall>e \<in> set es. writes p e))"
  proof (cases "status = Some (True, True)")
    case False
    then show ?thesis using run by (auto simp: forward [OF target] split: option.splits if_splits)
  next
    case True
    obtain res1 w1 where f: "fill ?r w = (res1, w1)" by (rule prod.exhaust)
    then show ?thesis
    proof (cases rule: fill_cases)
      case (raised e)
      then show ?thesis using run f True by (auto simp: forward [OF target])
    next
      case (sent ch p es)
      then show ?thesis using run f True by (auto simp: forward [OF target] channel_kept)
    qed
  qed
qed

text \<open>Sending a list of responses: every effect is one of an endpoint a response of the list names.\<close>

definition named :: "SimResponse list \<Rightarrow> 'e \<Rightarrow> bool" where
  "named rs e \<longleftrightarrow>
    (\<exists>r \<in> set rs. \<exists>ch p. jget (resp_headers r) HEADER_NAME_CHANNEL = Some (JStr ch) \<and> endpoint ch = Some p \<and> writes p e)"

lemma fill_named: "\<exists>es. snd (fill r w) = w @ es \<and> (\<forall>e \<in> set es. named [r] e)"
proof -
  obtain res w1 where f: "fill r w = (res, w1)" by (rule prod.exhaust)
  then show ?thesis
  proof (cases rule: fill_cases)
    case (raised e)
    then show ?thesis using f by (intro exI [of _ "[]"]) simp
  next
    case (sent ch p es)
    then show ?thesis using f by (intro exI [of _ es]) (simp add: named_def)
  qed
qed

lemma fill_all: "\<exists>es. foldl (\<lambda>w r. snd (fill r w)) w rs = w @ es \<and> (\<forall>e \<in> set es. named rs e)"
proof (induction rs arbitrary: w)
  case (Cons r rs)
  obtain es1 where es1: "snd (fill r w) = w @ es1" "\<forall>e \<in> set es1. named [r] e" using fill_named by blast
  obtain es2 where es2: "foldl (\<lambda>w r. snd (fill r w)) (w @ es1) rs = (w @ es1) @ es2" "\<forall>e \<in> set es2. named rs e"
    using Cons.IH by blast
  have "\<forall>e \<in> set (es1 @ es2). named (r # rs) e" using es1(2) es2(2) by (auto simp: named_def)
  then show ?case using es1(1) es2(1) by (intro exI [of _ "es1 @ es2"]) simp
qed simp

end

end
