(* ===== verification/WebSocketSpec.thy ===== *)
theory WebSocketSpec
  imports WebSocket SessionLess
begin

text \<open>
  What holds of the bundle of WebSocket connections: as long as the list of the unidentified
  connections stays in the map, every open connection is filed exactly once, under its own
  identifier; once that list has been dropped, a connection that closes is no longer taken out.
\<close>

section \<open>Lists and objects of the store\<close>

lemma listAt_setListAt [simp]: "listAt r (setListAt s l b) = (if r = s then l else listAt r b)"
  by (simp add: listAt_def setListAt_def)

lemma setListAt_simps [simp]:
  "cb_objects (setListAt r l b) = cb_objects b"
  "connectionMap (setListAt r l b) = connectionMap b"
  "unknownConnectionList (setListAt r l b) = unknownConnectionList b"
  "cb_next (setListAt r l b) = cb_next b"
  "connAt c (setListAt r l b) = connAt c b"
  by (simp_all add: setListAt_def connAt_def)

lemma listAt_update [simp]:
  "listAt r (b\<lparr>cb_objects := objs\<rparr>) = listAt r b"
  "listAt r (b\<lparr>connectionMap := m\<rparr>) = listAt r b"
  "listAt r (b\<lparr>cb_next := n\<rparr>) = listAt r b"
  by (simp_all add: listAt_def)

lemma connAt_update [simp]:
  "connAt c (b\<lparr>connectionMap := m\<rparr>) = connAt c b"
  "connAt c (b\<lparr>cb_next := n\<rparr>) = connAt c b"
  "connAt c (b\<lparr>cb_objects := jput d obj objs\<rparr>) = (if c = d then obj else connAt c (b\<lparr>cb_objects := objs\<rparr>))"
  "connAt c (b\<lparr>cb_objects := cb_objects b\<rparr>) = connAt c b"
  by (simp_all add: connAt_def)

section \<open>The invariant\<close>

text \<open>Every list holds, once each, the connections of its identifier; no two identifiers share a list.\<close>

definition filed :: "Bundle \<Rightarrow> bool" where
  "filed b \<longleftrightarrow> jmap_ok (connectionMap b) \<and>
    (\<forall>i r. jget (connectionMap b) i = Some r \<longrightarrow> r < cb_next b \<and> distinct (listAt r b) \<and>
       (\<forall>c \<in> set (listAt r b). c < cb_next b \<and> co_id (connAt c b) = i)) \<and>
    (\<forall>i j r. jget (connectionMap b) i = Some r \<longrightarrow> jget (connectionMap b) j = Some r \<longrightarrow> i = j)"

definition unknownKept :: "Bundle \<Rightarrow> bool" where
  "unknownKept b \<longleftrightarrow> jget (connectionMap b) Unknown = Some (unknownConnectionList b)"

definition listed :: "Bundle \<Rightarrow> nat \<Rightarrow> bool" where
  "listed b c \<longleftrightarrow> (\<exists>i r. jget (connectionMap b) i = Some r \<and> c \<in> set (listAt r b))"

lemma filedD:
  assumes "filed b" "jget (connectionMap b) i = Some r"
  shows "r < cb_next b" "distinct (listAt r b)"
    "c \<in> set (listAt r b) \<Longrightarrow> c < cb_next b" "c \<in> set (listAt r b) \<Longrightarrow> co_id (connAt c b) = i"
  using assms by (auto simp: filed_def)

lemma filedI:
  assumes "jmap_ok (connectionMap b)"
    and "\<And>i r. jget (connectionMap b) i = Some r \<Longrightarrow> r < cb_next b \<and> distinct (listAt r b)"
    and "\<And>i r c. jget (connectionMap b) i = Some r \<Longrightarrow> c \<in> set (listAt r b) \<Longrightarrow> c < cb_next b \<and> co_id (connAt c b) = i"
    and "\<And>i j r. jget (connectionMap b) i = Some r \<Longrightarrow> jget (connectionMap b) j = Some r \<Longrightarrow> i = j"
  shows "filed b"
  using assms unfolding filed_def by blast

lemma filed_ok: "filed b \<Longrightarrow> jmap_ok (connectionMap b)"
  by (simp add: filed_def)

lemma filed_inj:
  "filed b \<Longrightarrow> jget (connectionMap b) i = Some r \<Longrightarrow> jget (connectionMap b) j = Some r \<Longrightarrow> i = j"
  by (auto simp: filed_def)

lemma filed_newBundle: "filed newBundle" "unknownKept newBundle"
  by (auto simp: filed_def unknownKept_def newBundle_def jget_def jmap_ok_def listAt_def split: if_splits)

lemma listedI: "jget (connectionMap b) i = Some r \<Longrightarrow> c \<in> set (listAt r b) \<Longrightarrow> listed b c"
  by (auto simp: listed_def)

lemma listedE:
  assumes "listed b c"
  obtains i r where "jget (connectionMap b) i = Some r" "c \<in> set (listAt r b)"
  using assms by (auto simp: listed_def)

lemma listed_objects [simp]: "listed (b\<lparr>cb_objects := objs\<rparr>) d = listed b d"
  by (simp add: listed_def)

lemma listed_setListAt:
  assumes "jget (connectionMap b) i = Some r"
  shows "listed (setListAt r l b) d \<longleftrightarrow>
    d \<in> set l \<or> (\<exists>j s. s \<noteq> r \<and> jget (connectionMap b) j = Some s \<and> d \<in> set (listAt s b))"
  using assms by (auto simp: listed_def split: if_splits)

lemma listed_split:
  assumes "jget (connectionMap b) i = Some r"
  shows "listed b d \<longleftrightarrow>
    d \<in> set (listAt r b) \<or> (\<exists>j s. s \<noteq> r \<and> jget (connectionMap b) j = Some s \<and> d \<in> set (listAt s b))"
  using assms by (auto simp: listed_def)

lemma listed_delete:
  assumes "filed b" "jget (connectionMap b) i = Some r"
  shows "listed (setListAt r l b\<lparr>connectionMap := jremove i (connectionMap b)\<rparr>) d \<longleftrightarrow>
    (\<exists>j s. s \<noteq> r \<and> jget (connectionMap b) j = Some s \<and> d \<in> set (listAt s b))"
proof -
  have "j = i" if "jget (connectionMap b) j = Some r" for j
    using filed_inj [OF assms(1) that assms(2)] .
  moreover have "j \<noteq> i" if "jget (connectionMap b) j = Some s" "s \<noteq> r" for j s
    using that assms(2) by auto
  ultimately show ?thesis
    unfolding listed_def by (simp add: jm.get_remove) (metis (no_types, lifting))
qed

lemma listed_iff:
  assumes "filed b"
  shows "listed b c \<longleftrightarrow> (\<exists>r. jget (connectionMap b) (co_id (connAt c b)) = Some r \<and> c \<in> set (listAt r b))"
  using filedD(4) [OF assms] by (auto simp: listed_def)

lemma filed_fresh:
  assumes "filed b" "cb_next b \<le> c" shows "\<not> listed b c"
  using filedD(3) [OF assms(1)] assms(2) by (fastforce simp: listed_def)

lemma newConn_filed:
  assumes "filed b" "newConn connection delegator b = (c, b')"
  shows "filed b'" "c < cb_next b'" "\<not> listed b' c" "unknownKept b' \<longleftrightarrow> unknownKept b"
    "co_connection (connAt c b') = connection" "co_id (connAt c b') = Unknown" "co_delegator (connAt c b') = delegator"
    "connectionMap b' = connectionMap b" "listAt r b' = listAt r b"
proof -
  from assms(2) have c: "c = cb_next b" and b': "b' = b\<lparr>cb_objects := jput c \<lparr>co_id = Unknown, co_connection = connection,
      co_delegator = delegator\<rparr> (cb_objects b), cb_next := cb_next b + 1\<rparr>"
    by (auto simp: newConn_def Let_def)
  have ne: "d \<noteq> c" if "jget (connectionMap b) i = Some r" "d \<in> set (listAt r b)" for i r d
    using filedD(3) [OF assms(1) that] c by simp
  show "filed b'"
    using assms(1) ne unfolding filed_def b' by (auto simp: less_Suc_eq)
  show "\<not> listed b' c" using ne by (auto simp: listed_def b')
  show "c < cb_next b'" "unknownKept b' \<longleftrightarrow> unknownKept b"
    "co_connection (connAt c b') = connection" "co_id (connAt c b') = Unknown" "co_delegator (connAt c b') = delegator"
    "connectionMap b' = connectionMap b" "listAt r b' = listAt r b"
    by (simp_all add: b' c unknownKept_def)
qed

lemma addConnection_filed:
  assumes "filed b" "c < cb_next b" "\<not> listed b c"
  shows "filed (addConnection c b)"
    and "unknownKept b \<Longrightarrow> unknownKept (addConnection c b)"
    and "listed (addConnection c b) d \<longleftrightarrow> d = c \<or> listed b d"
    and "connAt d (addConnection c b) = connAt d b"
proof -
  let ?i = "co_id (connAt c b)"
  have new: "c \<notin> set (listAt r b)" if "jget (connectionMap b) i = Some r" for i r
    using assms(3) that by (auto simp: listed_def)
  show "connAt d (addConnection c b) = connAt d b"
    by (simp add: addConnection_def Let_def split: option.split)
  show "filed (addConnection c b)"
  proof (cases "jget (connectionMap b) ?i")
    case None
    have ne: "r \<noteq> cb_next b" if "jget (connectionMap b) i = Some r" for i r
      using filedD(1) [OF assms(1) that] by simp
    show ?thesis
      by (rule filedI)
        (use assms(2) None filed_ok [OF assms(1)] in \<open>auto simp: addConnection_def Let_def jm.get_put less_Suc_eq
           split: if_splits dest: ne filedD [OF assms(1)] filed_inj [OF assms(1)]\<close>)
  next
    case (Some ref)
    then show ?thesis using assms new by (auto simp: filed_def addConnection_def Let_def)
  qed
  show "unknownKept b \<Longrightarrow> unknownKept (addConnection c b)"
    by (auto simp: unknownKept_def addConnection_def Let_def jm.get_put split: option.split)
  show "listed (addConnection c b) d \<longleftrightarrow> d = c \<or> listed b d"
  proof (cases "jget (connectionMap b) ?i")
    case None
    have ne: "r \<noteq> cb_next b" if "jget (connectionMap b) i = Some r" for i r
      using filedD(1) [OF assms(1) that] by simp
    show ?thesis using None by (auto simp: listed_def addConnection_def Let_def jm.get_put dest: ne)
      (metis None ne option.distinct(1))
  next
    case (Some ref)
    then show ?thesis by (auto simp: listed_def addConnection_def Let_def)
  qed
qed

lemma setId_filed:
  assumes "filed b" "unknownKept b" "listed b c"
  shows "filed (setId c i b)" "unknownKept (setId c i b)" "listed (setId c i b) d \<longleftrightarrow> listed b d"
    "co_id (connAt d (setId c i b)) =
      (if d = c \<and> co_id (connAt c b) = Unknown then ConnId i else co_id (connAt d b))"
    "co_connection (connAt d (setId c i b)) = co_connection (connAt d b)"
proof -
  let ?u = "unknownConnectionList b"
  let ?b = "setListAt ?u (remove1 c (listAt ?u b)) (b\<lparr>cb_objects := jput c (connAt c b\<lparr>co_id := ConnId i\<rparr>) (cb_objects b)\<rparr>)"
  have eq: "setId c i b = (if co_id (connAt c b) = Unknown then addConnection c ?b else b)"
    by (simp add: setId_def Let_def)
  have goals: "filed (setId c i b) \<and> unknownKept (setId c i b) \<and> (listed (setId c i b) d \<longleftrightarrow> listed b d) \<and>
    co_id (connAt d (setId c i b)) =
      (if d = c \<and> co_id (connAt c b) = Unknown then ConnId i else co_id (connAt d b)) \<and>
    co_connection (connAt d (setId c i b)) = co_connection (connAt d b)"
  proof (cases "co_id (connAt c b) = Unknown")
    case True
    have u: "jget (connectionMap b) Unknown = Some ?u" using assms(2) by (simp add: unknownKept_def)
    have inu: "c \<in> set (listAt ?u b)" "c < cb_next b"
      using assms(3) u True filedD(3) [OF assms(1) u] by (auto simp: listed_iff [OF assms(1)])
    have notin: "c \<notin> set (listAt r b)" if "jget (connectionMap b) j = Some r" "r \<noteq> ?u" for j r
      using filedD(4) [OF assms(1) that(1)] True that u by auto
    have du: "distinct (listAt ?u b)" by (rule filedD(2) [OF assms(1) u])
    have iu: "j = Unknown" if "jget (connectionMap b) j = Some ?u" for j
      using filed_inj [OF assms(1) that u] .
    have *: "filed ?b"
      by (rule filedI)
        (use inu notin du iu filed_ok [OF assms(1)] in \<open>auto simp: set_remove1_eq
           split: if_splits dest: filedD [OF assms(1)] filed_inj [OF assms(1)]\<close>)
    have **: "\<not> listed ?b c" using u notin du by (auto simp: listed_def set_remove1_eq)
    have l: "listed ?b d \<longleftrightarrow> d \<noteq> c \<and> listed b d"
      unfolding listed_split [OF u, of d] using u du notin by (subst listed_setListAt) (auto simp: set_remove1_eq)
    have k: "unknownKept ?b" using assms(2) by (simp add: unknownKept_def)
    show ?thesis using addConnection_filed [OF * _ **] inu k True l assms(3) by (auto simp: eq)
  qed (use assms in \<open>simp add: eq\<close>)
  then show "filed (setId c i b)" "unknownKept (setId c i b)" "listed (setId c i b) d \<longleftrightarrow> listed b d"
    "co_id (connAt d (setId c i b)) =
      (if d = c \<and> co_id (connAt c b) = Unknown then ConnId i else co_id (connAt d b))"
    "co_connection (connAt d (setId c i b)) = co_connection (connAt d b)"
    by blast+
qed

definition lastUnknown :: "nat \<Rightarrow> Bundle \<Rightarrow> bool" where
  "lastUnknown c b \<longleftrightarrow> co_id (connAt c b) = Unknown \<and> listAt (unknownConnectionList b) b = [c]"

lemma removeConnection_filed:
  assumes "filed b" "listed b c"
  shows "filed (removeConnection c b)"
    and "listed (removeConnection c b) d \<longleftrightarrow> d \<noteq> c \<and> listed b d"
    and "connAt d (removeConnection c b) = connAt d b"
    and "unknownKept b \<Longrightarrow> unknownKept (removeConnection c b) \<longleftrightarrow> \<not> lastUnknown c b"
proof -
  let ?i = "co_id (connAt c b)"
  obtain ref where ref: "jget (connectionMap b) ?i = Some ref" "c \<in> set (listAt ref b)"
    using assms by (auto simp: listed_iff)
  have d: "distinct (listAt ref b)" by (rule filedD(2) [OF assms(1) ref(1)])
  have inj: "j = ?i" if "jget (connectionMap b) j = Some ref" for j
    using filed_inj [OF assms(1) that ref(1)] .
  have one: "j = ?i" if "jget (connectionMap b) j = Some r" "c \<in> set (listAt r b)" for j r
    using filedD(4) [OF assms(1) that] by simp
  have other: "c \<notin> set (listAt s b)" if "jget (connectionMap b) j = Some s" "s \<noteq> ref" for j s
    using one [of j s] that ref(1) by auto
  show "filed (removeConnection c b)"
    by (rule filedI)
      (use ref d filed_ok [OF assms(1)] in \<open>auto simp: removeConnection_def Let_def set_remove1_eq jm.get_remove
         split: if_splits dest: filedD [OF assms(1)] filed_inj [OF assms(1)]\<close>)
  show "connAt d (removeConnection c b) = connAt d b"
    by (simp add: removeConnection_def Let_def split: option.split)
  show "listed (removeConnection c b) d \<longleftrightarrow> d \<noteq> c \<and> listed b d"
  proof (cases "remove1 c (listAt ref b) = []")
    case True
    then have "listAt ref b = [c]" using ref(2) by (cases "listAt ref b") (auto split: if_splits)
    then show ?thesis unfolding listed_split [OF ref(1), of d]
      using listed_delete [OF assms(1) ref(1), of "[]" d] True ref other
      by (auto simp: removeConnection_def Let_def)
  next
    case False
    then show ?thesis unfolding listed_split [OF ref(1), of d]
      using listed_setListAt [OF ref(1), of "remove1 c (listAt ref b)" d] ref(1) d other
      by (auto simp: removeConnection_def Let_def set_remove1_eq)
  qed
  show "unknownKept (removeConnection c b) \<longleftrightarrow> \<not> lastUnknown c b" if "unknownKept b"
  proof (cases "?i = Unknown")
    case True
    then have u: "ref = unknownConnectionList b" using that ref(1) by (simp add: unknownKept_def)
    have "remove1 c (listAt ref b) = [] \<longleftrightarrow> listAt ref b = [c]"
      using ref(2) by (cases "listAt ref b") (auto split: if_splits)
    then show ?thesis using True u that ref by (simp add: removeConnection_def Let_def unknownKept_def lastUnknown_def)
  qed (use that ref in \<open>simp add: removeConnection_def Let_def unknownKept_def lastUnknown_def\<close>)
qed

section \<open>Looking a connection up\<close>

lemma fold_find_Some:
  "fold (\<lambda>l ret. case find P l of Some c \<Rightarrow> Some c | None \<Rightarrow> ret) ls r = Some c \<Longrightarrow>
   r = Some c \<or> (\<exists>l \<in> set ls. c \<in> set l \<and> P c)"
  by (induction ls arbitrary: r) (fastforce simp: find_Some_iff split: option.splits dest: nth_mem)+

lemma fold_find_None:
  "fold (\<lambda>l ret. case find P l of Some c \<Rightarrow> Some c | None \<Rightarrow> ret) ls r = None \<longleftrightarrow>
   r = None \<and> (\<forall>l \<in> set ls. \<forall>c \<in> set l. \<not> P c)"
  by (induction ls arbitrary: r) (auto simp: find_None_iff find_Some_iff split: option.splits)

lemma set_allLists:
  assumes "jmap_ok (connectionMap b)"
  shows "l \<in> set (allLists b) \<longleftrightarrow> (\<exists>i r. jget (connectionMap b) i = Some r \<and> l = listAt r b)"
  using assms by (force simp: allLists_def jget_def jmap_ok_def map_of_eq_Some_iff)

text \<open>No two connections of the bundle are for the same channel of the server.\<close>

definition uniqueConnections :: "Bundle \<Rightarrow> bool" where
  "uniqueConnections b \<longleftrightarrow> (\<forall>c d. listed b c \<longrightarrow> listed b d \<longrightarrow>
     co_connection (connAt c b) = co_connection (connAt d b) \<longrightarrow> c = d)"

definition bundleOk :: "Bundle \<Rightarrow> bool" where
  "bundleOk b \<longleftrightarrow> filed b \<and> unknownKept b \<and> uniqueConnections b"

lemma bundleOkD: "bundleOk b \<Longrightarrow> filed b" "bundleOk b \<Longrightarrow> unknownKept b"
  by (simp_all add: bundleOk_def)

lemma findConnection_Some:
  assumes "bundleOk b"
  shows "findConnection k b = Some c \<longleftrightarrow> listed b c \<and> co_connection (connAt c b) = k"
proof -
  have ok: "jmap_ok (connectionMap b)" using assms by (simp add: bundleOk_def filed_def)
  have l: "listed b d \<longleftrightarrow> (\<exists>l \<in> set (allLists b). d \<in> set l)" for d
    unfolding listed_def set_allLists [OF ok] Bex_def by blast
  have sound: "listed b d \<and> co_connection (connAt d b) = k" if "findConnection k b = Some d" for d
    using fold_find_Some [OF that [unfolded findConnection_def]] l by auto
  have complete: "findConnection k b \<noteq> None" if "listed b c" "co_connection (connAt c b) = k"
    using that l unfolding findConnection_def by (auto simp: fold_find_None)
  show ?thesis using sound complete assms unfolding bundleOk_def uniqueConnections_def by blast
qed

section \<open>The registry: which identifier an open connection has\<close>

definition registry :: "Bundle \<Rightarrow> nat \<Rightarrow> ConnId option" where
  "registry b k = map_option (\<lambda>c. co_id (connAt c b)) (findConnection k b)"

lemma registry_Some:
  assumes "bundleOk b"
  shows "registry b k = Some i \<longleftrightarrow> (\<exists>c. listed b c \<and> co_connection (connAt c b) = k \<and> co_id (connAt c b) = i)"
  by (auto simp: registry_def findConnection_Some [OF assms])

lemma registry_eqI:
  assumes "bundleOk b" "\<And>i. f k = Some i \<longleftrightarrow> (\<exists>c. listed b c \<and> co_connection (connAt c b) = k \<and> co_id (connAt c b) = i)"
  shows "registry b k = f k"
  by (metis assms registry_Some not_None_eq)

lemma registry_newBundle: "bundleOk newBundle" "registry newBundle = (\<lambda>k. None)"
proof -
  have "\<not> listed newBundle c" for c
    by (simp add: listed_def newBundle_def listAt_def jget_def)
  then show ok: "bundleOk newBundle" by (simp add: bundleOk_def filed_newBundle uniqueConnections_def)
  show "registry newBundle = (\<lambda>k. None)"
    by (simp add: fun_eq_iff registry_def findConnection_def allLists_def newBundle_def listAt_def jget_def)
qed

lemma registry_same:
  assumes "bundleOk b" "bundleOk b'"
    and "\<And>c. listed b' c \<and> co_connection (connAt c b') = k \<longleftrightarrow> listed b c \<and> co_connection (connAt c b) = k"
    and "\<And>c. listed b c \<Longrightarrow> co_connection (connAt c b) = k \<Longrightarrow> co_id (connAt c b') = co_id (connAt c b)"
  shows "registry b' k = registry b k"
proof -
  have e: "findConnection k b' = Some c \<longleftrightarrow> findConnection k b = Some c" for c
    by (simp add: findConnection_Some assms)
  show ?thesis
  proof (cases "findConnection k b")
    case None
    then have "findConnection k b' = None" using e by (metis not_None_eq)
    then show ?thesis using None by (simp add: registry_def)
  next
    case (Some c)
    then have "findConnection k b' = Some c" by (simp add: e)
    moreover have "co_id (connAt c b') = co_id (connAt c b)"
      using Some assms(4) by (simp add: findConnection_Some [OF assms(1)])
    ultimately show ?thesis using Some by (simp add: registry_def)
  qed
qed

definition opened :: "nat \<Rightarrow> nat option \<Rightarrow> Bundle \<Rightarrow> Bundle" where
  "opened k d b = (let (c, b1) = newConn k d b in addConnection c b1)"

lemma opened_ok:
  assumes "bundleOk b" "registry b k = None"
  shows "bundleOk (opened k d b)" "registry (opened k d b) = (registry b)(k := Some Unknown)"
proof -
  obtain c b1 where n: "newConn k d b = (c, b1)" by (rule prod.exhaust)
  note N = newConn_filed [OF bundleOkD(1) [OF assms(1)] n]
  note A = addConnection_filed [OF N(1-3)]
  have o': "opened k d b = addConnection c b1" by (simp add: opened_def n)
  have l1: "listed b1 e = listed b e" for e by (simp add: listed_def N(8,9))
  have c1: "connAt e b1 = connAt e b" if "listed b e" for e
    using that N(3) n l1 by (auto simp: newConn_def Let_def)
  have no: "co_connection (connAt e b) \<noteq> k" if "listed b e" for e
    using assms that by (metis option.distinct(1) registry_Some)
  have "uniqueConnections (opened k d b)"
    using assms(1) no c1 unfolding uniqueConnections_def bundleOk_def o' A(3,4) l1 by (metis N(5))
  then show ok: "bundleOk (opened k d b)"
    using A(1,2) N(4) bundleOkD [OF assms(1)] by (simp add: bundleOk_def o')
  show "registry (opened k d b) = (registry b)(k := Some Unknown)"
  proof
    fix k'
    show "registry (opened k d b) k' = ((registry b)(k := Some Unknown)) k'"
      by (rule registry_eqI [OF ok])
        (unfold o' A(3,4) l1, cases "k' = k"; use N(5,6) no c1 in \<open>auto simp: registry_Some [OF assms(1)]\<close>)
  qed
qed

lemma setId_ok:
  assumes "bundleOk b" "findConnection k b = Some c"
  shows "bundleOk (setId c i b)"
    "registry (setId c i b) = (if registry b k = Some Unknown then (registry b)(k := Some (ConnId i)) else registry b)"
proof -
  have c: "listed b c" "co_connection (connAt c b) = k" using assms(2) by (simp_all add: findConnection_Some [OF assms(1)])
  note S = setId_filed [OF bundleOkD [OF assms(1)] c(1)]
  show ok: "bundleOk (setId c i b)"
    using assms(1) S unfolding bundleOk_def uniqueConnections_def by metis
  have u: "registry b k = Some (co_id (connAt c b))" using c by (auto simp: registry_Some [OF assms(1)])
  have only: "e = c" if "listed b e" "co_connection (connAt e b) = k" for e
    using that c assms(1) unfolding bundleOk_def uniqueConnections_def by blast
  show "registry (setId c i b) = (if registry b k = Some Unknown then (registry b)(k := Some (ConnId i)) else registry b)"
  proof
    fix k'
    show "registry (setId c i b) k' =
        (if registry b k = Some Unknown then (registry b)(k := Some (ConnId i)) else registry b) k'"
    proof (cases "k' = k")
      case True
      have "registry (setId c i b) k = Some (co_id (connAt c (setId c i b)))"
        using c S(3,5) by (auto simp: registry_Some [OF ok])
      then show ?thesis using True u by (simp add: S(4))
    next
      case False
      have "registry (setId c i b) k' = registry b k'"
        by (rule registry_same [OF assms(1) ok]) (use S(3-5) c(2) False in auto)
      then show ?thesis using False by simp
    qed
  qed
qed

lemma removeConnection_ok:
  assumes "bundleOk b" "findConnection k b = Some c" "\<not> lastUnknown c b"
  shows "bundleOk (removeConnection c b)" "registry (removeConnection c b) = (registry b)(k := None)"
proof -
  have c: "listed b c" "co_connection (connAt c b) = k" using assms(2) by (simp_all add: findConnection_Some [OF assms(1)])
  note R = removeConnection_filed [OF bundleOkD(1) [OF assms(1)] c(1)]
  show ok: "bundleOk (removeConnection c b)"
    using assms R unfolding bundleOk_def uniqueConnections_def by metis
  have only: "e = c" if "listed b e" "co_connection (connAt e b) = k" for e
    using that c assms(1) unfolding bundleOk_def uniqueConnections_def by blast
  show "registry (removeConnection c b) = (registry b)(k := None)"
  proof
    fix k'
    show "registry (removeConnection c b) k' = ((registry b)(k := None)) k'"
    proof (cases "k' = k")
      case True
      have "registry (removeConnection c b) k = None"
        using R(2,3) only by (metis not_None_eq registry_Some [OF ok])
      then show ?thesis using True by simp
    next
      case False
      have "registry (removeConnection c b) k' = registry b k'"
        by (rule registry_same [OF assms(1) ok]) (use R(2,3) c(2) False in auto)
      then show ?thesis using False by simp
    qed
  qed
qed

lemma lastUnknown_registry:
  assumes "bundleOk b" "findConnection k b = Some c" "registry b k = Some Unknown" "registry b k' = Some Unknown" "k' \<noteq> k"
  shows "\<not> lastUnknown c b"
proof -
  from assms obtain d where d: "listed b d" "co_connection (connAt d b) = k'" "co_id (connAt d b) = Unknown"
    by (auto simp: registry_Some)
  have u: "jget (connectionMap b) Unknown = Some (unknownConnectionList b)"
    using bundleOkD(2) [OF assms(1)] by (simp add: unknownKept_def)
  have "d \<in> set (listAt (unknownConnectionList b) b)"
    using d(1,3) u by (simp add: listed_iff [OF bundleOkD(1) [OF assms(1)]])
  moreover have "d \<noteq> c" using assms d by (auto simp: findConnection_Some)
  ultimately show ?thesis by (auto simp: lastUnknown_def)
qed

section \<open>The events of the handler\<close>

datatype wsCall = OnOpen "nat res" WsEvent | OnMessage bytes WsEvent | OnClose WsEvent

fun handle :: "WsHandler \<Rightarrow> wsCall \<Rightarrow> Bundle \<Rightarrow> wsStep" where
  "handle h (OnOpen startClient ev) b = onOpen h startClient ev b"
| "handle h (OnMessage message ev) b = onMessage h message ev b"
| "handle h (OnClose ev) b = onClose h ev b"

definition bundleAfter :: "WsHandler \<Rightarrow> wsCall \<Rightarrow> Bundle \<Rightarrow> Bundle" where
  "bundleAfter h call b = fst (snd (handle h call b))"

text \<open>The identifier an event gives to its connection.\<close>

definition newIdentifier :: "WsHandler \<Rightarrow> WsEvent \<Rightarrow> string option" where
  "newIdentifier h ev =
    (case getHeaderLine (ev_headers ev) HEADER_NAME_CHANNEL_ID of
       None \<Rightarrow> None
     | Some headerLine \<Rightarrow>
         (case parseHeaderLine headerLine of Inl _ \<Rightarrow> None | Inr (name, value) \<Rightarrow> Some (value @ ''@'' @ wh_channel h)))"

definition identified :: "WsHandler \<Rightarrow> WsEvent \<Rightarrow> (nat \<Rightarrow> ConnId option) \<Rightarrow> nat \<Rightarrow> ConnId option" where
  "identified h ev reg =
    (case newIdentifier h ev of
       Some i \<Rightarrow> if reg (ev_connection ev) = Some Unknown then reg(ev_connection ev := Some (ConnId i)) else reg
     | None \<Rightarrow> reg)"

definition accepts :: "WsHandler \<Rightarrow> nat res \<Rightarrow> WsEvent \<Rightarrow> bool" where
  "accepts h startClient ev \<longleftrightarrow> \<not> isl (ev_outcome ev) \<or> wh_proxy h \<and> \<not> isl startClient"

fun registryAfter :: "WsHandler \<Rightarrow> wsCall \<Rightarrow> (nat \<Rightarrow> ConnId option) \<Rightarrow> nat \<Rightarrow> ConnId option" where
  "registryAfter h (OnOpen startClient ev) reg =
    identified h ev (if accepts h startClient ev then reg(ev_connection ev := Some Unknown) else reg)"
| "registryAfter h (OnMessage message ev) reg = identified h ev reg"
| "registryAfter h (OnClose ev) reg = reg(ev_connection ev := None)"

text \<open>A connection opens once, and the last connection without an identifier stays open.\<close>

fun expected :: "wsCall \<Rightarrow> (nat \<Rightarrow> ConnId option) \<Rightarrow> bool" where
  "expected (OnOpen startClient ev) reg \<longleftrightarrow> reg (ev_connection ev) = None"
| "expected (OnMessage message ev) reg \<longleftrightarrow> True"
| "expected (OnClose ev) reg \<longleftrightarrow>
    (reg (ev_connection ev) = Some Unknown \<longrightarrow> (\<exists>k. k \<noteq> ev_connection ev \<and> reg k = Some Unknown))"

lemma registry_None: "registry b k = None \<longleftrightarrow> findConnection k b = None"
  by (simp add: registry_def)

lemma finishEvent_ok:
  assumes "bundleOk b"
  shows "bundleOk (fst (snd (finishEvent h ev r b effs resps))) \<and>
    registry (fst (snd (finishEvent h ev r b effs resps))) = identified h ev (registry b)"
proof (cases "newIdentifier h ev")
  case None
  then have "fst (snd (finishEvent h ev r b effs resps)) = b"
    by (auto simp: newIdentifier_def finishEvent_def handleIDChange_def split: option.splits sum.splits)
  then show ?thesis using assms None by (simp add: identified_def)
next
  case (Some i)
  show ?thesis
  proof (cases "findConnection (ev_connection ev) b")
    case None
    then have "fst (snd (finishEvent h ev r b effs resps)) = b"
      using Some by (auto simp: newIdentifier_def finishEvent_def handleIDChange_def split: option.splits sum.splits)
    moreover have "registry b (ev_connection ev) = None" using None by (simp add: registry_None)
    ultimately show ?thesis using assms Some by (simp add: identified_def)
  next
    case (Some c)
    then have "fst (snd (finishEvent h ev r b effs resps)) = setId c i b"
      using \<open>newIdentifier h ev = Some i\<close>
      by (auto simp: newIdentifier_def finishEvent_def handleIDChange_def split: option.splits sum.splits)
    then show ?thesis using setId_ok [OF assms Some] \<open>newIdentifier h ev = Some i\<close> by (simp add: identified_def)
  qed
qed

lemma finishClose_ok:
  assumes "bundleOk b"
    and "registry b (ev_connection ev) = Some Unknown \<longrightarrow> (\<exists>k. k \<noteq> ev_connection ev \<and> registry b k = Some Unknown)"
  shows "bundleOk (fst (snd (finishClose ev r b effs resps))) \<and>
    registry (fst (snd (finishClose ev r b effs resps))) = (registry b)(ev_connection ev := None)"
proof (cases "findConnection (ev_connection ev) b")
  case None
  then show ?thesis using assms(1) by (auto simp: finishClose_def registry_None fun_eq_iff)
next
  case (Some c)
  then have "\<not> lastUnknown c b"
    using assms lastUnknown_registry [OF assms(1) Some] by (auto simp: lastUnknown_def registry_def)
  then show ?thesis using removeConnection_ok [OF assms(1) Some] Some by (simp add: finishClose_def)
qed

lemma onOpen_opened:
  obtains r d effs rs where "onOpen h sc ev b =
    finishEvent h ev r (if accepts h sc ev then opened (ev_connection ev) d b else b) effs rs"
proof (cases "ev_outcome ev")
  case (Inr resps)
  then show ?thesis
    by (intro that [where r = "Ret ()" and d = None and effs = "[]" and rs = resps])
      (simp add: onOpen_def accepts_def opened_def split: prod.split)
next
  case outcome: (Inl e)
  show ?thesis
  proof (cases "wh_proxy h")
    case True
    show ?thesis
    proof (cases sc)
      case (Inr c)
      then show ?thesis using outcome True
        by (intro that [where r = "Ret ()" and d = "Some c" and effs = "[]" and rs = "[proxyResponse h]"])
          (simp add: onOpen_def accepts_def opened_def split: prod.split)
    next
      case (Inl e')
      then show ?thesis using outcome True
        by (intro that [where r = "if isIOException e' then Ret () else Raise e'" and d = None and effs = "[]" and rs = "[]"])
          (simp add: onOpen_def accepts_def)
    qed
  next
    case False
    then show ?thesis using outcome
      by (intro that [where r = "Ret ()" and d = None and effs = "[]" and rs = "[]"])
        (simp add: onOpen_def accepts_def)
  qed
qed


section \<open>The members of a channel\<close>

lemma distinct_concat_map:
  assumes "distinct xs" "\<And>x. x \<in> set xs \<Longrightarrow> distinct (f x)"
    and "\<And>x y. x \<in> set xs \<Longrightarrow> y \<in> set xs \<Longrightarrow> x \<noteq> y \<Longrightarrow> set (f x) \<inter> set (f y) = {}"
  shows "distinct (concat (map f xs))"
  using assms by (induction xs) fastforce+

lemma distinct_allLists:
  assumes "filed b" shows "distinct (concat (allLists b))"
  unfolding allLists_def
proof (rule distinct_concat_map)
  have ok: "jget (connectionMap b) i = Some r" if "(i, r) \<in> set (connectionMap b)" for i r
    using that filed_ok [OF assms] by (simp add: jget_def jmap_ok_def)
  show "distinct (connectionMap b)" using filed_ok [OF assms] by (simp add: jmap_ok_def distinct_map)
  show "distinct (case x of (i, ref) \<Rightarrow> listAt ref b)" if "x \<in> set (connectionMap b)" for x
  proof -
    obtain i r where x: "x = (i, r)" by (cases x)
    show ?thesis using filedD(2) [OF assms ok [of i r]] that by (simp add: x)
  qed
  show "set (case x of (i, ref) \<Rightarrow> listAt ref b) \<inter> set (case y of (i, ref) \<Rightarrow> listAt ref b) = {}"
    if xy: "x \<in> set (connectionMap b)" "y \<in> set (connectionMap b)" "x \<noteq> y" for x y
  proof -
    obtain i r j s where x: "x = (i, r)" and y: "y = (j, s)" by (cases x, cases y)
    have ij: "jget (connectionMap b) i = Some r" "jget (connectionMap b) j = Some s" using xy ok x y by auto
    then have "i \<noteq> j" using xy(3) x y by auto
    then have "c \<notin> set (listAt s b)" if "c \<in> set (listAt r b)" for c
      using filedD(4) [OF assms ij(1) that] filedD(4) [OF assms ij(2), of c] by auto
    then show ?thesis by (auto simp: x y)
  qed
qed

lemma allLists_listed: "filed b \<Longrightarrow> set (concat (allLists b)) = {c. listed b c}"
  by (simp add: set_eq_iff listed_def set_allLists [OF filed_ok] Bex_def) blast

lemma findConnections_members:
  assumes "filed b" "conns = (case findConnections i b of None \<Rightarrow> [] | Some cs \<Rightarrow> cs)"
  shows "distinct conns"
    "set conns = {c. listed b c \<and> (startsWith i ALL_CHANNELS \<or> co_id (connAt c b) = ConnId i)}"
proof -
  show "distinct conns"
    using assms distinct_allLists [OF assms(1)] filedD(2) [OF assms(1)]
    by (auto simp: findConnections_def split: option.split if_splits)
  show "set conns = {c. listed b c \<and> (startsWith i ALL_CHANNELS \<or> co_id (connAt c b) = ConnId i)}"
  proof (cases "startsWith i ALL_CHANNELS")
    case True
    then show ?thesis using assms(2) allLists_listed [OF assms(1)] by (simp add: findConnections_def)
  next
    case False
    show ?thesis
    proof (cases "jget (connectionMap b) (ConnId i)")
      case None
      then show ?thesis using False assms(2) listed_iff [OF assms(1)] by (auto simp: findConnections_def)
    next
      case (Some r)
      then show ?thesis using False assms(2) listed_iff [OF assms(1)] filedD(4) [OF assms(1) Some]
        by (auto simp: findConnections_def intro: listedI)
    qed
  qed
qed

text \<open>A response sent to a channel is written once to every connection the registry has under that
  identifier, or to every open connection for \<open>_ALL_\<close>, and to no other.\<close>

lemma sendResponse_members:
  assumes "bundleOk b"
  shows "\<exists>conns. distinct conns \<and>
    set conns = {k. \<exists>i. registry b k = Some i \<and> (startsWith channel ALL_CHANNELS \<or> i = ConnId channel)} \<and>
    sendResponse channel resp b =
      (if conns = [] then Raise (IOException (''there is no such channel named ['' @ channel @ '']''))
       else Ret (map (\<lambda>k. FillRaw k resp) conns))"
proof -
  define cs where "cs = (case findConnections channel b of None \<Rightarrow> [] | Some cs \<Rightarrow> cs)"
  note M = findConnections_members [OF bundleOkD(1) [OF assms] cs_def]
  let ?conns = "map (\<lambda>c. co_connection (connAt c b)) cs"
  have "inj_on (\<lambda>c. co_connection (connAt c b)) (set cs)"
    using assms M(2) by (auto simp: bundleOk_def uniqueConnections_def inj_on_def)
  then have "distinct ?conns" using M(1) by (simp add: distinct_map)
  moreover have "set ?conns =
      {k. \<exists>i. registry b k = Some i \<and> (startsWith channel ALL_CHANNELS \<or> i = ConnId channel)}"
    unfolding registry_Some [OF assms] using M(2) by auto
  moreover have "sendResponse channel resp b =
      (if ?conns = [] then Raise (IOException (''there is no such channel named ['' @ channel @ '']''))
       else Ret (map (\<lambda>k. FillRaw k resp) ?conns))"
    unfolding cs_def sendResponse_def by (simp split: option.split list.split)
  ultimately show ?thesis by (intro exI [of _ ?conns]) blast
qed


text \<open>The contract of a session-less simulator: the connections of the handler the channel names.\<close>

definition channelBundle :: "(string, Bundle) jmap \<Rightarrow> string \<Rightarrow> Bundle option" where
  "channelBundle handlers ch = (case getBrokerName ch of Inl _ \<Rightarrow> None | Inr c \<Rightarrow> jget handlers c)"

definition writesTo :: "Bundle \<Rightarrow> WsEffect \<Rightarrow> bool" where
  "writesTo b e \<longleftrightarrow> (\<exists>c \<in> set (concat (allLists b)). \<exists>r. e = FillRaw (co_connection (connAt c b)) r)"

lemma findConnections_listed: "findConnections i b = Some conns \<Longrightarrow> set conns \<subseteq> set (concat (allLists b))"
  by (auto simp: findConnections_def allLists_def jget_def split: if_splits dest: map_of_SomeD)

lemma sendResponse_writes:
  assumes "sendResponse ch r b = Inr es"
  shows "es \<noteq> [] \<and> (\<forall>e \<in> set es. writesTo b e)"
proof -
  obtain conns where "findConnections ch b = Some conns" and "conns \<noteq> []"
    and es: "es = map (\<lambda>c. FillRaw (co_connection (connAt c b)) r) conns"
    using assms by (auto simp: sendResponse_def split: option.splits list.splits)
  then have "set conns \<subseteq> set (concat (allLists b))" by (intro findConnections_listed)
  then show ?thesis using \<open>conns \<noteq> []\<close> unfolding es writesTo_def by fastforce
qed

interpretation webbitRoute: session_less "emitting (webbitFillResponse handlers)" "channelBundle handlers" writesTo
  for handlers
proof unfold_locales
  fix r w u w'
  assume "emitting (webbitFillResponse handlers) r w = (Inr u, w')"
  then obtain es where f: "webbitFillResponse handlers r = Inr es" and w': "w' = w @ es" by (rule emitting_Ret)
  from f obtain ch b r' where "jget (resp_headers r) HEADER_NAME_CHANNEL = Some (JStr ch)"
    "channelBundle handlers ch = Some b" "sendResponse ch r' b = Inr es"
    by (auto simp: webbitFillResponse_def castString_def channelBundle_def elim!: res_elims split: option.splits jval.splits)
  then show "\<exists>ch b es. jget (resp_headers r) HEADER_NAME_CHANNEL = Some (JStr ch) \<and> channelBundle handlers ch = Some b
      \<and> w' = w @ es \<and> es \<noteq> [] \<and> (\<forall>e \<in> set es. writesTo b e)"
    using w' sendResponse_writes by blast
qed (rule emitting_Raise)


section \<open>The list that is lost\<close>

definition plainEvent :: "nat \<Rightarrow> WsEvent" where
  "plainEvent k = \<lparr>ev_connection = k, ev_outcome = Ret [], ev_headers = []\<rparr>"

definition identifyEvent :: "nat \<Rightarrow> string \<Rightarrow> WsEvent" where
  "identifyEvent k i = \<lparr>ev_connection = k, ev_outcome = Ret [], ev_headers = [(HEADER_NAME_CHANNEL_ID, i)]\<rparr>"

text \<open>A connection opens and closes before it has an identifier; a second one opens, gets its
  identifier and closes.\<close>

definition lostCalls :: "nat \<Rightarrow> nat \<Rightarrow> string \<Rightarrow> wsCall list" where
  "lostCalls k1 k2 i =
    [OnOpen (Raise NullPointerException) (plainEvent k1), OnClose (plainEvent k1),
     OnOpen (Raise NullPointerException) (plainEvent k2), OnMessage [] (identifyEvent k2 i), OnClose (plainEvent k2)]"

lemma newIdentifier_plain [simp]: "newIdentifier h (plainEvent k) = None"
  by (simp add: newIdentifier_def plainEvent_def getHeaderLine_def)

lemma newIdentifier_identify: "\<exists>v. newIdentifier h (identifyEvent k i) = Some v"
proof -
  have "indexOf (HEADER_NAME_CHANNEL_ID @ '': '' @ i) CHR '':'' = Some 11"
    by (simp add: HEADER_NAME_CHANNEL_ID_def indexOf_append)
  then show ?thesis
    by (simp add: newIdentifier_def identifyEvent_def getHeaderLine_def jget_def parseHeaderLine_def substring_def
      substringFrom_def HEADER_NAME_CHANNEL_ID_def)
qed

lemma finishEvent_bundle:
  "fst (snd (finishEvent h ev r b effs rs)) =
    (case newIdentifier h ev of None \<Rightarrow> b
     | Some i \<Rightarrow> (case findConnection (ev_connection ev) b of None \<Rightarrow> b | Some c \<Rightarrow> setId c i b))"
  by (auto simp: newIdentifier_def finishEvent_def handleIDChange_def split: option.splits sum.splits)

lemma after_open: "bundleAfter h (OnOpen sc (plainEvent k)) b = opened k None b"
  by (simp add: bundleAfter_def onOpen_def finishEvent_bundle opened_def plainEvent_def [of k, THEN arg_cong [where f = ev_outcome]]
      plainEvent_def [of k, THEN arg_cong [where f = ev_connection]] split: prod.split)

lemma after_close:
  "bundleAfter h (OnClose (plainEvent k)) b = (case findConnection k b of None \<Rightarrow> b | Some c \<Rightarrow> removeConnection c b)"
  by (simp add: bundleAfter_def onClose_def finishClose_def plainEvent_def split: option.split)

lemma after_identify:
  "newIdentifier h (identifyEvent k i) = Some v \<Longrightarrow>
   bundleAfter h (OnMessage [] (identifyEvent k i)) b = (case findConnection k b of None \<Rightarrow> b | Some c \<Rightarrow> setId c v b)"
  by (simp add: bundleAfter_def onMessage_def finishEvent_bundle identifyEvent_def [of k i, THEN arg_cong [where f = ev_outcome]]
      identifyEvent_def [of k i, THEN arg_cong [where f = ev_connection]] split: option.split)

lemmas bundle_defs = opened_def newConn_def Let_def addConnection_def connAt_def listAt_def setListAt_def jget_def
  jput_def jremove_def findConnection_def allLists_def removeConnection_def setId_def

lemma lost_after_two:
  "bundleAfter h (OnClose (plainEvent k1)) (bundleAfter h (OnOpen sc (plainEvent k1)) newBundle) =
    \<lparr>cb_objects = [(1, \<lparr>co_id = Unknown, co_connection = k1, co_delegator = None\<rparr>)], cb_lists = [(0, [])],
     connectionMap = [], unknownConnectionList = 0, cb_next = 2\<rparr>"
  by (simp add: after_open after_close newBundle_def bundle_defs)



definition okResponse :: SimResponse where
  "okResponse = \<lparr>resp_code = 200, resp_headers = [], resp_body = None\<rparr>"

lemma opened_7: "bundleOk (opened 7 None newBundle)" "registry (opened 7 None newBundle) = (\<lambda>k. None)(7 := Some Unknown)"
  using opened_ok [OF registry_newBundle(1), of 7 None] by (simp_all add: registry_newBundle(2))

definition wsResponse :: SimResponse where
  "wsResponse = \<lparr>resp_code = 200, resp_headers = [(HEADER_NAME_CHANNEL, JStr (createUnifiedName ''_ALL_'' ''/a''))], resp_body = None\<rparr>"


end
