(* ===== verification/Http.thy ===== *)
theory Http
  imports Respond
begin

text \<open>
  The HTTP side: \<open>http/HTTPSimulator.java\<close>, the requests of \<open>webbit/WebbitSimRequest.java\<close> and
  \<open>simple/SimpleSimRequest.java\<close>, the entry points of the two servers, and the proxy of
  \<open>SimUtils.doHttpProxy\<close>. The two HTTP servers and the HTTP client are parameters.
\<close>

section \<open>Requests\<close>

text \<open>
  What the server hands over: \<open>hi_headers\<close> looks the values of a header up, in the server's way of
  comparing names; \<open>hi_body\<close> is the result of \<open>convertor.rawRequestToBody\<close>.
\<close>

record HttpIn =
  hi_method :: string
  hi_uri :: string
  hi_protocol :: string
  hi_authorization :: "string option"
  hi_headerNames :: "string list"
  hi_headers :: "string \<Rightarrow> string list option"
  hi_body :: "string option res"
  hi_rawBody :: "bytes option"

text \<open>
  \<open>genAuthentications\<close>: user and password of a basic authorization. Every exception on the way,
  an array index out of range among them, is wrapped; \<open>toStr\<close> is its \<open>toString\<close>.
\<close>

definition basicParts :: "string list \<Rightarrow> (string \<times> string) res" where
  "basicParts parts = (case parts of user # password # _ \<Rightarrow> Ret (user, password) | _ \<Rightarrow> Raise IndexOutOfBoundsException)"

definition genAuthentications ::
  "(jerror \<Rightarrow> string) \<Rightarrow> (string \<Rightarrow> string res) \<Rightarrow> string option \<Rightarrow> (string \<times> string) res" where
  "genAuthentications toStr base64 val =
    (case val of
       None \<Rightarrow> Ret ('''', '''')
     | Some v \<Rightarrow>
         if startsWith v ''Basic '' then
           (case bindE (base64 (drop 6 v)) (\<lambda>str. basicParts (split CHR '':'' str)) of
              Inl e \<Rightarrow> Raise (RuntimeException (toStr e))
            | Inr ap \<Rightarrow> Ret ap)
         else Ret ('''', ''''))"

definition httpTopLine :: "string \<Rightarrow> string \<Rightarrow> string \<Rightarrow> string" where
  "httpTopLine method uri protocol = method @ '' '' @ uri @ '' '' @ protocol"

fun joinComma :: "string list \<Rightarrow> string" where
  "joinComma [] = ''''"
| "joinComma [v] = v"
| "joinComma (v # w # vs) = v @ '','' @ joinComma (w # vs)"

definition httpHeaderLine :: "(string \<Rightarrow> string list option) \<Rightarrow> string \<Rightarrow> string" where
  "httpHeaderLine headers header =
    header @ '': '' @ joinComma (case headers header of None \<Rightarrow> [] | Some vs \<Rightarrow> vs)"

definition httpAuthLine :: "string \<times> string \<Rightarrow> string" where
  "httpAuthLine ap = ''Authentication: '' @ fst ap @ '','' @ snd ap"

definition httpRequest :: "string \<Rightarrow> string \<times> string \<Rightarrow> string option \<Rightarrow> HttpIn \<Rightarrow> SimRequest" where
  "httpRequest topLine ap body hi =
    \<lparr>req_topLine = Some topLine, req_headerNames = hi_headerNames hi,
     req_headerLine = (\<lambda>h. Some (httpHeaderLine (hi_headers hi) h)),
     req_authLine = Some (httpAuthLine ap), req_body = body\<rparr>"

definition newWebbitSimRequest ::
  "(string \<Rightarrow> string res) \<Rightarrow> (jerror \<Rightarrow> string) \<Rightarrow> (string \<Rightarrow> string res) \<Rightarrow> HttpIn \<Rightarrow> SimRequest res" where
  "newWebbitSimRequest decode toStr base64 hi =
    bindE (decodeURL decode (hi_uri hi)) (\<lambda>uri.
    bindE (genAuthentications toStr base64 (hi_authorization hi)) (\<lambda>ap.
    bindE (hi_body hi) (\<lambda>body.
      Ret (httpRequest (httpTopLine (hi_method hi) uri ''HTTP/1.1'') ap body hi))))"

definition newSimpleSimRequest ::
  "(string \<Rightarrow> string res) \<Rightarrow> (jerror \<Rightarrow> string) \<Rightarrow> (string \<Rightarrow> string res) \<Rightarrow> HttpIn \<Rightarrow> SimRequest res" where
  "newSimpleSimRequest decode toStr base64 hi =
    bindE (decodeURL decode (hi_uri hi)) (\<lambda>uri.
    bindE (genAuthentications toStr base64 (hi_authorization hi)) (\<lambda>ap.
    bindE (hi_body hi) (\<lambda>body.
      Ret (httpRequest (httpTopLine (hi_method hi) uri (hi_protocol hi)) ap body hi))))"

section \<open>Responses\<close>

text \<open>The calls on the response object of the server, in their order.\<close>

datatype HttpEffect =
    SetHeader string string
  | Chunked
  | WriteText string
  | Content "bytes option"
  | SendHeaders int nat
  | WriteBytes bytes
  | Status int
  | EndResponse

definition emit :: "HttpEffect \<Rightarrow> (unit, HttpEffect list) prog" where
  "emit e w = (Ret (), w @ [e])"

text \<open>\<open>response.header(key, value.toString())\<close>, which raises for a \<open>null\<close> value.\<close>

definition putHeader :: "'v Services \<Rightarrow> string \<Rightarrow> jval \<Rightarrow> (unit, HttpEffect list) prog" where
  "putHeader sv k v = (if v = JNull then liftS (Raise NullPointerException) else emit (SetHeader k (sv_show sv v)))"

fun putHeaders :: "'v Services \<Rightarrow> ctx \<Rightarrow> (unit, HttpEffect list) prog" where
  "putHeaders sv [] = retS ()"
| "putHeaders sv ((k, v) # es) = bindS (putHeader sv k v) (\<lambda>_. putHeaders sv es)"

definition contentTypeHeaders :: "SimResponse \<Rightarrow> ctx" where
  "contentTypeHeaders resp =
    map (\<lambda>(k, v). (''Content-Type'', v))
      (filter (\<lambda>(k, v). k = HEADER_NAME_CONTENT_TYPE) (getAllInternalHeaders resp))"

definition isChunked :: "SimResponse \<Rightarrow> bool" where
  "isChunked resp \<longleftrightarrow> jget (getAllPublicHeaders resp) ''Transfer-Encoding'' = Some (JStr ''chunked'')"

definition chunkedIgnores :: "string list" where
  "chunkedIgnores = [''Transfer-Encoding'', ''content-encoding'', ''Content-encoding'', ''Content-Encoding'']"

text \<open>\<open>DefaultWebbitReqRespConvertor.fillRawResponse\<close>\<close>

definition webbitFillRaw :: "'v Services \<Rightarrow> SimResponse \<Rightarrow> (unit, HttpEffect list) prog" where
  "webbitFillRaw sv resp =
    bindS (liftS (castString (jget (getAllPublicHeaders resp) ''Transfer-Encoding''))) (\<lambda>value.
      if value = Some ''chunked'' then
        bindS (emit Chunked) (\<lambda>_.
        bindS (liftS (getBodyAsString sv resp)) (\<lambda>s. emit (WriteText s)))
      else emit (Content (resp_body resp)))"

text \<open>\<open>WebbitSimRequest.doFillResponse\<close>\<close>

definition webbitDoFill :: "'v Services \<Rightarrow> SimResponse \<Rightarrow> (unit, HttpEffect list) prog" where
  "webbitDoFill sv resp =
    bindS (putHeaders sv (contentTypeHeaders resp)) (\<lambda>_.
    bindS (putHeaders sv (filter (\<lambda>(k, v). \<not> (isChunked resp \<and> k \<in> set chunkedIgnores)) (getAllPublicHeaders resp))) (\<lambda>_.
    bindS (webbitFillRaw sv resp) (\<lambda>_.
    bindS (emit (Status (resp_code resp))) (\<lambda>_.
      emit EndResponse))))"

text \<open>\<open>DefaultSimpleReqRespConvertor.fillRawResponse\<close> after \<open>SimpleSimRequest.doFillResponse\<close> has put the
  headers; the response headers of an exchange start empty.\<close>

text \<open>The response headers of an exchange do not tell upper from lower case.\<close>

definition asciiLower :: "char \<Rightarrow> char" where
  "asciiLower c = (if 65 \<le> (of_char c :: nat) \<and> (of_char c :: nat) \<le> 90 then char_of ((of_char c :: nat) + 32) else c)"

fun isTransferChunked :: "HttpEffect \<Rightarrow> bool" where
  "isTransferChunked (SetHeader k v) = (map asciiLower k = ''transfer-encoding'' \<and> v = ''chunked'')"
| "isTransferChunked _ = False"

definition simpleFillRaw :: "SimResponse \<Rightarrow> (unit, HttpEffect list) prog" where
  "simpleFillRaw resp w =
    (let chunked = list_ex isTransferChunked w in
     case resp_body resp of
       None \<Rightarrow> (Raise NullPointerException, if chunked then w @ [SendHeaders (resp_code resp) 0] else w)
     | Some b \<Rightarrow> (Ret (), w @ [SendHeaders (resp_code resp) (if chunked then 0 else length b), WriteBytes b]))"

definition simpleDoFill :: "'v Services \<Rightarrow> SimResponse \<Rightarrow> (unit, HttpEffect list) prog" where
  "simpleDoFill sv resp =
    bindS (putHeaders sv (contentTypeHeaders resp)) (\<lambda>_.
    bindS (putHeaders sv (getAllPublicHeaders resp)) (\<lambda>_.
      simpleFillRaw resp))"

section \<open>The simulator\<close>

text \<open>
  A simulator at work on one request: \<open>script.genResponse\<close>, \<open>request.fillResponse\<close>, the proxied
  server, the listeners, and the message of an exception (its \<open>toString\<close> if it has none).
\<close>

record 'w HttpSim =
  hs_proxy :: bool
  hs_genResponse :: "SimRequest \<Rightarrow> (SimResponse list, 'w) prog"
  hs_fillResponse :: "SimRequest \<Rightarrow> SimResponse \<Rightarrow> (SimResponse, 'w) prog"
  hs_doHttpProxy :: "SimRequest \<Rightarrow> (SimResponse, 'w) prog"
  hs_onHandleMessage :: "SimRequest \<Rightarrow> SimResponse list \<Rightarrow> bool \<Rightarrow> 'w \<Rightarrow> 'w"
  hs_message :: "jerror \<Rightarrow> string"
  hs_getBytes :: "string \<Rightarrow> bytes"

definition response500 :: "'w HttpSim \<Rightarrow> string \<Rightarrow> SimResponse" where
  "response500 hs message =
    \<lparr>resp_code = 500, resp_headers = [(''Access-Control-Allow-Origin'', JStr ''*'')],
     resp_body = Some (hs_getBytes hs message)\<rparr>"

text \<open>Whatever \<open>gen500Response\<close> raises it catches, a \<open>null\<close> request included.\<close>

definition gen500Response :: "'w HttpSim \<Rightarrow> SimRequest option \<Rightarrow> string \<Rightarrow> 'w \<Rightarrow> 'w" where
  "gen500Response hs request message w =
    (case request of
       None \<Rightarrow> w
     | Some rq \<Rightarrow> snd (hs_fillResponse hs rq (response500 hs message) w))"

definition proxyAnswer :: "'w HttpSim \<Rightarrow> SimRequest \<Rightarrow> (SimResponse list, 'w) prog" where
  "proxyAnswer hs rq w =
    (case bindS (hs_doHttpProxy hs rq) (hs_fillResponse hs rq) w of
       (Inr resp, w') \<Rightarrow> (Ret [resp], w')
     | (Inl e, w') \<Rightarrow>
         if isIOException e then (Ret [], gen500Response hs (Some rq) (hs_message hs e) w')
         else (Raise e, w'))"

definition handleRequest :: "'w HttpSim \<Rightarrow> SimRequest \<Rightarrow> (unit, 'w) prog" where
  "handleRequest hs rq =
    bindS (\<lambda>w. case hs_genResponse hs rq w of
        (Inr respList, w') \<Rightarrow> (Ret respList, w')
      | (Inl e, w') \<Rightarrow>
          if hs_proxy hs then proxyAnswer hs rq w'
          else (Ret [], gen500Response hs (Some rq) (hs_message hs e) w')) (\<lambda>respList w.
      (Ret (), hs_onHandleMessage hs rq respList (respList \<noteq> []) w))"

text \<open>\<open>handleHttpRequest\<close> and \<open>DefaultHttpHandler.handle\<close>: \<open>made\<close> is the request or what its
  constructor raised, in which case the variable is still \<open>null\<close>.\<close>

definition handleHttpRequest :: "'w HttpSim \<Rightarrow> SimRequest res \<Rightarrow> 'w \<Rightarrow> 'w" where
  "handleHttpRequest hs made w =
    (case made of
       Inl e \<Rightarrow> gen500Response hs None (hs_message hs e) w
     | Inr rq \<Rightarrow>
         (case handleRequest hs rq w of
            (Inr _, w') \<Rightarrow> w'
          | (Inl e, w') \<Rightarrow> gen500Response hs (Some rq) (hs_message hs e) w'))"

section \<open>The simulator of a script\<close>

text \<open>The world of an exchange: the calls on its response object, and the rest.\<close>

record 'v HttpWorld =
  hw_effects :: "HttpEffect list"
  hw_rest :: 'v

definition onEffects :: "(unit, HttpEffect list) prog \<Rightarrow> SimResponse \<Rightarrow> (SimResponse, 'v HttpWorld) prog" where
  "onEffects m resp w =
    (case m (hw_effects w) of
       (Inl e, es) \<Rightarrow> (Raise e, w\<lparr>hw_effects := es\<rparr>)
     | (Inr _, es) \<Rightarrow> (Ret resp, w\<lparr>hw_effects := es\<rparr>))"

definition webbitSinks :: "'v HttpWorld Services \<Rightarrow> 'v HttpWorld Sinks \<Rightarrow> 'v HttpWorld Sinks" where
  "webbitSinks sv sk = sk\<lparr>sk_doFill := (\<lambda>resp. onEffects (webbitDoFill sv resp) resp)\<rparr>"

text \<open>The Webbit simulator of a script; the listeners get the events of \<open>Monitor\<close>.\<close>

definition webbitSim ::
  "'c ConfigOps \<Rightarrow> Engines \<Rightarrow> 'v HttpWorld Services \<Rightarrow> 'v HttpWorld Sinks \<Rightarrow> 'c ScriptNode list \<Rightarrow> 'c ScriptNode
    \<Rightarrow> bool \<Rightarrow> (SimRequest \<Rightarrow> (SimResponse, 'v HttpWorld) prog) \<Rightarrow> (SimRequest \<Rightarrow> SimResponse list \<Rightarrow> bool \<Rightarrow> 'v \<Rightarrow> 'v)
    \<Rightarrow> (jerror \<Rightarrow> string) \<Rightarrow> 'v HttpWorld HttpSim" where
  "webbitSim cf eng sv sk parents n proxy doProxy listeners message =
    \<lparr>hs_proxy = proxy,
     hs_genResponse = (\<lambda>rq. genResponse cf eng sv (webbitSinks sv sk) parents n rq),
     hs_fillResponse = (\<lambda>rq. fillResponse (webbitSinks sv sk)),
     hs_doHttpProxy = doProxy,
     hs_onHandleMessage = (\<lambda>rq rs status w. w\<lparr>hw_rest := listeners rq rs status (hw_rest w)\<rparr>),
     hs_message = message, hs_getBytes = sv_getBytes sv\<rparr>"

section \<open>The proxy\<close>

text \<open>An answer of the proxied server; without an error stream \<open>getErrorStream\<close> is \<open>null\<close>.\<close>

record ProxyReply =
  pr_code :: int
  pr_input :: "bytes res"
  pr_error :: "bytes option"
  pr_headers :: "(string option \<times> string list) list"

record ProxyCall =
  pc_method :: string
  pc_url :: string
  pc_headers :: "(string \<times> string) list"
  pc_body :: "bytes option"

definition lastIndexOf :: "string \<Rightarrow> char \<Rightarrow> int" where
  "lastIndexOf s c = (case indexOf (rev s) c of None \<Rightarrow> -1 | Some i \<Rightarrow> int (length s) - 1 - int i)"

definition firstIndexOf :: "string \<Rightarrow> char \<Rightarrow> int" where
  "firstIndexOf s c = (case indexOf s c of None \<Rightarrow> -1 | Some i \<Rightarrow> int i)"

text \<open>A header line is cut at its colons; only the first two pieces are used.\<close>

definition proxyHeader :: "SimRequest \<Rightarrow> string \<Rightarrow> (string \<times> string) res" where
  "proxyHeader rq headerName =
    (case req_headerLine rq headerName of
       None \<Rightarrow> Raise NullPointerException
     | Some headerLine \<Rightarrow>
         (case split CHR '':'' headerLine of
            name # value # _ \<Rightarrow> Ret (trim name, trim value)
          | _ \<Rightarrow> Raise IndexOutOfBoundsException))"

definition proxyCall :: "(string \<Rightarrow> string) \<Rightarrow> string \<Rightarrow> SimRequest \<Rightarrow> bytes option \<Rightarrow> ProxyCall res" where
  "proxyCall encode proxyURL rq rawBody =
    (case req_topLine rq of
       None \<Rightarrow> Raise NullPointerException
     | Some topLine \<Rightarrow>
         (let firstIndex = firstIndexOf topLine CHR '' ''; lastIndex = lastIndexOf topLine CHR '' '' in
          bindE (substring topLine 0 firstIndex) (\<lambda>method.
          bindE (substring topLine (firstIndex + 1) lastIndex) (\<lambda>uri.
          bindE (encodeURL encode (proxyURL @ trim uri)) (\<lambda>url.
          bindE (mapE (proxyHeader rq) (req_headerNames rq)) (\<lambda>headers.
            Ret \<lparr>pc_method = trim method, pc_url = url, pc_headers = headers, pc_body = rawBody\<rparr>))))))"

definition replyHeaders :: "(string option \<times> string list) list \<Rightarrow> ctx" where
  "replyHeaders hs = fold (\<lambda>(k, vs) m. case k of None \<Rightarrow> m | Some n \<Rightarrow> jput n (JStr (joinComma vs)) m) hs []"

text \<open>Reading a \<open>BufferedInputStream\<close> over \<open>null\<close> raises.\<close>

definition replyBody :: "ProxyReply \<Rightarrow> bytes res" where
  "replyBody r =
    (if pr_code r > 200
     then (case pr_error r of None \<Rightarrow> Raise (IOException ''Stream closed'') | Some b \<Rightarrow> Ret b)
     else pr_input r)"

definition doHttpProxy ::
  "(string \<Rightarrow> string) \<Rightarrow> (ProxyCall \<Rightarrow> (ProxyReply, 'w) prog) \<Rightarrow> string \<Rightarrow> SimRequest \<Rightarrow> bytes option
    \<Rightarrow> (SimResponse, 'w) prog" where
  "doHttpProxy encode connect proxyURL rq rawBody =
    bindS (liftS (proxyCall encode proxyURL rq rawBody)) (\<lambda>call.
    bindS (connect call) (\<lambda>reply.
    bindS (liftS (replyBody reply)) (\<lambda>body.
      retS \<lparr>resp_code = pr_code reply, resp_headers = replyHeaders (pr_headers reply), resp_body = Some body\<rparr>)))"

end
