(* ===== verification/HttpSpec.thy ===== *)
theory HttpSpec
  imports Http RespondSpec
begin

text \<open>
  The answers of an HTTP simulator: a request no rule matches is answered with an error response,
  a request that could not be built with nothing, and a proxied server that redirects with an error.
\<close>

section \<open>The error response\<close>

lemma webbitDoFill_500:
  "webbitDoFill sv \<lparr>resp_code = 500, resp_headers = [(''Access-Control-Allow-Origin'', JStr ''*'')], resp_body = Some b\<rparr> es =
    (Ret (), es @ [SetHeader ''Access-Control-Allow-Origin'' (sv_show sv (JStr ''*'')),
       Content (Some b), Status 500, EndResponse])"
  by (simp add: webbitDoFill_def bindS_apply contentTypeHeaders_def getAllInternalHeaders_def getAllPublicHeaders_def
    isChunked_def jget_def startsWith_def chunkedIgnores_def putHeader_def emit_def webbitFillRaw_def castString_def)

lemma fillResponse_500:
  "fillResponse (webbitSinks sv sk) \<lparr>resp_code = 500, resp_headers = [(''Access-Control-Allow-Origin'', JStr ''*'')], resp_body = Some b\<rparr> w =
    (Ret \<lparr>resp_code = 500, resp_headers = [(''Access-Control-Allow-Origin'', JStr ''*'')], resp_body = Some b\<rparr>,
     w\<lparr>hw_effects := hw_effects w @
       [SetHeader ''Access-Control-Allow-Origin'' (sv_show sv (JStr ''*'')), Content (Some b), Status 500, EndResponse]\<rparr>)"
proof -
  have r: "removeTarget \<lparr>resp_code = 500, resp_headers = [(''Access-Control-Allow-Origin'', JStr ''*'')], resp_body = Some b\<rparr> = Ret (None, \<lparr>resp_code = 500, resp_headers = [(''Access-Control-Allow-Origin'', JStr ''*'')], resp_body = Some b\<rparr>)"
    by (simp add: removeTarget_def jget_def jremove_def HEADER_NAME_RESPONSE_TARGETSIMULATOR_def castString_def)
  show ?thesis
    by (simp add: fillResponse_def bindS_apply r webbitSinks_def onEffects_def webbitDoFill_500)
qed


section \<open>Requests that cannot be built\<close>

text \<open>A basic authorization without a colon, or with nothing after it, makes the constructor of the
  request raise; then nothing is written to the client at all, and no listener is told.\<close>

theorem unbuilt_request_unanswered:
  assumes "hi_authorization hi = Some (''Basic '' @ v)" "base64 v = Ret credentials"
    and "CHR '':'' \<notin> set credentials \<or> (\<exists>user. credentials = user @ '':'' \<and> CHR '':'' \<notin> set user)"
  shows "handleHttpRequest hs (newWebbitSimRequest decode toStr base64 hi) w = w"
proof -
  have "basicParts (split CHR '':'' credentials) = Raise IndexOutOfBoundsException"
  proof (cases "CHR '':'' \<in> set credentials")
    case False
    then show ?thesis by (simp add: split_def basicParts_def)
  next
    case True
    then obtain user where u: "credentials = user @ '':''" "CHR '':'' \<notin> set user" using assms(3) by auto
    then have "split CHR '':'' credentials = dropTrailingEmpty [user, '''']"
      by (simp add: split_def pieces_append)
    then show ?thesis by (cases "user = ''''") (simp_all add: dropTrailingEmpty_def basicParts_def)
  qed
  then have "genAuthentications toStr base64 (hi_authorization hi) = Raise (RuntimeException (toStr IndexOutOfBoundsException))"
    using assms(1,2) by (simp add: genAuthentications_def startsWith_def)
  then obtain e where "newWebbitSimRequest decode toStr base64 hi = Raise e"
    by (cases "decodeURL decode (hi_uri hi)") (auto simp: newWebbitSimRequest_def)
  then show ?thesis by (simp add: handleHttpRequest_def gen500Response_def)
qed

section \<open>The proxy\<close>

text \<open>Behind the proxy, an answer with a code up to 200, or with an error stream, is passed on with
  its code and its body; any other answer, as a redirection without an error stream, becomes an
  \<open>IOException\<close>.\<close>

theorem doHttpProxy_reply:
  assumes "proxyCall encode proxyURL rq rawBody = Ret call" "connect call w = (Ret reply, w')"
  shows "doHttpProxy encode connect proxyURL rq rawBody w =
    (if pr_code reply \<le> 200
     then (case pr_input reply of
         Inl e \<Rightarrow> (Raise e, w')
       | Inr b \<Rightarrow> (Ret \<lparr>resp_code = pr_code reply, resp_headers = replyHeaders (pr_headers reply), resp_body = Some b\<rparr>, w'))
     else (case pr_error reply of
         None \<Rightarrow> (Raise (IOException ''Stream closed''), w')
       | Some b \<Rightarrow> (Ret \<lparr>resp_code = pr_code reply, resp_headers = replyHeaders (pr_headers reply), resp_body = Some b\<rparr>, w')))"
  using assms by (simp add: doHttpProxy_def replyBody_def bindS_apply split: sum.split option.split)

text \<open>A header value is passed on up to its first colon.\<close>

lemma proxyHeader_cut:
  assumes "req_headerLine rq h = Some (h @ '':'' @ v @ '':'' @ t)" "CHR '':'' \<notin> set h" "CHR '':'' \<notin> set v" "h \<noteq> ''''" "v \<noteq> ''''"
  shows "proxyHeader rq h = Ret (trim h, trim v)"
proof -
  have p: "pieces CHR '':'' (h @ '':'' @ v @ '':'' @ t) = h # v # pieces CHR '':'' t"
    using pieces_append [OF assms(2), of "v @ '':'' @ t"] pieces_append [OF assms(3), of t] by simp
  have "\<exists>ps. dropTrailingEmpty (h # v # qs) = h # v # ps" for qs
  proof -
    have "dropWhile (\<lambda>p. p = []) (rev qs @ [v, h]) = dropWhile (\<lambda>p. p = []) (rev qs) @ [v, h]"
      using assms(5) by (induction "rev qs") (auto simp: dropWhile_append3 dropWhile_append)
    then show ?thesis by (simp add: dropTrailingEmpty_def)
  qed
  then obtain ps where "split CHR '':'' (h @ '':'' @ v @ '':'' @ t) = h # v # ps"
    unfolding split_def p by auto
  then show ?thesis by (simp add: proxyHeader_def assms(1))
qed

section \<open>Samples\<close>

definition exchangeServices :: "nat HttpWorld Services" where
  "exchangeServices =
    \<lparr>sv_getBytes = latin1Bytes, sv_newString = latin1String, sv_gzip = id, sv_gunzip = Ret,
     sv_merge = (\<lambda>vc tag s. retS (s, vc)), sv_fetch = (\<lambda>url. retS []), sv_contentType = id,
     sv_groovyUri = (\<lambda>vc url. retS None), sv_invoke = (\<lambda>c m vc. retS JNull), sv_toJson = (\<lambda>c vc v. retS []),
     sv_show = (\<lambda>v. case v of JStr s \<Rightarrow> s | _ \<Rightarrow> ''?''), sv_sleep = (\<lambda>n. retS ())\<rparr>"

definition exchangeSinks :: "nat HttpWorld Sinks" where
  "exchangeSinks = \<lparr>sk_doFill = retS, sk_simulator = (\<lambda>s w. None), sk_simFill = (\<lambda>s. retS), sk_respContext = []\<rparr>"

fun plainMessage :: "jerror \<Rightarrow> string" where
  "plainMessage (IOException m) = m"
| "plainMessage (RuntimeException m) = m"
| "plainMessage _ = ''''"


definition badAuthorization :: HttpIn where
  "badAuthorization = \<lparr>hi_method = ''GET'', hi_uri = ''/a'', hi_protocol = ''HTTP/1.1'',
     hi_authorization = Some (''Basic '' @ ''dXNlcg==''), hi_headerNames = [], hi_headers = (\<lambda>h. None),
     hi_body = Ret None, hi_rawBody = None\<rparr>"

definition countingSim :: "nat HttpSim" where
  "countingSim = \<lparr>hs_proxy = False, hs_genResponse = (\<lambda>rq. retS []), hs_fillResponse = (\<lambda>rq r w. (Ret r, w + 1)),
     hs_doHttpProxy = (\<lambda>rq. liftS (Raise NullPointerException)), hs_onHandleMessage = (\<lambda>rq rs ok w. w + 100),
     hs_message = plainMessage, hs_getBytes = latin1Bytes\<rparr>"

theorem unbuilt_request_unanswered_witness:
  "handleHttpRequest countingSim (newWebbitSimRequest Ret plainMessage (\<lambda>s. Ret ''user'') badAuthorization) 0 = 0"
  by (rule unbuilt_request_unanswered [where v = "''dXNlcg==''" and credentials = "''user''"])
    (simp_all add: badAuthorization_def)

definition redirectReply :: ProxyReply where
  "redirectReply = \<lparr>pr_code = 302, pr_input = Ret [], pr_error = None, pr_headers = [(Some ''Location'', [''/b''])]\<rparr>"

lemma proxyCall_sample: "proxyCall id ''http://h'' (sampleRequest\<lparr>req_topLine := Some ''GET /a HTTP/1.1'', req_headerNames := []\<rparr>) None
    = Ret \<lparr>pc_method = ''GET'', pc_url = ''http://h/a'', pc_headers = [], pc_body = None\<rparr>"
  by code_simp

theorem doHttpProxy_reply_witness:
  "doHttpProxy id (\<lambda>c. retS redirectReply) ''http://h'' (sampleRequest\<lparr>req_topLine := Some ''GET /a HTTP/1.1'', req_headerNames := []\<rparr>) None (0::nat)
    = (Raise (IOException ''Stream closed''), 0)"
  by (subst doHttpProxy_reply [OF proxyCall_sample, where reply = redirectReply and w' = 0]) (simp_all add: redirectReply_def)

end
