(* ===== verification/Zip.thy ===== *)
theory Zip
  imports Script
begin

text \<open>
  Archives in place of folders: \<open>util/ZipFileVisitor.java\<close>, the constructor of \<open>SimScript\<close> that
  loads an archive, and the two constructors of \<open>manager/SimulatorFolder.java\<close> that read one. The
  library's part, opening an archive, is its list of entries.
\<close>

section \<open>Entries\<close>

record ZipEntry =
  ze_name :: string
  ze_content :: string

definition isDirectory :: "ZipEntry \<Rightarrow> bool" where
  "isDirectory e \<longleftrightarrow> endsWith (ze_name e) ''/''"

text \<open>
  \<open>java.io.File\<close>: whether the path is absolute, and its names; empty names between separators do
  not count.
\<close>

type_synonym FilePath = "bool \<times> string list"

definition newFile :: "string \<Rightarrow> FilePath" where
  "newFile s = (startsWith s ''/'', filter (\<lambda>p. p \<noteq> '''') (pieces CHR ''/'' s))"

definition getParentFile :: "FilePath \<Rightarrow> FilePath option" where
  "getParentFile f =
    (case snd f of
       [] \<Rightarrow> None
     | [p] \<Rightarrow> (if fst f then Some (True, []) else None)
     | ps \<Rightarrow> Some (fst f, butlast ps))"

definition getFileName :: "FilePath \<Rightarrow> string" where
  "getFileName f = (case snd f of [] \<Rightarrow> '''' | ps \<Rightarrow> last ps)"

definition entryFile :: "ZipEntry \<Rightarrow> FilePath" where
  "entryFile e = newFile (ze_name e)"

section \<open>The visitor\<close>

record 't EntryWrapper =
  ew_entry :: "ZipEntry option"
  ew_target :: 't

text \<open>The methods of a handler get the parent that \<open>setParent\<close> set last.\<close>

record ('t, 's) ZipHandler =
  zh_handleDir :: "'t EntryWrapper \<Rightarrow> ZipEntry \<Rightarrow> 's \<Rightarrow> 't EntryWrapper \<times> 's"
  zh_handleFile :: "'t EntryWrapper \<Rightarrow> ZipEntry \<Rightarrow> (unit, 's) prog"

text \<open>
  The test of the loop: two \<open>null\<close> parents are identical; otherwise \<open>equals\<close> is called on the
  parent of the entry.
\<close>

definition childOf :: "'t EntryWrapper \<Rightarrow> ZipEntry \<Rightarrow> bool res" where
  "childOf root e =
    (case (getParentFile (entryFile e), map_option entryFile (ew_entry root)) of
       (None, None) \<Rightarrow> Ret True
     | (None, Some r) \<Rightarrow> Raise NullPointerException
     | (Some p, r) \<Rightarrow> Ret (r = Some p))"

text \<open>The loop over the entries: the directories among the children, and the entries that stay.\<close>

fun handleEntries :: "('t, 's) ZipHandler \<Rightarrow> 't EntryWrapper \<Rightarrow> ZipEntry list
    \<Rightarrow> (ZipEntry list \<times> ZipEntry list, 's) prog" where
  "handleEntries h root [] = retS ([], [])"
| "handleEntries h root (e # es) =
    bindS (liftS (childOf root e)) (\<lambda>child.
      if child then
        (if isDirectory e then bindS (handleEntries h root es) (\<lambda>(ds, rest). retS (e # ds, rest))
         else bindS (zh_handleFile h root e) (\<lambda>_. handleEntries h root es))
      else bindS (handleEntries h root es) (\<lambda>(ds, rest). retS (ds, e # rest)))"

fun handleDirs :: "('t, 's) ZipHandler \<Rightarrow> 't EntryWrapper \<Rightarrow> ZipEntry list \<Rightarrow> 's \<Rightarrow> 't EntryWrapper list \<times> 's" where
  "handleDirs h root [] s = ([], s)"
| "handleDirs h root (d # ds) s =
    (let (w, s1) = zh_handleDir h root d s; (ws, s2) = handleDirs h root ds s1 in (w # ws, s2))"

lemma handleEntries_length:
  "handleEntries h root es s = (Ret (ds, rest), s') \<Longrightarrow> length ds + length rest \<le> length es"
proof (induction es arbitrary: s ds rest)
  case (Cons e es)
  from Cons.prems show ?case
    by (auto elim!: bindS_InrE split: if_splits dest!: Cons.IH)
qed simp

lemma handleDirs_length: "handleDirs h root ds s = (ws, s') \<Longrightarrow> length ws = length ds"
  by (induction ds arbitrary: s ws s') (auto split: prod.splits)

text \<open>The entries that are left are the second result: the list is shared by the recursive calls.\<close>

function (sequential) handleOneLevelDown :: "('t, 's) ZipHandler \<Rightarrow> 't EntryWrapper list \<Rightarrow> ZipEntry list \<Rightarrow> 's
    \<Rightarrow> ZipEntry list res \<times> 's" where
  "handleOneLevelDown h [] es s = (Ret es, s)"
| "handleOneLevelDown h (root # roots) es s =
    (case handleEntries h root es s of
       (Inl e, s1) \<Rightarrow> (Raise e, s1)
     | (Inr (ds, rest), s1) \<Rightarrow>
         (case handleDirs h root ds s1 of
            (ws, s2) \<Rightarrow>
              (case handleOneLevelDown h ws rest s2 of
                 (Inl e, s3) \<Rightarrow> (Raise e, s3)
               | (Inr rest', s3) \<Rightarrow> handleOneLevelDown h roots rest' s3)))"
  by pat_completeness auto

lemma handleOneLevelDown_shrinks:
  "handleOneLevelDown_dom (h, roots, es, s) \<Longrightarrow> handleOneLevelDown h roots es s = (Ret rest, s') \<Longrightarrow>
   length rest \<le> length es"
proof (induction h roots es s arbitrary: rest s' rule: handleOneLevelDown.pinduct)
  case (2 h root roots es s)
  from 2(1,4) obtain ds r1 s1 ws s2 r2 s3 where
    e: "handleEntries h root es s = (Ret (ds, r1), s1)" and d: "handleDirs h root ds s1 = (ws, s2)"
    and i: "handleOneLevelDown h ws r1 s2 = (Ret r2, s3)" and l: "handleOneLevelDown h roots r2 s3 = (Ret rest, s')"
    by (auto simp: handleOneLevelDown.psimps split: prod.splits sum.splits)
  have "length rest \<le> length r2" using 2(3) [OF e [symmetric] refl refl d [symmetric] i [symmetric] refl l] .
  also have "\<dots> \<le> length r1" using 2(2) [OF e [symmetric] refl refl d [symmetric] i] .
  also have "\<dots> \<le> length es" using handleEntries_length [OF e] by simp
  finally show ?case .
qed (simp add: handleOneLevelDown.psimps)

termination handleOneLevelDown
proof (relation "measure (\<lambda>(h, roots, es, s). length roots + 2 * length es)", goal_cases)
  case 2
  then show ?case by (auto dest!: handleEntries_length [OF sym] handleDirs_length [OF sym])
next
  case 3
  then show ?case by (auto dest!: handleOneLevelDown_shrinks [OF _ sym] handleEntries_length [OF sym])
qed simp

definition visit :: "('t, 's) ZipHandler \<Rightarrow> 't \<Rightarrow> ZipEntry list \<Rightarrow> 's \<Rightarrow> ZipEntry list res \<times> 's" where
  "visit h target entries = handleOneLevelDown h [\<lparr>ew_entry = None, ew_target = target\<rparr>] entries"

section \<open>Loading a script from an archive\<close>

text \<open>
  The scripts are objects that the visitor fills while they already hang in the tree: a store of
  them, addressed by their number. The script of the archive itself has number 0, and its parent is
  outside of the store.
\<close>

record 'c ZipScript =
  zs_node :: "'c ScriptNode"
  zs_parent :: "nat option"
  zs_subScripts :: "(string \<times> nat) list"
  zs_libURLs :: "string list"

type_synonym 'c ZipStore = "'c ZipScript list"

definition onScript :: "nat \<Rightarrow> ('c ZipScript \<Rightarrow> 'c ZipScript) \<Rightarrow> 'c ZipStore \<Rightarrow> 'c ZipStore" where
  "onScript i f st = st[i := f (st ! i)]"

definition onNode :: "nat \<Rightarrow> ('c ScriptNode \<Rightarrow> 'c ScriptNode) \<Rightarrow> 'c ZipStore \<Rightarrow> 'c ZipStore" where
  "onNode i f = onScript i (\<lambda>x. x\<lparr>zs_node := f (zs_node x)\<rparr>)"

text \<open>\<open>getProperty(PROP_NAME_SIMULATOR_URL) + name\<close>\<close>

definition urlUnder :: "'c ConfigOps \<Rightarrow> 'c ScriptNode \<Rightarrow> string \<Rightarrow> string" where
  "urlUnder cf n name =
    (case getProperty cf PROP_NAME_SIMULATOR_URL n of None \<Rightarrow> ''null'' | Some url \<Rightarrow> url) @ name"

text \<open>\<open>SimScript(SimScript, ZipEntry)\<close>; such a script has no file.\<close>

definition newEntryScript :: "'c ConfigOps \<Rightarrow> nat \<Rightarrow> 'c ScriptNode \<Rightarrow> string \<Rightarrow> 'c ZipScript" where
  "newEntryScript cf i n name =
    \<lparr>zs_node = (newScriptNode cf (Some (config n)) [] (urlUnder cf n (name @ ''/'')))\<lparr>myself := None\<rparr>,
     zs_parent = Some i, zs_subScripts = [], zs_libURLs = []\<rparr>"

text \<open>
  \<open>url\<close> is \<open>new URL(..)\<close>, which raises an \<open>IOException\<close> for a text that is not a URL; \<open>handleDir\<close>
  catches it. A library folder goes on with the script it is in.
\<close>

definition scriptDir :: "'c LoadEnv \<Rightarrow> (string \<Rightarrow> unit res) \<Rightarrow> nat EntryWrapper \<Rightarrow> ZipEntry \<Rightarrow> 'c ZipStore
    \<Rightarrow> nat EntryWrapper \<times> 'c ZipStore" where
  "scriptDir env url parent e st =
    (let i = ew_target parent; n = zs_node (st ! i); name = getFileName (entryFile e) in
     if name = LIB_DIR then
       (\<lparr>ew_entry = Some e, ew_target = i\<rparr>,
        case url (urlUnder (le_config env) n (name @ ''/'')) of
          Inl _ \<Rightarrow> st
        | Inr _ \<Rightarrow> onScript i (\<lambda>x. x\<lparr>zs_libURLs := zs_libURLs x @ [urlUnder (le_config env) n (name @ ''/'')]\<rparr>) st)
     else
       (\<lparr>ew_entry = Some e, ew_target = length st\<rparr>,
        onScript i (\<lambda>x. x\<lparr>zs_subScripts := jput name (length st) (zs_subScripts x)\<rparr>) st @
          [newEntryScript (le_config env) i n name]))"

text \<open>The ignored script is taken out of the map of its parent, under the name of the folder.\<close>

definition dropIgnored :: "nat EntryWrapper \<Rightarrow> 'c ZipStore \<Rightarrow> 'c ZipStore" where
  "dropIgnored parent st =
    (case (ew_entry parent, zs_parent (st ! ew_target parent)) of
       (Some d, Some p) \<Rightarrow> onScript p (\<lambda>x. x\<lparr>zs_subScripts := jremove (getFileName (entryFile d)) (zs_subScripts x)\<rparr>) st
     | _ \<Rightarrow> st)"

definition scriptFile :: "'c LoadEnv \<Rightarrow> (string \<Rightarrow> unit res) \<Rightarrow> nat EntryWrapper \<Rightarrow> ZipEntry \<Rightarrow> (unit, 'c ZipStore) prog" where
  "scriptFile env url parent e st =
    (let i = ew_target parent; n = zs_node (st ! i); name = getFileName (entryFile e) in
     if ignored n then (Ret (), st)
     else if name = INIT_FILE then
       (case cf_read (le_config env) (ze_content e) of
          Inl x \<Rightarrow> (Raise x, st)
        | Inr props \<Rightarrow> (Ret (), onNode i (copyProperty (le_config env) props) st))
     else if endsWith name SCRIPT_EXT then
       (case load (le_engines env) (ze_content e) of
          Inl x \<Rightarrow> (Raise x, st)
        | Inr ps \<Rightarrow> (Ret (), onNode i (addPairs ps) st))
     else if endsWith name IGNORE_EXT then
       (Ret (), dropIgnored parent (onNode i (\<lambda>n. n\<lparr>ignored := True\<rparr>) st))
     else if (endsWith name ''.jar'' \<or> endsWith name ''.zip'') \<and> getParentFile (entryFile e) = Some (False, [LIB_DIR]) then
       (let lib = urlUnder (le_config env) n (LIB_DIR @ ''/'' @ name) in
        case url lib of
          Inl x \<Rightarrow> (Raise x, st)
        | Inr _ \<Rightarrow> (Ret (), onScript i (\<lambda>x. x\<lparr>zs_libURLs := zs_libURLs x @ [lib]\<rparr>) st))
     else (Ret (), st))"

definition scriptHandler :: "'c LoadEnv \<Rightarrow> (string \<Rightarrow> unit res) \<Rightarrow> (nat, 'c ZipStore) ZipHandler" where
  "scriptHandler env url = \<lparr>zh_handleDir = scriptDir env url, zh_handleFile = scriptFile env url\<rparr>"

text \<open>The tree the objects form: a sub-script is made after its parent, so it has a higher number.\<close>

fun freezeAll :: "nat \<Rightarrow> 'c ZipStore \<Rightarrow> 'c SimScript list" where
  "freezeAll i [] = []"
| "freezeAll i (x # st) =
    (let later = freezeAll (Suc i) st in
     SimScript (zs_node x) (map (\<lambda>(k, j). (k, later ! (j - Suc i))) (zs_subScripts x)) # later)"

text \<open>\<open>SimScript(SimScript, ZipFile, File)\<close>\<close>

definition newZipScript :: "'c LoadEnv \<Rightarrow> (string \<Rightarrow> unit res) \<Rightarrow> ZipEntry list \<Rightarrow> 'c loader" where
  "newZipScript env url entries parentConfig path =
    (case visit (scriptHandler env url) 0 entries
        [\<lparr>zs_node = newScriptNode (le_config env) (Some parentConfig) path (''jar:'' @ le_toURI env path @ ''!/''),
          zs_parent = None, zs_subScripts = [], zs_libURLs = []\<rparr>] of
       (Inl x, _) \<Rightarrow> Raise x
     | (Inr _, st) \<Rightarrow> Ret (hd (freezeAll 0 st)))"

section \<open>Reading an archive into a folder\<close>

record FolderObj =
  fo_name :: string
  fo_files :: "(string \<times> string) list"
  fo_subFolders :: "nat list"

definition folderDir :: "nat EntryWrapper \<Rightarrow> ZipEntry \<Rightarrow> FolderObj list \<Rightarrow> nat EntryWrapper \<times> FolderObj list" where
  "folderDir parent e st =
    (let i = ew_target parent in
     (\<lparr>ew_entry = Some e, ew_target = length st\<rparr>,
      st[i := (st ! i)\<lparr>fo_subFolders := fo_subFolders (st ! i) @ [length st]\<rparr>] @
        [\<lparr>fo_name = getFileName (entryFile e), fo_files = [], fo_subFolders = []\<rparr>]))"

definition folderEntry :: "nat EntryWrapper \<Rightarrow> ZipEntry \<Rightarrow> (unit, FolderObj list) prog" where
  "folderEntry parent e st =
    (let i = ew_target parent; name = getFileName (entryFile e) in
     if name = INIT_FILE \<or> endsWith name SCRIPT_EXT \<or> endsWith name IGNORE_EXT
     then (Ret (), st[i := (st ! i)\<lparr>fo_files := fo_files (st ! i) @ [(name, loadContent (ze_content e))]\<rparr>])
     else (Ret (), st))"

definition folderHandler :: "(nat, FolderObj list) ZipHandler" where
  "folderHandler = \<lparr>zh_handleDir = folderDir, zh_handleFile = folderEntry\<rparr>"

fun freezeFolders :: "nat \<Rightarrow> FolderObj list \<Rightarrow> SimulatorFolder list" where
  "freezeFolders i [] = []"
| "freezeFolders i (x # st) =
    (let later = freezeFolders (Suc i) st in
     SimulatorFolder (fo_name x) (fo_files x) (map (\<lambda>j. later ! (j - Suc i)) (fo_subFolders x)) # later)"

text \<open>
  \<open>SimulatorFolder(File)\<close> on an archive. It sets no name, which stays \<open>null\<close>: the result is the
  files and the sub-folders alone.
\<close>

definition newArchiveFolder :: "ZipEntry list \<Rightarrow> ((string \<times> string) list \<times> SimulatorFolder list) res" where
  "newArchiveFolder entries =
    (case visit folderHandler 0 entries [\<lparr>fo_name = [], fo_files = [], fo_subFolders = []\<rparr>] of
       (Inl x, _) \<Rightarrow> Raise x
     | (Inr _, st) \<Rightarrow>
         (let f = hd (freezeFolders 0 st) in Ret (sf_files f, sf_subFolders f)))"

section \<open>The folder of a loaded script\<close>

text \<open>\<open>SimulatorFolder.prepareSimulatorFolder\<close>: the files at a path, and the folders of the sub-scripts.\<close>

definition structureFiles :: "ZipEntry list \<Rightarrow> string \<Rightarrow> (string \<times> string) list" where
  "structureFiles entries path =
    map (\<lambda>e. (getFileName (entryFile e), loadContent (ze_content e)))
      (filter (\<lambda>e. let name = ze_name e in
         name = path @ INIT_FILE \<or>
         startsWith name path \<and> endsWith name SCRIPT_EXT \<and> \<not> containsStr (drop (length path) name) ''/'') entries)"

primrec prepareSimulatorFolder :: "ZipEntry list \<Rightarrow> 'c SimScript \<Rightarrow> string \<Rightarrow> string \<Rightarrow> SimulatorFolder" where
  "prepareSimulatorFolder entries (SimScript n subs) = (\<lambda>name path.
     SimulatorFolder name (structureFiles entries path)
       (map (\<lambda>(k, prepare). prepare k (path @ k @ ''/'')) (map (map_prod id (prepareSimulatorFolder entries)) subs)))"

text \<open>
  \<open>SimulatorFolder(SimScript)\<close>, on what the script's own file is now; \<open>openZip\<close> opens an archive. A
  plain file that is no archive has no listing: \<open>listFiles\<close> is \<open>null\<close>.
\<close>

definition acceptsStructureFile :: "string \<Rightarrow> bool" where
  "acceptsStructureFile name \<longleftrightarrow> endsWith name SCRIPT_EXT \<or> name = INIT_FILE"

fun structureFile :: "FsNode \<Rightarrow> (string \<times> string) list" where
  "structureFile (FsFile name content) = (if acceptsStructureFile name then [(name, loadContent content)] else [])"
| "structureFile (FsDir name children) = []"

primrec directoryFolder :: "FsNode \<Rightarrow> 'c SimScript \<Rightarrow> SimulatorFolder" where
  "directoryFolder (FsFile name content) = (\<lambda>script. SimulatorFolder name [] [])"
| "directoryFolder (FsDir name children) = (\<lambda>script.
     SimulatorFolder name (concat (map structureFile children))
       (concat (map (\<lambda>(f, folder).
          if isFsFile f then []
          else (case jget (subScripts script) (fs_name f) of None \<Rightarrow> [] | Some s \<Rightarrow> [folder s]))
         (map (\<lambda>f. (f, directoryFolder f)) children))))"

definition newScriptFolder :: "(string \<Rightarrow> ZipEntry list res) \<Rightarrow> FsNode \<Rightarrow> 'c SimScript \<Rightarrow> SimulatorFolder res" where
  "newScriptFolder openZip f script =
    (case f of
       FsDir name children \<Rightarrow> Ret (directoryFolder f script)
     | FsFile name content \<Rightarrow>
         if endsWith name ZIP_EXT then
           bindE (openZip content) (\<lambda>entries.
             Ret (prepareSimulatorFolder entries script (take (length name - length ZIP_EXT) name) []))
         else Raise NullPointerException)"

section \<open>Loading all scripts\<close>

text \<open>
  \<open>SimulatorRepository.loadScripts\<close>: the scripts of the folders and archives, as \<open>listFiles\<close> gives
  them, that have a name and are not ignored.
\<close>

definition acceptsScript :: "FsNode \<Rightarrow> bool" where
  "acceptsScript f \<longleftrightarrow> (if isFsFile f then endsWith (fs_name f) ZIP_EXT else fs_name f \<noteq> LIB_DIR)"

definition loadScript :: "'c LoadEnv \<Rightarrow> (string \<Rightarrow> unit res) \<Rightarrow> (string \<Rightarrow> ZipEntry list res) \<Rightarrow> FsNode \<Rightarrow> 'c loader" where
  "loadScript env url openZip f parentConfig path =
    (case f of
       FsDir name children \<Rightarrow> newSimScript env f parentConfig path
     | FsFile name content \<Rightarrow> bindE (openZip content) (\<lambda>entries. newZipScript env url entries parentConfig path))"

definition loadScripts :: "'c LoadEnv \<Rightarrow> (string \<Rightarrow> unit res) \<Rightarrow> (string \<Rightarrow> ZipEntry list res) \<Rightarrow> FsNode list \<Rightarrow> string
    \<Rightarrow> 'c SimScript list res" where
  "loadScripts env url openZip folder path =
    bindE (newRootScript env folder path) (\<lambda>root.
    bindE (mapE (\<lambda>f. loadScript env url openZip f (config (node root)) (path @ ''/'' @ fs_name f))
      (filter acceptsScript folder)) (\<lambda>scripts.
      Ret (filter (\<lambda>s. isValid (le_config env) (node s) \<and> \<not> ignored (node s)) scripts)))"

end
