(* ===== verification/LoaderSpec.thy ===== *)
theory LoaderSpec
  imports ScriptSpec
begin

text \<open>
  The sub-folders of a loaded folder: which sub-scripts \<open>loadFolder\<close> makes of them. The comparisons of
  the loader of folders with the loader of archives and with the structures of the manager rest on it.
\<close>

text \<open>What a sub-folder adds to the sub-scripts.\<close>

definition loadedSub :: "(FsNode \<Rightarrow> 'c loader) \<Rightarrow> 'c \<Rightarrow> string \<Rightarrow> FsNode \<Rightarrow> (string \<times> 'c SimScript) list" where
  "loadedSub ld c path d =
    (if fs_name d = LIB_DIR then []
     else (case ld d c (path @ ''/'' @ fs_name d) of
         Inl e \<Rightarrow> []
       | Inr t \<Rightarrow> if ignored (node t) then [] else [(fs_name d, t)]))"

lemma loadedSub_cases:
  obtains "loadedSub ld c path d = []"
  | t where "loadedSub ld c path d = [(fs_name d, t)]" "ld d c (path @ ''/'' @ fs_name d) = Ret t" "\<not> ignored (node t)"
  unfolding loadedSub_def by (fastforce split: sum.splits if_splits)

lemma loadEntries_dirs:
  assumes "loadEntries env True (map (\<lambda>f. (f, ld f)) ds) path n subs = Ret s"
    and "list_all (Not \<circ> isFsFile) ds" and "distinct (map fs_name ds)"
    and "set (map fs_name ds) \<inter> fst ` set subs = {}"
  shows "\<exists>n'. s = SimScript n' (subs @ concat (map (loadedSub ld (config n) path) ds)) \<and>
    templatePairs n' = templatePairs n \<and> ignored n' = ignored n \<and>
    (\<forall>d \<in> set ds. fs_name d \<noteq> LIB_DIR \<longrightarrow> (\<exists>t. ld d (config n) (path @ ''/'' @ fs_name d) = Ret t))"
  using assms
proof (induction ds arbitrary: n subs)
  case (Cons d ds)
  obtain name es where d: "d = FsDir name es" using Cons.prems(2) by (cases d) auto
  show ?case
  proof (cases "name = LIB_DIR")
    case True
    with Cons.prems d have "loadEntries env True (map (\<lambda>f. (f, ld f)) ds) path (n\<lparr>libFile := Some (path @ ''/'' @ name)\<rparr>) subs = Ret s"
      by simp
    from Cons.IH [OF this] Cons.prems True d show ?thesis by (auto simp: loadedSub_def)
  next
    case False
    with Cons.prems(1) d obtain t where t: "ld d (config n) (path @ ''/'' @ name) = Ret t"
      and l: "loadEntries env True (map (\<lambda>f. (f, ld f)) ds) path n (if ignored (node t) then subs else jput name t subs) = Ret s"
      by (auto elim!: bindE_InrE)
    have new: "(if ignored (node t) then subs else jput name t subs) = subs @ loadedSub ld (config n) path d"
      using False t d Cons.prems(4) by (simp add: loadedSub_def jput_fresh)
    have "set (map fs_name ds) \<inter> fst ` set (subs @ loadedSub ld (config n) path d) = {}"
      using Cons.prems(3,4) by (cases ld "config n" path d rule: loadedSub_cases) auto
    from Cons.IH [OF l [unfolded new] _ _ this] Cons.prems(2,3) t d show ?thesis by auto
  qed
qed auto

lemma fst_loadedSub: "fst ` set (loadedSub ld c path d) \<subseteq> {fs_name d}"
  by (cases ld c path d rule: loadedSub_cases) auto

lemma jget_append: "jget (xs @ ys) k = (case jget xs k of None \<Rightarrow> jget ys k | Some v \<Rightarrow> Some v)"
  by (simp add: jget_def map_add_def map_of_append split: option.split)

lemma jget_loadedSub_other: "k \<noteq> fs_name d \<Longrightarrow> jget (loadedSub ld c path d) k = None"
  by (cases ld c path d rule: loadedSub_cases) (auto simp: jget_def)

lemma jget_loadedSubs_other:
  "k \<notin> set (map fs_name ds) \<Longrightarrow> jget (concat (map (loadedSub ld c path) ds)) k = None"
  by (induction ds) (simp_all add: jget_append jget_loadedSub_other)

lemma jget_loadedSub:
  "d \<in> set ds \<Longrightarrow> distinct (map fs_name ds) \<Longrightarrow>
   jget (concat (map (loadedSub ld c path) ds)) (fs_name d) = jget (loadedSub ld c path d) (fs_name d)"
proof (induction ds)
  case (Cons a ds)
  show ?case
  proof (cases "a = d")
    case True
    then show ?thesis using Cons.prems(2)
      by (simp add: jget_append jget_loadedSubs_other split: option.split)
  next
    case False
    then have "d \<in> set ds" "fs_name a \<notin> fs_name ` set ds" using Cons.prems by auto
    then have "fs_name d \<noteq> fs_name a" by (metis imageI)
    then show ?thesis using False Cons by (simp add: jget_append jget_loadedSub_other)
  qed
qed simp

end
