(* ===== verification/ZipSpec.thy ===== *)
theory ZipSpec
  imports Zip LoaderSpec
begin

text \<open>
  Archives in place of folders: what the visitor does with an archive of a folder is a walk over the
  folder, and the script it loads has the rules of the script loaded from the folder itself.
\<close>

section \<open>Paths\<close>

definition goodName :: "string \<Rightarrow> bool" where
  "goodName q \<longleftrightarrow> q \<noteq> [] \<and> CHR ''/'' \<notin> set q"

definition pathText :: "string list \<Rightarrow> string" where
  "pathText Q = concat (map (\<lambda>q. q @ ''/'') Q)"

lemma pieces_path:
  "list_all goodName Q \<Longrightarrow> CHR ''/'' \<notin> set t \<Longrightarrow> pieces CHR ''/'' (pathText Q @ t) = Q @ [t]"
proof (induction Q)
  case (Cons q Q)
  then have "pieces CHR ''/'' (q @ CHR ''/'' # (pathText Q @ t)) = q # pieces CHR ''/'' (pathText Q @ t)"
    by (intro pieces_append) (simp add: goodName_def)
  with Cons show ?case by (simp add: pathText_def)
qed (simp add: pathText_def pieces_no_delim)

lemma path_relative:
  assumes "list_all goodName Q" "goodName n"
  shows "\<not> startsWith (pathText Q @ n @ t) ''/''"
proof (cases Q)
  case Nil
  then show ?thesis using assms(2) by (cases n) (auto simp: pathText_def goodName_def startsWith_def)
next
  case (Cons q Q')
  then show ?thesis using assms(1) by (cases q) (auto simp: pathText_def goodName_def startsWith_def)
qed

lemma filter_goodNames: "list_all goodName Q \<Longrightarrow> filter (\<lambda>p. p \<noteq> []) Q = Q"
  by (auto simp: list_all_iff goodName_def filter_id_conv)

text \<open>The entry of a file or folder at a path.\<close>

definition entryOf :: "string list \<Rightarrow> FsNode \<Rightarrow> ZipEntry" where
  "entryOf Q f =
    (case f of
       FsFile name content \<Rightarrow> \<lparr>ze_name = pathText Q @ name, ze_content = content\<rparr>
     | FsDir name children \<Rightarrow> \<lparr>ze_name = pathText Q @ name @ ''/'', ze_content = []\<rparr>)"

lemma entryFile_entryOf:
  assumes "list_all goodName Q" "goodName (fs_name f)"
  shows "entryFile (entryOf Q f) = (False, Q @ [fs_name f])"
proof (cases f)
  case (FsFile name c)
  with assms pieces_path [OF assms(1), of name] path_relative [OF assms, of "[]"] show ?thesis
    by (simp add: entryFile_def entryOf_def newFile_def filter_goodNames goodName_def)
next
  case (FsDir name es)
  have "pathText (Q @ [name]) = pathText Q @ name @ ''/''" by (simp add: pathText_def)
  with FsDir assms pieces_path [of "Q @ [name]" "[]"] path_relative [OF assms, of "''/''"] show ?thesis
    by (simp add: entryFile_def entryOf_def newFile_def filter_goodNames goodName_def)
qed

lemma isDirectory_entryOf: "goodName (fs_name f) \<Longrightarrow> isDirectory (entryOf Q f) \<longleftrightarrow> \<not> isFsFile f"
proof (cases f)
  case (FsFile name c)
  assume "goodName (fs_name f)"
  then obtain n x where "name = n @ [x]" "x \<noteq> CHR ''/''"
    using FsFile by (cases name rule: rev_cases) (auto simp: goodName_def)
  then show ?thesis using FsFile by (simp add: isDirectory_def entryOf_def endsWith_def)
next
  case (FsDir name es)
  then show ?thesis using endsWith_append [of "pathText Q @ name" "''/''"]
    by (simp add: isDirectory_def entryOf_def)
qed

text \<open>The directory with a path; the root has none.\<close>

definition parentOf :: "string list \<Rightarrow> FilePath option" where
  "parentOf Q = (if Q = [] then None else Some (False, Q))"

lemma getParentFile_butlast:
  "ps \<noteq> [] \<Longrightarrow> getParentFile (a, ps) =
    (if butlast ps = [] then if a then Some (True, []) else None else Some (a, butlast ps))"
  by (auto simp: getParentFile_def split: list.split)

lemma getParentFile_snoc: "getParentFile (False, Q @ [n]) = parentOf Q"
  by (simp add: getParentFile_butlast parentOf_def)

lemma getFileName_last: "ps \<noteq> [] \<Longrightarrow> getFileName (a, ps) = last ps"
  by (cases ps) (simp_all add: getFileName_def)

lemma getFileName_entryOf:
  "list_all goodName Q \<Longrightarrow> goodName (fs_name f) \<Longrightarrow> getFileName (entryFile (entryOf Q f)) = fs_name f"
  by (simp add: entryFile_entryOf getFileName_last)

lemma parentOf_inject [simp]: "parentOf Q = parentOf R \<longleftrightarrow> Q = R"
  by (auto simp: parentOf_def)

section \<open>Archives of folders\<close>

definition entryParent :: "ZipEntry \<Rightarrow> FilePath option" where
  "entryParent e = getParentFile (entryFile e)"

definition childEntries :: "ZipEntry list \<Rightarrow> string list \<Rightarrow> ZipEntry list" where
  "childEntries L Q = filter (\<lambda>e. entryParent e = parentOf Q) L"

text \<open>
  The entries hold a folder: for every folder under the path there are the entries of its files and
  folders, in their order; entries of other folders may stand in between.
\<close>

primrec holdsNode :: "ZipEntry list \<Rightarrow> FsNode \<Rightarrow> string list \<Rightarrow> bool" where
  "holdsNode L (FsFile name content) = (\<lambda>Q. True)"
| "holdsNode L (FsDir name children) = (\<lambda>Q.
     childEntries L (Q @ [name]) = map (entryOf (Q @ [name])) children \<and>
     list_all (\<lambda>holds. holds (Q @ [name])) (map (holdsNode L) children))"

definition holdsFolder :: "ZipEntry list \<Rightarrow> FsNode list \<Rightarrow> string list \<Rightarrow> bool" where
  "holdsFolder L children Q \<longleftrightarrow>
    childEntries L Q = map (entryOf Q) children \<and> (\<forall>f \<in> set children. holdsNode L f Q)"

lemma holdsNode_FsDir: "holdsNode L (FsDir name children) Q \<longleftrightarrow> holdsFolder L children (Q @ [name])"
  by (auto simp: holdsFolder_def list_all_iff)

declare holdsNode.simps(2) [simp del]

primrec goodNames :: "FsNode \<Rightarrow> bool" where
  "goodNames (FsFile name content) = goodName name"
| "goodNames (FsDir name children) =
    (goodName name \<and> distinct (map fs_name children) \<and> list_all (\<lambda>ok. ok) (map goodNames children))"

lemma goodNames_name: "goodNames f \<Longrightarrow> goodName (fs_name f)"
  by (cases f) auto

text \<open>Entries elsewhere do not matter.\<close>

lemma childEntries_filter:
  "(\<And>e. e \<in> set L \<Longrightarrow> entryParent e = parentOf Q \<Longrightarrow> P e) \<Longrightarrow> childEntries (filter P L) Q = childEntries L Q"
  unfolding childEntries_def filter_filter by (rule filter_cong) auto

lemma holdsNode_filter:
  "(\<And>e S. e \<in> set L \<Longrightarrow> entryParent e = parentOf (Q @ fs_name f # S) \<Longrightarrow> P e) \<Longrightarrow>
   holdsNode (filter P L) f Q = holdsNode L f Q"
proof (induction f arbitrary: Q)
  case (FsDir name es)
  have "holdsNode (filter P L) g (Q @ [name]) = holdsNode L g (Q @ [name])" if "g \<in> set es" for g
    by (rule FsDir.IH [OF that]) (use FsDir.prems [of _ "fs_name g # S" for S] in simp)
  moreover have "childEntries (filter P L) (Q @ [name]) = childEntries L (Q @ [name])"
    by (rule childEntries_filter) (use FsDir.prems [of _ "[]"] in simp)
  ultimately show ?case by (simp add: holdsNode_FsDir holdsFolder_def)
qed simp

section \<open>The walk over a folder\<close>

fun visitFiles :: "('t, 's) ZipHandler \<Rightarrow> 't EntryWrapper \<Rightarrow> ZipEntry list \<Rightarrow> (unit, 's) prog" where
  "visitFiles h w [] = retS ()"
| "visitFiles h w (e # es) = bindS (zh_handleFile h w e) (\<lambda>_. visitFiles h w es)"

fun visitSubs :: "('w \<Rightarrow> (unit, 's) prog) list \<Rightarrow> 'w list \<Rightarrow> (unit, 's) prog" where
  "visitSubs (g # gs) (w # ws) = bindS (g w) (\<lambda>_. visitSubs gs ws)"
| "visitSubs _ _ = retS ()"

text \<open>The files of a folder, then the objects of its sub-folders, then the sub-folders.\<close>

definition visitLevel :: "('t, 's) ZipHandler \<Rightarrow> (FsNode \<times> (string list \<Rightarrow> 't EntryWrapper \<Rightarrow> (unit, 's) prog)) list
    \<Rightarrow> string list \<Rightarrow> 't EntryWrapper \<Rightarrow> (unit, 's) prog" where
  "visitLevel h fs Q w =
    bindS (visitFiles h w (map (entryOf Q \<circ> fst) (filter (isFsFile \<circ> fst) fs))) (\<lambda>_ s.
      let ds = filter (Not \<circ> isFsFile \<circ> fst) fs; (ws, s') = handleDirs h w (map (entryOf Q \<circ> fst) ds) s in
      visitSubs (map (\<lambda>(f, visitNode). visitNode Q) ds) ws s')"

primrec visitNode :: "('t, 's) ZipHandler \<Rightarrow> FsNode \<Rightarrow> string list \<Rightarrow> 't EntryWrapper \<Rightarrow> (unit, 's) prog" where
  "visitNode h (FsFile name content) = (\<lambda>Q w. retS ())"
| "visitNode h (FsDir name children) = (\<lambda>Q. visitLevel h (map (\<lambda>f. (f, visitNode h f)) children) (Q @ [name]))"

definition visitFolder :: "('t, 's) ZipHandler \<Rightarrow> FsNode list \<Rightarrow> string list \<Rightarrow> 't EntryWrapper \<Rightarrow> (unit, 's) prog" where
  "visitFolder h children Q w =
    bindS (visitFiles h w (map (entryOf Q) (filter isFsFile children))) (\<lambda>_ s.
      let ds = filter (Not \<circ> isFsFile) children; (ws, s') = handleDirs h w (map (entryOf Q) ds) s in
      visitSubs (map (\<lambda>f. visitNode h f Q) ds) ws s')"

lemma visitLevel_visitFolder: "visitLevel h (map (\<lambda>f. (f, visitNode h f)) children) Q w = visitFolder h children Q w"
  by (simp add: visitLevel_def visitFolder_def filter_map comp_def Let_def)

lemma visitNode_FsDir: "visitNode h (FsDir name children) Q w = visitFolder h children (Q @ [name]) w"
  by (simp add: visitLevel_visitFolder)

declare visitNode.simps(2) [simp del]

text \<open>The wrapper of the directory at a path.\<close>

definition wrapsAt :: "'t EntryWrapper \<Rightarrow> string list \<Rightarrow> bool" where
  "wrapsAt w Q \<longleftrightarrow> map_option entryFile (ew_entry w) = parentOf Q"

lemma childOf_wrapsAt:
  "wrapsAt w Q \<Longrightarrow> Q \<noteq> [] \<longrightarrow> entryParent e \<noteq> None \<Longrightarrow> childOf w e = Ret (entryParent e = parentOf Q)"
  by (auto simp: childOf_def wrapsAt_def entryParent_def parentOf_def split: option.split)

lemma bindS_assoc: "bindS (bindS m f) g = bindS m (\<lambda>x. bindS (f x) g)"
  by (rule ext) (simp add: bindS_def split: prod.split sum.split)

lemma bindS_retS [simp]: "bindS (retS x) f = f x"
  by (rule ext) (simp add: bindS_def)

lemma bindS_Pair [simp]: "bindS (Pair (Inr x)) f = f x"
  by (rule ext) (simp add: bindS_def)

lemma bindS_liftS_Ret [simp]: "bindS (liftS (Inr x)) f = f x"
  by (rule ext) (simp add: bindS_def)

lemma handleEntries_visitFiles:
  assumes "wrapsAt w Q" and "Q \<noteq> [] \<longrightarrow> (\<forall>e \<in> set L. entryParent e \<noteq> None)"
  shows "handleEntries h w L =
    bindS (visitFiles h w (filter (Not \<circ> isDirectory) (childEntries L Q))) (\<lambda>_.
      retS (filter isDirectory (childEntries L Q), filter (\<lambda>e. entryParent e \<noteq> parentOf Q) L))"
  using assms(2)
proof (induction L)
  case (Cons e L)
  have c: "childOf w e = Ret (entryParent e = parentOf Q)"
    using childOf_wrapsAt [OF assms(1)] Cons.prems by auto
  show ?case
    using Cons by (simp add: c childEntries_def bindS_assoc)
qed (rule ext, simp add: childEntries_def)

lemma handleOneLevelDown_Cons:
  "handleOneLevelDown h (root # roots) L =
    bindS (handleEntries h root L) (\<lambda>(ds, rest) s.
      let (ws, s') = handleDirs h root ds s in
      bindS (handleOneLevelDown h ws rest) (handleOneLevelDown h roots) s')"
  by (rule ext) (simp add: bindS_def split: prod.split sum.split)

lemma handleOneLevelDown_Nil: "handleOneLevelDown h [] L = retS L"
  by (rule ext) simp

lemma handleOneLevelDown_append:
  "handleOneLevelDown h (ws @ vs) L s = bindS (handleOneLevelDown h ws L) (handleOneLevelDown h vs) s"
proof (induction h ws L s rule: handleOneLevelDown.induct)
  case (2 h root roots es s)
  then show ?case
    by (simp add: bindS_def split: prod.split sum.split)
qed (simp add: handleOneLevelDown_Nil)

declare handleOneLevelDown.simps(2) [simp del]

text \<open>
  The visitor, started on the directory of a node, walks over the node and removes entries at or
  under it only.
\<close>

definition walks :: "('t, 's) ZipHandler \<Rightarrow> FsNode \<Rightarrow> string list \<Rightarrow> bool" where
  "walks h f Q \<longleftrightarrow> (\<forall>w L s. wrapsAt w (Q @ [fs_name f]) \<longrightarrow> holdsNode L f Q \<longrightarrow> (\<forall>e \<in> set L. entryParent e \<noteq> None) \<longrightarrow>
     (\<exists>P. handleOneLevelDown h [w] L s = bindS (visitNode h f Q w) (\<lambda>_. retS (filter P L)) s \<and>
       (\<forall>e \<in> set L. P e \<or> (\<exists>S. entryParent e = parentOf (Q @ fs_name f # S)))))"

lemma walksD:
  assumes "walks h f Q" "wrapsAt w (Q @ [fs_name f])" "holdsNode L f Q" "\<forall>e \<in> set L. entryParent e \<noteq> None"
  obtains P where "handleOneLevelDown h [w] L s = bindS (visitNode h f Q w) (\<lambda>_. retS (filter P L)) s"
    "\<forall>e \<in> set L. P e \<or> (\<exists>S. entryParent e = parentOf (Q @ fs_name f # S))"
  using assms unfolding walks_def by blast

lemma holdsNode_other:
  assumes "\<forall>e \<in> set L. P e \<or> (\<exists>S. entryParent e = parentOf (Q @ n # S))" "n \<noteq> fs_name f"
  shows "holdsNode (filter P L) f Q = holdsNode L f Q"
  by (rule holdsNode_filter) (use assms in force)

lemma walk_subs:
  assumes "\<And>f. f \<in> set fs \<Longrightarrow> walks h f Q" and "list_all2 (\<lambda>w f. wrapsAt w (Q @ [fs_name f])) ws fs"
    and "distinct (map fs_name fs)" and "\<And>f. f \<in> set fs \<Longrightarrow> holdsNode L f Q"
    and "\<forall>e \<in> set L. entryParent e \<noteq> None"
  shows "\<exists>P. handleOneLevelDown h ws L s = bindS (visitSubs (map (\<lambda>f. visitNode h f Q) fs) ws) (\<lambda>_. retS (filter P L)) s \<and>
    (\<forall>e \<in> set L. P e \<or> (\<exists>n S. entryParent e = parentOf (Q @ n # S)))"
  using assms(2,1,3-)
proof (induction ws fs arbitrary: L s rule: list_all2_induct)
  case Nil
  show ?case by (intro exI [of _ "\<lambda>_. True"]) simp
next
  case (Cons w ws f fs)
  have holds: "holdsNode L f Q" using Cons.prems by simp
  obtain P where P: "handleOneLevelDown h [w] L s = bindS (visitNode h f Q w) (\<lambda>_. retS (filter P L)) s"
    "\<forall>e \<in> set L. P e \<or> (\<exists>S. entryParent e = parentOf (Q @ fs_name f # S))"
    by (rule walksD [OF Cons.prems(1) Cons.hyps(1) holds Cons.prems(4)]) auto
  have rest: "holdsNode (filter P L) g Q" if "g \<in> set fs" for g
  proof -
    have "fs_name f \<noteq> fs_name g" using that Cons.prems(2) by auto
    then show ?thesis using holdsNode_other [OF P(2)] that Cons.prems(3) by simp
  qed
  show ?case
  proof (cases "visitNode h f Q w s")
    case (Pair r s1)
    show ?thesis
    proof (cases r)
      case (Inl x)
      then show ?thesis using Pair P(1) handleOneLevelDown_append [of h "[w]" ws L s]
        by (intro exI [of _ "\<lambda>_. True"]) (simp add: bindS_def)
    next
      case (Inr u)
      have "\<exists>P'. handleOneLevelDown h ws (filter P L) s1 =
          bindS (visitSubs (map (\<lambda>f. visitNode h f Q) fs) ws) (\<lambda>_. retS (filter P' (filter P L))) s1 \<and>
        (\<forall>e \<in> set (filter P L). P' e \<or> (\<exists>n S. entryParent e = parentOf (Q @ n # S)))"
        by (rule Cons.IH) (use Cons.prems rest in auto)
      then obtain P' where "handleOneLevelDown h ws (filter P L) s1 =
          bindS (visitSubs (map (\<lambda>f. visitNode h f Q) fs) ws) (\<lambda>_. retS (filter P' (filter P L))) s1"
        and "\<forall>e \<in> set (filter P L). P' e \<or> (\<exists>n S. entryParent e = parentOf (Q @ n # S))" by blast
      then show ?thesis using Pair Inr P handleOneLevelDown_append [of h "[w]" ws L s]
        by (intro exI [of _ "\<lambda>e. P e \<and> P' e"]) (auto simp: bindS_def split: prod.splits sum.splits)
    qed
  qed
qed

locale zip_handler =
  fixes h :: "('t, 's) ZipHandler"
  assumes wraps: "ew_entry (fst (zh_handleDir h w e s)) = Some e"
begin

lemma handleDirs_wraps: "map ew_entry (fst (handleDirs h w es s)) = map Some es"
proof (induction es arbitrary: s)
  case (Cons e es)
  then show ?case using wraps [of w e s] by (simp add: split_beta)
qed simp

lemma handleDirs_wrapsAt:
  assumes "handleDirs h w (map (entryOf Q) fs) s = (ws, s')" "list_all goodName Q" "list_all (goodName \<circ> fs_name) fs"
  shows "list_all2 (\<lambda>w f. wrapsAt w (Q @ [fs_name f])) ws fs"
proof -
  have "list_all2 (=) (map ew_entry ws) (map (Some \<circ> entryOf Q) fs)"
    using handleDirs_wraps [of w "map (entryOf Q) fs" s] assms(1) by (simp add: list_all2_eq)
  then have "list_all2 (\<lambda>w f. ew_entry w = Some (entryOf Q f)) ws fs"
    by (simp add: list.rel_map)
  then show ?thesis
    by (rule list.rel_mono_strong)
      (use assms(2,3) in \<open>auto simp: wrapsAt_def parentOf_def entryFile_entryOf list_all_iff\<close>)
qed

lemma walk_folder:
  assumes IH: "\<And>f. f \<in> set ch \<Longrightarrow> \<not> isFsFile f \<Longrightarrow> walks h f Q"
    and w: "wrapsAt w Q" and holds: "holdsFolder L ch Q" and Q: "list_all goodName Q"
    and ch: "\<And>f. f \<in> set ch \<Longrightarrow> goodNames f" "distinct (map fs_name ch)"
    and L: "Q \<noteq> [] \<longrightarrow> (\<forall>e \<in> set L. entryParent e \<noteq> None)"
  shows "\<exists>P. handleOneLevelDown h [w] L s = bindS (visitFolder h ch Q w) (\<lambda>_. retS (filter P L)) s \<and>
    (\<forall>e \<in> set L. P e \<or> (\<exists>S. entryParent e = parentOf (Q @ S)))"
proof -
  let ?L = "filter (\<lambda>e. entryParent e \<noteq> parentOf Q) L" and ?ds = "filter (Not \<circ> isFsFile) ch"
  have dir: "isDirectory (entryOf Q f) \<longleftrightarrow> \<not> isFsFile f" if "f \<in> set ch" for f
    using isDirectory_entryOf [OF goodNames_name [OF ch(1) [OF that]]] .
  have sorted: "filter (Not \<circ> isDirectory) (childEntries L Q) = map (entryOf Q) (filter isFsFile ch)"
    "filter isDirectory (childEntries L Q) = map (entryOf Q) ?ds"
    using holds dir by (auto simp: holdsFolder_def filter_map intro!: arg_cong [where f = "map (entryOf Q)"] filter_cong)
  have step: "handleOneLevelDown h [w] L s = bindS (visitFiles h w (map (entryOf Q) (filter isFsFile ch))) (\<lambda>_ s1.
      let (ws, s2) = handleDirs h w (map (entryOf Q) ?ds) s1 in handleOneLevelDown h ws ?L s2) s"
    unfolding handleOneLevelDown_Cons handleEntries_visitFiles [OF w L] sorted
    by (auto simp: bindS_def handleOneLevelDown_Nil split: prod.split sum.split)
  show ?thesis
  proof (cases "visitFiles h w (map (entryOf Q) (filter isFsFile ch)) s")
    case (Pair r s1)
    show ?thesis
    proof (cases r)
      case (Inl x)
      then show ?thesis using Pair by (intro exI [of _ "\<lambda>_. True"]) (simp add: step visitFolder_def bindS_def)
    next
      case (Inr u)
      obtain ws s2 where d: "handleDirs h w (map (entryOf Q) ?ds) s1 = (ws, s2)" by (rule prod.exhaust)
      have names: "list_all (goodName \<circ> fs_name) ?ds" using ch(1) goodNames_name by (auto simp: list_all_iff)
      have "\<exists>P. handleOneLevelDown h ws ?L s2 = bindS (visitSubs (map (\<lambda>f. visitNode h f Q) ?ds) ws) (\<lambda>_. retS (filter P ?L)) s2 \<and>
          (\<forall>e \<in> set ?L. P e \<or> (\<exists>n S. entryParent e = parentOf (Q @ n # S)))"
      proof (rule walk_subs)
        show "list_all2 (\<lambda>w f. wrapsAt w (Q @ [fs_name f])) ws ?ds" by (rule handleDirs_wrapsAt [OF d Q names])
        show "distinct (map fs_name ?ds)" using ch(2) by (simp add: distinct_map_filter)
        show "\<forall>e \<in> set ?L. entryParent e \<noteq> None" using L by (cases "Q = []") (auto simp: parentOf_def)
        show "holdsNode ?L f Q" if "f \<in> set ?ds" for f
          using holds that by (subst holdsNode_filter) (auto simp: holdsFolder_def)
      qed (use IH in auto)
      then obtain P where "handleOneLevelDown h ws ?L s2 = bindS (visitSubs (map (\<lambda>f. visitNode h f Q) ?ds) ws) (\<lambda>_. retS (filter P ?L)) s2"
        "\<forall>e \<in> set ?L. P e \<or> (\<exists>n S. entryParent e = parentOf (Q @ n # S))" by blast
      then show ?thesis using Pair Inr d
        by (intro exI [of _ "\<lambda>e. entryParent e \<noteq> parentOf Q \<and> P e"])
          (fastforce simp: step visitFolder_def bindS_def Let_def conj_commute simp del: parentOf_inject split: prod.splits sum.splits intro: exI [of _ "[]"])
    qed
  qed
qed

lemma walk_node: "goodNames f \<Longrightarrow> list_all goodName Q \<Longrightarrow> \<not> isFsFile f \<Longrightarrow> walks h f Q"
proof (induction f arbitrary: Q)
  case (FsDir name es)
  show ?case unfolding walks_def
  proof (intro allI impI)
    fix w :: "'t EntryWrapper" and L s
    assume a: "wrapsAt w (Q @ [fs_name (FsDir name es)])" "holdsNode L (FsDir name es) Q" "\<forall>e \<in> set L. entryParent e \<noteq> None"
    have ok: "list_all goodName (Q @ [name])" "\<And>f. f \<in> set es \<Longrightarrow> goodNames f" "distinct (map fs_name es)"
      using FsDir.prems by (auto simp: list_all_iff)
    have "\<exists>P. handleOneLevelDown h [w] L s = bindS (visitFolder h es (Q @ [name]) w) (\<lambda>_. retS (filter P L)) s \<and>
        (\<forall>e \<in> set L. P e \<or> (\<exists>S. entryParent e = parentOf ((Q @ [name]) @ S)))"
    proof (rule walk_folder)
      show "walks h f (Q @ [name])" if "f \<in> set es" "\<not> isFsFile f" for f
        by (rule FsDir.IH [OF that(1) ok(2) [OF that(1)] ok(1) that(2)])
    qed (use a ok in \<open>auto simp: holdsNode_FsDir\<close>)
    then show "\<exists>P. handleOneLevelDown h [w] L s = bindS (visitNode h (FsDir name es) Q w) (\<lambda>_. retS (filter P L)) s \<and>
        (\<forall>e \<in> set L. P e \<or> (\<exists>S. entryParent e = parentOf (Q @ fs_name (FsDir name es) # S)))"
      by (simp add: visitNode_FsDir)
  qed
qed simp

text \<open>The visit of an archive that holds a folder is the walk over the folder.\<close>

lemma visit_walks:
  assumes "holdsFolder L ch []" "list_all goodNames ch" "distinct (map fs_name ch)"
  shows "fst (visit h t L s) = bindE (fst (visitFolder h ch [] \<lparr>ew_entry = None, ew_target = t\<rparr> s)) (\<lambda>_. fst (visit h t L s)) \<and>
    snd (visit h t L s) = snd (visitFolder h ch [] \<lparr>ew_entry = None, ew_target = t\<rparr> s)"
proof -
  have "\<exists>P. visit h t L s = bindS (visitFolder h ch [] \<lparr>ew_entry = None, ew_target = t\<rparr>) (\<lambda>_. retS (filter P L)) s \<and>
      (\<forall>e \<in> set L. P e \<or> (\<exists>S. entryParent e = parentOf ([] @ S)))"
    unfolding visit_def
    by (rule walk_folder) (use assms walk_node in \<open>auto simp: wrapsAt_def parentOf_def list_all_iff\<close>)
  then show ?thesis
    by (auto simp: bindS_def split: prod.split sum.split)
qed

end

section \<open>The store of scripts\<close>

interpretation scriptZip: zip_handler "scriptHandler env url" for env url
  by unfold_locales (simp add: scriptHandler_def scriptDir_def Let_def)

interpretation folderZip: zip_handler folderHandler
  by unfold_locales (simp add: folderHandler_def folderDir_def Let_def)

definition scriptTree :: "'c ZipStore \<Rightarrow> nat \<Rightarrow> 'c SimScript" where
  "scriptTree st i = freezeAll 0 st ! i"

text \<open>A set of scripts with their sub-scripts, which are made later.\<close>

definition closedIn :: "'c ZipStore \<Rightarrow> nat set \<Rightarrow> bool" where
  "closedIn st D \<longleftrightarrow> (\<forall>j \<in> D. j < length st \<and> (\<forall>(k, c) \<in> set (zs_subScripts (st ! j)). c \<in> D \<and> j < c))"

lemma freezeAll_nth:
  "j < length st \<Longrightarrow> \<forall>(k, c) \<in> set (zs_subScripts (st ! j)). i + j < c \<Longrightarrow>
   freezeAll i st ! j = SimScript (zs_node (st ! j)) (map (\<lambda>(k, c). (k, freezeAll i st ! (c - i))) (zs_subScripts (st ! j)))"
proof (induction i st arbitrary: j rule: freezeAll.induct)
  case (2 i x st)
  have later: "freezeAll i (x # st) ! (c - i) = freezeAll (Suc i) st ! (c - Suc i)" if "i < c" for c
    by (subst Suc_diff_Suc [OF that, symmetric]) (simp add: Let_def)
  show ?case
  proof (cases j)
    case 0
    with 2(3) later show ?thesis by (auto simp: Let_def simp del: freezeAll.simps) (auto simp: Let_def)
  next
    case (Suc j')
    with 2 have "freezeAll (Suc i) st ! j' = SimScript (zs_node (st ! j'))
        (map (\<lambda>(k, c). (k, freezeAll (Suc i) st ! (c - Suc i))) (zs_subScripts (st ! j')))" by fastforce
    moreover have "freezeAll i (x # st) ! j = freezeAll (Suc i) st ! j'" using Suc by (simp add: Let_def)
    ultimately show ?thesis using Suc 2(3) later by (auto simp del: freezeAll.simps)
  qed
qed simp

lemma scriptTree_unfold:
  assumes "closedIn st D" "j \<in> D"
  shows "scriptTree st j = SimScript (zs_node (st ! j)) (map (\<lambda>(k, c). (k, scriptTree st c)) (zs_subScripts (st ! j)))"
  using assms freezeAll_nth [of j st 0] by (auto simp: closedIn_def scriptTree_def)

lemma scriptTree_frame:
  assumes "closedIn st D" "\<And>j. j \<in> D \<Longrightarrow> st' ! j = st ! j" "length st \<le> length st'" "j \<in> D"
  shows "scriptTree st' j = scriptTree st j"
  using assms(4)
proof (induction "length st - j" arbitrary: j rule: less_induct)
  case less
  have c': "closedIn st' D" using assms(1-3) by (force simp: closedIn_def)
  have "scriptTree st' c = scriptTree st c" if "(k, c) \<in> set (zs_subScripts (st ! j))" for k c
  proof (rule less.hyps)
    show "length st - c < length st - j" "c \<in> D"
      using that less.prems assms(1) by (force simp: closedIn_def)+
  qed
  then show ?case
    using assms(2) [OF less.prems]
    by (auto simp: scriptTree_unfold [OF assms(1) less.prems] scriptTree_unfold [OF c' less.prems])
qed

lemma closedIn_frame:
  "closedIn st D \<Longrightarrow> (\<And>j. j \<in> D \<Longrightarrow> st' ! j = st ! j) \<Longrightarrow> length st \<le> length st' \<Longrightarrow> closedIn st' D"
  by (force simp: closedIn_def)

lemma closedIn_Un: "closedIn st D \<Longrightarrow> closedIn st E \<Longrightarrow> closedIn st (D \<union> E)"
  by (fastforce simp: closedIn_def)

section \<open>The script handler\<close>

lemma onNode_nth [simp]: "length (onNode i g st) = length st"
  "i < length st \<Longrightarrow> onNode i g st ! i = (st ! i)\<lparr>zs_node := g (zs_node (st ! i))\<rparr>"
  "j \<noteq> i \<Longrightarrow> onNode i g st ! j = st ! j"
  by (simp_all add: onNode_def onScript_def)

lemma onNode_onNode: "i < length st \<Longrightarrow> onNode i g (onNode i k st) = onNode i (g \<circ> k) st"
  by (simp add: onNode_def onScript_def)

lemma onNode_const: "i < length st \<Longrightarrow> onNode i (\<lambda>_. g (zs_node (st ! i))) st = onNode i g st"
  by (simp add: onNode_def onScript_def)

lemma onNode_same: "i < length st \<Longrightarrow> onNode i (\<lambda>_. zs_node (st ! i)) st = st"
  by (simp add: onNode_def onScript_def)

lemma onScript_subs_node: "zs_node (onScript p (\<lambda>x. x\<lparr>zs_subScripts := g x\<rparr>) st ! j) = zs_node (st ! j)"
  by (cases "j = p"; cases "p < length st") (simp_all add: onScript_def list_update_beyond)

lemma dropIgnored_node [simp]: "zs_node (dropIgnored w st ! j) = zs_node (st ! j)"
  "length (dropIgnored w st) = length st"
  by (simp_all add: dropIgnored_def onScript_subs_node onScript_def [of _ _ st] split: option.split)
    (simp add: onScript_subs_node flip: onScript_def)

lemma visitFiles_ignored:
  "ignored (zs_node (st ! ew_target w)) \<Longrightarrow> visitFiles (scriptHandler env url) w es st = (Ret (), st)"
  by (induction es) (simp_all add: bindS_def scriptHandler_def scriptFile_def)

lemma visitFiles_script:
  assumes "visitFiles (scriptHandler env url) w (map (entryOf Q) fs) st = (Ret (), st')"
    and "\<And>f. f \<in> set fs \<Longrightarrow> isFsFile f \<and> goodName (fs_name f)" and "list_all goodName Q" and "Q \<noteq> [LIB_DIR]"
    and "ew_target w < length st" and "\<not> ignored (zs_node (st ! ew_target w))"
  shows "\<exists>n' ig. after (le_engines env) (map fileParts fs) (zs_node (st ! ew_target w)) n' ig \<and>
    st' = (if ig then dropIgnored w (onNode (ew_target w) (\<lambda>_. n') st) else onNode (ew_target w) (\<lambda>_. n') st)"
  using assms(1,2,5,6)
proof (induction fs arbitrary: st)
  case Nil
  then show ?case using after_Nil [of "le_engines env" "zs_node (st ! ew_target w)"]
    by (intro exI [of _ "zs_node (st ! ew_target w)"] exI [of _ False]) (simp add: onNode_same)
next
  case (Cons f fs)
  let ?i = "ew_target w" and ?n = "zs_node (st ! ew_target w)"
  obtain name c where f: "f = FsFile name c" "goodName name" using Cons.prems(2) [of f] by (cases f) auto
  have e: "getFileName (entryFile (entryOf Q f)) = name" "ze_content (entryOf Q f) = c"
    "getParentFile (entryFile (entryOf Q f)) \<noteq> Some (False, [LIB_DIR])"
    using f assms(4) getFileName_entryOf [OF assms(3), of f] entryFile_entryOf [OF assms(3), of f]
    by (simp_all add: getParentFile_snoc parentOf_def) (simp add: entryOf_def)
  from Cons.prems(1) obtain st1 where st1: "scriptFile env url w (entryOf Q f) st = (Ret (), st1)"
    "visitFiles (scriptHandler env url) w (map (entryOf Q) fs) st1 = (Ret (), st')"
    by (auto elim!: bindS_InrE simp: scriptHandler_def)
  have step: "\<exists>n' ig. after (le_engines env) (map fileParts (f # fs)) ?n n' ig \<and>
      st' = (if ig then dropIgnored w (onNode ?i (\<lambda>_. n') st) else onNode ?i (\<lambda>_. n') st)"
    if g: "st1 = onNode ?i g st" "\<not> ignored (g ?n)"
      and a: "\<And>n' ig. after (le_engines env) (map fileParts fs) (g ?n) n' ig \<Longrightarrow>
          after (le_engines env) (map fileParts (f # fs)) ?n n' ig" for g
  proof -
    have "\<exists>n' ig. after (le_engines env) (map fileParts fs) (zs_node (st1 ! ?i)) n' ig \<and>
        st' = (if ig then dropIgnored w (onNode ?i (\<lambda>_. n') st1) else onNode ?i (\<lambda>_. n') st1)"
      by (rule Cons.IH) (use Cons.prems g st1(2) in auto)
    then show ?thesis using Cons.prems(3) g(1) a by (fastforce simp: onNode_onNode comp_def)
  qed
  consider (init) "name = INIT_FILE" | (sim) "name \<noteq> INIT_FILE" "endsWith name SCRIPT_EXT"
    | (ign) "name \<noteq> INIT_FILE" "\<not> endsWith name SCRIPT_EXT" "endsWith name IGNORE_EXT"
    | (other) "name \<noteq> INIT_FILE" "\<not> endsWith name SCRIPT_EXT" "\<not> endsWith name IGNORE_EXT"
    by blast
  then show ?case
  proof cases
    case init
    with st1(1) e Cons.prems(4) obtain props where "st1 = onNode ?i (copyProperty (le_config env) props) st"
      by (auto simp: scriptFile_def Let_def split: sum.splits)
    then show ?thesis
      by (rule step) (use Cons.prems(4) f init after_init in \<open>auto simp: copyProperty_def\<close>)
  next
    case sim
    with st1(1) e Cons.prems(4) obtain ps where ps: "load (le_engines env) c = Ret ps" "st1 = onNode ?i (addPairs ps) st"
      by (auto simp: scriptFile_def Let_def split: sum.splits)
    show ?thesis
      by (rule step [OF ps(2)]) (use Cons.prems(4) f sim after_sim [OF ps(1)] in \<open>auto simp: addPairs_def\<close>)
  next
    case ign
    with st1(1) e Cons.prems(4) have st1': "st1 = dropIgnored w (onNode ?i (\<lambda>n. n\<lparr>ignored := True\<rparr>) st)"
      by (auto simp: scriptFile_def Let_def)
    then have "st' = st1" using st1(2) visitFiles_ignored [of st1 w env url] Cons.prems(3) by simp
    then show ?thesis using st1' f after_ignore [OF ign, of "le_engines env" c "map fileParts fs" ?n] Cons.prems(3)
      by (intro exI [of _ "?n\<lparr>ignored := True\<rparr>"] exI [of _ True]) (simp add: onNode_const [where g = "\<lambda>n. n\<lparr>ignored := True\<rparr>"])
  next
    case other
    with st1(1) e Cons.prems(4) have "st1 = onNode ?i (\<lambda>n. n) st"
      using onNode_same [OF Cons.prems(3)] by (auto simp: scriptFile_def Let_def onNode_def onScript_def split: if_splits)
    then show ?thesis
      by (rule step) (use Cons.prems(4) f other after_other in auto)
  qed
qed

text \<open>The objects of the sub-folders: new numbers, in their order.\<close>

definition addSubs :: "nat \<Rightarrow> (string \<times> nat) list \<Rightarrow> 'c ZipStore \<Rightarrow> 'c ZipStore" where
  "addSubs i ks = onScript i (\<lambda>x. x\<lparr>zs_subScripts := zs_subScripts x @ ks\<rparr>)"

lemma handleDirs_script:
  assumes "ew_target w < length st" "list_all goodName Q" "\<And>f. f \<in> set ds \<Longrightarrow> goodName (fs_name f) \<and> fs_name f \<noteq> LIB_DIR"
    and "distinct (map fs_name ds)" "set (map fs_name ds) \<inter> fst ` set (zs_subScripts (st ! ew_target w)) = {}"
  shows "handleDirs (scriptHandler env url) w (map (entryOf Q) ds) st =
    (map (\<lambda>(f, k). \<lparr>ew_entry = Some (entryOf Q f), ew_target = k\<rparr>) (zip ds [length st..<length st + length ds]),
     addSubs (ew_target w) (zip (map fs_name ds) [length st..<length st + length ds]) st @
       map (\<lambda>f. newEntryScript (le_config env) (ew_target w) (zs_node (st ! ew_target w)) (fs_name f)) ds)"
  using assms(1,3-)
proof (induction ds arbitrary: st)
  case Nil
  then show ?case by (simp add: addSubs_def onScript_def)
next
  case (Cons f ds)
  let ?i = "ew_target w"
  let ?x = "newEntryScript (le_config env) ?i (zs_node (st ! ?i)) (fs_name f)"
  let ?st1 = "addSubs ?i [(fs_name f, length st)] st @ [?x]"
  have name: "getFileName (entryFile (entryOf Q f)) = fs_name f"
    using getFileName_entryOf [OF assms(2), of f] Cons.prems(2) by simp
  have fresh: "jput (fs_name f) (length st) (zs_subScripts (st ! ?i)) = zs_subScripts (st ! ?i) @ [(fs_name f, length st)]"
    using Cons.prems(4) by (intro jput_fresh) auto
  have dir: "zh_handleDir (scriptHandler env url) w (entryOf Q f) st =
      (\<lparr>ew_entry = Some (entryOf Q f), ew_target = length st\<rparr>, ?st1)"
    using Cons.prems(2) name fresh
    by (simp add: scriptHandler_def scriptDir_def Let_def addSubs_def onScript_def)
  have i: "?st1 ! ?i = (st ! ?i)\<lparr>zs_subScripts := zs_subScripts (st ! ?i) @ [(fs_name f, length st)]\<rparr>"
    using Cons.prems(1) by (simp add: nth_append addSubs_def onScript_def)
  have len: "length ?st1 = Suc (length st)" by (simp add: addSubs_def onScript_def)
  have "handleDirs (scriptHandler env url) w (map (entryOf Q) ds) ?st1 =
    (map (\<lambda>(f, k). \<lparr>ew_entry = Some (entryOf Q f), ew_target = k\<rparr>) (zip ds [length ?st1..<length ?st1 + length ds]),
     addSubs ?i (zip (map fs_name ds) [length ?st1..<length ?st1 + length ds]) ?st1 @
       map (\<lambda>f. newEntryScript (le_config env) ?i (zs_node (?st1 ! ?i)) (fs_name f)) ds)"
    by (rule Cons.IH) (use Cons.prems len i in auto)
  moreover have "addSubs ?i ks ?st1 = addSubs ?i ((fs_name f, length st) # ks) st @ [?x]" for ks
    using Cons.prems(1) by (simp add: addSubs_def onScript_def list_update_append nth_append)
  moreover have "[length st..<length st + length (f # ds)] = length st # [length ?st1..<length ?st1 + length ds]"
    unfolding len by (simp add: upt_conv_Cons del: upt_Suc)
  ultimately show ?case using dir i len by simp
qed

text \<open>A script that has just been made.\<close>

definition freshScript :: "'c ZipScript \<Rightarrow> bool" where
  "freshScript x \<longleftrightarrow> zs_subScripts x = [] \<and> \<not> ignored (zs_node x) \<and> templatePairs (zs_node x) = []"

lemma newEntryScript_fresh: "freshScript (newEntryScript cf i n name)" "zs_parent (newEntryScript cf i n name) = Some i"
  by (simp_all add: freshScript_def newEntryScript_def newScriptNode_def setProperty_def)

text \<open>The script loaded from a folder, by whatever loader with the same engines.\<close>

definition likeFolder :: "'c LoadEnv \<Rightarrow> FsNode \<Rightarrow> 'd SimScript \<Rightarrow> bool" where
  "likeFolder env f t \<longleftrightarrow> (\<forall>c p s. newSimScript env f c p = Ret s \<longrightarrow> sameRules s t)"

text \<open>What the walk over a node does to the store, when it is not ended by an exception.\<close>

definition builds :: "'c LoadEnv \<Rightarrow> (string \<Rightarrow> unit res) \<Rightarrow> FsNode \<Rightarrow> string list \<Rightarrow> bool" where
  "builds env url f Q \<longleftrightarrow> (\<forall>w st st' p.
     ew_entry w = Some (entryOf Q f) \<longrightarrow> ew_target w < length st \<longrightarrow> zs_parent (st ! ew_target w) = Some p \<longrightarrow>
     p < ew_target w \<longrightarrow> freshScript (st ! ew_target w) \<longrightarrow>
     visitNode (scriptHandler env url) f Q w st = (Ret (), st') \<longrightarrow>
     length st \<le> length st' \<and>
     (\<forall>j < length st. j \<noteq> ew_target w \<longrightarrow> st' ! j =
        (if ignored (zs_node (st' ! ew_target w)) \<and> j = p
         then (st ! j)\<lparr>zs_subScripts := jremove (fs_name f) (zs_subScripts (st ! j))\<rparr> else st ! j)) \<and>
     closedIn st' (insert (ew_target w) {length st..<length st'}) \<and>
     likeFolder env f (scriptTree st' (ew_target w)))"

lemma buildsD:
  assumes "builds env url f Q" "ew_entry w = Some (entryOf Q f)" "ew_target w < length st"
    and "zs_parent (st ! ew_target w) = Some p" "p < ew_target w" "freshScript (st ! ew_target w)"
    and "visitNode (scriptHandler env url) f Q w st = (Ret (), st')"
  shows "length st \<le> length st'"
    and "\<And>j. j < length st \<Longrightarrow> j \<noteq> ew_target w \<Longrightarrow> st' ! j =
      (if ignored (zs_node (st' ! ew_target w)) \<and> j = p
       then (st ! j)\<lparr>zs_subScripts := jremove (fs_name f) (zs_subScripts (st ! j))\<rparr> else st ! j)"
    and "closedIn st' (insert (ew_target w) {length st..<length st'})"
    and "likeFolder env f (scriptTree st' (ew_target w))"
  using assms unfolding builds_def by blast+

lemma jremove_middle:
  "k \<notin> fst ` set xs \<Longrightarrow> k \<notin> fst ` set ys \<Longrightarrow> jremove k (xs @ (k, v) # ys) = xs @ ys"
proof -
  assume a: "k \<notin> fst ` set xs" "k \<notin> fst ` set ys"
  have "filter (\<lambda>(k', _). k \<noteq> k') zs = zs" if "k \<notin> fst ` set zs" for zs :: "('a \<times> 'b) list"
    using that by (induction zs) auto
  then show ?thesis using a by (simp add: jremove_def AList.delete_eq)
qed

lemma fst_zip_names: "fst ` set (zip (map fs_name fs) ks) \<subseteq> set (map fs_name fs)"
  by (auto dest: set_zip_leftD)

lemma visitSubs_builds:
  assumes "\<And>f. f \<in> set fs \<Longrightarrow> builds env url f Q"
    and "visitSubs (map (\<lambda>f. visitNode (scriptHandler env url) f Q) fs)
      (map (\<lambda>(f, k). \<lparr>ew_entry = Some (entryOf Q f), ew_target = k\<rparr>) (zip fs [b..<b + length fs])) st = (Ret (), st')"
    and "b + length fs \<le> length st" and "i < b"
    and "\<And>k. b \<le> k \<Longrightarrow> k < b + length fs \<Longrightarrow> freshScript (st ! k) \<and> zs_parent (st ! k) = Some i"
    and "zs_subScripts (st ! i) = pre @ zip (map fs_name fs) [b..<b + length fs]"
    and "distinct (map fs_name fs)" and "set (map fs_name fs) \<inter> fst ` set pre = {}"
  shows "length st \<le> length st' \<and>
    (\<forall>j < length st. j \<noteq> i \<longrightarrow> \<not> (b \<le> j \<and> j < b + length fs) \<longrightarrow> st' ! j = st ! j) \<and>
    st' ! i = (st ! i)\<lparr>zs_subScripts := pre @ filter (\<lambda>(n, k). \<not> ignored (zs_node (st' ! k))) (zip (map fs_name fs) [b..<b + length fs])\<rparr> \<and>
    closedIn st' ({b..<b + length fs} \<union> {length st..<length st'}) \<and>
    (\<forall>(f, k) \<in> set (zip fs [b..<b + length fs]). likeFolder env f (scriptTree st' k))"
  using assms
proof (induction fs arbitrary: b st pre)
  case Nil
  then show ?case by (simp add: closedIn_def)
next
  case (Cons f fs)
  let ?w = "\<lparr>ew_entry = Some (entryOf Q f), ew_target = b\<rparr>" and ?b = "Suc b"
  have ids: "[b..<b + length (f # fs)] = b # [?b..<?b + length fs]" by (simp add: upt_conv_Cons del: upt_Suc)
  from Cons.prems(2) obtain st1 where st1: "visitNode (scriptHandler env url) f Q ?w st = (Ret (), st1)"
    and rest: "visitSubs (map (\<lambda>f. visitNode (scriptHandler env url) f Q) fs)
      (map (\<lambda>(f, k). \<lparr>ew_entry = Some (entryOf Q f), ew_target = k\<rparr>) (zip fs [?b..<?b + length fs])) st1 = (Ret (), st')"
    unfolding ids by (auto elim!: bindS_InrE)
  define ig where "ig = ignored (zs_node (st1 ! b))"
  have st: "b < length st" "zs_parent (st ! b) = Some i" "freshScript (st ! b)"
    using Cons.prems(3) Cons.prems(5) [of b] by simp_all
  have "builds env url f Q" using Cons.prems(1) by simp
  note node = buildsD [OF this, of ?w st i st1, simplified, OF st(1,2) Cons.prems(4) st(3) st1]
  have b: "length st \<le> length st1"
    "\<And>j. j < length st \<Longrightarrow> j \<noteq> b \<Longrightarrow> st1 ! j =
      (if ig \<and> j = i then (st ! j)\<lparr>zs_subScripts := jremove (fs_name f) (zs_subScripts (st ! j))\<rparr> else st ! j)"
    "closedIn st1 (insert b {length st..<length st1})" "likeFolder env f (scriptTree st1 b)"
    using node unfolding ig_def by blast+
  define kept where "kept = (if ig then [] else [(fs_name f, b)])"
  have subs: "zs_subScripts (st1 ! i) = (pre @ kept) @ zip (map fs_name fs) [?b..<?b + length fs]"
  proof -
    have "jremove (fs_name f) (pre @ (fs_name f, b) # zip (map fs_name fs) [?b..<?b + length fs]) =
        pre @ zip (map fs_name fs) [?b..<?b + length fs]"
    proof (rule jremove_middle)
      show "fs_name f \<notin> fst ` set pre" using Cons.prems(8) by simp
      show "fs_name f \<notin> fst ` set (zip (map fs_name fs) [?b..<?b + length fs])"
        using Cons.prems(7) by (intro contra_subsetD [OF fst_zip_names]) simp
    qed
    then show ?thesis using b(2) [of i] Cons.prems(3,4,6) unfolding ids by (simp add: kept_def)
  qed
  have IH: "length st1 \<le> length st' \<and>
    (\<forall>j < length st1. j \<noteq> i \<longrightarrow> \<not> (?b \<le> j \<and> j < ?b + length fs) \<longrightarrow> st' ! j = st1 ! j) \<and>
    st' ! i = (st1 ! i)\<lparr>zs_subScripts := (pre @ kept) @ filter (\<lambda>(n, k). \<not> ignored (zs_node (st' ! k))) (zip (map fs_name fs) [?b..<?b + length fs])\<rparr> \<and>
    closedIn st' ({?b..<?b + length fs} \<union> {length st1..<length st'}) \<and>
    (\<forall>(f, k) \<in> set (zip fs [?b..<?b + length fs]). likeFolder env f (scriptTree st' k))"
  proof (rule Cons.IH [OF _ rest _ _ _ subs])
    show "set (map fs_name fs) \<inter> fst ` set (pre @ kept) = {}" using Cons.prems(7,8) by (auto simp: kept_def)
    show "freshScript (st1 ! k) \<and> zs_parent (st1 ! k) = Some i" if "?b \<le> k" "k < ?b + length fs" for k
      using Cons.prems(5) [of k] b(2) [of k] that Cons.prems(3,4) by simp
  qed (use Cons.prems b(1) in auto)
  have keep: "st' ! j = st1 ! j" if "j \<in> insert b {length st..<length st1}" for j
    using IH that Cons.prems(3,4) b(1) by auto
  have first: "likeFolder env f (scriptTree st' b)"
    using scriptTree_frame [OF b(3) keep, of b] IH b(4) by simp
  have "closedIn st' (insert b {length st..<length st1})"
    by (rule closedIn_frame [OF b(3) keep]) (use IH in auto)
  moreover have "closedIn st' ({?b..<?b + length fs} \<union> {length st1..<length st'})" using IH by blast
  ultimately have "closedIn st' (insert b {length st..<length st1} \<union> ({?b..<?b + length fs} \<union> {length st1..<length st'}))"
    by (rule closedIn_Un)
  moreover have "insert b {length st..<length st1} \<union> ({?b..<?b + length fs} \<union> {length st1..<length st'})
      = {b..<b + length (f # fs)} \<union> {length st..<length st'}"
    using b(1) IH by auto
  ultimately have closed: "closedIn st' ({b..<b + length (f # fs)} \<union> {length st..<length st'})" by simp
  have i: "(st1 ! i)\<lparr>zs_subScripts := ks\<rparr> = (st ! i)\<lparr>zs_subScripts := ks\<rparr>" for ks
    using b(2) [of i] Cons.prems(3,4) by simp
  have "st' ! i = (st ! i)\<lparr>zs_subScripts := pre @ filter (\<lambda>(n, k). \<not> ignored (zs_node (st' ! k)))
      (zip (map fs_name (f # fs)) [b..<b + length (f # fs)])\<rparr>"
    unfolding ids using IH i keep [of b] by (simp add: kept_def ig_def)
  moreover have "st' ! j = st ! j" if "j < length st" "j \<noteq> i" "\<not> (b \<le> j \<and> j < b + length (f # fs))" for j
    using IH b(1) b(2) [of j] that by auto
  moreover have "\<forall>(f, k) \<in> set (zip (f # fs) [b..<b + length (f # fs)]). likeFolder env f (scriptTree st' k)"
    unfolding ids using first IH by simp
  ultimately show ?case using closed IH b(1) by auto
qed

lemma fileRules_accepted:
  "fileRules eng (map fileParts (filter isFsFile es)) = fileRules eng (map fileParts (filter isFsFile (filter acceptsScriptFile es)))"
proof (induction es)
  case (Cons e es)
  then show ?case by (cases e) (auto simp: acceptsScriptFile_def)
qed simp

lemma loadedSubs_like:
  assumes "list_all2 (\<lambda>d k. likeFolder env d (scriptTree st k)) ds ks"
    and "\<And>d. d \<in> set ds \<Longrightarrow> fs_name d \<noteq> LIB_DIR \<and> (\<exists>t. newSimScript env d c (path @ ''/'' @ fs_name d) = Ret t)"
    and "\<And>k. k \<in> set ks \<Longrightarrow> node (scriptTree st k) = zs_node (st ! k)"
  shows "subTrees (concat (map (loadedSub (newSimScript env) c path) ds)) =
    map (\<lambda>(n, k). (n, ruleTree (scriptTree st k))) (filter (\<lambda>(n, k). \<not> ignored (zs_node (st ! k))) (zip (map fs_name ds) ks))"
  using assms
proof (induction rule: list_all2_induct)
  case (Cons d ds k ks)
  obtain t where t: "newSimScript env d c (path @ ''/'' @ fs_name d) = Ret t" using Cons.prems(1) [of d] by auto
  have "sameRules t (scriptTree st k)" using Cons.hyps(1) t by (auto simp: likeFolder_def)
  then have "subTrees (loadedSub (newSimScript env) c path d) =
      (if ignored (zs_node (st ! k)) then [] else [(fs_name d, ruleTree (scriptTree st k))])"
    using Cons.prems(1) [of d] Cons.prems(2) [of k] t by (simp add: loadedSub_def sameRules_def subTrees_def)
  then show ?case using Cons by (simp add: subTrees_def)
qed (simp add: subTrees_def)

lemma dropIgnored_other:
  "zs_parent (st ! ew_target w) \<noteq> Some j \<Longrightarrow> dropIgnored w st ! j = st ! j"
  by (auto simp: dropIgnored_def onScript_def split: option.split)

lemma dropIgnored_onNode:
  "ew_target w < length st \<Longrightarrow> j \<noteq> ew_target w \<Longrightarrow> dropIgnored w (onNode (ew_target w) g st) ! j = dropIgnored w st ! j"
  by (cases "zs_parent (st ! ew_target w)"; cases "the (zs_parent (st ! ew_target w)) < length st")
    (auto simp: dropIgnored_def onScript_def nth_list_update list_update_beyond split: option.split)

text \<open>The script a folder becomes agrees with the one its objects form.\<close>

lemma likeFolder_of_parts:
  assumes files: "after (le_engines env) (map fileParts (filter isFsFile ch)) n0 n' ig" "templatePairs n0 = []" "\<not> ignored n0"
    and dirs: "list_all2 (\<lambda>d k. likeFolder env d (scriptTree st k)) (filter (Not \<circ> isFsFile) ch) ks"
    and ks: "\<And>k. k \<in> set ks \<Longrightarrow> node (scriptTree st k) = zs_node (st ! k)"
    and ch: "\<And>d. d \<in> set ch \<Longrightarrow> \<not> isFsFile d \<Longrightarrow> fs_name d \<noteq> LIB_DIR" "distinct (map fs_name ch)"
  shows "likeFolder env (FsDir name ch) (SimScript n' (map (\<lambda>(n, k). (n, scriptTree st k))
    (filter (\<lambda>(n, k). \<not> ignored (zs_node (st ! k))) (zip (map fs_name (filter (Not \<circ> isFsFile) ch)) ks))))"
  unfolding likeFolder_def
proof (intro allI impI)
  fix c p s
  let ?ds = "filter (Not \<circ> isFsFile) ch" and ?fs = "filter isFsFile (filter acceptsScriptFile ch)"
  let ?n = "newScriptNode (le_config env) (Some c) p (le_toURI env p)"
  let ?kept = "filter (\<lambda>(n, k). \<not> ignored (zs_node (st ! k))) (zip (map fs_name ?ds) ks)"
  assume "newSimScript env (FsDir name ch) c p = Ret s"
  then have "loadEntries env True (map (\<lambda>f. (f, newSimScript env f)) ?fs
      @ map (\<lambda>f. (f, newSimScript env f)) ?ds) p ?n [] = Ret s"
    by (simp add: sortEntries_map)
  from loadEntries_after [OF this] obtain ig2 n where
    1: "after (le_engines env) (map fileParts ?fs) ?n n ig2" and
    2: "if ig2 then s = SimScript n [] else loadEntries env True (map (\<lambda>f. (f, newSimScript env f)) ?ds) p n [] = Ret s"
    by (auto simp: list_all_iff comp_def)
  have init: "templatePairs ?n = []" "\<not> ignored ?n" by (simp_all add: newScriptNode_def setProperty_def)
  have same: "ig2 = ig" "templatePairs n = templatePairs n'" "ignored n = ig" "ignored n' = ig"
    using 1 files init by (auto simp: after_def fileRules_accepted)
  show "sameRules s (SimScript n' (map (\<lambda>(n, k). (n, scriptTree st k)) ?kept))"
  proof (cases ig)
    case True
    then show ?thesis using 2 same by (simp add: sameRules_def)
  next
    case False
    have ds: "list_all (Not \<circ> isFsFile) ?ds" "distinct (map fs_name ?ds)"
      using ch(2) by (auto simp: list_all_iff distinct_map_filter)
    from 2 False same loadEntries_dirs [of env "newSimScript env" ?ds p n "[]" s, OF _ ds]
    obtain n3 where s: "s = SimScript n3 (concat (map (loadedSub (newSimScript env) (config n) p) ?ds))"
      "templatePairs n3 = templatePairs n" "ignored n3 = ignored n"
      and loaded: "\<And>d. d \<in> set ?ds \<Longrightarrow> fs_name d \<noteq> LIB_DIR \<Longrightarrow> \<exists>t. newSimScript env d (config n) (p @ ''/'' @ fs_name d) = Ret t"
      by auto
    have "subTrees (concat (map (loadedSub (newSimScript env) (config n) p) ?ds)) = map (\<lambda>(n, k). (n, ruleTree (scriptTree st k))) ?kept"
      by (rule loadedSubs_like [OF dirs _ ks]) (use loaded ch(1) in auto)
    then show ?thesis
      using s same False unfolding sameRules_def
      by (simp add: ruleTree_subTrees del: ruleTree.simps) (simp add: subTrees_def case_prod_unfold map_prod_def comp_def)
  qed
qed

primrec loadableNode :: "FsNode \<Rightarrow> bool" where
  "loadableNode (FsFile name content) = goodName name"
| "loadableNode (FsDir name children) =
    (goodName name \<and> name \<noteq> LIB_DIR \<and> distinct (map fs_name children) \<and> list_all (\<lambda>ok. ok) (map loadableNode children))"

lemma loadable_goodNames: "loadableNode f \<Longrightarrow> goodNames f"
  by (induction f) (auto simp: list_all_iff)

lemma loadable_name: "loadableNode f \<Longrightarrow> goodName (fs_name f) \<and> (isFsFile f \<or> fs_name f \<noteq> LIB_DIR)"
  by (cases f) auto

lemma visitFolder_builds:
  assumes IH: "\<And>f. f \<in> set ch \<Longrightarrow> \<not> isFsFile f \<Longrightarrow> builds env url f Q"
    and run: "visitFolder (scriptHandler env url) ch Q w st = (Ret (), st')"
    and Q: "list_all goodName Q" "Q \<noteq> [LIB_DIR]"
    and ch: "\<And>f. f \<in> set ch \<Longrightarrow> loadableNode f" "distinct (map fs_name ch)"
    and i: "ew_target w < length st" "freshScript (st ! ew_target w)" "zs_parent (st ! ew_target w) \<noteq> Some (ew_target w)"
  shows "length st \<le> length st' \<and>
    (\<forall>j < length st. j \<noteq> ew_target w \<longrightarrow> st' ! j = (if ignored (zs_node (st' ! ew_target w)) then dropIgnored w st ! j else st ! j)) \<and>
    closedIn st' (insert (ew_target w) {length st..<length st'}) \<and>
    likeFolder env (FsDir name ch) (scriptTree st' (ew_target w))"
proof -
  let ?i = "ew_target w" and ?ds = "filter (Not \<circ> isFsFile) ch" and ?n = "length st"
  let ?ids = "[?n..<?n + length ?ds]"
  from run obtain st1 ws st2 where files: "visitFiles (scriptHandler env url) w (map (entryOf Q) (filter isFsFile ch)) st = (Ret (), st1)"
    and dirs: "handleDirs (scriptHandler env url) w (map (entryOf Q) ?ds) st1 = (ws, st2)"
    and subs: "visitSubs (map (\<lambda>f. visitNode (scriptHandler env url) f Q) ?ds) ws st2 = (Ret (), st')"
    by (auto simp: visitFolder_def Let_def elim!: bindS_InrE split: prod.splits)
  have "\<exists>n' ig. after (le_engines env) (map fileParts (filter isFsFile ch)) (zs_node (st ! ?i)) n' ig \<and>
    st1 = (if ig then dropIgnored w (onNode ?i (\<lambda>_. n') st) else onNode ?i (\<lambda>_. n') st)"
    by (rule visitFiles_script [OF files _ Q i(1)]) (use ch loadable_name i(2) in \<open>auto simp: freshScript_def\<close>)
  then obtain n' ig where a: "after (le_engines env) (map fileParts (filter isFsFile ch)) (zs_node (st ! ?i)) n' ig"
    and st1: "st1 = (if ig then dropIgnored w (onNode ?i (\<lambda>_. n') st) else onNode ?i (\<lambda>_. n') st)" by blast
  have len1: "length st1 = ?n" by (simp add: st1)
  have i1: "st1 ! ?i = (st ! ?i)\<lparr>zs_node := n'\<rparr>"
    using i by (simp add: st1 dropIgnored_other)
  have j1: "st1 ! j = (if ig then dropIgnored w st ! j else st ! j)" if "j \<noteq> ?i" for j
    using that i(1) by (simp add: st1 dropIgnored_onNode)
  have ig: "ignored n' = ig" using a i(2) by (simp add: after_def freshScript_def)
  have ds: "distinct (map fs_name ?ds)" "\<And>f. f \<in> set ?ds \<Longrightarrow> goodName (fs_name f) \<and> fs_name f \<noteq> LIB_DIR"
    using ch loadable_name by (auto simp: distinct_map_filter)
  have subs1: "zs_subScripts (st1 ! ?i) = []" using i1 i(2) by (simp add: freshScript_def)
  define st2' where "st2' = addSubs ?i (zip (map fs_name ?ds) ?ids) st1 @
      map (\<lambda>f. newEntryScript (le_config env) ?i (zs_node (st1 ! ?i)) (fs_name f)) ?ds"
  have two: "ws = map (\<lambda>(f, k). \<lparr>ew_entry = Some (entryOf Q f), ew_target = k\<rparr>) (zip ?ds ?ids)" "st2 = st2'"
    using handleDirs_script [of w st1 Q ?ds env url] dirs i(1) Q(1) ds subs1 by (simp_all add: len1 st2'_def)
  have len2: "length st2' = ?n + length ?ds" by (simp add: st2'_def addSubs_def onScript_def len1)
  have i2: "st2' ! ?i = (st1 ! ?i)\<lparr>zs_subScripts := zip (map fs_name ?ds) ?ids\<rparr>"
    using i(1) subs1 by (simp add: st2'_def addSubs_def onScript_def nth_append len1)
  have j2: "st2' ! j = st1 ! j" if "j < ?n" "j \<noteq> ?i" for j
    using that by (simp add: st2'_def addSubs_def onScript_def nth_append len1)
  have new: "freshScript (st2' ! k) \<and> zs_parent (st2' ! k) = Some ?i" if "?n \<le> k" "k < ?n + length ?ds" for k
    using that by (simp add: st2'_def addSubs_def onScript_def nth_append len1 newEntryScript_fresh)
  have S: "length st2' \<le> length st' \<and>
    (\<forall>j < length st2'. j \<noteq> ?i \<longrightarrow> \<not> (?n \<le> j \<and> j < ?n + length ?ds) \<longrightarrow> st' ! j = st2' ! j) \<and>
    st' ! ?i = (st2' ! ?i)\<lparr>zs_subScripts := [] @ filter (\<lambda>(n, k). \<not> ignored (zs_node (st' ! k))) (zip (map fs_name ?ds) ?ids)\<rparr> \<and>
    closedIn st' ({?n..<?n + length ?ds} \<union> {length st2'..<length st'}) \<and>
    (\<forall>(f, k) \<in> set (zip ?ds ?ids). likeFolder env f (scriptTree st' k))"
  proof (rule visitSubs_builds)
    show "visitSubs (map (\<lambda>f. visitNode (scriptHandler env url) f Q) ?ds)
      (map (\<lambda>(f, k). \<lparr>ew_entry = Some (entryOf Q f), ew_target = k\<rparr>) (zip ?ds ?ids)) st2' = (Ret (), st')"
      using subs two by simp
  qed (use IH i(1) ds new i2 len2 in auto)
  let ?kept = "filter (\<lambda>(n, k). \<not> ignored (zs_node (st' ! k))) (zip (map fs_name ?ds) ?ids)"
  have i': "st' ! ?i = (st ! ?i)\<lparr>zs_node := n', zs_subScripts := ?kept\<rparr>" using S i1 i2 by simp
  have ids: "{?n..<?n + length ?ds} \<union> {length st2'..<length st'} = {?n..<length st'}"
    using S len2 by auto
  then have closed1: "closedIn st' {?n..<length st'}" using S by simp
  have closed: "closedIn st' (insert ?i {?n..<length st'})"
    unfolding closedIn_def
  proof
    fix j assume "j \<in> insert ?i {?n..<length st'}"
    then consider "j = ?i" | "j \<in> {?n..<length st'}" by blast
    then show "j < length st' \<and> (\<forall>(k, c) \<in> set (zs_subScripts (st' ! j)). c \<in> insert ?i {?n..<length st'} \<and> j < c)"
    proof cases
      case 1
      then show ?thesis using i' i(1) S len2 by (fastforce dest: set_zip_rightD)
    next
      case 2
      then show ?thesis using closed1 unfolding closedIn_def by blast
    qed
  qed
  have trees: "list_all2 (\<lambda>d k. likeFolder env d (scriptTree st' k)) ?ds ?ids"
    using S by (simp add: list_all2_iff)
  have nodes: "node (scriptTree st' k) = zs_node (st' ! k)" if "k \<in> set ?ids" for k
  proof -
    have "k \<in> insert ?i {?n..<length st'}" using that S len2 by auto
    then show ?thesis using scriptTree_unfold [OF closed] by simp
  qed
  have "likeFolder env (FsDir name ch) (SimScript n' (map (\<lambda>(n, k). (n, scriptTree st' k)) ?kept))"
    by (rule likeFolder_of_parts [OF a _ _ trees nodes]) (use i(2) ch loadable_name in \<open>auto simp: freshScript_def\<close>)
  moreover have "scriptTree st' ?i = SimScript n' (map (\<lambda>(n, k). (n, scriptTree st' k)) ?kept)"
    using scriptTree_unfold [OF closed] i' by simp
  ultimately have "likeFolder env (FsDir name ch) (scriptTree st' ?i)" by simp
  moreover have "st' ! j = (if ignored (zs_node (st' ! ?i)) then dropIgnored w st ! j else st ! j)" if "j < ?n" "j \<noteq> ?i" for j
  proof -
    have "ignored (zs_node (st' ! ?i)) = ig" using i' ig by simp
    moreover have "st' ! j = st1 ! j" using that S j2 len2 by auto
    ultimately show ?thesis using j1 that by simp
  qed
  ultimately show ?thesis using closed S len2 by auto
qed

lemma visitNode_builds: "loadableNode f \<Longrightarrow> list_all goodName Q \<Longrightarrow> \<not> isFsFile f \<Longrightarrow> builds env url f Q"
proof (induction f arbitrary: Q)
  case (FsDir name es)
  show ?case unfolding builds_def
  proof (intro allI impI)
    fix w :: "nat EntryWrapper" and st st' :: "'a ZipStore" and p
    let ?i = "ew_target w"
    assume w: "ew_entry w = Some (entryOf Q (FsDir name es))" "?i < length st" "zs_parent (st ! ?i) = Some p" "p < ?i"
      "freshScript (st ! ?i)" "visitNode (scriptHandler env url) (FsDir name es) Q w st = (Ret (), st')"
    have ok: "list_all goodName (Q @ [name])" "Q @ [name] \<noteq> [LIB_DIR]" "\<And>f. f \<in> set es \<Longrightarrow> loadableNode f" "distinct (map fs_name es)"
      using FsDir.prems by (auto simp: list_all_iff)
    have "length st \<le> length st' \<and>
      (\<forall>j < length st. j \<noteq> ?i \<longrightarrow> st' ! j = (if ignored (zs_node (st' ! ?i)) then dropIgnored w st ! j else st ! j)) \<and>
      closedIn st' (insert ?i {length st..<length st'}) \<and> likeFolder env (FsDir name es) (scriptTree st' ?i)"
    proof (rule visitFolder_builds [OF _ _ ok w(2,5)])
      show "builds env url f (Q @ [name])" if "f \<in> set es" "\<not> isFsFile f" for f
        by (rule FsDir.IH [OF that(1) ok(3) [OF that(1)] ok(1) that(2)])
    qed (use w in \<open>auto simp: visitNode_FsDir\<close>)
    moreover have "dropIgnored w st ! j = (if j = p then (st ! j)\<lparr>zs_subScripts := jremove name (zs_subScripts (st ! j))\<rparr> else st ! j)" for j
      using w(1,3,4) w(2) FsDir.prems getFileName_entryOf [of Q "FsDir name es"]
      by (auto simp: dropIgnored_def onScript_def)
    ultimately show "length st \<le> length st' \<and>
      (\<forall>j < length st. j \<noteq> ?i \<longrightarrow> st' ! j = (if ignored (zs_node (st' ! ?i)) \<and> j = p
         then (st ! j)\<lparr>zs_subScripts := jremove (fs_name (FsDir name es)) (zs_subScripts (st ! j))\<rparr> else st ! j)) \<and>
      closedIn st' (insert ?i {length st..<length st'}) \<and> likeFolder env (FsDir name es) (scriptTree st' ?i)"
      by auto
  qed
qed simp

section \<open>Archives are folders\<close>


text \<open>An archive whose entries are mixed, with a stray file in a folder that has no entry.\<close>

definition archivedFolder :: "FsNode list" where
  "archivedFolder =
    [FsDir ''b'' [FsFile ''c.sim'' sampleRule, FsFile ''x.txt'' ''x''],
     FsFile ''init.properties'' ''simulator.name=x'',
     FsDir ''d'' [FsFile ''no.ignore'' [], FsFile ''z.sim'' ''GET'', FsDir ''e'' [FsFile ''f.sim'' sampleRule]],
     FsFile ''a.sim'' sampleRule]"

definition mixedArchive :: "ZipEntry list" where
  "mixedArchive =
    [\<lparr>ze_name = ''b/c.sim'', ze_content = sampleRule\<rparr>, \<lparr>ze_name = ''b/'', ze_content = []\<rparr>,
     \<lparr>ze_name = ''init.properties'', ze_content = ''simulator.name=x''\<rparr>, \<lparr>ze_name = ''q/stray.sim'', ze_content = ''GET''\<rparr>,
     \<lparr>ze_name = ''d/no.ignore'', ze_content = []\<rparr>, \<lparr>ze_name = ''d/'', ze_content = []\<rparr>,
     \<lparr>ze_name = ''a.sim'', ze_content = sampleRule\<rparr>, \<lparr>ze_name = ''d/z.sim'', ze_content = ''GET''\<rparr>,
     \<lparr>ze_name = ''d/e/f.sim'', ze_content = sampleRule\<rparr>, \<lparr>ze_name = ''d/e/'', ze_content = []\<rparr>,
     \<lparr>ze_name = ''b/x.txt'', ze_content = ''x''\<rparr>]"


end
