(* ===== verification/Manager.thy ===== *)
theory Manager
  imports Zip Lifecycle "HOL-Library.List_Lexorder" "HOL-Library.Char_ord"
begin

text \<open>
  The package \<open>manager\<close>: what the management page is told about the simulators and their scripts,
  and its operations on the repository.
\<close>

section \<open>Rules\<close>

record RequestTemplateInfo =
  ri_headers :: "string list"
  ri_body :: "string option"
  ri_topLine :: string

text \<open>\<open>toString\<close> of a template is the text it was made from.\<close>

fun showTop :: "TopTemplate \<Rightarrow> string" where
  "showTop (PlainTop t) = templateContent t"
| "showTop (RegexTop p) = ''/'' @ p @ ''/''"

definition newRequestTemplateInfo :: "SimRequestTemplate \<Rightarrow> RequestTemplateInfo res" where
  "newRequestTemplateInfo t =
    (case topLineTemplate t of
       None \<Rightarrow> Raise NullPointerException
     | Some top_line \<Rightarrow> Ret
         \<lparr>ri_headers = map (headerItemToString \<circ> snd) (headerTemplates t) @ map (headerItemToString \<circ> snd) (extraHeader t),
          ri_body = bodyContent t, ri_topLine = showTop top_line\<rparr>)"

record ResponseTemplateInfo =
  rti_headers :: "string list"
  rti_body :: string
  rti_code :: int

definition newResponseTemplateInfo :: "SimResponseTemplate \<Rightarrow> ResponseTemplateInfo" where
  "newResponseTemplateInfo t =
    \<lparr>rti_headers = map (\<lambda>(k, v). k @ '': '' @ v) (rt_headers t), rti_body = rt_body t, rti_code = rt_code t\<rparr>"

record TemplatePairInfo =
  ti_request :: RequestTemplateInfo
  ti_responses :: "ResponseTemplateInfo list"

definition newTemplatePairInfo :: "TemplatePair \<Rightarrow> TemplatePairInfo res" where
  "newTemplatePairInfo p =
    bindE (newRequestTemplateInfo (tp_req p)) (\<lambda>req.
      Ret \<lparr>ti_request = req, ti_responses = map newResponseTemplateInfo (tp_resps p)\<rparr>)"

section \<open>Properties\<close>

text \<open>\<open>Properties.setProperty\<close> takes no \<open>null\<close>.\<close>

definition propertyOf :: "'c ConfigOps \<Rightarrow> 'c \<Rightarrow> string \<Rightarrow> (string \<times> string) res" where
  "propertyOf cf c key = (case cf_get cf c key of None \<Rightarrow> Raise NullPointerException | Some v \<Rightarrow> Ret (key, v))"

definition getConfigAsProperties :: "'c ConfigOps \<Rightarrow> 'c ScriptNode \<Rightarrow> (string, string) jmap res" where
  "getConfigAsProperties cf n =
    bindE (mapE (propertyOf cf (config n)) (cf_keys cf (config n))) (\<lambda>ps. Ret (jputAll [] ps))"

text \<open>
  \<open>rawString\<close> is \<open>getProperty\<close> of the library, without interpolation, for a value that is a string;
  the URL of a folder is a \<open>URI\<close> object.
\<close>

definition getLocalConfigAsRawProperties ::
  "'c ConfigOps \<Rightarrow> ('c \<Rightarrow> string \<Rightarrow> string option) \<Rightarrow> 'c ScriptNode \<Rightarrow> (string, string) jmap" where
  "getLocalConfigAsRawProperties cf rawString n =
    jputAll [] (concat (map (\<lambda>key. case rawString (localConfig n) key of None \<Rightarrow> [] | Some v \<Rightarrow> [(key, v)])
      (cf_keys cf (localConfig n))))"

section \<open>Scripts\<close>

datatype ScriptInfo =
  ScriptInfo (info_name: string) (info_props: "(string, string) jmap") (info_subScripts: "ScriptInfo list")
    (info_templatePairs: "TemplatePairInfo list")

text \<open>\<open>parents\<close> are the ancestors of the script, nearest first.\<close>

primrec newScriptInfo :: "'c ConfigOps \<Rightarrow> ('c \<Rightarrow> string \<Rightarrow> string option) \<Rightarrow> bool \<Rightarrow> 'c SimScript
    \<Rightarrow> 'c ScriptNode list \<Rightarrow> string \<Rightarrow> ScriptInfo res" where
  "newScriptInfo cf rawString raw (SimScript n subs) = (\<lambda>parents name.
     bindE (if raw then Ret (getLocalConfigAsRawProperties cf rawString n) else getConfigAsProperties cf n) (\<lambda>props.
     bindE (mapE (\<lambda>(key, info). info (n # parents) key) (map (map_prod id (newScriptInfo cf rawString raw)) subs)) (\<lambda>infos.
     bindE (mapE newTemplatePairInfo (if raw then templatePairs n else getEffectiveTemplatePairs parents n)) (\<lambda>pairs.
       Ret (ScriptInfo name props infos pairs)))))"

record SimulatorDetail =
  sd_name :: "string option"
  sd_type :: string
  sd_scriptInfo :: ScriptInfo

definition newScriptDetail :: "'c ConfigOps \<Rightarrow> ('c \<Rightarrow> string \<Rightarrow> string option) \<Rightarrow> bool \<Rightarrow> 'c ScriptNode list
    \<Rightarrow> 'c SimScript \<Rightarrow> SimulatorDetail res" where
  "newScriptDetail cf rawString raw parents script =
    bindE (newScriptInfo cf rawString raw script parents ''root'') (\<lambda>info.
      Ret \<lparr>sd_name = getSimulatorName cf (node script), sd_type = ''UNKNOWN'', sd_scriptInfo = info\<rparr>)"

section \<open>Status\<close>

text \<open>\<open>int\<close> and \<open>long\<close> of Java are words of 32 and 64 bits, read with their sign.\<close>

record SimulatorStatus =
  ss_name :: string
  ss_type :: string
  ss_status :: string
  ss_runningURL :: "string option"
  ss_successful :: "32 word"
  ss_failed :: "32 word"
  ss_startTime :: "string option"
  ss_startTimeInMillSec :: int
  ss_duration :: int

definition getTotalMessages :: "SimulatorStatus \<Rightarrow> 32 word" where
  "getTotalMessages st = ss_successful st + ss_failed st"

text \<open>What a simulator object holds besides the fields of the life cycle: its class and its script.\<close>

record ('w, 'c) SimObject =
  so_type :: "'w Sim \<Rightarrow> string"
  so_script :: "'w Sim \<Rightarrow> 'c SimScript"
  so_parents :: "'w Sim \<Rightarrow> 'c ScriptNode list"

text \<open>\<open>formatDate\<close> is \<open>SimpleDateFormat\<close>; the counter of the simulator's name may be missing.\<close>

definition newSimulatorStatus :: "(int \<Rightarrow> string) \<Rightarrow> ('w, 'c) SimObject \<Rightarrow> 'u MonitorWorld \<Rightarrow> 'w Sim \<Rightarrow> SimulatorStatus" where
  "newSimulatorStatus formatDate so mw s =
    (let st = \<lparr>ss_name = sim_name s, ss_type = so_type so s,
        ss_status = (if sim_running s then ''running'' else ''stopped''), ss_runningURL = getRunningURL s,
        ss_successful = 0, ss_failed = 0, ss_startTime = None, ss_startTimeInMillSec = 0, ss_duration = 0\<rparr> in
     case jget (mw_counters mw) (sim_name s) of
       Some c \<Rightarrow>
         if sim_running s then
           st\<lparr>ss_startTimeInMillSec := c_startTime c, ss_startTime := Some (formatDate (c_startTime c)),
              ss_duration := getDuration (mw_now mw) c, ss_failed := c_failed c, ss_successful := c_successful c\<rparr>
         else st
     | None \<Rightarrow> st)"

text \<open>
  \<open>toUpperCase\<close> is a parameter. The comparator orders strings character by character, as the
  library order on lists does, and \<open>List.sort\<close> is stable.
\<close>

definition getAllSimulatorStatus :: "(string \<Rightarrow> string) \<Rightarrow> (int \<Rightarrow> string) \<Rightarrow> ('w, 'c) SimObject
    \<Rightarrow> 'w simMap \<Rightarrow> ('w, 'u) LifeWorld \<Rightarrow> SimulatorStatus list" where
  "getAllSimulatorStatus toUpperCase formatDate so m w =
    sort_key (\<lambda>st. toUpperCase (ss_name st))
      (map (newSimulatorStatus formatDate so (lw_monitor w)) (getAllSimulators m))"

section \<open>The manager\<close>

text \<open>\<open>SimulatorDetail(SimSimulator, boolean)\<close>\<close>

definition getSimulatorInfo :: "'c ConfigOps \<Rightarrow> ('c \<Rightarrow> string \<Rightarrow> string option) \<Rightarrow> ('w, 'c) SimObject \<Rightarrow> string \<Rightarrow> bool
    \<Rightarrow> 'w simMap \<Rightarrow> SimulatorDetail res" where
  "getSimulatorInfo cf rawString so name raw m =
    bindE (getSimulator name m) (\<lambda>s.
    bindE (newScriptDetail cf rawString raw (so_parents so s) (so_script so s)) (\<lambda>detail.
      Ret (detail\<lparr>sd_type := so_type so s\<rparr>)))"

text \<open>A \<open>null\<close> URL is printed as such.\<close>

definition showURL :: "string option \<Rightarrow> string" where
  "showURL url = (case url of None \<Rightarrow> ''null'' | Some u \<Rightarrow> u)"

definition runningMessage :: "string \<Rightarrow> 'w Sim \<Rightarrow> string" where
  "runningMessage name s = ''Simulator ['' @ name @ ''] is running at '' @ showURL (getRunningURL s)"

fun onResult :: "('a \<Rightarrow> 'b) \<Rightarrow> ('a, 'w, 'u) repStep \<Rightarrow> ('b, 'w, 'u) repStep" where
  "onResult f (r, m, w) = (bindE r (\<lambda>x. Ret (f x)), m, w)"

definition managerStart :: "('w, 'u) Users \<Rightarrow> string \<Rightarrow> 'w simMap \<Rightarrow> ('w, 'u) LifeWorld \<Rightarrow> (string, 'w, 'u) repStep" where
  "managerStart us name m w = onResult (runningMessage name) (startSimulator us name m w)"

definition managerStop :: "('w, 'u) Users \<Rightarrow> string \<Rightarrow> 'w simMap \<Rightarrow> ('w, 'u) LifeWorld \<Rightarrow> (string, 'w, 'u) repStep" where
  "managerStop us name m w =
    onResult (\<lambda>_. ''Simulator ['' @ name @ ''] is stopped '') (stopSimulator us name m w)"

definition managerRestart :: "('w, 'u) Users \<Rightarrow> 'w RepScript list res \<Rightarrow> string \<Rightarrow> 'w simMap \<Rightarrow> ('w, 'u) LifeWorld
    \<Rightarrow> (string, 'w, 'u) repStep" where
  "managerRestart us loaded name m w = onResult (runningMessage name) (restartSimulator us loaded name m w)"

text \<open>
  The script folder and its path. \<open>getSimulatorScript(null)\<close> loads the root of the scripts again.
  The path of a script made from a sent folder is the text of its parent object, \<open>self\<close>, and the name.
\<close>

record ScriptDir =
  dir_path :: string
  dir_files :: "FsNode list"

definition getSimulatorScript :: "'c LoadEnv \<Rightarrow> ScriptDir \<Rightarrow> ('w, 'c) SimObject \<Rightarrow> string option \<Rightarrow> 'w simMap
    \<Rightarrow> 'c SimScript res" where
  "getSimulatorScript env dir so name m =
    bindE (newRootScript env (dir_files dir) (dir_path dir)) (\<lambda>root.
      case name of
        None \<Rightarrow> Ret root
      | Some n \<Rightarrow>
          (case jget m n of
             None \<Rightarrow> Raise (noSuchSimulator n)
           | Some s \<Rightarrow> Ret (so_script so s)))"

definition evaluateSimulatorStructure :: "'c LoadEnv \<Rightarrow> ('c \<Rightarrow> string \<Rightarrow> string option) \<Rightarrow> ScriptDir \<Rightarrow> ('w, 'c) SimObject
    \<Rightarrow> string \<Rightarrow> SimulatorFolder \<Rightarrow> bool \<Rightarrow> 'w simMap \<Rightarrow> SimulatorDetail res" where
  "evaluateSimulatorStructure env rawString dir so self folder raw m =
    bindE (getSimulatorScript env dir so None m) (\<lambda>root.
    bindE (newFolderScript env folder (config (node root)) (self @ sf_name folder)) (\<lambda>script.
      newScriptDetail (le_config env) rawString raw [node root] script))"

text \<open>\<open>files\<close> gives what is at the path of a script, or nothing when it has gone.\<close>

definition getSimulatorStructure :: "'c LoadEnv \<Rightarrow> (string \<Rightarrow> ZipEntry list res) \<Rightarrow> (string \<Rightarrow> FsNode option) \<Rightarrow> ScriptDir
    \<Rightarrow> ('w, 'c) SimObject \<Rightarrow> string option \<Rightarrow> 'w simMap \<Rightarrow> SimulatorFolder res" where
  "getSimulatorStructure env openZip files dir so name m =
    bindE (getSimulatorScript env dir so name m) (\<lambda>script.
      case myself (node script) of
        None \<Rightarrow> Raise NullPointerException
      | Some path \<Rightarrow>
          (case files path of
             None \<Rightarrow> Raise NullPointerException
           | Some f \<Rightarrow> newScriptFolder openZip f script))"

end
