(* ===== verification/ManagerSpec.thy ===== *)
theory ManagerSpec
  imports Manager LoaderSpec
begin

text \<open>
  The manager: the structure of a loaded script can be sent back and loaded with the same rules, and
  the list of the simulators is complete and in order.
\<close>

section \<open>Files\<close>

text \<open>The files of the structure are the files that were loaded, when no ignore file was among them.\<close>

lemma fileRules_structure:
  "fileRules eng (map fileParts (filter isFsFile (filter acceptsScriptFile es))) = Ret (ps, False) \<Longrightarrow>
   fileRules eng (concat (map structureFile es)) = Ret (ps, False)"
proof (induction es arbitrary: ps)
  case (Cons e es)
  show ?case
  proof (cases e)
    case (FsFile name c)
    with Cons show ?thesis
      by (auto simp: acceptsScriptFile_def acceptsStructureFile_def load_loadContent bindE_Inr_conv split: if_splits)
  qed (use Cons in \<open>simp add: acceptsScriptFile_def\<close>)
qed simp

text \<open>The init files of the folder, which both loaders read.\<close>

definition initFiles :: "FsNode list \<Rightarrow> string set" where
  "initFiles es = {content. FsFile INIT_FILE content \<in> set es}"

lemma loadEntries_reads:
  "loadEntries env sub (fs @ ds) path n subs = Ret s \<Longrightarrow> list_all (isFsFile \<circ> fst) fs \<Longrightarrow>
   \<not> ignored (node s) \<Longrightarrow> content \<in> initFiles (map fst fs) \<Longrightarrow> \<exists>c. cf_read (le_config env) content = Ret c"
proof (induction fs arbitrary: n)
  case (Cons f fs)
  obtain name t ld where f: "f = (FsFile name t, ld)"
    using Cons.prems(2) by (cases f; cases "fst f") auto
  have IH: "loadEntries env sub (fs @ ds) path n' subs = Ret s \<Longrightarrow> content \<in> initFiles (map fst fs) \<Longrightarrow> ?case" for n'
    using Cons.IH Cons.prems(2,3) by simp
  have c: "name = INIT_FILE \<and> content = t \<or> content \<in> initFiles (map fst fs)"
    using Cons.prems(4) f by (auto simp: initFiles_def)
  show ?case
    using Cons.prems(1,3) c unfolding f
    by (auto elim!: bindE_InrE split: if_splits intro: IH)
qed (simp add: initFiles_def)

lemma loadFolderFiles_returns:
  "fileRules (le_engines env) fs = Ret (ps, ig) \<Longrightarrow>
   (\<And>content. (INIT_FILE, content) \<in> set fs \<Longrightarrow> \<exists>c. cf_props (le_config env) content = Ret c) \<Longrightarrow>
   \<exists>n'. loadFolderFiles env fs n = Ret n'"
proof (induction fs arbitrary: n ps)
  case (Cons f fs)
  obtain name t where f: "f = (name, t)" by (cases f)
  have IH: "fileRules (le_engines env) fs = Ret (qs, ig) \<Longrightarrow> \<exists>n'. loadFolderFiles env fs n = Ret n'" for n qs
    using Cons.IH Cons.prems(2) by simp
  show ?case
    using Cons.prems IH unfolding f
    by (auto simp: bindE_Inr_conv split: if_splits) (metis bindE.simps(2))+
qed simp

section \<open>Sub-folders\<close>

text \<open>The sub-folders of the structure are those of the loaded sub-scripts.\<close>

lemma directoryFolder_subs:
  assumes "distinct (map fs_name (filter (Not \<circ> isFsFile) es))"
    and "subScripts s = concat (map (loadedSub ld c path) (filter (Not \<circ> isFsFile) es))"
  shows "sf_subFolders (directoryFolder (FsDir name es) s) =
    concat (map (\<lambda>d. map (\<lambda>(k, t). directoryFolder d t) (loadedSub ld c path d)) (filter (Not \<circ> isFsFile) es))"
proof -
  let ?g = "\<lambda>d. case jget (subScripts s) (fs_name d) of None \<Rightarrow> [] | Some t \<Rightarrow> [directoryFolder d t]"
  have "?g d = map (\<lambda>(k, t). directoryFolder d t) (loadedSub ld c path d)" if "d \<in> set (filter (Not \<circ> isFsFile) es)" for d
    unfolding assms(2) jget_loadedSub [OF that assms(1)]
    by (cases ld c path d rule: loadedSub_cases) (auto simp: jget_def)
  then have eq: "concat (map ?g (filter (Not \<circ> isFsFile) es)) =
      concat (map (\<lambda>d. map (\<lambda>(k, t). directoryFolder d t) (loadedSub ld c path d)) (filter (Not \<circ> isFsFile) es))"
    by (intro arg_cong [where f = concat] map_cong) auto
  have "concat (map (\<lambda>f. if isFsFile f then [] else ?g f) xs) = concat (map ?g (filter (Not \<circ> isFsFile) xs))" for xs
    by (induction xs) auto
  then show ?thesis using eq by (simp add: comp_def)
qed

text \<open>No two entries of a folder have the same name.\<close>

primrec distinctNames :: "FsNode \<Rightarrow> bool" where
  "distinctNames (FsFile name content) = True"
| "distinctNames (FsDir name children) =
    (distinct (map fs_name children) \<and> list_all (\<lambda>ok. ok) (map distinctNames children))"

lemma sf_name_directoryFolder: "sf_name (directoryFolder d t) = fs_name d"
  by (cases d) auto

text \<open>Loading the folders of the sub-scripts again, \<open>ls d\<close> being what the folder \<open>d\<close> gave.\<close>

lemma reload_subs:
  assumes "\<And>d. d \<in> set ds \<Longrightarrow> ls d = [] \<or> (\<exists>t. ls d = [(fs_name d, t)] \<and>
      (\<forall>c p. \<exists>t'. newFolderScript env (directoryFolder d t) c p = Ret t' \<and> \<not> ignored (node t') \<and> ruleTree t' = ruleTree t))"
    and "distinct (map fs_name ds)" and "set (map fs_name ds) \<inter> fst ` set subs = {}"
  shows "\<exists>subs'. loadSubFolders (map (\<lambda>f. (sf_name f, newFolderScript env f))
        (concat (map (\<lambda>d. map (\<lambda>(k, t). directoryFolder d t) (ls d)) ds))) path n subs
      = Ret (SimScript n (subs @ subs')) \<and> subTrees subs' = subTrees (concat (map ls ds))"
  using assms
proof (induction ds arbitrary: subs)
  case (Cons d ds)
  note IH = Cons.IH [OF Cons.prems(1)]
  from Cons.prems(1) [of d] consider (none) "ls d = []"
    | (one) t where "ls d = [(fs_name d, t)]" "\<And>c p. \<exists>t'. newFolderScript env (directoryFolder d t) c p = Ret t' \<and>
        \<not> ignored (node t') \<and> ruleTree t' = ruleTree t"
    by auto
  then show ?case
  proof cases
    case none
    then show ?thesis using IH [of subs] Cons.prems(2,3) by simp
  next
    case one
    from one(2) obtain t' where t': "newFolderScript env (directoryFolder d t) (config n) (path @ fs_name d) = Ret t'"
      "\<not> ignored (node t')" "ruleTree t' = ruleTree t" by blast
    have new: "jput (fs_name d) t' subs = subs @ [(fs_name d, t')]"
      using Cons.prems(3) by (intro jput_fresh) auto
    have "set (map fs_name ds) \<inter> fst ` set (subs @ [(fs_name d, t')]) = {}"
      using Cons.prems(2,3) by auto
    from IH [OF _ _ this] Cons.prems(2) obtain subs' where
      "loadSubFolders (map (\<lambda>f. (sf_name f, newFolderScript env f))
        (concat (map (\<lambda>d. map (\<lambda>(k, t). directoryFolder d t) (ls d)) ds))) path n (subs @ [(fs_name d, t')])
        = Ret (SimScript n ((subs @ [(fs_name d, t')]) @ subs'))"
      "subTrees subs' = subTrees (concat (map ls ds))" by auto
    then show ?thesis using one(1) t' new
      by (intro exI [of _ "(fs_name d, t') # subs'"]) (simp add: sf_name_directoryFolder subTrees_def)
  qed
qed (simp add: subTrees_def)

section \<open>The structure of a script\<close>

lemma structure_reload:
  "newSimScript env f c p = Ret s \<Longrightarrow> \<not> ignored (node s) \<Longrightarrow> distinctNames f \<Longrightarrow>
   le_engines env' = le_engines env \<Longrightarrow>
   (\<And>content conf. cf_read (le_config env) content = Ret conf \<Longrightarrow>
      \<exists>conf'. cf_props (le_config env') (loadContent content) = Ret conf') \<Longrightarrow>
   \<exists>s'. newFolderScript env' (directoryFolder f s) c' p' = Ret s' \<and> \<not> ignored (node s') \<and> ruleTree s' = ruleTree s"
proof (induction f arbitrary: c p s c' p')
  case (FsDir name es)
  let ?ds = "filter (Not \<circ> isFsFile) es" and ?fs = "filter isFsFile (filter acceptsScriptFile es)"
  let ?n = "newScriptNode (le_config env) (Some c) p (le_toURI env p)"
  let ?n' = "newScriptNode (le_config env') (Some c') p' (le_toURI env' p')"
  have init: "templatePairs ?n = []" "templatePairs ?n' = []" "\<not> ignored ?n" "\<not> ignored ?n'"
    by (simp_all add: newScriptNode_def setProperty_def)
  have dirs: "distinct (map fs_name ?ds)" "list_all (Not \<circ> isFsFile) ?ds"
    using FsDir.prems(3) by (auto simp: distinct_map_filter list_all_iff)
  from FsDir.prems(1) have entries: "loadEntries env True (map (\<lambda>f. (f, newSimScript env f)) ?fs
      @ map (\<lambda>f. (f, newSimScript env f)) ?ds) p ?n [] = Ret s"
    by (simp add: sortEntries_map)
  have files: "list_all (isFsFile \<circ> fst) (map (\<lambda>f. (f, newSimScript env f)) ?fs)"
    by (auto simp: list_all_iff)
  from loadEntries_after [OF entries files] obtain ig n where
    1: "after (le_engines env) (map fileParts ?fs) ?n n ig" and
    2: "if ig then s = SimScript n [] else loadEntries env True (map (\<lambda>f. (f, newSimScript env f)) ?ds) p n [] = Ret s"
    by (auto simp: comp_def)
  have ig: "\<not> ig" using 1 2 FsDir.prems(2) by (auto simp: after_def)
  with 2 loadEntries_dirs [of env "newSimScript env" ?ds p n "[]" s] dirs obtain n2 where
    s: "s = SimScript n2 (concat (map (loadedSub (newSimScript env) (config n) p) ?ds))" "templatePairs n2 = templatePairs n"
    by auto
  from 1 ig obtain ps where ps: "fileRules (le_engines env) (map fileParts ?fs) = Ret (ps, False)" "templatePairs n = ps"
    using init by (auto simp: after_def)
  have "\<exists>n'. loadFolderFiles env' (concat (map structureFile es)) ?n' = Ret n'"
  proof (rule loadFolderFiles_returns)
    show "fileRules (le_engines env') (concat (map structureFile es)) = Ret (ps, False)"
      using fileRules_structure [OF ps(1)] FsDir.prems(4) by simp
  next
    fix content assume "(INIT_FILE, content) \<in> set (concat (map structureFile es))"
    then obtain e where e: "e \<in> set es" "(INIT_FILE, content) \<in> set (structureFile e)" by auto
    from e(2) obtain raw where r: "e = FsFile INIT_FILE raw" "content = loadContent raw"
      by (cases e) (auto split: if_splits)
    with e have "raw \<in> initFiles (map fst (map (\<lambda>f. (f, newSimScript env f)) ?fs))"
      by (auto simp: initFiles_def comp_def acceptsScriptFile_def)
    from loadEntries_reads [OF entries files FsDir.prems(2) this] r(2) FsDir.prems(5)
    show "\<exists>c. cf_props (le_config env') content = Ret c" by blast
  qed
  then obtain n' where n': "loadFolderFiles env' (concat (map structureFile es)) ?n' = Ret n'" by blast
  from loadFolderFiles_after [OF n'] have same: "templatePairs n' = ps" "\<not> ignored n'"
    using fileRules_structure [OF ps(1)] FsDir.prems(4) init by (auto simp: after_def)
  have "\<exists>subs'. loadSubFolders (map (\<lambda>f. (sf_name f, newFolderScript env' f))
        (concat (map (\<lambda>d. map (\<lambda>(k, t). directoryFolder d t) (loadedSub (newSimScript env) (config n) p d)) ?ds))) p' n' []
      = Ret (SimScript n' ([] @ subs')) \<and> subTrees subs' = subTrees (concat (map (loadedSub (newSimScript env) (config n) p) ?ds))"
  proof (rule reload_subs)
    fix d assume d: "d \<in> set ?ds"
    show "loadedSub (newSimScript env) (config n) p d = [] \<or> (\<exists>t. loadedSub (newSimScript env) (config n) p d = [(fs_name d, t)] \<and>
      (\<forall>c p. \<exists>t'. newFolderScript env' (directoryFolder d t) c p = Ret t' \<and> \<not> ignored (node t') \<and> ruleTree t' = ruleTree t))"
    proof (cases "newSimScript env" "config n" p d rule: loadedSub_cases)
      case (2 t)
      have ok: "d \<in> set es" "distinctNames d" using d FsDir.prems(3) by (auto simp: list_all_iff)
      have "\<exists>t'. newFolderScript env' (directoryFolder d t) c p = Ret t' \<and> \<not> ignored (node t') \<and> ruleTree t' = ruleTree t" for c p
        by (rule FsDir.IH [OF ok(1) 2(2,3) ok(2) FsDir.prems(4)]) (rule FsDir.prems(5))
      with 2(1) show ?thesis by blast
    qed simp
  qed (use dirs in auto)
  then obtain subs' where "newFolderScript env' (directoryFolder (FsDir name es) s) c' p' = Ret (SimScript n' subs')"
    and t: "subTrees subs' = subTrees (subScripts s)"
    using n' directoryFolder_subs [OF dirs(1), of s "newSimScript env" "config n" p name] s(1)
    by (cases "directoryFolder (FsDir name es) s") auto
  moreover have "ruleTree (SimScript n' subs') = ruleTree s"
    using t same s ps(2) unfolding s(1) by (simp add: subTrees_def)
  ultimately show ?case using same(2) by auto
qed simp

text \<open>C25: the structure of a script loaded from a folder, sent back to be evaluated, is loaded, is not
  ignored, and has the same rules, sub-script by sub-script, if the text of its configuration can be
  read by the reader of sent folders too. Library folders and ignored sub-folders are in neither.\<close>

theorem structure_reloads:
  assumes "newSimScript env (FsDir name es) c p = Ret s" and "\<not> ignored (node s)"
    and "distinctNames (FsDir name es)" and "le_engines env' = le_engines env"
    and "\<And>content conf. cf_read (le_config env) content = Ret conf \<Longrightarrow>
      \<exists>conf'. cf_props (le_config env') (loadContent content) = Ret conf'"
  shows "\<exists>folder s'. newScriptFolder openZip (FsDir name es) s = Ret folder \<and>
    newFolderScript env' folder c' p' = Ret s' \<and> \<not> ignored (node s') \<and> ruleTree s' = ruleTree s"
  using structure_reload [OF assms(1-4)] assms(5) by (simp add: newScriptFolder_def)

text \<open>A folder with a configuration, rules, a library and an ignored sub-folder.\<close>

definition libraryFolder :: "FsNode list" where
  "libraryFolder =
    [FsDir ''b'' [FsFile ''c.sim'' sampleRule],
     FsDir ''lib'' [FsFile ''x.sim'' ''no rule''],
     FsDir ''d'' [FsFile ''no.ignore'' [], FsFile ''z.sim'' ''GET''],
     FsFile ''init.properties'' ''simulator.name=x'',
     FsFile ''a.sim'' sampleRule]"

theorem structure_reloads_witness:
  "\<exists>s folder s'. newSimScript sampleEnv (FsDir ''a'' libraryFolder) [] ''/r/a'' = Ret s \<and>
     newScriptFolder (\<lambda>_. Ret []) (FsDir ''a'' libraryFolder) s = Ret folder \<and>
     newFolderScript sampleEnv folder [] ''x'' = Ret s' \<and> ruleTree s' = ruleTree s"
proof -
  have "case newSimScript sampleEnv (FsDir ''a'' libraryFolder) [] ''/r/a'' of Inl _ \<Rightarrow> False | Inr s \<Rightarrow> \<not> ignored (node s)"
    by code_simp
  then obtain s where s: "newSimScript sampleEnv (FsDir ''a'' libraryFolder) [] ''/r/a'' = Ret s" "\<not> ignored (node s)"
    by (auto split: sum.splits)
  have d: "distinctNames (FsDir ''a'' libraryFolder)" by code_simp
  have r: "\<exists>conf'. cf_props (le_config sampleEnv) (loadContent content) = Ret conf'" for content
    by (simp add: sampleEnv_def plainConfig_def)
  from structure_reloads [OF s d refl r, of "\<lambda>_. Ret []" "[]" "''x''"] s show ?thesis by blast
qed

end
