(* ===== verification/Local.thy ===== *)
theory Local
  imports Respond
begin

text \<open>
  The simulators without a network: \<open>file/FileSimulator.java\<close>, \<open>mem/MemSimulator.java\<close>,
  \<open>dummy/DummySimulator.java\<close>, and the requests \<open>FileSimRequest\<close>, \<open>MemSimRequest\<close> and
  \<open>util/XSimRequest.java\<close>. The monitor of the input folder is a library; a call of it is a step.
\<close>

section \<open>A simulator at work\<close>

text \<open>
  \<open>script.genResponse\<close>, the listeners, and the reading of a response body.
\<close>

record 'w LocalSim =
  ls_genResponse :: "SimRequest \<Rightarrow> (SimResponse list, 'w) prog"
  ls_onHandleMessage :: "SimRequest \<Rightarrow> SimResponse list \<Rightarrow> bool \<Rightarrow> 'w \<Rightarrow> 'w"
  ls_bodyString :: "SimResponse \<Rightarrow> string res"

text \<open>Any exception of \<open>genResponse\<close> is logged; the listeners are told in any case.\<close>

definition respondLocal :: "'w LocalSim \<Rightarrow> SimRequest \<Rightarrow> 'w \<Rightarrow> SimResponse list \<times> 'w" where
  "respondLocal ls request w =
    (let (r, w') = ls_genResponse ls request w; respList = (case r of Inl e \<Rightarrow> [] | Inr rs \<Rightarrow> rs) in
     (respList, ls_onHandleMessage ls request respList (respList \<noteq> []) w'))"

section \<open>Files\<close>

definition HEADER_NAME_FILE_NAME :: string where
  "HEADER_NAME_FILE_NAME = ''_output.file''"

text \<open>
  The loop of the constructor of \<open>FileSimRequest\<close> waits until the file can be renamed to itself;
  \<open>rename n\<close> is the outcome of the attempt number \<open>n\<close>. It may wait for ever.
\<close>

partial_function (option) awaitFile :: "(nat \<Rightarrow> bool) \<Rightarrow> nat \<Rightarrow> nat option" where
  "awaitFile rename n = (if rename n then Some n else awaitFile rename (Suc n))"

text \<open>\<open>path\<close> is the absolute path; a Windows path gets slashes.\<close>

definition fileTopLine :: "string \<Rightarrow> string" where
  "fileTopLine path = replaceChar (CHR 0x5C) CHR ''/'' path"

definition bodyRequest :: "string \<Rightarrow> string option \<Rightarrow> SimRequest" where
  "bodyRequest topLine body =
    \<lparr>req_topLine = Some topLine, req_headerNames = [], req_headerLine = (\<lambda>_. None), req_authLine = None, req_body = body\<rparr>"

text \<open>\<open>body\<close> is the result of the message convertor. \<open>None\<close>: the constructor does not return.\<close>

definition newFileSimRequest :: "(nat \<Rightarrow> bool) \<Rightarrow> string \<Rightarrow> string option res \<Rightarrow> SimRequest res option" where
  "newFileSimRequest rename path body =
    map_option (\<lambda>_. bindE body (\<lambda>b. Ret (bodyRequest (fileTopLine path) b))) (awaitFile rename 0)"

text \<open>The path of a file name or URL; \<open>urlPath\<close> is \<open>new URL(str).getPath()\<close>.\<close>

definition str2File :: "(string \<Rightarrow> string option) \<Rightarrow> string option \<Rightarrow> string option" where
  "str2File urlPath str =
    (case str of None \<Rightarrow> None | Some s \<Rightarrow> (case urlPath s of None \<Rightarrow> Some s | Some path \<Rightarrow> Some path))"

text \<open>What is written, and where: the effect of \<open>DefaultFileReqRespConvertor.fillRawResponse\<close>.\<close>

definition fileDoFill :: "(string \<Rightarrow> string option) \<Rightarrow> (SimResponse \<Rightarrow> string res) \<Rightarrow> SimResponse \<Rightarrow> (string \<times> string) res" where
  "fileDoFill urlPath bodyString response =
    bindE (castString (jget (resp_headers response) HEADER_NAME_FILE_NAME)) (\<lambda>file.
      case str2File urlPath file of
        None \<Rightarrow> Raise (IOException ''output file name [null] is not valid'')
      | Some path \<Rightarrow> bindE (bodyString response) (\<lambda>s. Ret (path, s)))"

text \<open>\<open>onFileCreate\<close>, once the constructor has returned or raised.\<close>

definition onFileCreate :: "'w LocalSim \<Rightarrow> SimRequest res \<Rightarrow> 'w \<Rightarrow> 'w" where
  "onFileCreate ls made w =
    (case made of Inl e \<Rightarrow> w | Inr request \<Rightarrow> snd (respondLocal ls request w))"

section \<open>Memory\<close>

text \<open>The top line is the class name of the object handed over, the body what the convertor makes of it.\<close>

definition newMemSimRequest :: "string \<Rightarrow> string option res \<Rightarrow> SimRequest res" where
  "newMemSimRequest className body = bindE body (\<lambda>b. Ret (bodyRequest className b))"

definition memHandleRequest :: "'w LocalSim \<Rightarrow> SimRequest res \<Rightarrow> (string option, 'w) prog" where
  "memHandleRequest ls made w =
    (case made of
       Inl e \<Rightarrow> (Ret None, w)
     | Inr request \<Rightarrow>
         (let (respList, w') = respondLocal ls request w in
          case respList of
            [] \<Rightarrow> (Raise IndexOutOfBoundsException, w')
          | r # _ \<Rightarrow> (bindE (ls_bodyString ls r) (\<lambda>s. Ret (Some s)), w')))"

section \<open>Requests built by hand\<close>

record XSimRequest =
  xr_topLine :: string
  xr_headers :: "(string, string) jmap"
  xr_body :: "string option"

definition newXSimRequest :: "string \<Rightarrow> string \<Rightarrow> string option \<Rightarrow> XSimRequest" where
  "newXSimRequest method url body =
    \<lparr>xr_topLine = method @ '' '' @ url @ '' HTTP/1.1'', xr_headers = [], xr_body = body\<rparr>"

definition addHeader :: "string \<Rightarrow> string \<Rightarrow> XSimRequest \<Rightarrow> XSimRequest" where
  "addHeader headerName headerValue r = r\<lparr>xr_headers := jput headerName headerValue (xr_headers r)\<rparr>"

definition xHeaderLine :: "XSimRequest \<Rightarrow> string \<Rightarrow> string" where
  "xHeaderLine r header = header @ '': '' @ (case jget (xr_headers r) header of None \<Rightarrow> [] | Some v \<Rightarrow> v)"

definition xRequest :: "XSimRequest \<Rightarrow> SimRequest" where
  "xRequest r =
    \<lparr>req_topLine = Some (xr_topLine r), req_headerNames = map fst (xr_headers r),
     req_headerLine = (\<lambda>h. Some (xHeaderLine r h)), req_authLine = None, req_body = xr_body r\<rparr>"

section \<open>What happens\<close>

text \<open>The wait ends with the first attempt that works, and does not end when none does.\<close>

lemma awaitFile_Some:
  "rename (n + k) \<Longrightarrow> (\<And>i. i < k \<Longrightarrow> \<not> rename (n + i)) \<Longrightarrow> awaitFile rename n = Some (n + k)"
proof (induction k arbitrary: n)
  case 0
  then show ?case by (subst awaitFile.simps) simp
next
  case (Suc k)
  have "\<not> rename (Suc n + i)" if "i < k" for i using Suc.prems(2) [of "Suc i"] that by simp
  then have "awaitFile rename (Suc n) = Some (Suc n + k)" using Suc.IH [of "Suc n"] Suc.prems(1) by simp
  moreover have "\<not> rename n" using Suc.prems(2) [of 0] by simp
  ultimately show ?case by (simp add: awaitFile.simps [of rename n])
qed

lemma awaitFile_renamed: "awaitFile rename n = Some m \<Longrightarrow> rename m"
  by (rule awaitFile.raw_induct [of "\<lambda>rename n m. rename m" rename n m]) (auto split: if_splits)

theorem awaitFile_returns_iff: "(\<exists>m. awaitFile rename 0 = Some m) \<longleftrightarrow> (\<exists>n. rename n)"
proof
  assume ex: "\<exists>n. rename n"
  define k where "k = (LEAST n. rename n)"
  have "rename k" unfolding k_def using ex by (rule LeastI_ex)
  moreover have "\<not> rename i" if "i < k" for i using that unfolding k_def by (rule not_less_Least)
  ultimately have "awaitFile rename 0 = Some (0 + k)" by (intro awaitFile_Some) simp_all
  then show "\<exists>m. awaitFile rename 0 = Some m" by blast
next
  assume "\<exists>m. awaitFile rename 0 = Some m"
  then show "\<exists>n. rename n" using awaitFile_renamed by blast
qed

text \<open>
  A request to a memory simulator that no rule matches raises an index exception, after the
  listeners were told that it failed.
\<close>

theorem mem_unmatched_raises:
  assumes "ls_genResponse ls request w = (Raise e, w')"
  shows "memHandleRequest ls (Ret request) w =
    (Raise IndexOutOfBoundsException, ls_onHandleMessage ls request [] False w')"
  using assms by (simp add: memHandleRequest_def respondLocal_def)

text \<open>A response without a file name is not written, whatever its body.\<close>

lemma fileDoFill_no_name:
  "jget (resp_headers r) HEADER_NAME_FILE_NAME = None \<Longrightarrow>
   fileDoFill urlPath bodyString r = Raise (IOException ''output file name [null] is not valid'')"
  by (simp add: fileDoFill_def castString_def str2File_def)

lemma xHeaderLine_addHeader:
  "xHeaderLine (addHeader n v r) h = (if h = n then n @ '': '' @ v else xHeaderLine r h)"
  by (simp add: xHeaderLine_def addHeader_def jm.get_put)

end
