(* ===== verification/Socket.thy ===== *)
theory Socket
  imports WebSocket Respond
begin

text \<open>
  \<open>socket/SocketSimulator.java\<close> and \<open>SocketSimRequest.java\<close>: the handlers of the connections of a
  socket server, the map of their identifiers, the one client of the proxied server, and the
  writing of responses. The network library is a parameter, its calls are effects.
\<close>

section \<open>State\<close>

text \<open>
  A handler is known by the number of its connection. The client is a field of the simulator: there
  is one for all connections.
\<close>

record SocketState =
  so_ids :: "(nat, string) jmap"
  so_handlerMap :: "(string, nat) jmap"
  so_sClient :: "nat option"

definition newSocketState :: SocketState where
  "newSocketState = \<lparr>so_ids = [], so_handlerMap = [], so_sClient = None\<rparr>"

datatype SocketEffect =
    WriteTo nat bytes
  | SendOn nat bytes
  | StopSocketClient nat
  | CloseChannel nat
  | NotifyAll "SimResponse list" bool

text \<open>
  The settings: the proxy, the delimiters of frames as strings and the first one as bytes, the
  message convertor's \<open>fillRawResponse\<close>, and \<open>String.getBytes\<close>.
\<close>

record SocketSim =
  sk_name :: string
  sk_proxy :: bool
  sk_delimiterStrs :: "string list"
  sk_delimiter :: bytes
  sk_fillRaw :: "SimResponse \<Rightarrow> bytes res"
  sk_getBytes :: "string \<Rightarrow> bytes"

section \<open>Requests\<close>

definition socketTopLine :: "string \<Rightarrow> string" where
  "socketTopLine type = type @ '' HTTP/1.1''"

text \<open>Whatever the headers are, the line of a header has no value.\<close>

definition socketHeaderLine :: "string \<Rightarrow> string option" where
  "socketHeaderLine header = Some (header @ '': '')"

definition socketRequest :: "string \<Rightarrow> string list \<Rightarrow> string option \<Rightarrow> SimRequest" where
  "socketRequest type headerNames body =
    \<lparr>req_topLine = Some (socketTopLine type), req_headerNames = headerNames, req_headerLine = socketHeaderLine,
     req_authLine = None, req_body = body\<rparr>"

text \<open>\<open>SocketHandler.sendResponse\<close>; a response without a body raises.\<close>

definition socketSend :: "SocketSim \<Rightarrow> nat \<Rightarrow> SimResponse \<Rightarrow> SocketEffect list res" where
  "socketSend sim ch response =
    (case resp_body response of
       None \<Rightarrow> Raise NullPointerException
     | Some b \<Rightarrow> bindE (sk_fillRaw sim response) (\<lambda>raw. Ret [WriteTo ch raw]))"

text \<open>
  \<open>doFillResponse\<close>: an identifier is kept in the headers of the request; a response with a channel
  is handed over to the simulator itself, by the header of its target.
\<close>

definition socketDoFill :: "SocketSim \<Rightarrow> nat \<Rightarrow> (string, string) jmap \<Rightarrow> SimResponse
    \<Rightarrow> (string, string) jmap \<times> (SimResponse \<times> SocketEffect list) res" where
  "socketDoFill sim ch headers response =
    (case bindE (castString (jget (resp_headers response) HEADER_NAME_CHANNEL)) (\<lambda>actualChannel.
            bindE (castString (jget (resp_headers response) HEADER_NAME_CHANNEL_ID)) (\<lambda>channelID.
              Ret (actualChannel, channelID))) of
       Inl e \<Rightarrow> (headers, Raise e)
     | Inr (actualChannel, channelID) \<Rightarrow>
         ((case channelID of None \<Rightarrow> headers | Some i \<Rightarrow> jput HEADER_NAME_CHANNEL_ID i headers),
          (case actualChannel of
             Some _ \<Rightarrow> Ret (response\<lparr>resp_headers :=
               jput HEADER_NAME_RESPONSE_TARGETSIMULATOR (JStr (sk_name sim)) (resp_headers response)\<rparr>, [])
           | None \<Rightarrow> bindE (socketSend sim ch response) (\<lambda>effs. Ret (response, effs)))))"

section \<open>Events\<close>

definition socketIDChange :: "nat \<Rightarrow> SocketState \<Rightarrow> SocketState res" where
  "socketIDChange ch st =
    (case jget (so_ids st) ch of
       Some _ \<Rightarrow> Ret st
     | None \<Rightarrow>
         (case socketHeaderLine HEADER_NAME_CHANNEL_ID of
            None \<Rightarrow> Ret st
          | Some headerLine \<Rightarrow>
              bindE (parseHeaderLine headerLine) (\<lambda>(name, value).
                Ret (st\<lparr>so_ids := jput ch value (so_ids st), so_handlerMap := jput value ch (so_handlerMap st)\<rparr>))))"

definition notifyAll :: "SimResponse list \<Rightarrow> SocketEffect" where
  "notifyAll respList = NotifyAll respList (respList \<noteq> [])"

definition socketProxied :: "SocketSim \<Rightarrow> SimResponse" where
  "socketProxied sim = newSimResponseMessage (sk_getBytes sim) ''Unknown due to proxy mechanism''"

type_synonym socketStep = "unit res \<times> SocketState \<times> SocketEffect list"

text \<open>
  An event of a connection. Its \<open>outcome\<close> is what building the request and \<open>genResponse\<close> gave; only
  an \<open>IOException\<close> is handled. A connection of the proxy is its number, or what its constructor
  raised, with the outcome of starting it.
\<close>

datatype SocketEvent =
    ChannelActive nat "SimResponse list res" "nat res" "unit res"
  | ChannelRead nat bytes "SimResponse list res"
  | ChannelInactive nat "SimResponse list res"

definition channelActive :: "SocketSim \<Rightarrow> nat \<Rightarrow> SimResponse list res \<Rightarrow> nat res \<Rightarrow> unit res \<Rightarrow> SocketState \<Rightarrow> socketStep" where
  "channelActive sim ch outcome newClient started st =
    (case outcome of
       Inr respList \<Rightarrow> (Ret (), st, [notifyAll respList])
     | Inl e \<Rightarrow>
         if \<not> isIOException e then (Raise e, st, [notifyAll []])
         else if sk_proxy sim then
           (case newClient of
              Inl e' \<Rightarrow> (Raise e', st, [notifyAll []])
            | Inr c \<Rightarrow>
                (case started of
                   Inl e' \<Rightarrow> (Raise e', st\<lparr>so_sClient := Some c\<rparr>, [notifyAll []])
                 | Inr _ \<Rightarrow> (Ret (), st\<lparr>so_sClient := Some c\<rparr>, [notifyAll [socketProxied sim]])))
         else (Ret (), st, [notifyAll []]))"

text \<open>The answer of a server without a proxy; an \<open>IOException\<close> of sending it is logged.\<close>

definition socketErrorResponse :: "SocketSim \<Rightarrow> SimResponse res" where
  "socketErrorResponse sim =
    (case sk_delimiterStrs sim of
       [] \<Rightarrow> Raise IndexOutOfBoundsException
     | d # _ \<Rightarrow> Ret (newSimResponseMessage (sk_getBytes sim) (''match and fill error'' @ d)))"

definition socketError :: "SocketSim \<Rightarrow> nat \<Rightarrow> SocketState \<Rightarrow> socketStep" where
  "socketError sim ch st =
    (case socketErrorResponse sim of
       Inl e \<Rightarrow> (Raise e, st, [notifyAll []])
     | Inr response \<Rightarrow>
         (case socketSend sim ch response of
            Inr effs \<Rightarrow> (Ret (), st, effs @ [notifyAll [response]])
          | Inl e \<Rightarrow>
              if isIOException e then (Ret (), st, [notifyAll [response]])
              else (Raise e, st, [notifyAll []])))"

definition channelRead :: "SocketSim \<Rightarrow> nat \<Rightarrow> bytes \<Rightarrow> SimResponse list res \<Rightarrow> SocketState \<Rightarrow> socketStep" where
  "channelRead sim ch msg outcome st =
    (case outcome of
       Inr respList \<Rightarrow>
         (case socketIDChange ch st of
            Inl e \<Rightarrow> (Raise e, st, [notifyAll respList])
          | Inr st' \<Rightarrow> (Ret (), st', [notifyAll respList]))
     | Inl e \<Rightarrow>
         if \<not> isIOException e then (Raise e, st, [notifyAll []])
         else if sk_proxy sim then
           (case so_sClient st of
              None \<Rightarrow> (Raise NullPointerException, st, [notifyAll []])
            | Some c \<Rightarrow> (Ret (), st, [SendOn c (msg @ sk_delimiter sim), notifyAll [socketProxied sim]]))
         else socketError sim ch st)"

text \<open>The \<open>finally\<close> block removes the identifier of the handler, whoever is filed under it.\<close>

definition dropHandler :: "nat \<Rightarrow> SocketState \<Rightarrow> SocketState" where
  "dropHandler ch st =
    (case jget (so_ids st) ch of
       None \<Rightarrow> st
     | Some i \<Rightarrow> st\<lparr>so_handlerMap := jremove i (so_handlerMap st)\<rparr>)"

definition channelInactive :: "SocketSim \<Rightarrow> nat \<Rightarrow> SimResponse list res \<Rightarrow> SocketState \<Rightarrow> socketStep" where
  "channelInactive sim ch outcome st =
    (let st' = dropHandler ch st in
     case outcome of
       Inr respList \<Rightarrow> (Ret (), st', [notifyAll respList])
     | Inl e \<Rightarrow>
         if \<not> isIOException e then (Raise e, st', [notifyAll []])
         else if sk_proxy sim then
           (case so_sClient st of
              None \<Rightarrow> (Raise NullPointerException, st', [notifyAll []])
            | Some c \<Rightarrow> (Ret (), st', [StopSocketClient c, notifyAll [socketProxied sim]]))
         else (Ret (), st', [notifyAll []]))"

text \<open>What an event handler raises, the network library hands to \<open>exceptionCaught\<close>.\<close>

definition exceptionCaught :: "nat \<Rightarrow> socketStep \<Rightarrow> SocketState \<times> SocketEffect list" where
  "exceptionCaught ch step =
    (case step of
       (Inr _, st, effs) \<Rightarrow> (st, effs)
     | (Inl e, st, effs) \<Rightarrow> (st, effs @ [CloseChannel ch]))"

fun socketEvent :: "SocketSim \<Rightarrow> SocketEvent \<Rightarrow> SocketState \<Rightarrow> SocketState \<times> SocketEffect list" where
  "socketEvent sim (ChannelActive ch outcome newClient started) st =
    exceptionCaught ch (channelActive sim ch outcome newClient started st)"
| "socketEvent sim (ChannelRead ch msg outcome) st = exceptionCaught ch (channelRead sim ch msg outcome st)"
| "socketEvent sim (ChannelInactive ch outcome) st = exceptionCaught ch (channelInactive sim ch outcome st)"

fun socketRun :: "SocketSim \<Rightarrow> SocketEvent list \<Rightarrow> SocketState \<Rightarrow> SocketState \<times> SocketEffect list" where
  "socketRun sim [] st = (st, [])"
| "socketRun sim (ev # evs) st =
    (let (st1, effs) = socketEvent sim ev st; (st2, effs') = socketRun sim evs st1 in (st2, effs @ effs'))"

section \<open>Channels\<close>

text \<open>\<open>SocketSimulator.fillResponse\<close>; the message names the handler, which is \<open>null\<close>.\<close>

definition socketFillResponse :: "SocketSim \<Rightarrow> SocketState \<Rightarrow> SimResponse \<Rightarrow> SocketEffect list res" where
  "socketFillResponse sim st response =
    bindE (castString (jget (resp_headers response) HEADER_NAME_CHANNEL)) (\<lambda>channel.
      case (case channel of None \<Rightarrow> None | Some ch \<Rightarrow> jget (so_handlerMap st) ch) of
        None \<Rightarrow> Raise (IOException ''no such ws channel [null] exists'')
      | Some h \<Rightarrow>
          socketSend sim h (response\<lparr>resp_headers := jremove HEADER_NAME_CHANNEL (resp_headers response)\<rparr>))"

text \<open>\<open>ClientHandler\<close>: a message of the proxied server goes to the connection the client was made for.\<close>

definition clientRead :: "SocketSim \<Rightarrow> nat \<Rightarrow> bytes \<Rightarrow> SocketEffect list" where
  "clientRead sim delegator msg = [WriteTo delegator msg, WriteTo delegator (sk_delimiter sim)]"

end
