(* ===== verification/SocketSpec.thy ===== *)
theory SocketSpec
  imports Socket SessionLess
begin

text \<open>
  The socket simulator: the identifiers its connections are filed under, and the proxied server their
  messages go to.
\<close>

section \<open>Identifiers\<close>

text \<open>The header line of a request never has a value, so every connection gets the empty identifier.\<close>

lemma socketHeaderLine_ID:
  "socketHeaderLine HEADER_NAME_CHANNEL_ID = Some ''_Channel_ID: ''" "parseHeaderLine ''_Channel_ID: '' = Ret (''_Channel_ID'', [])"
  by code_simp+

definition unnamed :: "SocketState \<Rightarrow> bool" where
  "unnamed st \<longleftrightarrow> (\<forall>i. i \<noteq> [] \<longrightarrow> jget (so_handlerMap st) i = None)"

lemma unnamed_fields [simp]: "unnamed (st\<lparr>so_sClient := c\<rparr>) = unnamed st" "unnamed newSocketState"
  by (simp_all add: unnamed_def newSocketState_def)

lemma unnamed_idChange: "unnamed st \<Longrightarrow> socketIDChange ch st = Ret st' \<Longrightarrow> unnamed st'"
  by (auto simp: socketIDChange_def socketHeaderLine_ID unnamed_def jm.get_put split: option.splits)

lemma unnamed_dropHandler: "unnamed st \<Longrightarrow> unnamed (dropHandler ch st)"
  by (auto simp: dropHandler_def unnamed_def jm.get_remove split: option.split)

lemma unnamed_channelActive: "unnamed st \<Longrightarrow> unnamed (fst (snd (channelActive sim ch out c s st)))"
  by (simp add: channelActive_def split: sum.split)

lemma unnamed_channelRead: "unnamed st \<Longrightarrow> unnamed (fst (snd (channelRead sim ch msg out st)))"
  by (auto simp: channelRead_def socketError_def intro: unnamed_idChange split: sum.split option.split)

lemma unnamed_channelInactive: "unnamed st \<Longrightarrow> unnamed (fst (snd (channelInactive sim ch out st)))"
  by (auto simp: channelInactive_def Let_def intro: unnamed_dropHandler split: sum.split option.split)

lemma fst_exceptionCaught [simp]: "fst (exceptionCaught ch step) = fst (snd step)"
  by (auto simp: exceptionCaught_def split: prod.split sum.split)

lemma unnamed_socketEvent: "unnamed st \<Longrightarrow> unnamed (fst (socketEvent sim ev st))"
  by (cases ev) (simp_all add: unnamed_channelActive unnamed_channelRead unnamed_channelInactive)

lemma unnamed_socketRun: "unnamed st \<Longrightarrow> unnamed (fst (socketRun sim evs st))"
  by (induction evs arbitrary: st) (auto simp: case_prod_unfold Let_def intro: unnamed_socketEvent)


text \<open>The contract of a session-less simulator: the effects of a connection are writes to it.\<close>

interpretation socketRoute: session_less "emitting (socketFillResponse sim st)" "jget (so_handlerMap st)"
    "\<lambda>h e. \<exists>raw. e = WriteTo h raw" for sim st
proof unfold_locales
  fix r w u w'
  assume "emitting (socketFillResponse sim st) r w = (Inr u, w')"
  then obtain es where f: "socketFillResponse sim st r = Inr es" and w': "w' = w @ es" by (rule emitting_Ret)
  from f obtain ch h raw where "jget (resp_headers r) HEADER_NAME_CHANNEL = Some (JStr ch)"
    "jget (so_handlerMap st) ch = Some h" "es = [WriteTo h raw]"
    by (auto simp: socketFillResponse_def castString_def socketSend_def elim!: res_elims split: option.splits jval.splits)
  then show "\<exists>ch h es. jget (resp_headers r) HEADER_NAME_CHANNEL = Some (JStr ch) \<and> jget (so_handlerMap st) ch = Some h
      \<and> w' = w @ es \<and> es \<noteq> [] \<and> (\<forall>e \<in> set es. \<exists>raw. e = WriteTo h raw)"
    using w' by (intro exI [of _ ch] exI [of _ h] exI [of _ es]) simp
qed (rule emitting_Raise)

section \<open>The proxied server\<close>

text \<open>The clients that were made, in their order.\<close>

fun madeClient :: "SocketSim \<Rightarrow> SocketEvent \<Rightarrow> nat list" where
  "madeClient sim (ChannelActive ch (Inl e) (Inr c) started) = (if isIOException e \<and> sk_proxy sim then [c] else [])"
| "madeClient sim _ = []"

definition madeClients :: "SocketSim \<Rightarrow> SocketEvent list \<Rightarrow> nat list" where
  "madeClients sim evs = concat (map (madeClient sim) evs)"

lemma sClient_idChange: "socketIDChange ch st = Ret st' \<Longrightarrow> so_sClient st' = so_sClient st"
  by (auto simp: socketIDChange_def socketHeaderLine_ID split: option.splits)

lemma sClient_dropHandler [simp]: "so_sClient (dropHandler ch st) = so_sClient st"
  by (simp add: dropHandler_def split: option.split)

lemma sClient_socketEvent:
  "so_sClient (fst (socketEvent sim ev st)) = (case madeClient sim ev of [] \<Rightarrow> so_sClient st | c # _ \<Rightarrow> Some c)"
proof (cases ev)
  case (ChannelActive ch out c s)
  then show ?thesis by (cases out; cases c; cases s) (simp_all add: channelActive_def)
next
  case (ChannelRead ch msg out)
  then show ?thesis
    by (auto simp: channelRead_def socketError_def dest: sClient_idChange split: sum.split option.split)
next
  case (ChannelInactive ch out)
  then show ?thesis by (simp add: channelInactive_def Let_def split: sum.split option.split)
qed

lemma sClient_socketRun:
  "so_sClient (fst (socketRun sim evs st)) =
    (if madeClients sim evs = [] then so_sClient st else Some (last (madeClients sim evs)))"
proof (induction evs arbitrary: st)
  case (Cons ev evs)
  have m: "length (madeClient sim ev) \<le> 1" by (cases "(sim, ev)" rule: madeClient.cases) auto
  have "so_sClient (fst (socketRun sim (ev # evs) st)) = so_sClient (fst (socketRun sim evs (fst (socketEvent sim ev st))))"
    by (simp add: case_prod_unfold Let_def)
  then show ?case
    using Cons.IH [of "fst (socketEvent sim ev st)"] sClient_socketEvent [of sim ev st] m
    by (cases "madeClient sim ev") (auto simp: madeClients_def)
qed (simp add: madeClients_def)

text \<open>A message that no rule answers goes, behind the proxy, to the client that was made last,
  whichever connection it was made for; the message is followed by the delimiter.\<close>

theorem socket_proxy_last_client:
  assumes "sk_proxy sim" and "isIOException e" and "madeClients sim evs = cs @ [c]"
  shows "socketEvent sim (ChannelRead ch msg (Raise e)) (fst (socketRun sim evs newSocketState)) =
    (fst (socketRun sim evs newSocketState), [SendOn c (msg @ sk_delimiter sim), NotifyAll [socketProxied sim] True])"
  using sClient_socketRun [of sim evs newSocketState] assms
  by (simp add: channelRead_def exceptionCaught_def notifyAll_def)

section \<open>Samples\<close>

definition sampleSocket :: SocketSim where
  "sampleSocket = \<lparr>sk_name = ''s'', sk_proxy = True, sk_delimiterStrs = [[nl]], sk_delimiter = [10],
    sk_fillRaw = (\<lambda>r. case resp_body r of None \<Rightarrow> Raise NullPointerException | Some b \<Rightarrow> Ret b), sk_getBytes = (\<lambda>s. [])\<rparr>"

text \<open>Two connections through the proxy; the first one sends a message.\<close>

theorem socket_proxy_last_client_witness:
  "snd (socketEvent sampleSocket (ChannelRead 1 [65] (Raise (IOException [])))
    (fst (socketRun sampleSocket
      [ChannelActive 1 (Raise (IOException [])) (Ret 11) (Ret ()), ChannelActive 2 (Raise (IOException [])) (Ret 12) (Ret ())]
      newSocketState))) = [SendOn 12 [65, 10], NotifyAll [socketProxied sampleSocket] True]"
  by (subst socket_proxy_last_client [where cs = "[11]" and c = 12])
    (simp_all add: sampleSocket_def madeClients_def)


end
