(* ===== verification/Jms.thy ===== *)
theory Jms
  imports WebSocket Respond
begin

text \<open>
  The package \<open>jms\<close>: brokers with their sessions, the destinations of a script, the requests made of
  messages, the routing of responses through the producers filed by name, and the proxy.

  The JMS library is a record of its calls. What it raises, a \<open>JMSException\<close> or a \<open>NamingException\<close>, is
  the left value of their results, as the text \<open>toString\<close> gives, apart from the exceptions of the
  program. Setting the listener of a consumer is part of its creation.
\<close>

section \<open>The library\<close>

record JmsMessage =
  jm_kind :: string
  jm_props :: ctx
  jm_body :: bytes
  jm_replyTo :: "string option"

record JmsLib =
  jl_lookup :: "string \<Rightarrow> string \<Rightarrow> string + string option"
  jl_createProducer :: "nat \<Rightarrow> string \<Rightarrow> string + nat"
  jl_createConsumer :: "nat \<Rightarrow> string \<Rightarrow> string + nat"
  jl_createMessage :: "nat \<Rightarrow> string \<Rightarrow> string + JmsMessage"
  jl_setProperty :: "string \<Rightarrow> jval \<Rightarrow> JmsMessage \<Rightarrow> string + JmsMessage"
  jl_temporaryQueue :: "nat \<Rightarrow> string + string"
  jl_send :: "nat \<Rightarrow> JmsMessage \<Rightarrow> string + unit"

text \<open>The two ways its exceptions are wrapped.\<close>

fun asIO :: "string + 'a \<Rightarrow> 'a res" where
  "asIO (Inl m) = Raise (IOException m)"
| "asIO (Inr x) = Ret x"

fun asHandleError :: "string + 'a \<Rightarrow> 'a res" where
  "asHandleError (Inl m) = Raise (RuntimeException ''handle destination error'')"
| "asHandleError (Inr x) = Ret x"

text \<open>A call on a session, which is \<open>null\<close> when the broker has no factory of its type.\<close>

definition onSession :: "nat option \<Rightarrow> (nat \<Rightarrow> 'a res) \<Rightarrow> 'a res" where
  "onSession session f = (case session of None \<Rightarrow> Raise NullPointerException | Some s \<Rightarrow> f s)"

section \<open>Brokers\<close>

record JmsBroker =
  jb_name :: string
  jb_ts :: "nat option"
  jb_qs :: "nat option"

record JmsProducer =
  jp_session :: "nat option"
  jp_id :: nat

definition getSession :: "JmsBroker \<Rightarrow> string \<Rightarrow> nat option res" where
  "getSession b destType =
    (if destType = ''Topic'' then Ret (jb_ts b)
     else if destType = ''Queue'' then Ret (jb_qs b)
     else Raise (RuntimeException (''unsupported destination type ['' @ destType @ '']'')))"

definition findDest :: "JmsLib \<Rightarrow> JmsBroker \<Rightarrow> string \<Rightarrow> string res" where
  "findDest lib b destName =
    bindE (asHandleError (jl_lookup lib (jb_name b) destName)) (\<lambda>dest.
      case dest of
        None \<Rightarrow> Raise (RuntimeException (''can not find destination ['' @ destName @ '']''))
      | Some d \<Rightarrow> Ret d)"

definition createProducer :: "JmsLib \<Rightarrow> JmsBroker \<Rightarrow> string \<Rightarrow> string \<Rightarrow> JmsProducer res" where
  "createProducer lib b destName destType =
    bindE (getSession b destType) (\<lambda>session.
    bindE (findDest lib b destName) (\<lambda>dest.
    onSession session (\<lambda>s. bindE (asHandleError (jl_createProducer lib s dest)) (\<lambda>p.
      Ret \<lparr>jp_session = session, jp_id = p\<rparr>))))"

definition createConsumer :: "JmsLib \<Rightarrow> JmsBroker \<Rightarrow> string \<Rightarrow> string \<Rightarrow> nat res" where
  "createConsumer lib b destName destType =
    bindE (getSession b destType) (\<lambda>session.
    bindE (findDest lib b destName) (\<lambda>dest.
    onSession session (\<lambda>s. asHandleError (jl_createConsumer lib s dest))))"

section \<open>Destinations\<close>

type_synonym producers = "(string, JmsProducer) jmap"

text \<open>What the code reads from a destination's script; \<open>None\<close> is a missing property.\<close>

record JmsDest =
  jd_name :: "string option"
  jd_type :: "string option"
  jd_client :: "string option"
  jd_broker :: "string option"
  jd_proxy :: bool
  jd_proxyChannel :: "string option"

definition mandatory :: "string option \<Rightarrow> string \<Rightarrow> string res" where
  "mandatory prop errMsg = (case prop of None \<Rightarrow> Raise (RuntimeException errMsg) | Some v \<Rightarrow> Ret v)"

text \<open>The channel of the proxy, which the constructor of the listener asks for.\<close>

definition listenerChannel :: "JmsDest \<Rightarrow> string option res" where
  "listenerChannel d =
    (if jd_proxy d then bindE (mandatory (jd_proxyChannel d) ''no proxy channel defined'') (\<lambda>ch. Ret (Some ch)) else Ret None)"

text \<open>The map of brokers by name; the producers afterwards, also when an exception ends the step.\<close>

definition handleDestination :: "JmsLib \<Rightarrow> (string, JmsBroker) jmap \<Rightarrow> JmsDest \<Rightarrow> (string option, producers) prog" where
  "handleDestination lib brokers d =
    bindS (liftS (mandatory (jd_name d) ''no destination name defined'')) (\<lambda>destName.
    bindS (liftS (mandatory (jd_type d) ''no destination type defined'')) (\<lambda>destType.
    bindS (liftS (mandatory (jd_client d) ''no destination client type defined'')) (\<lambda>clientType.
    bindS (liftS (mandatory (jd_broker d) ''no destination broker defined'')) (\<lambda>brokerName.
    bindS (liftS (case jget brokers brokerName of
        None \<Rightarrow> Raise (RuntimeException (''can not find broker ['' @ brokerName @ '']''))
      | Some b \<Rightarrow> Ret b)) (\<lambda>broker.
    bindS (if containsStr clientType ''Pub''
      then bindS (liftS (createProducer lib broker destName destType)) (\<lambda>p ps.
        (Ret True, jput (createUnifiedName destName brokerName) p ps))
      else retS False) (\<lambda>published.
    bindS (if containsStr clientType ''Sub''
      then bindS (liftS (createConsumer lib broker destName destType)) (\<lambda>_.
        bindS (liftS (listenerChannel d)) (\<lambda>_.
        retS (Some (createUnifiedName destName brokerName))))
      else retS None) (\<lambda>ret.
    if \<not> published \<and> ret = None then liftS (Raise (RuntimeException (''unsupported client type ['' @ clientType @ '']'')))
    else retS ret)))))))"

fun handleDestinations :: "JmsLib \<Rightarrow> (string, JmsBroker) jmap \<Rightarrow> JmsDest list \<Rightarrow> (string list, producers) prog" where
  "handleDestinations lib brokers [] = retS []"
| "handleDestinations lib brokers (d # ds) =
    bindS (handleDestination lib brokers d) (\<lambda>r.
    bindS (handleDestinations lib brokers ds) (\<lambda>rs. retS ((case r of None \<Rightarrow> [] | Some n \<Rightarrow> [n]) @ rs)))"

text \<open>
  \<open>prepare\<close>: the sub-scripts that name a broker, each with the broker that \<open>start\<close> gives or what it
  raises, and those that name a destination. All brokers are started before any destination is
  handled.
\<close>

datatype JmsFolder = BrokerFolder string "JmsBroker res" | DestFolder JmsDest | OtherFolder

fun startBrokers :: "JmsFolder list \<Rightarrow> (unit, (string, JmsBroker) jmap) prog" where
  "startBrokers [] = retS ()"
| "startBrokers (BrokerFolder name started # fs) =
    (\<lambda>bs. case started of
       Inl e \<Rightarrow> (Raise e, jput name \<lparr>jb_name = name, jb_ts = None, jb_qs = None\<rparr> bs)
     | Inr b \<Rightarrow> startBrokers fs (jput name b bs))"
| "startBrokers (_ # fs) = startBrokers fs"

fun destFolders :: "JmsFolder list \<Rightarrow> JmsDest list" where
  "destFolders [] = []"
| "destFolders (DestFolder d # fs) = (if jd_name d = None then destFolders fs else d # destFolders fs)"
| "destFolders (_ # fs) = destFolders fs"

definition prepareJms :: "JmsLib \<Rightarrow> JmsFolder list \<Rightarrow> (string, JmsBroker) jmap \<Rightarrow> producers
    \<Rightarrow> string list res \<times> (string, JmsBroker) jmap \<times> producers" where
  "prepareJms lib fs brokers ps =
    (case startBrokers fs brokers of
       (Inl e, bs) \<Rightarrow> (Raise e, bs, ps)
     | (Inr _, bs) \<Rightarrow> (let (r, ps') = handleDestinations lib bs (destFolders fs) ps in (r, bs, ps')))"

section \<open>Requests\<close>

text \<open>
  A received message: its kind, properties, the header fields that are not \<open>null\<close>, the body the
  convertor makes of it, and the name of the destination to reply to.
\<close>

record JmsIn =
  ji_kind :: string
  ji_props :: "string + ctx"
  ji_fields :: ctx
  ji_body :: "string option res"
  ji_replyTo :: "string + string option"
  ji_message :: JmsMessage

definition jmsTopLine :: "string \<Rightarrow> string" where
  "jmsTopLine kind =
    (if kind \<in> {''TextMessage'', ''BytesMessage'', ''ObjectMessage''} then kind else ''OtherMessage'')"

definition jmsHeaderLine :: "(jval \<Rightarrow> string) \<Rightarrow> ctx \<Rightarrow> string \<Rightarrow> string" where
  "jmsHeaderLine toStr headers header =
    header @ '': '' @ (case jget headers header of None \<Rightarrow> [] | Some v \<Rightarrow> if v = JNull then [] else toStr v)"

definition newJMSSimRequest :: "(jval \<Rightarrow> string) \<Rightarrow> JmsIn \<Rightarrow> SimRequest res" where
  "newJMSSimRequest toStr ji =
    bindE (asIO (ji_props ji)) (\<lambda>props.
    bindE (ji_body ji) (\<lambda>body.
      let headers = jputAll (jputAll [] props) (ji_fields ji) in
      Ret \<lparr>req_topLine = Some (jmsTopLine (ji_kind ji)), req_headerNames = map fst headers,
        req_headerLine = (\<lambda>h. Some (jmsHeaderLine toStr headers h)), req_authLine = None, req_body = body\<rparr>))"

section \<open>Responses\<close>

definition HEADER_NAME_MESSAGE_TYPE :: string where "HEADER_NAME_MESSAGE_TYPE = ''_Message.Type''"

text \<open>The producer for the destination a message wants its reply at; a missing one is created.\<close>

definition replyProducer :: "JmsLib \<Rightarrow> nat option \<Rightarrow> string \<Rightarrow> JmsIn \<Rightarrow> (string, producers) prog" where
  "replyProducer lib session unifiedDestName ji =
    bindS (liftS (asIO (ji_replyTo ji))) (\<lambda>replyTo.
    case replyTo of
      None \<Rightarrow> liftS (Raise NullPointerException)
    | Some dest \<Rightarrow>
        bindS (liftS (getBrokerName unifiedDestName)) (\<lambda>brokerName ps.
          let name = createUnifiedName dest brokerName in
          case jget ps name of
            Some p \<Rightarrow> (Ret name, ps)
          | None \<Rightarrow>
              (case onSession session (\<lambda>s. asIO (jl_createProducer lib s dest)) of
                 Inl e \<Rightarrow> (Raise e, ps)
               | Inr p \<Rightarrow> (Ret name, jput name \<lparr>jp_session = session, jp_id = p\<rparr> ps))))"

text \<open>\<open>JMSSimRequest.doFillResponse\<close>: the channel of the response, and the own simulator as its target.\<close>

definition jmsDoFill :: "JmsLib \<Rightarrow> string \<Rightarrow> nat option \<Rightarrow> string \<Rightarrow> JmsIn \<Rightarrow> SimResponse \<Rightarrow> (SimResponse, producers) prog" where
  "jmsDoFill lib simulator session unifiedDestName ji response =
    bindS (liftS (castString (jget (resp_headers response) HEADER_NAME_CHANNEL))) (\<lambda>channel.
    bindS (case channel of
        None \<Rightarrow> retS (jput HEADER_NAME_CHANNEL (JStr unifiedDestName) (resp_headers response))
      | Some ch \<Rightarrow>
          if ch = ''JMSReplyTo''
          then bindS (replyProducer lib session unifiedDestName ji) (\<lambda>name.
            retS (jput HEADER_NAME_CHANNEL (JStr name) (resp_headers response)))
          else retS (resp_headers response)) (\<lambda>headers.
      retS (response\<lparr>resp_headers := jput HEADER_NAME_RESPONSE_TARGETSIMULATOR (JStr simulator) headers\<rparr>)))"

definition messageKind :: "string option \<Rightarrow> string res" where
  "messageKind type =
    (case type of
       None \<Rightarrow> Ret ''TextMessage''
     | Some t \<Rightarrow>
         if t = ''Text'' then Ret ''TextMessage''
         else if t = ''Bytes'' then Ret ''BytesMessage''
         else if t = ''Object'' then Ret ''ObjectMessage''
         else if t = ''Map'' then Ret ''MapMessage''
         else Raise (IOException (''javax.jms.JMSException: can't support message type ['' @ t @ '']'')))"

fun setProperties :: "JmsLib \<Rightarrow> ctx \<Rightarrow> JmsMessage \<Rightarrow> JmsMessage res" where
  "setProperties lib [] msg = Ret msg"
| "setProperties lib ((k, v) # hs) msg = bindE (asIO (jl_setProperty lib k v msg)) (setProperties lib hs)"

text \<open>
  \<open>JMSSimulator.fillResponse\<close>: the producer and the message to be sent by it. \<open>fillRaw\<close> is the message
  convertor.
\<close>

definition jmsOutgoing :: "JmsLib \<Rightarrow> (SimResponse \<Rightarrow> JmsMessage \<Rightarrow> JmsMessage res) \<Rightarrow> producers \<Rightarrow> SimResponse
    \<Rightarrow> (JmsProducer \<times> JmsMessage) res" where
  "jmsOutgoing lib fillRaw ps response =
    bindE (castString (jget (resp_headers response) HEADER_NAME_CHANNEL)) (\<lambda>channel.
    case (case channel of None \<Rightarrow> None | Some ch \<Rightarrow> jget ps ch) of
      None \<Rightarrow> Raise (IOException (''can not find producer for channel ['' @
        (case channel of None \<Rightarrow> ''null'' | Some ch \<Rightarrow> ch) @ '']''))
    | Some producer \<Rightarrow>
        (let headers = jremove HEADER_NAME_CHANNEL (resp_headers response) in
         bindE (castString (jget headers HEADER_NAME_MESSAGE_TYPE)) (\<lambda>messageType.
         bindE (messageKind messageType) (\<lambda>kind.
         bindE (onSession (jp_session producer) (\<lambda>s. asIO (jl_createMessage lib s kind))) (\<lambda>msg.
           let response' = response\<lparr>resp_headers := jremove HEADER_NAME_MESSAGE_TYPE headers\<rparr> in
           bindE (setProperties lib (getAllPublicHeaders response') msg) (\<lambda>msg'.
           bindE (fillRaw response' msg') (\<lambda>msg''. Ret (producer, msg''))))))))"

datatype JmsEffect =
    JmsSend nat JmsMessage
  | JmsNotify "SimResponse list" bool

definition jmsFillResponse :: "JmsLib \<Rightarrow> (SimResponse \<Rightarrow> JmsMessage \<Rightarrow> JmsMessage res) \<Rightarrow> producers \<Rightarrow> SimResponse
    \<Rightarrow> (unit, JmsEffect list) prog" where
  "jmsFillResponse lib fillRaw ps response =
    bindS (liftS (jmsOutgoing lib fillRaw ps response)) (\<lambda>(producer, msg) w.
      case asIO (jl_send lib (jp_id producer) msg) of
        Inl e \<Rightarrow> (Raise e, w)
      | Inr _ \<Rightarrow> (Ret (), w @ [JmsSend (jp_id producer) msg]))"

section \<open>Listeners\<close>

text \<open>
  The world of the listeners: the producers, the temporary queues that stand for the destinations of
  proxied messages, and the effects. A temporary queue has a \<open>TempMessageListener\<close>; every listener has
  queues of its own, filed under its number.
\<close>

record JmsWorld =
  jw_producers :: producers
  jw_consumers :: "(nat \<times> string, string) jmap"
  jw_effects :: "JmsEffect list"

record JmsListener =
  jn_number :: nat
  jn_session :: "nat option"
  jn_proxyChannel :: "string option"

definition jmsNotify :: "SimResponse list \<Rightarrow> JmsWorld \<Rightarrow> JmsWorld" where
  "jmsNotify respList w = w\<lparr>jw_effects := jw_effects w @ [JmsNotify respList (respList \<noteq> [])]\<rparr>"

definition jmsSend :: "JmsLib \<Rightarrow> JmsProducer \<Rightarrow> JmsMessage \<Rightarrow> (unit, JmsWorld) prog" where
  "jmsSend lib p msg w =
    (case asIO (jl_send lib (jp_id p) msg) of
       Inl e \<Rightarrow> (Raise e, w)
     | Inr _ \<Rightarrow> (Ret (), w\<lparr>jw_effects := jw_effects w @ [JmsSend (jp_id p) msg]\<rparr>))"

text \<open>The queue that stands for the destination to reply to, made when it is first needed.\<close>

definition temporaryReply :: "JmsLib \<Rightarrow> JmsListener \<Rightarrow> JmsProducer \<Rightarrow> string \<Rightarrow> (string, JmsWorld) prog" where
  "temporaryReply lib l p dest w =
    (case jget (jw_consumers w) (jn_number l, dest) of
       Some temp \<Rightarrow> (Ret temp, w)
     | None \<Rightarrow>
         (case bindE (onSession (jp_session p) (\<lambda>s. asIO (jl_temporaryQueue lib s))) (\<lambda>temp.
                 bindE (onSession (jn_session l) (\<lambda>s. asIO (jl_createConsumer lib s temp))) (\<lambda>_. Ret temp)) of
            Inl e \<Rightarrow> (Raise e, w)
          | Inr temp \<Rightarrow> (Ret temp, w\<lparr>jw_consumers := jput (jn_number l, dest) temp (jw_consumers w)\<rparr>)))"

definition proxyMessage :: "JmsLib \<Rightarrow> JmsListener \<Rightarrow> string \<Rightarrow> JmsIn \<Rightarrow> (unit, JmsWorld) prog" where
  "proxyMessage lib l proxyChannel ji w =
    (case jget (jw_producers w) proxyChannel of
       None \<Rightarrow> (Raise (IOException (''can not find producer for channel ['' @ proxyChannel @ '']'')), w)
     | Some p \<Rightarrow>
         bindS (liftS (asIO (ji_replyTo ji))) (\<lambda>replyTo.
         bindS (case replyTo of
             None \<Rightarrow> retS (ji_message ji)
           | Some dest \<Rightarrow> bindS (temporaryReply lib l p dest) (\<lambda>temp. retS ((ji_message ji)\<lparr>jm_replyTo := Some temp\<rparr>))) (\<lambda>msg.
           jmsSend lib p msg)) w)"

definition proxiedResponse :: "(string \<Rightarrow> bytes) \<Rightarrow> SimResponse" where
  "proxiedResponse getBytes = newSimResponseMessage getBytes ''Unknown due to proxy mechanism''"

text \<open>\<open>SimMessageListener.onMessage\<close>; \<open>made\<close> is the request or what its constructor raised.\<close>

definition listenerOnMessage :: "JmsLib \<Rightarrow> (string \<Rightarrow> bytes) \<Rightarrow> JmsListener \<Rightarrow> (SimRequest \<Rightarrow> (SimResponse list, JmsWorld) prog)
    \<Rightarrow> SimRequest res \<Rightarrow> JmsIn \<Rightarrow> (unit, JmsWorld) prog" where
  "listenerOnMessage lib getBytes l gen made ji w =
    (case made of
       Inl e \<Rightarrow> (Ret (), w)
     | Inr request \<Rightarrow>
         (case gen request w of
            (Inr respList, w1) \<Rightarrow> (Ret (), jmsNotify respList w1)
          | (Inl e, w1) \<Rightarrow>
              (case jn_proxyChannel l of
                 None \<Rightarrow> (Ret (), jmsNotify [] w1)
               | Some ch \<Rightarrow>
                   (case proxyMessage lib l ch ji w1 of
                      (Inr _, w2) \<Rightarrow> (Ret (), jmsNotify [proxiedResponse getBytes] w2)
                    | (Inl e', w2) \<Rightarrow>
                        if isIOException e' then (Ret (), jmsNotify [] w2) else (Raise e', w2)))))"

text \<open>\<open>TempMessageListener.onMessage\<close>: a reply of the proxied side goes on to the real destination.\<close>

definition tempProducer :: "JmsLib \<Rightarrow> nat option \<Rightarrow> string \<Rightarrow> string \<Rightarrow> (JmsProducer, JmsWorld) prog" where
  "tempProducer lib session dest brokerName w =
    (let name = createUnifiedName dest brokerName in
     case jget (jw_producers w) name of
       Some p \<Rightarrow> (Ret p, w)
     | None \<Rightarrow>
         (case onSession session (\<lambda>s. asIO (jl_createProducer lib s dest)) of
            Inl e \<Rightarrow> (Raise e, w)
          | Inr n \<Rightarrow>
              (let p = \<lparr>jp_session = session, jp_id = n\<rparr> in
               (Ret p, w\<lparr>jw_producers := jput name p (jw_producers w)\<rparr>))))"

definition tempOnMessage :: "JmsLib \<Rightarrow> (string \<Rightarrow> bytes) \<Rightarrow> nat option \<Rightarrow> string \<Rightarrow> string option \<Rightarrow> SimRequest res \<Rightarrow> JmsIn
    \<Rightarrow> (unit, JmsWorld) prog" where
  "tempOnMessage lib getBytes session dest broker made ji w =
    (case bindS (liftS (mandatory broker ''no destination broker defined'')) (\<lambda>brokerName.
          bindS (liftS made) (\<lambda>request.
          bindS (tempProducer lib session dest brokerName) (\<lambda>p. jmsSend lib p (ji_message ji)))) w of
       (Inr _, w1) \<Rightarrow> (Ret (), jmsNotify [proxiedResponse getBytes] w1)
     | (Inl e, w1) \<Rightarrow> if isIOException e then (Ret (), jmsNotify [] w1) else (Raise e, w1))"

end
