(* ===== verification/JmsSpec.thy ===== *)
theory JmsSpec
  imports Jms SessionLess
begin

text \<open>
  The JMS simulator: which producers and consumers its destinations give it, and the producer each
  response goes through.
\<close>

section \<open>Destinations\<close>

definition isPub :: "JmsDest \<Rightarrow> bool" where
  "isPub d \<longleftrightarrow> (case jd_client d of None \<Rightarrow> False | Some t \<Rightarrow> containsStr t ''Pub'')"

definition isSub :: "JmsDest \<Rightarrow> bool" where
  "isSub d \<longleftrightarrow> (case jd_client d of None \<Rightarrow> False | Some t \<Rightarrow> containsStr t ''Sub'')"

definition unified :: "JmsDest \<Rightarrow> string" where
  "unified d = (case jd_name d of None \<Rightarrow> [] | Some n \<Rightarrow> (case jd_broker d of None \<Rightarrow> [] | Some b \<Rightarrow> createUnifiedName n b))"

lemma mandatory_Ret [simp]: "mandatory prop m = Inr v \<longleftrightarrow> prop = Some v"
  by (simp add: mandatory_def split: option.split)

definition filedAfter :: "JmsDest \<Rightarrow> producers \<Rightarrow> producers \<Rightarrow> bool" where
  "filedAfter d ps ps' \<longleftrightarrow> (\<exists>p. ps' = (if isPub d then jput (unified d) p ps else ps))"

lemma handleDestination_Ret:
  assumes "handleDestination lib brokers d ps = (Inr r, ps')"
  shows "r = (if isSub d then Some (unified d) else None)" and "filedAfter d ps ps'" and "isPub d \<or> isSub d"
  using assms unfolding handleDestination_def
  by (auto simp: isPub_def isSub_def unified_def filedAfter_def elim!: res_elims split: option.splits if_splits)
    (rule exI, rule refl)+

lemma filedAfter_get:
  "filedAfter d ps ps' \<Longrightarrow> isPub d \<Longrightarrow> jget ps' (unified d) \<noteq> None"
  "filedAfter d ps ps' \<Longrightarrow> jget ps n \<noteq> None \<Longrightarrow> jget ps' n \<noteq> None"
  by (auto simp: filedAfter_def jm.get_put)

lemma handleDestinations_keep:
  "handleDestinations lib brokers ds ps = (Inr names, ps') \<Longrightarrow> jget ps n \<noteq> None \<Longrightarrow> jget ps' n \<noteq> None"
  by (induction ds arbitrary: ps names)
    (auto elim!: res_elims dest!: handleDestination_Ret(2) dest: filedAfter_get(2))

lemma handleDestinations_filed:
  "handleDestinations lib brokers ds ps = (Inr names, ps') \<Longrightarrow> d \<in> set ds \<Longrightarrow> isPub d \<Longrightarrow> jget ps' (unified d) \<noteq> None"
proof (induction ds arbitrary: ps names)
  case (Cons d' ds)
  from Cons.prems(1) obtain r ps1 rs where one: "handleDestination lib brokers d' ps = (Inr r, ps1)"
    and rest: "handleDestinations lib brokers ds ps1 = (Inr rs, ps')" by (auto elim!: res_elims)
  show ?case
  proof (cases "d = d'")
    case True
    then show ?thesis using handleDestinations_keep [OF rest] filedAfter_get(1) handleDestination_Ret(2) [OF one] Cons.prems(3) by blast
  next
    case False
    then show ?thesis using Cons.IH [OF rest] Cons.prems by simp
  qed
qed simp

lemma handleDestinations_names:
  "handleDestinations lib brokers ds ps = (Inr names, ps') \<Longrightarrow> names = map unified (filter isSub ds)"
  by (induction ds arbitrary: ps names) (auto elim!: res_elims dest!: handleDestination_Ret(1) split: if_splits)

section \<open>Responses\<close>

definition jmsChannel :: "SimResponse \<Rightarrow> jval option" where
  "jmsChannel response = jget (resp_headers response) HEADER_NAME_CHANNEL"

lemma channel_not_target: "HEADER_NAME_CHANNEL \<noteq> HEADER_NAME_RESPONSE_TARGETSIMULATOR"
  by code_simp

lemma jmsDoFill_none:
  assumes "jmsChannel response = None"
  shows "\<exists>response'. jmsDoFill lib sim session u ji response ps = (Ret response', ps) \<and> jmsChannel response' = Some (JStr u)
    \<and> jget (resp_headers response') HEADER_NAME_RESPONSE_TARGETSIMULATOR = Some (JStr sim)"
  using assms channel_not_target by (simp add: jmsDoFill_def jmsChannel_def castString_def)

lemma replyProducer_Ret:
  assumes "replyProducer lib session u ji ps = (Inr name, ps')"
  shows "\<exists>dest b. ji_replyTo ji = Inr (Some dest) \<and> getBrokerName u = Ret b \<and> name = createUnifiedName dest b"
    and "jget ps' name \<noteq> None" and "jget ps n \<noteq> None \<Longrightarrow> jget ps' n = jget ps n"
  using assms unfolding replyProducer_def
  by (cases "ji_replyTo ji"; auto simp: Let_def jm.get_put elim!: res_elims split: option.splits sum.splits)+

lemma jmsDoFill_replyTo:
  assumes "jmsDoFill lib sim session u ji response ps = (Inr response', ps')"
    and "jmsChannel response = Some (JStr ''JMSReplyTo'')"
  obtains name where "replyProducer lib session u ji ps = (Inr name, ps')" and "jmsChannel response' = Some (JStr name)"
  using assms channel_not_target
  by (auto simp: jmsDoFill_def jmsChannel_def castString_def elim!: res_elims)

text \<open>A response whose channel has a producer gets no further than that producer.\<close>

lemma jmsOutgoing_producer:
  "jmsChannel response = Some (JStr ch) \<Longrightarrow> jmsOutgoing lib fillRaw ps response = Inr (p, msg) \<Longrightarrow> jget ps ch = Some p"
  by (auto simp: jmsOutgoing_def jmsChannel_def castString_def Let_def elim!: res_elims split: option.splits)

lemma jmsFillResponse_sends:
  "jmsFillResponse lib fillRaw ps response w = (Inr x, w') \<Longrightarrow>
    \<exists>p msg. jmsOutgoing lib fillRaw ps response = Inr (p, msg) \<and> w' = w @ [JmsSend (jp_id p) msg]"
  by (auto simp: jmsFillResponse_def elim!: res_elims split: sum.splits)

text \<open>C40: once the destinations of a script are handled, the names it subscribes to are those of its
  \<open>Sub\<close> destinations in their order. A response without a channel to a request from a destination
  that is also \<open>Pub\<close> is addressed to that destination, and can only be sent by the producer filed
  for it.\<close>

theorem jms_destinations_answered:
  assumes "handleDestinations lib brokers ds ps = (Ret names, ps')"
    and "d \<in> set ds" and "isPub d" and "jmsChannel response = None"
  shows "names = map unified (filter isSub ds) \<and>
    (\<exists>p response'. jget ps' (unified d) = Some p
      \<and> jmsDoFill lib sim session (unified d) ji response ps' = (Ret response', ps')
      \<and> (\<forall>w x w'. jmsFillResponse lib' fillRaw ps' response' w = (Ret x, w') \<longrightarrow> (\<exists>msg. w' = w @ [JmsSend (jp_id p) msg])))"
proof -
  obtain p where p: "jget ps' (unified d) = Some p" using handleDestinations_filed assms(1-3) by blast
  obtain response' where r: "jmsDoFill lib sim session (unified d) ji response ps' = (Ret response', ps')"
    and ch: "jmsChannel response' = Some (JStr (unified d))" using jmsDoFill_none assms(4) by blast
  have "\<exists>msg. w' = w @ [JmsSend (jp_id p) msg]" if s: "jmsFillResponse lib' fillRaw ps' response' w = (Ret x, w')" for w x w'
  proof -
    obtain q msg where q: "jmsOutgoing lib' fillRaw ps' response' = Inr (q, msg)" and w': "w' = w @ [JmsSend (jp_id q) msg]"
      using jmsFillResponse_sends [of lib' fillRaw ps' response' w x w'] s by auto
    have "q = p" using jmsOutgoing_producer [OF ch q] p by simp
    then show ?thesis using w' by blast
  qed
  moreover have "names = map unified (filter isSub ds)" using handleDestinations_names assms(1) by simp
  ultimately show ?thesis using p r by blast
qed

text \<open>A response to \<open>JMSReplyTo\<close> that could be addressed has a producer, and no producer is replaced.\<close>

lemma jms_replyTo_producer:
  assumes "jmsDoFill lib sim session u ji response ps = (Inr response', ps')"
    and "jmsChannel response = Some (JStr ''JMSReplyTo'')"
  shows "\<exists>name. jmsChannel response' = Some (JStr name) \<and> jget ps' name \<noteq> None \<and> (\<forall>n. jget ps n \<noteq> None \<longrightarrow> jget ps' n = jget ps n)"
  using assms
proof (rule jmsDoFill_replyTo)
  fix name
  assume "replyProducer lib session u ji ps = (Inr name, ps')" and "jmsChannel response' = Some (JStr name)"
  then show ?thesis using replyProducer_Ret(2,3) by metis
qed

text \<open>The contract of a session-less simulator.\<close>

lemma jmsFillResponse_raises: "jmsFillResponse lib fillRaw ps r w = (Inl e, w') \<Longrightarrow> w' = w"
  by (auto simp: jmsFillResponse_def bindS_apply split: sum.splits)

lemma jmsOutgoing_channel: "jmsOutgoing lib fillRaw ps r = Inr x \<Longrightarrow> \<exists>ch. jmsChannel r = Some (JStr ch)"
  by (auto simp: jmsOutgoing_def jmsChannel_def castString_def elim!: res_elims split: option.splits jval.splits)

interpretation jmsRoute: session_less "jmsFillResponse lib fillRaw ps" "jget ps" "\<lambda>p e. \<exists>msg. e = JmsSend (jp_id p) msg"
  for lib fillRaw ps
proof unfold_locales
  fix r w u w'
  assume s: "jmsFillResponse lib fillRaw ps r w = (Inr u, w')"
  obtain p msg where o: "jmsOutgoing lib fillRaw ps r = Inr (p, msg)" and w': "w' = w @ [JmsSend (jp_id p) msg]"
    using jmsFillResponse_sends [OF s] by blast
  obtain ch where ch: "jmsChannel r = Some (JStr ch)" using jmsOutgoing_channel [OF o] by blast
  show "\<exists>ch p es. jget (resp_headers r) HEADER_NAME_CHANNEL = Some (JStr ch) \<and> jget ps ch = Some p
      \<and> w' = w @ es \<and> es \<noteq> [] \<and> (\<forall>e \<in> set es. \<exists>msg. e = JmsSend (jp_id p) msg)"
    using ch jmsOutgoing_producer [OF ch o] w'
    by (intro exI [of _ ch] exI [of _ p] exI [of _ "[JmsSend (jp_id p) msg]"]) (simp add: jmsChannel_def)
qed (rule jmsFillResponse_raises)

section \<open>Proxied messages\<close>

text \<open>The queue that stands for a destination stays the same.\<close>

lemma temporaryReply_again:
  assumes "temporaryReply lib l p dest w = (Inr temp, w1)"
  shows "temporaryReply lib' l p' dest w1 = (Ret temp, w1)"
  using assms by (auto simp: temporaryReply_def split: option.splits sum.splits)

lemma temporaryReply_effects: "jw_effects (snd (temporaryReply lib l p dest w)) = jw_effects w"
  by (simp add: temporaryReply_def split: option.split sum.split)

section \<open>Samples\<close>

definition sampleLib :: JmsLib where
  "sampleLib = \<lparr>jl_lookup = (\<lambda>b n. Inr (Some n)), jl_createProducer = (\<lambda>s d. Inr (length d)),
    jl_createConsumer = (\<lambda>s d. Inr 1),
    jl_createMessage = (\<lambda>s k. Inr \<lparr>jm_kind = k, jm_props = [], jm_body = [], jm_replyTo = None\<rparr>),
    jl_setProperty = (\<lambda>k v m. Inr (m\<lparr>jm_props := jput k v (jm_props m)\<rparr>)), jl_temporaryQueue = (\<lambda>s. Inr ''t''),
    jl_send = (\<lambda>n m. Inr ())\<rparr>"

definition sampleDest :: JmsDest where
  "sampleDest = \<lparr>jd_name = Some ''d'', jd_type = Some ''Queue'', jd_client = Some ''PubSub'', jd_broker = Some ''b'',
    jd_proxy = False, jd_proxyChannel = None\<rparr>"

definition sampleBroker :: JmsBroker where
  "sampleBroker = \<lparr>jb_name = ''b'', jb_ts = None, jb_qs = Some 7\<rparr>"

lemma sampleDest_handled:
  "handleDestinations sampleLib [(''b'', sampleBroker)] [sampleDest] [] = (Ret [''d@b''], [(''d@b'', \<lparr>jp_session = Some 7, jp_id = 1\<rparr>)])"
  by code_simp

definition sampleIn :: JmsIn where
  "sampleIn = \<lparr>ji_kind = ''TextMessage'', ji_props = Inr [], ji_fields = [], ji_body = Ret (Some ''x''), ji_replyTo = Inr None,
    ji_message = \<lparr>jm_kind = ''TextMessage'', jm_props = [], jm_body = [], jm_replyTo = None\<rparr>\<rparr>"

theorem jms_destinations_answered_witness:
  "\<exists>p response'. jget [(''d@b'', \<lparr>jp_session = Some 7, jp_id = 1\<rparr>)] (unified sampleDest) = Some p
    \<and> jmsDoFill sampleLib ''s'' None (unified sampleDest) sampleIn \<lparr>resp_code = 200, resp_headers = [], resp_body = None\<rparr>
        [(''d@b'', \<lparr>jp_session = Some 7, jp_id = 1\<rparr>)] = (Ret response', [(''d@b'', \<lparr>jp_session = Some 7, jp_id = 1\<rparr>)])
    \<and> (\<forall>w x w'. jmsFillResponse sampleLib (\<lambda>r m. Ret m) [(''d@b'', \<lparr>jp_session = Some 7, jp_id = 1\<rparr>)] response' w = (Ret x, w')
        \<longrightarrow> (\<exists>msg. w' = w @ [JmsSend (jp_id p) msg]))"
  by (rule jms_destinations_answered [OF sampleDest_handled, THEN conjunct2])
    (code_simp | simp add: jmsChannel_def)+

end
