(* ===== verification/Kafka.thy ===== *)
theory Kafka
  imports Jms Local
begin

text \<open>
  The package \<open>kafka\<close>: brokers with their publishers and subscribers, their start and stop, the loop
  that listens to a topic, requests made of records, the routing of responses, and the proxy.

  The Kafka library is a record of its calls; what a call raises is its left value.
\<close>

section \<open>The library\<close>

record KafkaRecord =
  kr_topic :: string
  kr_key :: jval
  kr_value :: jval
  kr_headers :: "(string \<times> bytes) list"

text \<open>
  The constructors of producers and consumers, by the name of the endpoint, \<open>subscribe\<close>, the two
  \<open>close\<close>, \<open>send\<close>; the conversions of the Java library.
\<close>

record KafkaLib =
  kl_newProducer :: "string \<Rightarrow> unit res"
  kl_newConsumer :: "string \<Rightarrow> unit res"
  kl_subscribe :: "string \<Rightarrow> string list \<Rightarrow> unit res"
  kl_close :: "string \<Rightarrow> unit res"
  kl_send :: "KafkaRecord \<Rightarrow> unit res"
  kl_getBytes :: "string \<Rightarrow> bytes"
  kl_newString :: "bytes \<Rightarrow> string"
  kl_toString :: "jval \<Rightarrow> string"
  kl_causeText :: "jerror \<Rightarrow> string"

section \<open>Publishers and subscribers\<close>

record KafkaPublisher =
  kp_name :: string
  kp_topic :: string
  kp_producer :: bool

definition startPublisher :: "KafkaLib \<Rightarrow> (unit, KafkaPublisher) prog" where
  "startPublisher lib p =
    (if kp_producer p then (Ret (), p)
     else case kl_newProducer lib (kp_name p) of
       Inl e \<Rightarrow> (Raise e, p)
     | Inr _ \<Rightarrow> (Ret (), p\<lparr>kp_producer := True\<rparr>))"

definition stopPublisher :: "KafkaLib \<Rightarrow> (unit, KafkaPublisher) prog" where
  "stopPublisher lib p =
    (if kp_producer p then
       (case kl_close lib (kp_name p) of
          Inl e \<Rightarrow> (Raise e, p)
        | Inr _ \<Rightarrow> (Ret (), p\<lparr>kp_producer := False\<rparr>))
     else (Ret (), p))"

text \<open>\<open>ks_listening\<close>: the thread that listens is alive.\<close>

record KafkaSubscriber =
  ks_name :: string
  ks_topics :: "string list"
  ks_autoCommit :: bool
  ks_proxyChannel :: "string option"
  ks_consumer :: bool
  ks_running :: bool
  ks_listening :: bool

definition startSubscriber :: "KafkaLib \<Rightarrow> (unit, KafkaSubscriber) prog" where
  "startSubscriber lib s =
    (if ks_consumer s then (Ret (), s)
     else case kl_newConsumer lib (ks_name s) of
       Inl e \<Rightarrow> (Raise e, s)
     | Inr _ \<Rightarrow>
         (case kl_subscribe lib (ks_name s) (ks_topics s) of
            Inl e \<Rightarrow> (Raise e, s\<lparr>ks_consumer := True\<rparr>)
          | Inr _ \<Rightarrow> (Ret (), s\<lparr>ks_consumer := True, ks_running := True, ks_listening := True\<rparr>)))"

text \<open>\<open>stop\<close> waits for the thread, which ends when it sees that \<open>running\<close> is unset.\<close>

definition stopSubscriber :: "KafkaLib \<Rightarrow> (unit, KafkaSubscriber) prog" where
  "stopSubscriber lib s =
    (let s' = s\<lparr>ks_running := False, ks_listening := False\<rparr> in
     if ks_consumer s then
       (case kl_close lib (ks_name s) of
          Inl e \<Rightarrow> (Raise e, s')
        | Inr _ \<Rightarrow> (Ret (), s'\<lparr>ks_consumer := False\<rparr>))
     else (Ret (), s'))"

section \<open>Brokers\<close>

record KafkaBroker =
  kb_name :: string
  kb_publishers :: "(string, KafkaPublisher) jmap"
  kb_subscribers :: "(string, KafkaSubscriber) jmap"

text \<open>A loop over the values of a map; it ends with the first exception.\<close>

fun forValues :: "(unit, 'x) prog \<Rightarrow> (unit, (string, 'x) jmap) prog" where
  "forValues f [] = (Ret (), [])"
| "forValues f ((k, x) # m) =
    (case f x of
       (Inl e, x') \<Rightarrow> (Raise e, (k, x') # m)
     | (Inr _, x') \<Rightarrow> (let (r, m') = forValues f m in (r, (k, x') # m')))"

definition forPublishers :: "(unit, KafkaPublisher) prog \<Rightarrow> (unit, KafkaBroker) prog" where
  "forPublishers f b = (let (r, m) = forValues f (kb_publishers b) in (r, b\<lparr>kb_publishers := m\<rparr>))"

definition forSubscribers :: "(unit, KafkaSubscriber) prog \<Rightarrow> (unit, KafkaBroker) prog" where
  "forSubscribers f b = (let (r, m) = forValues f (kb_subscribers b) in (r, b\<lparr>kb_subscribers := m\<rparr>))"

definition stopBroker :: "KafkaLib \<Rightarrow> (unit, KafkaBroker) prog" where
  "stopBroker lib = bindS (forPublishers (stopPublisher lib)) (\<lambda>_. forSubscribers (stopSubscriber lib))"

text \<open>An exception of \<open>stop\<close> replaces the one of the start.\<close>

definition startBroker :: "KafkaLib \<Rightarrow> (unit, KafkaBroker) prog" where
  "startBroker lib b =
    (case bindS (forPublishers (startPublisher lib)) (\<lambda>_. forSubscribers (startSubscriber lib)) b of
       (Inr _, b') \<Rightarrow> (Ret (), b')
     | (Inl e, b') \<Rightarrow>
         (case stopBroker lib b' of
            (Inl e', b'') \<Rightarrow> (Raise e', b'')
          | (Inr _, b'') \<Rightarrow> (Raise (if isIOException e then e else IOException (kl_causeText lib e)), b'')))"

section \<open>Preparing the brokers\<close>

type_synonym brokers = "(string, KafkaBroker) jmap"

record KafkaEndpoint =
  ke_name :: "string option"
  ke_type :: "string option"
  ke_broker :: "string option"
  ke_topic :: "string option"
  ke_topics :: "string option"
  ke_autoCommit :: bool
  ke_proxy :: bool
  ke_proxyChannel :: "string option"

definition newPublisher :: "KafkaBroker \<Rightarrow> KafkaEndpoint \<Rightarrow> KafkaPublisher res" where
  "newPublisher b d =
    bindE (mandatory (ke_name d) ''no publisher name defined'') (\<lambda>localName.
    bindE (mandatory (ke_topic d) ''no publisher topic defined'') (\<lambda>topic.
      Ret \<lparr>kp_name = createUnifiedName localName (kb_name b), kp_topic = topic, kp_producer = False\<rparr>))"

text \<open>Blank topics are left out; the others are taken as they stand, with the blanks around them.\<close>

definition topicList :: "string \<Rightarrow> string list" where
  "topicList topicsStr = filter (\<lambda>s. trim s \<noteq> []) (split CHR '','' topicsStr)"

definition newSubscriber :: "KafkaBroker \<Rightarrow> KafkaEndpoint \<Rightarrow> KafkaSubscriber res" where
  "newSubscriber b d =
    bindE (mandatory (ke_name d) ''no subscriber name defined'') (\<lambda>localName.
    bindE (mandatory (ke_topics d) ''no subscriber topics defined'') (\<lambda>topicsStr.
    bindE (if ke_proxy d
           then bindE (mandatory (ke_proxyChannel d) ''no proxy channel defined'') (\<lambda>ch. Ret (Some ch))
           else Ret None) (\<lambda>proxyChannel.
      Ret \<lparr>ks_name = createUnifiedName localName (kb_name b), ks_topics = topicList topicsStr,
        ks_autoCommit = ke_autoCommit d, ks_proxyChannel = proxyChannel, ks_consumer = False, ks_running = False,
        ks_listening = False\<rparr>)))"

definition addPublisher :: "KafkaPublisher \<Rightarrow> KafkaBroker \<Rightarrow> KafkaBroker" where
  "addPublisher p b = b\<lparr>kb_publishers := jput (kp_name p) p (kb_publishers b)\<rparr>"

definition addSubscriber :: "KafkaSubscriber \<Rightarrow> KafkaBroker \<Rightarrow> KafkaBroker" where
  "addSubscriber s b = b\<lparr>kb_subscribers := jput (ks_name s) s (kb_subscribers b)\<rparr>"

definition handleEndpoint :: "KafkaEndpoint \<Rightarrow> (string option, brokers) prog" where
  "handleEndpoint d =
    bindS (liftS (mandatory (ke_type d) ''no endpoint type defined'')) (\<lambda>endpointType.
    bindS (liftS (mandatory (ke_broker d) ''no endpoint broker defined'')) (\<lambda>brokerName bs.
      case jget bs brokerName of
        None \<Rightarrow> (Raise (RuntimeException (''can not find broker ['' @ brokerName @ '']'')), bs)
      | Some b \<Rightarrow>
          if endpointType = ''Pub'' then
            (case newPublisher b d of
               Inl e \<Rightarrow> (Raise e, bs)
             | Inr p \<Rightarrow> (Ret None, jput brokerName (addPublisher p b) bs))
          else if endpointType = ''Sub'' then
            (case newSubscriber b d of
               Inl e \<Rightarrow> (Raise e, bs)
             | Inr s \<Rightarrow> (Ret (Some (ks_name s)), jput brokerName (addSubscriber s b) bs))
          else (Raise (RuntimeException (''unsupported endpoint type ['' @ endpointType @ '']'')), bs)))"

fun handleEndpoints :: "KafkaEndpoint list \<Rightarrow> (string list, brokers) prog" where
  "handleEndpoints [] = retS []"
| "handleEndpoints (d # ds) =
    bindS (handleEndpoint d) (\<lambda>r.
    bindS (handleEndpoints ds) (\<lambda>rs. retS ((case r of None \<Rightarrow> [] | Some n \<Rightarrow> [n]) @ rs)))"

text \<open>The sub-scripts: a broker has its name and, if it is there, the address of its servers.\<close>

datatype KafkaFolder = KafkaBrokerFolder string "string option" | EndpointFolder KafkaEndpoint | SkippedFolder

fun newBrokers :: "KafkaFolder list \<Rightarrow> (unit, brokers) prog" where
  "newBrokers [] = retS ()"
| "newBrokers (KafkaBrokerFolder name servers # fs) =
    bindS (liftS (mandatory servers ''no simulator.kafka.bootstrap.servers defined'')) (\<lambda>_ bs.
      newBrokers fs (jput name \<lparr>kb_name = name, kb_publishers = [], kb_subscribers = []\<rparr> bs))"
| "newBrokers (_ # fs) = newBrokers fs"

fun endpointFolders :: "KafkaFolder list \<Rightarrow> KafkaEndpoint list" where
  "endpointFolders [] = []"
| "endpointFolders (EndpointFolder d # fs) =
    (if ke_name d = None then endpointFolders fs else d # endpointFolders fs)"
| "endpointFolders (_ # fs) = endpointFolders fs"

definition prepareKafka :: "KafkaFolder list \<Rightarrow> (string list, brokers) prog" where
  "prepareKafka fs = bindS (newBrokers fs) (\<lambda>_. handleEndpoints (endpointFolders fs))"

section \<open>The simulator\<close>

definition kafkaDoStart :: "KafkaLib \<Rightarrow> KafkaFolder list \<Rightarrow> (unit, brokers) prog" where
  "kafkaDoStart lib fs = bindS (prepareKafka fs) (\<lambda>_. forValues (startBroker lib))"

definition kafkaDoStop :: "KafkaLib \<Rightarrow> (unit, brokers) prog" where
  "kafkaDoStop lib = forValues (stopBroker lib)"

section \<open>Requests\<close>

definition HEADER_NAME_MESSGAE_KEY :: string where "HEADER_NAME_MESSGAE_KEY = ''_Message.key''"
definition HEADER_NAME_MESSGAE_TOPIC :: string where "HEADER_NAME_MESSGAE_TOPIC = ''_Message.topic''"

definition kafkaHeaders :: "KafkaLib \<Rightarrow> KafkaRecord \<Rightarrow> ctx" where
  "kafkaHeaders lib record =
    jput HEADER_NAME_MESSGAE_KEY (kr_key record)
      (jputAll [] (map (\<lambda>(name, value). (name, JStr (kl_newString lib value))) (kr_headers record)))"

definition kafkaHeaderLine :: "KafkaLib \<Rightarrow> ctx \<Rightarrow> string \<Rightarrow> string" where
  "kafkaHeaderLine lib headers header =
    header @ '': '' @ (case jget headers header of None \<Rightarrow> [] | Some v \<Rightarrow> if v = JNull then [] else kl_toString lib v)"

text \<open>The default convertor takes the text of the value, which may be \<open>null\<close>.\<close>

definition kafkaBody :: "KafkaLib \<Rightarrow> KafkaRecord \<Rightarrow> string option res" where
  "kafkaBody lib record =
    (if kr_value record = JNull then Raise NullPointerException else Ret (Some (kl_toString lib (kr_value record))))"

definition newKafkaSimRequest :: "KafkaLib \<Rightarrow> (KafkaRecord \<Rightarrow> string option res) \<Rightarrow> KafkaRecord \<Rightarrow> SimRequest res" where
  "newKafkaSimRequest lib toBody record =
    bindE (toBody record) (\<lambda>body.
      let headers = kafkaHeaders lib record in
      Ret \<lparr>req_topLine = Some (kr_topic record), req_headerNames = map fst headers,
        req_headerLine = (\<lambda>h. Some (kafkaHeaderLine lib headers h)), req_authLine = None, req_body = body\<rparr>)"

text \<open>\<open>doFillResponse\<close>: the endpoint the record came from and the own simulator are the defaults.\<close>

definition kafkaDoFill :: "string \<Rightarrow> string \<Rightarrow> SimResponse \<Rightarrow> SimResponse res" where
  "kafkaDoFill simulator unifiedEndpointName response =
    bindE (castString (jget (resp_headers response) HEADER_NAME_CHANNEL)) (\<lambda>channel.
      let headers = (if channel = None then jput HEADER_NAME_CHANNEL (JStr unifiedEndpointName) (resp_headers response)
                     else resp_headers response) in
      bindE (castString (jget headers HEADER_NAME_RESPONSE_TARGETSIMULATOR)) (\<lambda>simulatorName.
        Ret (response\<lparr>resp_headers :=
          (if simulatorName = None then jput HEADER_NAME_RESPONSE_TARGETSIMULATOR (JStr simulator) headers else headers)\<rparr>)))"

section \<open>Responses\<close>

text \<open>\<open>DefaultKafkaReqRespConvertor.fillRawResponse\<close>; a producer record without a topic is refused.\<close>

definition kafkaFillRaw :: "(SimResponse \<Rightarrow> string res) \<Rightarrow> SimResponse \<Rightarrow> KafkaRecord res" where
  "kafkaFillRaw bodyString response =
    bindE (castString (jget (resp_headers response) HEADER_NAME_MESSGAE_TOPIC)) (\<lambda>topic.
    bindE (castString (jget (resp_headers response) HEADER_NAME_MESSGAE_KEY)) (\<lambda>key.
    bindE (bodyString response) (\<lambda>body.
      case topic of
        None \<Rightarrow> Raise (RuntimeException ''Topic cannot be null.'')
      | Some t \<Rightarrow> Ret \<lparr>kr_topic = t, kr_key = (case key of None \<Rightarrow> JNull | Some k \<Rightarrow> JStr k), kr_value = JStr body, kr_headers = []\<rparr>)))"

definition recordHeader :: "KafkaLib \<Rightarrow> string \<times> jval \<Rightarrow> (string \<times> bytes) res" where
  "recordHeader lib e =
    (if snd e = JNull then Raise NullPointerException else Ret (fst e, kl_getBytes lib (kl_toString lib (snd e))))"

text \<open>\<open>KafkaPublisher.sendMessage\<close> for a response; what was sent is the effect.\<close>

definition kafkaSend :: "KafkaLib \<Rightarrow> KafkaPublisher \<Rightarrow> KafkaRecord \<Rightarrow> (unit, KafkaRecord list) prog" where
  "kafkaSend lib p record w =
    (if \<not> kp_producer p then (Raise NullPointerException, w)
     else case kl_send lib record of
       Inl e \<Rightarrow> (Raise e, w)
     | Inr _ \<Rightarrow> (Ret (), w @ [record]))"

definition publishResponse :: "KafkaLib \<Rightarrow> (SimResponse \<Rightarrow> KafkaRecord res) \<Rightarrow> KafkaPublisher \<Rightarrow> SimResponse
    \<Rightarrow> (unit, KafkaRecord list) prog" where
  "publishResponse lib fillRaw p response =
    (let response' = response\<lparr>resp_headers := jput HEADER_NAME_MESSGAE_TOPIC (JStr (kp_topic p)) (resp_headers response)\<rparr> in
     bindS (liftS (fillRaw response')) (\<lambda>record.
     bindS (liftS (mapE (recordHeader lib) (getAllInternalHeaders response'))) (\<lambda>headers.
       kafkaSend lib p (record\<lparr>kr_headers := kr_headers record @ headers\<rparr>))))"

definition publishRecord :: "KafkaLib \<Rightarrow> KafkaPublisher \<Rightarrow> KafkaRecord \<Rightarrow> (unit, KafkaRecord list) prog" where
  "publishRecord lib p record = kafkaSend lib p (record\<lparr>kr_topic := kp_topic p\<rparr>)"

definition findPublisher :: "brokers \<Rightarrow> string \<Rightarrow> KafkaPublisher res" where
  "findPublisher bs channel =
    bindE (getBrokerName channel) (\<lambda>brokerName.
      case jget bs brokerName of
        None \<Rightarrow> Raise (IOException (''no such broker ['' @ brokerName @ ''] exists''))
      | Some b \<Rightarrow>
          (case jget (kb_publishers b) channel of
             None \<Rightarrow> Raise (IOException (''no such publisher ['' @ channel @ ''] exists''))
           | Some p \<Rightarrow> Ret p))"

definition kafkaFillResponse :: "KafkaLib \<Rightarrow> (SimResponse \<Rightarrow> KafkaRecord res) \<Rightarrow> brokers \<Rightarrow> SimResponse
    \<Rightarrow> (unit, KafkaRecord list) prog" where
  "kafkaFillResponse lib fillRaw bs response =
    bindS (liftS (castString (jget (resp_headers response) HEADER_NAME_CHANNEL))) (\<lambda>channel.
      case channel of
        None \<Rightarrow> liftS (Raise (IOException ''no Channel defined to send response to''))
      | Some ch \<Rightarrow> bindS (liftS (findPublisher bs ch)) (\<lambda>p.
          publishResponse lib fillRaw p (response\<lparr>resp_headers := jremove HEADER_NAME_CHANNEL (resp_headers response)\<rparr>)))"

section \<open>Listening\<close>

text \<open>
  The listener of a subscriber. \<open>gen\<close> is \<open>genResponse\<close> and \<open>notify\<close> tells the listeners of the simulator.
  Only an \<open>IOException\<close> of the proxy is caught.
\<close>

record KafkaWorld =
  kw_sent :: "KafkaRecord list"
  kw_notified :: "SimResponse list list"

definition onSent :: "('a, KafkaRecord list) prog \<Rightarrow> ('a, KafkaWorld) prog" where
  "onSent m w = (let (r, sent) = m (kw_sent w) in (r, w\<lparr>kw_sent := sent\<rparr>))"

definition kafkaNotify :: "SimResponse list \<Rightarrow> KafkaWorld \<Rightarrow> KafkaWorld" where
  "kafkaNotify respList w = w\<lparr>kw_notified := kw_notified w @ [respList]\<rparr>"

definition kafkaOnMessage :: "KafkaLib \<Rightarrow> (KafkaRecord \<Rightarrow> string option res) \<Rightarrow> (SimRequest \<Rightarrow> (SimResponse list, KafkaWorld) prog)
    \<Rightarrow> brokers \<Rightarrow> KafkaSubscriber \<Rightarrow> KafkaRecord \<Rightarrow> (unit, KafkaWorld) prog" where
  "kafkaOnMessage lib toBody gen bs sub record w =
    (case newKafkaSimRequest lib toBody record of
       Inl e \<Rightarrow> (Ret (), w)
     | Inr request \<Rightarrow>
         (case gen request w of
            (Inr respList, w1) \<Rightarrow> (Ret (), kafkaNotify respList w1)
          | (Inl e, w1) \<Rightarrow>
              (case ks_proxyChannel sub of
                 None \<Rightarrow> (Ret (), kafkaNotify [] w1)
               | Some ch \<Rightarrow>
                   (case bindS (liftS (findPublisher bs ch)) (\<lambda>p. onSent (publishRecord lib p record)) w1 of
                      (Inr _, w2) \<Rightarrow> (Ret (), kafkaNotify [proxiedResponse (kl_getBytes lib)] w2)
                    | (Inl e', w2) \<Rightarrow> if isIOException e' then (Ret (), kafkaNotify [] w2) else (Raise e', w2)))))"

text \<open>
  The loop of the thread, over the polls it makes while \<open>running\<close> is set; a poll gives records or
  raises. Offsets are committed before the records are handled. An exception ends the thread.
\<close>

fun deliverAll :: "('r \<Rightarrow> (unit, 'w) prog) \<Rightarrow> 'r list \<Rightarrow> (unit, 'w) prog" where
  "deliverAll deliver [] = retS ()"
| "deliverAll deliver (r # rs) = bindS (deliver r) (\<lambda>_. deliverAll deliver rs)"

fun listenLoop :: "bool \<Rightarrow> ('r list \<Rightarrow> (unit, 'w) prog) \<Rightarrow> ('r \<Rightarrow> (unit, 'w) prog) \<Rightarrow> 'r list res list
    \<Rightarrow> (unit, 'w) prog" where
  "listenLoop autoCommit commitSync deliver [] = retS ()"
| "listenLoop autoCommit commitSync deliver (poll # polls) =
    bindS (liftS poll) (\<lambda>records.
    bindS (if autoCommit then retS () else commitSync records) (\<lambda>_.
    bindS (deliverAll deliver records) (\<lambda>_.
      listenLoop autoCommit commitSync deliver polls)))"

end
