(* ===== verification/KafkaSpec.thy ===== *)
theory KafkaSpec
  imports Kafka LifecycleSpec SessionLess
begin

text \<open>
  The Kafka simulator: its start is all or nothing, a response becomes a record of the publisher it
  is addressed to, and what the listening thread loses.
\<close>

section \<open>Loops over the values of a map\<close>

definition valuesAll :: "('x \<Rightarrow> bool) \<Rightarrow> (string, 'x) jmap \<Rightarrow> bool" where
  "valuesAll P m \<longleftrightarrow> (\<forall>(k, x) \<in> set m. P x)"

lemma valuesAll_simps [simp]: "valuesAll P []" "valuesAll P ((k, x) # m) \<longleftrightarrow> P x \<and> valuesAll P m"
  by (simp_all add: valuesAll_def)

lemma valuesAll_mono: "valuesAll P m \<Longrightarrow> (\<And>x. P x \<Longrightarrow> Q x) \<Longrightarrow> valuesAll Q m"
  by (auto simp: valuesAll_def)

lemma valuesAll_jput: "valuesAll P m \<Longrightarrow> P x \<Longrightarrow> valuesAll P (jput k x m)"
  unfolding valuesAll_def jput_def by (induction m) auto

lemma valuesAll_get: "valuesAll P m \<Longrightarrow> jget m k = Some x \<Longrightarrow> P x"
  by (auto simp: valuesAll_def jget_def dest: map_of_SomeD)

lemma forValues_Ret:
  "(\<And>x x'. P x \<Longrightarrow> f x = (Ret (), x') \<Longrightarrow> Q x') \<Longrightarrow> forValues f m = (Ret (), m') \<Longrightarrow> valuesAll P m \<Longrightarrow> valuesAll Q m'"
proof (induction m arbitrary: m')
  case (Cons e m)
  then show ?case by (cases e) (fastforce split: prod.splits sum.splits)
qed simp

lemma valuesAll_True [simp]: "valuesAll (\<lambda>_. True) m"
  by (simp add: valuesAll_def)

text \<open>A loop whose body never raises handles every value.\<close>

lemma forValues_all:
  assumes "\<And>x. fst (f x) = Ret ()" and "\<And>x. Q (snd (f x))"
  obtains m' where "forValues f m = (Ret (), m')" and "valuesAll Q m'"
proof (induction m arbitrary: thesis)
  case (Cons e m)
  obtain k x where e: "e = (k, x)" by (rule prod.exhaust)
  obtain x' where x: "f x = (Ret (), x')" using assms(1) [of x] by (metis prod.collapse)
  show ?case
  proof (rule Cons.IH)
    fix m'
    assume "forValues f m = (Ret (), m')" and "valuesAll Q m'"
    then show thesis using Cons.prems [of "(k, x') # m'"] e x assms(2) [of x] by simp
  qed
qed simp

section \<open>Brokers that run and brokers that do not\<close>

definition subUp :: "KafkaSubscriber \<Rightarrow> bool" where
  "subUp s \<longleftrightarrow> ks_consumer s \<and> ks_running s \<and> ks_listening s"

definition subDown :: "KafkaSubscriber \<Rightarrow> bool" where
  "subDown s \<longleftrightarrow> \<not> ks_consumer s \<and> \<not> ks_running s \<and> \<not> ks_listening s"

definition brokerUp :: "KafkaBroker \<Rightarrow> bool" where
  "brokerUp b \<longleftrightarrow> valuesAll kp_producer (kb_publishers b) \<and> valuesAll subUp (kb_subscribers b)"

definition brokerDown :: "KafkaBroker \<Rightarrow> bool" where
  "brokerDown b \<longleftrightarrow> valuesAll (\<lambda>p. \<not> kp_producer p) (kb_publishers b) \<and> valuesAll subDown (kb_subscribers b)"

definition brokerOk :: "KafkaBroker \<Rightarrow> bool" where
  "brokerOk b \<longleftrightarrow> valuesAll (\<lambda>s. subUp s \<or> subDown s) (kb_subscribers b)"

definition closes :: "KafkaLib \<Rightarrow> bool" where
  "closes lib \<longleftrightarrow> (\<forall>n. kl_close lib n = Ret ())"

lemma brokerOk_cases: "brokerUp b \<Longrightarrow> brokerOk b" "brokerDown b \<Longrightarrow> brokerOk b"
  by (auto simp: brokerOk_def brokerUp_def brokerDown_def elim: valuesAll_mono)

lemma startPublisher_up: "startPublisher lib p = (Ret (), p') \<Longrightarrow> kp_producer p'"
  by (auto simp: startPublisher_def split: if_splits sum.splits)

lemma startSubscriber_up: "subUp s \<or> subDown s \<Longrightarrow> startSubscriber lib s = (Ret (), s') \<Longrightarrow> subUp s'"
  by (auto simp: startSubscriber_def subUp_def subDown_def split: if_splits sum.splits)

lemma stopPublisher_down:
  assumes "closes lib"
  shows "fst (stopPublisher lib p) = Ret ()" and "\<not> kp_producer (snd (stopPublisher lib p))"
  using assms by (simp_all add: stopPublisher_def closes_def)

lemma stopSubscriber_down:
  assumes "closes lib"
  shows "fst (stopSubscriber lib s) = Ret ()" and "subDown (snd (stopSubscriber lib s))"
  using assms by (simp_all add: stopSubscriber_def closes_def subDown_def Let_def)

lemma stopBroker_down:
  assumes "closes lib"
  shows "fst (stopBroker lib b) = Ret ()" and "brokerDown (snd (stopBroker lib b))"
proof -
  obtain ps where p: "forValues (stopPublisher lib) (kb_publishers b) = (Ret (), ps)" "valuesAll (\<lambda>p. \<not> kp_producer p) ps"
    by (rule forValues_all [where f = "stopPublisher lib" and Q = "\<lambda>p. \<not> kp_producer p"]) (use stopPublisher_down [OF assms] in auto)
  obtain ss where s: "forValues (stopSubscriber lib) (kb_subscribers b) = (Ret (), ss)" "valuesAll subDown ss"
    by (rule forValues_all [where f = "stopSubscriber lib" and Q = subDown]) (use stopSubscriber_down [OF assms] in auto)
  show "fst (stopBroker lib b) = Ret ()" and "brokerDown (snd (stopBroker lib b))"
    using p s by (simp_all add: stopBroker_def forPublishers_def forSubscribers_def bindS_apply brokerDown_def)
qed

text \<open>A broker is up after a start that returns, and down after one that raises.\<close>

lemma startBroker_up:
  assumes "brokerOk b" and "startBroker lib b = (Ret (), b')"
  shows "brokerUp b'"
proof -
  from assms(2) obtain ps ss where p: "forValues (startPublisher lib) (kb_publishers b) = (Ret (), ps)"
    and s: "forValues (startSubscriber lib) (kb_subscribers b) = (Ret (), ss)"
    and b': "b' = b\<lparr>kb_publishers := ps, kb_subscribers := ss\<rparr>"
    by (auto simp: startBroker_def forPublishers_def forSubscribers_def bindS_apply Let_def
        split: prod.splits sum.splits)
  have "valuesAll kp_producer ps"
    by (rule forValues_Ret [OF _ p, where P = "\<lambda>_. True"]) (auto simp: valuesAll_def intro: startPublisher_up)
  moreover have "valuesAll subUp ss"
    by (rule forValues_Ret [OF _ s, where P = "\<lambda>s. subUp s \<or> subDown s"])
      (use assms(1) in \<open>auto simp: brokerOk_def intro: startSubscriber_up\<close>)
  ultimately show ?thesis by (simp add: brokerUp_def b')
qed

lemma startBroker_down:
  assumes "closes lib" and "startBroker lib b = (Raise e, b')"
  shows "brokerDown b'"
proof -
  from assms(2) have "\<exists>b1. b' = snd (stopBroker lib b1)"
    unfolding startBroker_def by (auto split: prod.splits sum.splits) (metis snd_conv)+
  then show ?thesis using stopBroker_down(2) [OF assms(1)] by auto
qed

lemma startBroker_ok: "closes lib \<Longrightarrow> brokerOk b \<Longrightarrow> startBroker lib b = (r, b') \<Longrightarrow> brokerOk b'"
  by (cases r) (auto dest: startBroker_down startBroker_up intro: brokerOk_cases)

section \<open>The start of the simulator\<close>

lemma brokerOk_add: "brokerOk b \<Longrightarrow> brokerOk (addPublisher p b)" "brokerOk b \<Longrightarrow> subDown s \<Longrightarrow> brokerOk (addSubscriber s b)"
  by (simp_all add: brokerOk_def addPublisher_def addSubscriber_def valuesAll_jput)

lemma newSubscriber_down: "newSubscriber b d = Inr s \<Longrightarrow> subDown s"
  by (auto simp: newSubscriber_def subDown_def elim!: res_elims)

lemma handleEndpoint_ok: "valuesAll brokerOk bs \<Longrightarrow> valuesAll brokerOk (snd (handleEndpoint d bs))"
  by (auto simp: handleEndpoint_def bindS_apply intro!: valuesAll_jput brokerOk_add
      dest: valuesAll_get newSubscriber_down split: sum.split option.split)

lemma handleEndpoints_ok: "valuesAll brokerOk bs \<Longrightarrow> valuesAll brokerOk (snd (handleEndpoints ds bs))"
proof (induction ds arbitrary: bs)
  case (Cons d ds)
  then show ?case using handleEndpoint_ok [OF Cons.prems, of d] Cons.IH
    by (fastforce simp: bindS_apply split: prod.split sum.split)
qed simp

lemma newBrokers_ok: "valuesAll brokerOk bs \<Longrightarrow> valuesAll brokerOk (snd (newBrokers fs bs))"
proof (induction fs arbitrary: bs rule: newBrokers.induct)
  case (2 name servers fs)
  have "valuesAll brokerOk (jput name \<lparr>kb_name = name, kb_publishers = [], kb_subscribers = []\<rparr> bs)"
    using 2(2) by (rule valuesAll_jput) (simp add: brokerOk_def)
  then show ?case using 2 by (simp add: bindS_apply split: sum.split)
qed simp_all

lemma prepareKafka_ok: "valuesAll brokerOk bs \<Longrightarrow> valuesAll brokerOk (snd (prepareKafka fs bs))"
  using newBrokers_ok [of bs fs] handleEndpoints_ok by (force simp: prepareKafka_def bindS_apply split: prod.split sum.split)

lemma kafkaDoStart_up:
  assumes "valuesAll brokerOk bs" and "kafkaDoStart lib fs bs = (Ret (), bs')"
  shows "valuesAll brokerUp bs'"
proof -
  from assms(2) obtain ns bs1 where p: "prepareKafka fs bs = (Inr ns, bs1)" and f: "forValues (startBroker lib) bs1 = (Ret (), bs')"
    by (auto simp: kafkaDoStart_def elim!: res_elims)
  show ?thesis using forValues_Ret [OF startBroker_up f] prepareKafka_ok [OF assms(1), of fs] p by simp
qed

lemma kafkaDoStop_down:
  assumes "closes lib"
  shows "valuesAll brokerDown (snd (kafkaDoStop lib bs))"
proof -
  obtain bs' where "forValues (stopBroker lib) bs = (Ret (), bs')" and "valuesAll brokerDown bs'"
    by (rule forValues_all [where f = "stopBroker lib" and Q = brokerDown]) (use stopBroker_down [OF assms] in auto)
  then show ?thesis by (simp add: kafkaDoStop_def)
qed

text \<open>The brokers of a simulator, in its world.\<close>

definition brokersOf :: "(brokers, 'u) LifeWorld \<Rightarrow> brokers" where
  "brokersOf w = bw_world (lw_beans w)"

lemma brokersOf_inner: "brokersOf (snd (inner m w)) = snd (m (brokersOf w))" "fst (inner m w) = fst (m (brokersOf w))"
  by (simp_all add: brokersOf_def inner_def onBeans_def onWorld_def case_prod_unfold Let_def)

lemma brokersOf_onMonitor [simp]: "brokersOf (onMonitor f w) = brokersOf w"
  by (simp add: brokersOf_def onMonitor_def)


section \<open>Responses\<close>

text \<open>A publisher is filed under its name; \<open>route\<close> finds it.\<close>

lemma findPublisher_Ret:
  "findPublisher bs ch = Inr p \<longleftrightarrow>
    (\<exists>b br. getBrokerName ch = Inr b \<and> jget bs b = Some br \<and> jget (kb_publishers br) ch = Some p)"
  by (auto simp: findPublisher_def bindE_Inr_conv split: option.splits)

lemma kafkaSend_Ret:
  "kafkaSend lib p record w = (Inr x, w') \<Longrightarrow> w' = w @ [record] \<and> kp_producer p"
  by (auto simp: kafkaSend_def split: if_splits sum.splits)

text \<open>The headers that are sent: the internal ones of the response, and the topic.\<close>

lemma recordHeader_names: "mapE (recordHeader lib) es = Inr hs \<Longrightarrow> map fst hs = map fst es"
  by (induction es arbitrary: hs) (auto simp: recordHeader_def split: if_splits elim!: res_elims)

lemma internal_names: "n \<in> fst ` set (getAllInternalHeaders r) \<Longrightarrow> startsWith n ''_''"
  by (auto simp: getAllInternalHeaders_def)

lemma TOPIC_facts: "startsWith HEADER_NAME_MESSGAE_TOPIC ''_''" "HEADER_NAME_CHANNEL \<noteq> HEADER_NAME_MESSGAE_TOPIC"
  "HEADER_NAME_MESSGAE_KEY \<noteq> HEADER_NAME_MESSGAE_TOPIC" "HEADER_NAME_MESSGAE_KEY \<noteq> HEADER_NAME_CHANNEL"
  by code_simp+

lemma publishResponse_Ret:
  assumes "publishResponse lib (kafkaFillRaw bodyString) p response w = (Inr x, w')"
  shows "\<exists>record. w' = w @ [record] \<and> kr_topic record = kp_topic p
    \<and> kr_key record = (case jget (resp_headers response) HEADER_NAME_MESSGAE_KEY of Some (JStr k) \<Rightarrow> JStr k | _ \<Rightarrow> JNull)
    \<and> map fst (kr_headers record) = map fst (getAllInternalHeaders
        (response\<lparr>resp_headers := jput HEADER_NAME_MESSGAE_TOPIC (JStr (kp_topic p)) (resp_headers response)\<rparr>))"
  using assms TOPIC_facts(3)
  by (auto simp: publishResponse_def kafkaFillRaw_def Let_def jm.get_put castString_def
      elim!: res_elims dest!: kafkaSend_Ret recordHeader_names split: option.splits jval.splits)


text \<open>The contract of a session-less simulator.\<close>

definition kafkaEndpoint :: "brokers \<Rightarrow> string \<Rightarrow> KafkaPublisher option" where
  "kafkaEndpoint bs ch = (case findPublisher bs ch of Inl _ \<Rightarrow> None | Inr p \<Rightarrow> Some p)"

lemma kafkaFillResponse_raises: "kafkaFillResponse lib fillRaw bs r w = (Inl e, w') \<Longrightarrow> w' = w"
  by (auto simp: kafkaFillResponse_def publishResponse_def kafkaSend_def bindS_apply Let_def
      split: option.splits sum.splits if_splits)

lemma kafkaFillResponse_sent:
  assumes "kafkaFillResponse lib (kafkaFillRaw bodyString) bs r w = (Inr u, w')"
  shows "\<exists>ch p record. jget (resp_headers r) HEADER_NAME_CHANNEL = Some (JStr ch) \<and> findPublisher bs ch = Inr p
    \<and> w' = w @ [record] \<and> kr_topic record = kp_topic p"
proof -
  from assms obtain ch p where ch: "castString (jget (resp_headers r) HEADER_NAME_CHANNEL) = Inr (Some ch)"
    and p: "findPublisher bs ch = Inr p"
    and s: "publishResponse lib (kafkaFillRaw bodyString) p
      (r\<lparr>resp_headers := jremove HEADER_NAME_CHANNEL (resp_headers r)\<rparr>) w = (Inr u, w')"
    by (auto simp: kafkaFillResponse_def elim!: res_elims split: option.splits)
  have "jget (resp_headers r) HEADER_NAME_CHANNEL = Some (JStr ch)"
    using ch by (auto simp: castString_def split: option.splits jval.splits)
  then show ?thesis using p publishResponse_Ret [OF s] by blast
qed

interpretation kafkaRoute: session_less "kafkaFillResponse lib (kafkaFillRaw bodyString) bs" "kafkaEndpoint bs"
    "\<lambda>p record. kr_topic record = kp_topic p" for lib bodyString bs
proof unfold_locales
  fix r w u w'
  assume "kafkaFillResponse lib (kafkaFillRaw bodyString) bs r w = (Inr u, w')"
  then obtain ch p kr where "jget (resp_headers r) HEADER_NAME_CHANNEL = Some (JStr ch)" "findPublisher bs ch = Inr p"
    "w' = w @ [kr]" "kr_topic kr = kp_topic p" using kafkaFillResponse_sent by blast
  then show "\<exists>ch p es. jget (resp_headers r) HEADER_NAME_CHANNEL = Some (JStr ch) \<and> kafkaEndpoint bs ch = Some p
      \<and> w' = w @ es \<and> es \<noteq> [] \<and> (\<forall>record \<in> set es. kr_topic record = kp_topic p)"
    by (intro exI [of _ ch] exI [of _ p] exI [of _ "[kr]"]) (simp add: kafkaEndpoint_def)
qed (rule kafkaFillResponse_raises)

section \<open>Listening\<close>

text \<open>
  A record whose handling raises ends the thread: the rest of its batch is committed and never
  handled, and no later batch is polled.
\<close>

lemma deliverAll_append: "deliverAll f (rs @ rs') = bindS (deliverAll f rs) (\<lambda>_. deliverAll f rs')"
proof (induction rs)
  case (Cons r rs)
  then show ?case by (auto simp: bindS_def fun_eq_iff split: prod.split sum.split)
qed (simp add: bindS_def)

theorem listenLoop_batch_lost:
  assumes "commitSync (pre @ r # post) w = (Inr (), w1)" and "deliverAll f pre w1 = (Inr (), w2)"
    and "f r w2 = (Inl e, w3)"
  shows "listenLoop False commitSync f (Inr (pre @ r # post) # polls) w = (Raise e, w3)"
  using assms by (simp add: deliverAll_append)

text \<open>With a proxy channel that does not name a broker, every record no rule matches does that.\<close>

theorem kafkaOnMessage_raises:
  assumes "newKafkaSimRequest lib toBody record = Inr request" and "gen request w = (Inl e, w1)"
    and "ks_proxyChannel sub = Some ch" and "CHR ''@'' \<notin> set ch"
  shows "kafkaOnMessage lib toBody gen bs sub record w = (Raise IndexOutOfBoundsException, w1)"
proof -
  have "findPublisher bs ch = Inl IndexOutOfBoundsException"
    using assms(4) by (simp add: findPublisher_def getBrokerName_def split_def pieces_no_delim dropTrailingEmpty_def)
  then show ?thesis using assms(1-3) by (simp add: kafkaOnMessage_def)
qed

section \<open>Samples\<close>

definition sampleKafka :: KafkaLib where
  "sampleKafka = \<lparr>kl_newProducer = (\<lambda>n. if n = ''bad@b'' then Raise (RuntimeException []) else Ret ()),
    kl_newConsumer = (\<lambda>n. Ret ()), kl_subscribe = (\<lambda>n ts. Ret ()), kl_close = (\<lambda>n. Ret ()), kl_send = (\<lambda>r. Ret ()),
    kl_getBytes = map of_char, kl_newString = (\<lambda>bs. map (char_of \<circ> unat) bs), kl_toString = (\<lambda>v. case v of JStr s \<Rightarrow> s | _ \<Rightarrow> []),
    kl_causeText = (\<lambda>e. [])\<rparr>"

definition sampleEndpoint :: "string \<Rightarrow> string \<Rightarrow> KafkaEndpoint" where
  "sampleEndpoint name type = \<lparr>ke_name = Some name, ke_type = Some type, ke_broker = Some ''b'', ke_topic = Some ''t'',
    ke_topics = Some ''t,u'', ke_autoCommit = False, ke_proxy = False, ke_proxyChannel = None\<rparr>"

definition sampleBrokers :: brokers where
  "sampleBrokers = snd (kafkaDoStart sampleKafka
    [EndpointFolder (sampleEndpoint ''p'' ''Pub''), KafkaBrokerFolder ''b'' (Some ''h''), EndpointFolder (sampleEndpoint ''s'' ''Sub'')] [])"

text \<open>A response to the publisher of the sample.\<close>

definition sampleReply :: SimResponse where
  "sampleReply = \<lparr>resp_code = 200,
    resp_headers = [(HEADER_NAME_CHANNEL, JStr ''p@b''), (HEADER_NAME_MESSGAE_KEY, JStr ''k''), (''plain'', JStr ''x'')],
    resp_body = Some [65]\<rparr>"

lemma sampleReply_sent:
  "kafkaFillResponse sampleKafka (kafkaFillRaw (\<lambda>r. Ret ''A'')) sampleBrokers sampleReply [] =
    (Ret (), [\<lparr>kr_topic = ''t'', kr_key = JStr ''k'', kr_value = JStr ''A'',
      kr_headers = [(HEADER_NAME_MESSGAE_KEY, [107]), (HEADER_NAME_MESSGAE_TOPIC, [116])]\<rparr>])"
  by code_simp


definition sampleKafkaSim :: "KafkaFolder list \<Rightarrow> brokers Sim" where
  "sampleKafkaSim fs = \<lparr>sim_name = ''k'', sim_listeners = None, sim_autostart = True, sim_proxyURL = None, sim_running = False,
    sim_runningURL = None, sim_hub = addFixedListener ListenerProxy newHub, sim_doStart = kafkaDoStart sampleKafka fs,
    sim_startURL = (\<lambda>_. Some []), sim_doStop = kafkaDoStop sampleKafka, sim_close = id\<rparr>"

definition kafkaUsers :: "(brokers, nat) Users" where
  "kafkaUsers = \<lparr>us_newListener = (\<lambda>c bs. (Ret 0, bs)), us_deliver = (\<lambda>n e u. (True, u))\<rparr>"

definition kafkaWorld :: "(brokers, nat) LifeWorld" where
  "kafkaWorld = \<lparr>lw_beans = \<lparr>bw_beans = [], bw_world = []\<rparr>, lw_monitor = sampleWorld\<rparr>"

text \<open>The client of the second publisher cannot be made; the first one is closed again.\<close>

definition badFolders :: "KafkaFolder list" where
  "badFolders = [KafkaBrokerFolder ''b'' (Some ''h''), EndpointFolder (sampleEndpoint ''p'' ''Pub''),
    EndpointFolder (sampleEndpoint ''bad'' ''Pub'')]"


end
