(* ===== verification/Rpc.thy ===== *)
theory Rpc
  imports Respond
begin

text \<open>
  The packages \<open>grpc\<close> and \<open>thrift\<close>: a remote call is recorded in a trace, matched by the name of its
  method, and answered by invoking the simulated service for every response of the rule, or by the
  proxied service.

  The services are classes that a generator makes and the server finds by reflection; invoking
  them, the clients of the proxied services and the protocol objects are parameters.
\<close>

section \<open>Requests\<close>

text \<open>Both requests have the name of the method as their top line, and no headers and no body.\<close>

definition rpcRequest :: "string \<Rightarrow> SimRequest" where
  "rpcRequest methodName =
    \<lparr>req_topLine = Some methodName, req_headerNames = [], req_headerLine = (\<lambda>_. None), req_authLine = None,
     req_body = None\<rparr>"

section \<open>gRPC\<close>

record CallTrace =
  ct_remoteAddress :: string
  ct_method :: string
  ct_args :: "jval list"
  ct_result :: jval
  ct_throwable :: "jerror option"

text \<open>The world of a call: its trace, and the rest.\<close>

record 'v RpcWorld =
  rw_trace :: CallTrace
  rw_rest :: 'v

text \<open>
  \<open>gl_invoke\<close> calls a method of the simulated service, \<open>gl_newClient\<close> and \<open>gl_clientInvoke\<close> are the
  client of the proxied one, \<open>gl_reply\<close> hands a result to the caller's stream and completes it,
  \<open>gl_close\<close> closes the client.
\<close>

record 'v GrpcLib =
  gl_invoke :: "string \<Rightarrow> jval list \<Rightarrow> (jval, 'v) prog"
  gl_newClient :: "(unit, 'v) prog"
  gl_clientInvoke :: "string \<Rightarrow> jval \<Rightarrow> (jval, 'v) prog"
  gl_reply :: "jval \<Rightarrow> jval \<Rightarrow> (unit, 'v) prog"
  gl_close :: "(unit, 'v) prog"
  gl_onHandleMessage :: "SimResponse list \<Rightarrow> 'v \<Rightarrow> 'v"

definition onRest :: "('a, 'v) prog \<Rightarrow> ('a, 'v RpcWorld) prog" where
  "onRest m w = (let (r, v) = m (rw_rest w) in (r, w\<lparr>rw_rest := v\<rparr>))"

definition onTrace :: "(CallTrace \<Rightarrow> CallTrace) \<Rightarrow> 'v RpcWorld \<Rightarrow> 'v RpcWorld" where
  "onTrace f w = w\<lparr>rw_trace := f (rw_trace w)\<rparr>"

definition outcomeTrace :: "jval res \<Rightarrow> CallTrace \<Rightarrow> CallTrace" where
  "outcomeTrace r ct = (case r of Inl e \<Rightarrow> ct\<lparr>ct_throwable := Some e\<rparr> | Inr v \<Rightarrow> ct\<lparr>ct_result := v\<rparr>)"

text \<open>\<open>DefaultGRPCReqRespConvertor.fillRawResponse\<close>: the service is invoked, whatever the response is.\<close>

definition grpcDoFill :: "'v GrpcLib \<Rightarrow> SimResponse \<Rightarrow> (SimResponse, 'v RpcWorld) prog" where
  "grpcDoFill lib response w =
    (let ct = rw_trace w; (r, w1) = onRest (gl_invoke lib (ct_method ct) (ct_args ct)) w in
     (Ret response, onTrace (outcomeTrace r) w1))"

definition argAt :: "jval list \<Rightarrow> nat \<Rightarrow> jval res" where
  "argAt args i = (if i < length args then Ret (args ! i) else Raise IndexOutOfBoundsException)"

text \<open>
  A call of the proxied service. The client is closed in any case; what closing raises counts only
  if nothing else was raised.
\<close>

definition withClient :: "'v GrpcLib \<Rightarrow> ('a, 'v RpcWorld) prog \<Rightarrow> ('a, 'v RpcWorld) prog" where
  "withClient lib body =
    bindS (onRest (gl_newClient lib)) (\<lambda>_ w.
      case body w of
        (Inl e, w1) \<Rightarrow> (Raise e, snd (onRest (gl_close lib) w1))
      | (Inr x, w1) \<Rightarrow> (case onRest (gl_close lib) w1 of (Inl e, w2) \<Rightarrow> (Raise e, w2) | (Inr _, w2) \<Rightarrow> (Ret x, w2)))"

definition grpcProxyCall :: "'v GrpcLib \<Rightarrow> (unit, 'v RpcWorld) prog" where
  "grpcProxyCall lib w =
    (let ct = rw_trace w in
     withClient lib (bindS (liftS (argAt (ct_args ct) 0)) (\<lambda>request.
       bindS (onRest (gl_clientInvoke lib (ct_method ct) request)) (\<lambda>result.
       bindS (liftS (argAt (ct_args ct) 1)) (\<lambda>observer.
       bindS (onRest (gl_reply lib observer result)) (\<lambda>_ w1.
         (Ret (), onTrace (\<lambda>ct. ct\<lparr>ct_result := result\<rparr>) w1)))))) w)"

definition response200 :: SimResponse where
  "response200 = \<lparr>resp_code = 200, resp_headers = [], resp_body = None\<rparr>"

definition rpcNotify :: "'v GrpcLib \<Rightarrow> SimResponse list \<Rightarrow> 'v RpcWorld \<Rightarrow> 'v RpcWorld" where
  "rpcNotify lib respList w = w\<lparr>rw_rest := gl_onHandleMessage lib respList (rw_rest w)\<rparr>"

definition traceOutcome :: "CallTrace \<Rightarrow> jval res" where
  "traceOutcome ct = (case ct_throwable ct of Some e \<Rightarrow> Raise e | None \<Rightarrow> Ret (ct_result ct))"

text \<open>\<open>intercept\<close>, with the trace that was made for the call.\<close>

definition grpcIntercept :: "'v GrpcLib \<Rightarrow> bool \<Rightarrow> (SimRequest \<Rightarrow> (SimResponse list, 'v RpcWorld) prog)
    \<Rightarrow> string \<Rightarrow> jval list \<Rightarrow> (jval, 'v RpcWorld) prog" where
  "grpcIntercept lib proxy gen methodName args w =
    (let w0 = onTrace (\<lambda>ct. ct\<lparr>ct_method := methodName, ct_args := args\<rparr>) w in
     case gen (rpcRequest methodName) w0 of
       (Inr respList, w1) \<Rightarrow> (traceOutcome (rw_trace w1), rpcNotify lib respList w1)
     | (Inl e, w1) \<Rightarrow>
         if \<not> isIOException e then (Raise e, rpcNotify lib [] w1)
         else if proxy then
           (let (r, w2) = grpcProxyCall lib w1;
                w3 = (case r of Inl e' \<Rightarrow> onTrace (\<lambda>ct. ct\<lparr>ct_throwable := Some e'\<rparr>) w2 | Inr _ \<Rightarrow> w2) in
            (traceOutcome (rw_trace w3), rpcNotify lib [response200] w3))
         else
           (let w2 = onTrace (\<lambda>ct. ct\<lparr>ct_throwable := Some (IOException ''no such method'')\<rparr>) w1 in
            (traceOutcome (rw_trace w2), rpcNotify lib [] w2)))"

section \<open>Thrift\<close>

text \<open>
  What the generated code and the clients raise: a \<open>TException\<close>, with its \<open>toString\<close>, another
  exception of a service, by its name, or one of the runtime.
\<close>

datatype ThriftError = TException string | Declared string | Runtime jerror

type_synonym ('a, 'v) tprog = "'v \<Rightarrow> (ThriftError + 'a) \<times> 'v"

record ThriftTrace =
  tt_function :: "string option"
  tt_seqid :: int
  tt_proxy :: bool

text \<open>
  \<open>tl_process\<close> is the generated function of a method: it reads the arguments, calls the service
  through the wrapper it is given, and writes the result. \<open>tl_sendError\<close> writes an exception of the
  protocol. \<open>tl_invoke\<close> and \<open>tl_clientCall\<close> call a method of the simulated and of the proxied service,
  the latter with a client of its own.
\<close>

record 'v ThriftLib =
  tl_methods :: "string list"
  tl_process :: "string \<Rightarrow> int \<Rightarrow> (string \<Rightarrow> jval list \<Rightarrow> (jval, 'v) tprog) \<Rightarrow> (unit, 'v) tprog"
  tl_sendError :: "string \<Rightarrow> int \<Rightarrow> string \<Rightarrow> (unit, 'v) tprog"
  tl_invoke :: "string \<Rightarrow> jval list \<Rightarrow> (jval, 'v) tprog"
  tl_clientCall :: "string \<Rightarrow> jval list \<Rightarrow> (jval, 'v) tprog"
  tl_onHandleMessage :: "SimResponse list \<Rightarrow> 'v \<Rightarrow> 'v"
  tl_getBytes :: "string \<Rightarrow> bytes"

text \<open>
  The invocation handler of the wrapper. What the simulated service raises comes out of the reflective
  call as an \<open>InvocationTargetException\<close>, which no service declares: the wrapper raises an
  \<open>UndeclaredThrowableException\<close>. The client of the proxied service unwraps it.
\<close>

definition undeclared :: ThriftError where
  "undeclared = Runtime (RuntimeException ''UndeclaredThrowableException'')"

definition thriftInvoke :: "'v ThriftLib \<Rightarrow> ThriftTrace \<Rightarrow> string \<Rightarrow> jval list \<Rightarrow> (jval, 'v) tprog" where
  "thriftInvoke lib ct methodName args v =
    (if tt_proxy ct then tl_clientCall lib methodName args v
     else case tl_invoke lib methodName args v of
       (Inl e, v') \<Rightarrow> (Inl undeclared, v')
     | (Inr x, v') \<Rightarrow> (Inr x, v'))"

definition processFunction :: "'v ThriftLib \<Rightarrow> ThriftTrace \<Rightarrow> (unit, 'v) tprog" where
  "processFunction lib ct v =
    (case tt_function ct of
       None \<Rightarrow> (Inl (Runtime NullPointerException), v)
     | Some f \<Rightarrow> tl_process lib f (tt_seqid ct) (thriftInvoke lib ct) v)"

text \<open>
  \<open>DefaultThriftReqRespConvertor.fillRawResponse\<close>: the method is processed, whatever the response is.
  A \<open>TException\<close> is wrapped; the functions declare no other exception.
\<close>

definition thriftDoFill :: "'v ThriftLib \<Rightarrow> ThriftTrace \<Rightarrow> SimResponse \<Rightarrow> (SimResponse, 'v) prog" where
  "thriftDoFill lib ct response v =
    (case processFunction lib ct v of
       (Inl (TException m), v') \<Rightarrow> (Raise (IOException m), v')
     | (Inl (Declared m), v') \<Rightarrow> (Raise (RuntimeException m), v')
     | (Inl (Runtime e), v') \<Rightarrow> (Raise e, v')
     | (Inr _, v') \<Rightarrow> (Ret response, v'))"

definition quoted :: "string \<Rightarrow> string" where
  "quoted s = [CHR 0x27] @ s @ [CHR 0x27]"

definition thriftErrorText :: "string \<Rightarrow> string" where
  "thriftErrorText name = ''match and fill error '' @ quoted name"

text \<open>\<open>ProcessorWrapper.process\<close>; \<open>gen\<close> is \<open>genResponse\<close> for a request with the given trace.\<close>

definition thriftProcess :: "'v ThriftLib \<Rightarrow> bool \<Rightarrow> (ThriftTrace \<Rightarrow> SimRequest \<Rightarrow> (SimResponse list, 'v) prog)
    \<Rightarrow> string \<Rightarrow> int \<Rightarrow> (bool, 'v) tprog" where
  "thriftProcess lib proxy gen name seqid v =
    (if name \<notin> set (tl_methods lib)
     then (case tl_sendError lib name seqid (''Invalid method name: '' @ quoted name) v of
             (Inl e, v1) \<Rightarrow> (Inl e, v1)
           | (Inr _, v1) \<Rightarrow> (Inr True, v1))
     else
       (let ct = \<lparr>tt_function = Some name, tt_seqid = seqid, tt_proxy = False\<rparr> in
        case gen ct (rpcRequest name) v of
          (Inr respList, v1) \<Rightarrow> (Inr True, tl_onHandleMessage lib respList v1)
        | (Inl e, v1) \<Rightarrow>
            if \<not> isIOException e then (Inl (Runtime e), tl_onHandleMessage lib [] v1)
            else if proxy then
              (case processFunction lib (ct\<lparr>tt_proxy := True\<rparr>) v1 of
                 (Inl e', v2) \<Rightarrow> (Inl e', tl_onHandleMessage lib [] v2)
               | (Inr _, v2) \<Rightarrow> (Inr True, tl_onHandleMessage lib [response200] v2))
            else
              (let v2 = snd (tl_sendError lib name seqid (thriftErrorText name) v1) in
               (Inr True, tl_onHandleMessage lib [newSimResponseMessage (tl_getBytes lib) (thriftErrorText name)] v2))))"

section \<open>What happens\<close>

text \<open>
  After an exception of the service a gRPC call ends with an exception, even if a later response of the rule invokes
  it again without one.
\<close>

lemma grpcDoFill_throwable:
  assumes "ct_throwable (rw_trace w) = Some e" and "grpcDoFill lib response w = (r, w')"
  shows "r = Ret response" and "ct_throwable (rw_trace w') \<noteq> None"
  using assms by (auto simp: grpcDoFill_def onTrace_def onRest_def outcomeTrace_def case_prod_unfold Let_def split: sum.splits)

text \<open>A call that no rule answers, without a proxy: the caller gets an exception of that name.\<close>

theorem grpc_unmatched:
  assumes "gen (rpcRequest methodName) (onTrace (\<lambda>ct. ct\<lparr>ct_method := methodName, ct_args := args\<rparr>) w) = (Inl e, w1)"
    and "isIOException e"
  shows "grpcIntercept lib False gen methodName args w =
    (Raise (IOException ''no such method''),
     rpcNotify lib [] (onTrace (\<lambda>ct. ct\<lparr>ct_throwable := Some (IOException ''no such method'')\<rparr>) w1))"
  using assms by (simp add: grpcIntercept_def Let_def traceOutcome_def onTrace_def)

text \<open>
  An exception that the interface of a Thrift service declares does not reach the generated code: it
  sees one exception of the runtime for all of them. A proxied service keeps its exceptions.
\<close>

theorem thriftInvoke_undeclared:
  assumes "tl_invoke lib m args v = (Inl e, v')"
  shows "thriftInvoke lib (ct\<lparr>tt_proxy := False\<rparr>) m args v = (Inl undeclared, v')"
  using assms by (simp add: thriftInvoke_def)

end
