(* ===== verification/WsClient.thy ===== *)
theory WsClient
  imports WebSocket
begin

text \<open>
  \<open>webbit/WebbitWSClient.java\<close>: the client of a proxied WebSocket server. Threads that send or stop
  wait on a lock until the connection is there; the thread of the library opens it and wakes them.
  Every step below is what one thread does while it holds the lock, or a call of the library.
\<close>

section \<open>States\<close>

datatype ClientOp = SendMsg bytes | StopOp

datatype ClientEffect = WcSend nat bytes | WcClose nat | WcShutdown | WcDelegate string

text \<open>
  The threads inside \<open>getConnection\<close>, with what they want the connection for, and whether they sleep
  in \<open>lock.wait()\<close>.
\<close>

record ClientState =
  wc_connection :: "nat option"
  wc_threads :: "nat \<Rightarrow> (ClientOp \<times> bool) option"
  wc_effects :: "ClientEffect list"

definition newClient :: ClientState where
  "newClient = \<lparr>wc_connection = None, wc_threads = (\<lambda>_. None), wc_effects = []\<rparr>"

text \<open>What \<open>send\<close> and \<open>stop\<close> do with the connection.\<close>

fun perform :: "nat \<Rightarrow> ClientOp \<Rightarrow> ClientEffect list" where
  "perform c (SendMsg msg) = [WcSend c msg]"
| "perform c StopOp = [WcClose c, WcShutdown]"

definition wakeAll :: "(nat \<Rightarrow> (ClientOp \<times> bool) option) \<Rightarrow> nat \<Rightarrow> (ClientOp \<times> bool) option" where
  "wakeAll threads t = (case threads t of None \<Rightarrow> None | Some (op, _) \<Rightarrow> Some (op, False))"

section \<open>Steps\<close>

text \<open>
  A call of \<open>send\<close> or \<open>stop\<close>; a turn of the loop that finds no connection, and one that finds it; an
  interrupt, which the loop ignores; the three events of the library.
\<close>

inductive cstep :: "ClientState \<Rightarrow> ClientState \<Rightarrow> bool" where
  call: "wc_threads s t = None \<Longrightarrow> cstep s (s\<lparr>wc_threads := (wc_threads s)(t \<mapsto> (op, False))\<rparr>)"
| sleep: "wc_threads s t = Some (op, False) \<Longrightarrow> wc_connection s = None \<Longrightarrow>
    cstep s (s\<lparr>wc_threads := (wc_threads s)(t \<mapsto> (op, True))\<rparr>)"
| interrupt: "wc_threads s t = Some (op, True) \<Longrightarrow> cstep s (s\<lparr>wc_threads := (wc_threads s)(t \<mapsto> (op, False))\<rparr>)"
| proceed: "wc_threads s t = Some (op, False) \<Longrightarrow> wc_connection s = Some c \<Longrightarrow>
    cstep s (s\<lparr>wc_threads := (wc_threads s)(t := None), wc_effects := wc_effects s @ perform c op\<rparr>)"
| opened: "cstep s (s\<lparr>wc_connection := Some c, wc_threads := wakeAll (wc_threads s)\<rparr>)"
| closed: "cstep s (s\<lparr>wc_effects := wc_effects s @ [WcClose c]\<rparr>)"
| received: "cstep s (s\<lparr>wc_effects := wc_effects s @ [WcDelegate msg]\<rparr>)"

inductive clientReachable :: "ClientState \<Rightarrow> bool" where
  start: "clientReachable newClient"
| step: "clientReachable s \<Longrightarrow> cstep s s' \<Longrightarrow> clientReachable s'"

section \<open>No wake-up is lost\<close>

text \<open>Nobody sleeps once the connection is there, and nothing was sent before.\<close>

definition clientOk :: "ClientState \<Rightarrow> bool" where
  "clientOk s \<longleftrightarrow>
    (if wc_connection s = None then \<forall>c msg. WcSend c msg \<notin> set (wc_effects s)
     else \<forall>t op b. wc_threads s t = Some (op, b) \<longrightarrow> \<not> b)"

lemma wakeAll_awake: "wakeAll threads t = Some (op, b) \<Longrightarrow> \<not> b"
  by (auto simp: wakeAll_def split: option.splits)

lemma cstep_ok: "cstep s s' \<Longrightarrow> clientOk s \<Longrightarrow> clientOk s'"
  by (induction rule: cstep.induct) (auto simp: clientOk_def dest: wakeAll_awake split: if_splits)

lemma clientReachable_ok: "clientReachable s \<Longrightarrow> clientOk s"
proof (induction rule: clientReachable.induct)
  case start
  show ?case by (simp add: clientOk_def newClient_def)
qed (rule cstep_ok)

lemma clientReachable_steps: "cstep\<^sup>*\<^sup>* s s' \<Longrightarrow> clientReachable s \<Longrightarrow> clientReachable s'"
  by (induction rule: rtranclp_induct) (auto intro: clientReachable.step)

text \<open>While there is no connection, a thread that waits for it stays, whatever happens around it.\<close>

lemma cstep_connection: "cstep s s' \<Longrightarrow> wc_connection s \<noteq> None \<Longrightarrow> wc_connection s' \<noteq> None"
  by (induction rule: cstep.induct) auto

lemma cstep_waits:
  "cstep s s' \<Longrightarrow> wc_connection s' = None \<Longrightarrow> wc_threads s t = Some (op, b) \<Longrightarrow> \<exists>b'. wc_threads s' t = Some (op, b')"
  by (induction rule: cstep.induct) auto

theorem client_waits:
  assumes "cstep\<^sup>*\<^sup>* s s'" and "wc_connection s' = None" and "wc_threads s t = Some (op, b)"
  shows "\<exists>b'. wc_threads s' t = Some (op, b')"
  using assms
proof (induction rule: rtranclp_induct)
  case (step s1 s2)
  have "wc_connection s1 = None" using step.hyps(2) step.prems(1) cstep_connection by blast
  then obtain b1 where "wc_threads s1 t = Some (op, b1)" using step.IH step.prems(2) by blast
  then show ?case using cstep_waits step.hyps(2) step.prems(1) by blast
qed blast

section \<open>Every call gets through\<close>

definition opOf :: "ClientState \<Rightarrow> nat \<Rightarrow> ClientOp" where
  "opOf s t = (case wc_threads s t of None \<Rightarrow> StopOp | Some (op, _) \<Rightarrow> op)"

lemma proceed_one:
  assumes "clientOk s" and "wc_connection s = Some c" and "wc_threads s t \<noteq> None"
  shows "cstep s (s\<lparr>wc_threads := (wc_threads s)(t := None), wc_effects := wc_effects s @ perform c (opOf s t)\<rparr>)"
proof -
  obtain op b where t: "wc_threads s t = Some (op, b)" using assms(3) by auto
  then have "wc_threads s t = Some (op, False)" using assms(1,2) by (auto simp: clientOk_def)
  then show ?thesis using cstep.proceed [of s t op c] assms(2) by (simp add: opOf_def)
qed

lemma proceed_all:
  assumes "clientOk s" and "wc_connection s = Some c" and "distinct ts" and "set ts \<subseteq> dom (wc_threads s)"
  shows "cstep\<^sup>*\<^sup>* s (s\<lparr>wc_threads := wc_threads s |` (- set ts),
    wc_effects := wc_effects s @ concat (map (\<lambda>t. perform c (opOf s t)) ts)\<rparr>)"
  using assms
proof (induction ts arbitrary: s)
  case Nil
  have "wc_threads s |` (- set []) = wc_threads s" by (simp add: restrict_map_def)
  then show ?case by simp
next
  case (Cons t ts)
  let ?s1 = "s\<lparr>wc_threads := (wc_threads s)(t := None), wc_effects := wc_effects s @ perform c (opOf s t)\<rparr>"
  have step: "cstep s ?s1" using Cons.prems by (intro proceed_one) auto
  have same: "map (\<lambda>u. perform c (opOf ?s1 u)) ts = map (\<lambda>u. perform c (opOf s u)) ts"
    using Cons.prems(3) by (auto simp: opOf_def)
  have rest: "(wc_threads s)(t := None) |` (- set ts) = wc_threads s |` (- insert t (set ts))"
    by (auto simp: restrict_map_def fun_eq_iff)
  have "cstep\<^sup>*\<^sup>* ?s1 (?s1\<lparr>wc_threads := wc_threads ?s1 |` (- set ts),
      wc_effects := wc_effects ?s1 @ concat (map (\<lambda>u. perform c (opOf ?s1 u)) ts)\<rparr>)"
    using Cons.prems cstep_ok [OF step] by (intro Cons.IH) auto
  then have "cstep\<^sup>*\<^sup>* ?s1 (s\<lparr>wc_threads := wc_threads s |` (- set (t # ts)),
      wc_effects := wc_effects s @ concat (map (\<lambda>u. perform c (opOf s u)) (t # ts))\<rparr>)"
    unfolding same by (simp add: rest del: restrict_fun_upd)
  then show ?case using step by (rule converse_rtranclp_into_rtranclp [rotated])
qed

text \<open>C38: in whatever order the threads and the library act, once the connection is open every call of
  \<open>send\<close> or \<open>stop\<close> that waits for it can get through, in every order of the waiting threads, and each
  does its work once on that connection; before it was open nothing was sent.\<close>

theorem client_calls_get_through:
  assumes "clientReachable s"
  shows "(wc_connection s = None \<longrightarrow> (\<forall>c msg. WcSend c msg \<notin> set (wc_effects s))) \<and>
    (\<forall>c ts. wc_connection s = Some c \<and> distinct ts \<and> set ts = dom (wc_threads s) \<longrightarrow>
      cstep\<^sup>*\<^sup>* s (s\<lparr>wc_threads := (\<lambda>_. None),
        wc_effects := wc_effects s @ concat (map (\<lambda>t. perform c (opOf s t)) ts)\<rparr>))"
proof (intro conjI allI impI; (elim conjE)?)
  fix c msg
  assume "wc_connection s = None"
  then show "WcSend c msg \<notin> set (wc_effects s)" using clientReachable_ok [OF assms] by (simp add: clientOk_def)
next
  fix c ts
  assume c: "wc_connection s = Some c" and d: "distinct ts" and ts: "set ts = dom (wc_threads s)"
  have "wc_threads s |` (- set ts) = (\<lambda>_. None)"
    unfolding ts by (auto simp: restrict_map_def)
  then show "cstep\<^sup>*\<^sup>* s (s\<lparr>wc_threads := (\<lambda>_. None),
      wc_effects := wc_effects s @ concat (map (\<lambda>t. perform c (opOf s t)) ts)\<rparr>)"
    using proceed_all [OF clientReachable_ok [OF assms] c d] ts by simp
qed

section \<open>Samples\<close>

text \<open>A thread that fell asleep before the connection was opened.\<close>

definition wokenClient :: ClientState where
  "wokenClient = \<lparr>wc_connection = Some 5, wc_threads = [3 \<mapsto> (SendMsg [65], False)], wc_effects = []\<rparr>"

lemma wokenClient_reachable: "clientReachable wokenClient"
proof -
  let ?s1 = "newClient\<lparr>wc_threads := (wc_threads newClient)(3 \<mapsto> (SendMsg [65], False))\<rparr>"
  let ?s2 = "?s1\<lparr>wc_threads := (wc_threads ?s1)(3 \<mapsto> (SendMsg [65], True))\<rparr>"
  let ?s3 = "?s2\<lparr>wc_connection := Some 5, wc_threads := wakeAll (wc_threads ?s2)\<rparr>"
  have "cstep newClient ?s1" by (rule cstep.call) (simp add: newClient_def)
  moreover have "cstep ?s1 ?s2" by (rule cstep.sleep) (simp_all add: newClient_def)
  moreover have "cstep ?s2 ?s3" by (rule cstep.opened)
  ultimately have "clientReachable ?s3" using clientReachable.start clientReachable.step by meson
  moreover have "?s3 = wokenClient" by (auto simp: newClient_def wokenClient_def wakeAll_def fun_eq_iff)
  ultimately show ?thesis by simp
qed

theorem client_calls_get_through_witness:
  "cstep\<^sup>*\<^sup>* wokenClient \<lparr>wc_connection = Some 5, wc_threads = (\<lambda>_. None), wc_effects = [WcSend 5 [65]]\<rparr>"
  using client_calls_get_through [OF wokenClient_reachable, THEN conjunct2, rule_format, of 5 "[3]"]
  by (simp add: wokenClient_def opOf_def)

end
