(* ===== verification/UiText.thy ===== *)
theory UiText
  imports JavaLib
begin

text \<open>
  Three small modules that the pages under \<open>scripts/swagger-ui\<close> bring with them in
  \<open>swagger-ui-bundle.js\<close>: \<open>repeat-string\<close> with its cache, \<open>cookie\<close> with its parser and printer,
  and the path components of \<open>json-patch\<close>. The file is minified; the one-letter names of the
  source are kept in the comments.
\<close>

section \<open>repeat-string\<close>

text \<open>The conversion of a number to a signed 32 bit integer, which \<open>>>=\<close> makes first.\<close>

definition toInt32 :: "int \<Rightarrow> int" where
  "toInt32 t = (t + 2 ^ 31) mod 2 ^ 32 - 2 ^ 31"

lemma toInt32_small: "0 \<le> t \<Longrightarrow> t < 2 ^ 31 \<Longrightarrow> toInt32 t = t"
  by (simp add: toInt32_def)

lemma toInt32_le: "0 \<le> t \<Longrightarrow> toInt32 t \<le> t"
proof -
  assume "0 \<le> t"
  then have "(t + 2 ^ 31) mod 2 ^ 32 \<le> t + 2 ^ 31" by (intro zmod_le_nonneg_dividend) simp
  then show ?thesis by (simp add: toInt32_def)
qed

text \<open>The module's variables \<open>r\<close>, the string repeated last, and \<open>o\<close>, the longest result for it.\<close>

record RepeatCache =
  rc_string :: "string option"
  rc_output :: string

definition emptyCache :: RepeatCache where
  "emptyCache = \<lparr>rc_string = None, rc_output = ''''\<rparr>"

text \<open>\<open>for(;n>o.length&&t>1;)1&t&&(o+=e),t>>=1,e+=e\<close>\<close>

function repeatLoop :: "int \<Rightarrow> string \<Rightarrow> string \<Rightarrow> int \<Rightarrow> string \<times> string" where
  "repeatLoop n out e t =
    (if int (length out) < n \<and> 1 < t
     then repeatLoop n (if odd t then out @ e else out) (e @ e) (toInt32 t div 2)
     else (out, e))"
  by pat_completeness auto
termination
proof (relation "measure (\<lambda>(n, out, e, t). nat t)")
  fix n :: int and out e :: string and t :: int
  assume "int (length out) < n \<and> 1 < t"
  then have "toInt32 t div 2 \<le> t div 2" using toInt32_le [of t] by (intro zdiv_mono1) auto
  then have "toInt32 t div 2 < t" using \<open>int (length out) < n \<and> 1 < t\<close> by linarith
  then show "((n, if odd t then out @ e else out, e @ e, toInt32 t div 2), n, out, e, t)
      \<in> measure (\<lambda>(n, out, e, t). nat t)"
    using \<open>int (length out) < n \<and> 1 < t\<close> by simp
qed simp

declare repeatLoop.simps [simp del]

definition repeatString :: "string \<Rightarrow> int \<Rightarrow> RepeatCache \<Rightarrow> string \<times> RepeatCache" where
  "repeatString e t cache =
    (if t = 1 then (e, cache)
     else if t = 2 then (e @ e, cache)
     else
       (let n = int (length e) * t in
        if rc_string cache = Some e \<and> n \<le> int (length (rc_output cache))
        then (take (nat n) (rc_output cache), cache)
        else
          (let out = (if rc_string cache = Some e then rc_output cache else '''');
               (out', e') = repeatLoop n out e t;
               result = take (nat n) (out' @ e')
           in (result, \<lparr>rc_string = Some e, rc_output = result\<rparr>))))"

section \<open>cookie\<close>

definition isJsSpace :: "char \<Rightarrow> bool" where
  "isJsSpace c \<longleftrightarrow> c = CHR '' '' \<or> 9 \<le> (of_char c :: nat) \<and> (of_char c :: nat) \<le> 13 \<or> (of_char c :: nat) = 160"

definition jsTrim :: "string \<Rightarrow> string" where
  "jsTrim s = rev (dropWhile isJsSpace (rev (dropWhile isJsSpace s)))"

text \<open>\<open>e.split(/; */)\<close>\<close>

function splitCookies :: "string \<Rightarrow> string list" where
  "splitCookies [] = ['''']"
| "splitCookies (c # s) =
    (if c = CHR '';'' then '''' # splitCookies (dropWhile (\<lambda>x. x = CHR '' '') s)
     else (case splitCookies s of [] \<Rightarrow> [[c]] | p # ps \<Rightarrow> (c # p) # ps))"
  by pat_completeness auto
termination
  by (relation "measure length") (auto simp: less_Suc_eq_le length_dropWhile_le)

text \<open>What \<open>n[p]\<close> finds on an object without own properties: \<open>Object.prototype\<close> is not empty.\<close>

definition inheritedNames :: "string list" where
  "inheritedNames = [''constructor'', ''toString'', ''toLocaleString'', ''valueOf'', ''hasOwnProperty'',
     ''isPrototypeOf'', ''propertyIsEnumerable'', ''__proto__'', ''__defineGetter__'', ''__defineSetter__'',
     ''__lookupGetter__'', ''__lookupSetter__'']"

definition unquote :: "string \<Rightarrow> string" where
  "unquote d = (case d of [] \<Rightarrow> [] | c # s \<Rightarrow> if c = CHR 0x22 then butlast s else d)"

definition tryDecode :: "(string \<Rightarrow> string option) \<Rightarrow> string \<Rightarrow> string" where
  "tryDecode decode d = (case decode d of None \<Rightarrow> d | Some v \<Rightarrow> v)"

definition cookieStep :: "(string \<Rightarrow> string option) \<Rightarrow> string \<Rightarrow> (string, string) jmap \<Rightarrow> (string, string) jmap" where
  "cookieStep decode c n =
    (case indexOf c CHR ''='' of
       None \<Rightarrow> n
     | Some f \<Rightarrow>
         (let p = jsTrim (take f c); d = unquote (jsTrim (drop (Suc f) c)) in
          if jget n p = None \<and> p \<notin> set inheritedNames then jput p (tryDecode decode d) n else n))"

text \<open>\<open>t.parse\<close>; \<open>decode\<close> is the option or \<open>decodeURIComponent\<close>, \<open>None\<close> where it throws.\<close>

definition cookieParse :: "(string \<Rightarrow> string option) \<Rightarrow> string \<Rightarrow> (string, string) jmap" where
  "cookieParse decode e = fold (cookieStep decode) (splitCookies e) []"

text \<open>The pattern \<open>a\<close> of the characters of a cookie.\<close>

definition cookieChars :: "string \<Rightarrow> bool" where
  "cookieChars s \<longleftrightarrow> s \<noteq> [] \<and>
    list_all (\<lambda>c. let k = (of_char c :: nat) in k = 9 \<or> 32 \<le> k \<and> k \<le> 126 \<or> 128 \<le> k \<and> k \<le> 255) s"

datatype JsFailure = TypeError string | PlainError string | RangeError string

text \<open>
  The options: an \<open>encode\<close> that is no function is \<open>Some None\<close>; so is a \<open>maxAge\<close> that is no number
  (otherwise the text of its floor) and an \<open>expires\<close> without \<open>toUTCString\<close>.
\<close>

datatype SameSite = SameSiteOff | SameSiteTrue | SameSiteText string

record CookieOptions =
  ck_encode :: "(string \<Rightarrow> string) option option"
  ck_maxAge :: "string option option"
  ck_domain :: string
  ck_path :: string
  ck_expires :: "string option option"
  ck_httpOnly :: bool
  ck_secure :: bool
  ck_sameSite :: SameSite

definition lowerAscii :: "char \<Rightarrow> char" where
  "lowerAscii c = (if 65 \<le> (of_char c :: nat) \<and> (of_char c :: nat) \<le> 90 then char_of ((of_char c :: nat) + 32) else c)"

definition sameSiteText :: "SameSite \<Rightarrow> JsFailure + string" where
  "sameSiteText v =
    (case v of
       SameSiteOff \<Rightarrow> Inr ''''
     | SameSiteTrue \<Rightarrow> Inr ''; SameSite=Strict''
     | SameSiteText t \<Rightarrow>
         if t = '''' then Inr ''''
         else if map lowerAscii t = ''lax'' then Inr ''; SameSite=Lax''
         else if map lowerAscii t = ''strict'' then Inr ''; SameSite=Strict''
         else Inl (TypeError ''option sameSite is invalid''))"

definition attributeText :: "string \<Rightarrow> string \<Rightarrow> string \<Rightarrow> JsFailure + string" where
  "attributeText label problem v =
    (if v = '''' then Inr ''''
     else if \<not> cookieChars v then Inl (TypeError problem)
     else Inr (''; '' @ label @ ''='' @ v))"

definition maxAgeText :: "string option option \<Rightarrow> JsFailure + string" where
  "maxAgeText m =
    (case m of
       None \<Rightarrow> Inr ''''
     | Some None \<Rightarrow> Inl (PlainError ''maxAge should be a Number'')
     | Some (Some k) \<Rightarrow> Inr (''; Max-Age='' @ k))"

definition expiresText :: "string option option \<Rightarrow> JsFailure + string" where
  "expiresText m =
    (case m of
       None \<Rightarrow> Inr ''''
     | Some None \<Rightarrow> Inl (TypeError ''option expires is invalid'')
     | Some (Some d) \<Rightarrow> Inr (''; Expires='' @ d))"

fun appendAll :: "string \<Rightarrow> (JsFailure + string) list \<Rightarrow> JsFailure + string" where
  "appendAll s [] = Inr s"
| "appendAll s (Inl e # ts) = Inl e"
| "appendAll s (Inr t # ts) = appendAll (s @ t) ts"

text \<open>\<open>t.serialize\<close>; the first argument is \<open>encodeURIComponent\<close>.\<close>

definition cookieSerialize :: "(string \<Rightarrow> string) \<Rightarrow> string \<Rightarrow> string \<Rightarrow> CookieOptions \<Rightarrow> JsFailure + string" where
  "cookieSerialize encodeURIComponent e t r =
    (case (case ck_encode r of None \<Rightarrow> Some encodeURIComponent | Some i \<Rightarrow> i) of
       None \<Rightarrow> Inl (TypeError ''option encode is invalid'')
     | Some i \<Rightarrow>
         if \<not> cookieChars e then Inl (TypeError ''argument name is invalid'')
         else
           (let u = i t in
            if u \<noteq> '''' \<and> \<not> cookieChars u then Inl (TypeError ''argument val is invalid'')
            else appendAll (e @ ''='' @ u)
              [maxAgeText (ck_maxAge r),
               attributeText ''Domain'' ''option domain is invalid'' (ck_domain r),
               attributeText ''Path'' ''option path is invalid'' (ck_path r),
               expiresText (ck_expires r),
               Inr (if ck_httpOnly r then ''; HttpOnly'' else ''''),
               Inr (if ck_secure r then ''; Secure'' else ''''),
               sameSiteText (ck_sameSite r)]))"

section \<open>json-patch: path components and array indices\<close>

definition substChar :: "char \<Rightarrow> string \<Rightarrow> string \<Rightarrow> string" where
  "substChar c r s = concat (map (\<lambda>x. if x = c then r else [x]) s)"

fun replacePair :: "char \<Rightarrow> char \<Rightarrow> char \<Rightarrow> string \<Rightarrow> string" where
  "replacePair a b r (x # y # s) =
    (if x = a \<and> y = b then r # replacePair a b r s else x # replacePair a b r (y # s))"
| "replacePair a b r s = s"

definition escapePathComponent :: "string \<Rightarrow> string" where
  "escapePathComponent e =
    (if indexOf e CHR ''/'' = None \<and> indexOf e CHR ''~'' = None then e
     else substChar CHR ''/'' ''~1'' (substChar CHR ''~'' ''~0'' e))"

definition unescapePathComponent :: "string \<Rightarrow> string" where
  "unescapePathComponent e = replacePair CHR ''~'' CHR ''0'' CHR ''~'' (replacePair CHR ''~'' CHR ''1'' CHR ''/'' e)"

fun isIntegerText :: "string \<Rightarrow> bool" where
  "isIntegerText [] = True"
| "isIntegerText (c # e) = (if 48 \<le> (of_char c :: nat) \<and> (of_char c :: nat) \<le> 57 then isIntegerText e else False)"

end
