(* ===== verification/UiTextSpec.thy ===== *)
theory UiTextSpec
  imports UiText
begin

text \<open>
  What the text modules compute: \<open>repeat-string\<close> returns the repetition for every cache its own
  calls can leave, a printed cookie is parsed back, and an escaped path component is restored.
\<close>

section \<open>Repetition\<close>

definition copies :: "nat \<Rightarrow> string \<Rightarrow> string" where
  "copies k e = concat (replicate k e)"

lemma copies_simps [simp]: "copies 0 e = ''''" "copies (Suc k) e = e @ copies k e" "copies k '''' = ''''"
  by (simp_all add: copies_def)

lemma copies_add: "copies (j + k) e = copies j e @ copies k e"
  by (simp add: copies_def replicate_add)

lemma copies_mult: "copies j (copies k e) = copies (j * k) e"
  by (induction j) (simp_all add: copies_add)

lemma length_copies [simp]: "length (copies k e) = k * length e"
  by (induction k) auto

lemma take_copies: "m \<le> k \<Longrightarrow> take (m * length e) (copies k e) = copies m e"
  using copies_add [of m "k - m" e] by simp

lemma take_copies_int: "m \<le> k \<Longrightarrow> take (nat (int (length e) * int m)) (copies k e) = copies m e"
  using take_copies [of m k e] by (simp add: mult.commute flip: of_nat_mult)

text \<open>The caches that calls leave behind hold copies of the string they name.\<close>

definition cacheOk :: "RepeatCache \<Rightarrow> bool" where
  "cacheOk cache \<longleftrightarrow> (\<forall>e. rc_string cache = Some e \<longrightarrow> (\<exists>k. rc_output cache = copies k e))"

text \<open>The loop keeps both strings copies of the first one, and enough of them.\<close>

lemma repeatLoop_copies:
  assumes "repeatLoop n out e' t = (out', e'')" "out = copies k e" "e' = copies m e" "1 \<le> t" "t < 2 ^ 31"
    and "n \<le> int (length out) + int (length e') * t"
  shows "\<exists>k' m'. out' = copies k' e \<and> e'' = copies m' e \<and> n \<le> int (length out') + int (length e'')"
  using assms
proof (induction n out e' t arbitrary: k m rule: repeatLoop.induct)
  case (1 n out e' t)
  show ?case
  proof (cases "int (length out) < n \<and> 1 < t")
    case True
    define o1 where "o1 = (if odd t then out @ e' else out)"
    have t: "toInt32 t = t" using True "1.prems"(5) by (intro toInt32_small) auto
    have half: "t = (if odd t then 1 else 0) + 2 * (t div 2)" by presburger
    have "int (length out) + int (length e') * t = int (length o1) + int (length (e' @ e')) * (t div 2)"
      by (subst half) (simp add: o1_def algebra_simps)
    then have enough: "n \<le> int (length o1) + int (length (e' @ e')) * (toInt32 t div 2)"
      using "1.prems"(6) t by simp
    have run: "repeatLoop n o1 (e' @ e') (toInt32 t div 2) = (out', e'')"
      using "1.prems"(1) True by (subst (asm) repeatLoop.simps) (simp add: o1_def)
    have o1: "o1 = copies (if odd t then k + m else k) e"
      using "1.prems"(2,3) by (simp add: o1_def copies_add)
    have e2: "e' @ e' = copies (m + m) e" using "1.prems"(3) by (simp add: copies_add)
    have "1 \<le> toInt32 t div 2" "toInt32 t div 2 < 2 ^ 31" using True t "1.prems"(5) by auto
    then show ?thesis
      using "1.IH" [OF True, folded o1_def, OF run o1 e2 _ _ enough] by blast
  next
    case False
    then have "out' = out" "e'' = e'" using "1.prems"(1) by (auto simp: repeatLoop.simps [of n out e' t])
    moreover have "n \<le> int (length out) + int (length e')"
    proof (cases "int (length out) < n")
      case True
      then show ?thesis using False "1.prems"(4,6) by auto
    qed simp
    ultimately show ?thesis using "1.prems"(2,3) by blast
  qed
qed

text \<open>Whatever strings were repeated before, \<open>repeat-string\<close> returns the \<open>t\<close>-fold repetition for
  every count below two to the power of 31, and leaves a cache of that kind again.\<close>

theorem repeatString_copies:
  assumes "cacheOk cache" "t < 2 ^ 31"
  shows "fst (repeatString e t cache) = copies (nat t) e \<and> cacheOk (snd (repeatString e t cache))"
proof -
  consider "t = 1" | "t = 2" | "t \<noteq> 1" "t \<noteq> 2" by blast
  then show ?thesis
  proof cases
    case 3
    let ?n = "int (length e) * t"
    show ?thesis
    proof (cases "rc_string cache = Some e \<and> ?n \<le> int (length (rc_output cache))")
      case True
      then obtain k where k: "rc_output cache = copies k e" using assms(1) by (auto simp: cacheOk_def)
      have "take (nat ?n) (rc_output cache) = copies (nat t) e"
      proof (cases "e = '''' \<or> t \<le> 0")
        case True
        then show ?thesis using k by (auto simp: mult_nonneg_nonpos)
      next
        case False
        then have "int (length e) * t \<le> int (length e) * int k" using True k by (simp add: mult.commute)
        then have "nat t \<le> k" using False by (simp add: mult_le_cancel_left_pos nat_le_iff)
        then show ?thesis using take_copies_int [of "nat t" k e] False k by simp
      qed
      then show ?thesis using 3 True assms(1) by (simp add: repeatString_def Let_def)
    next
      case False
      define out where "out = (if rc_string cache = Some e then rc_output cache else '''')"
      obtain k where out: "out = copies k e"
        using assms(1) copies_simps(1) by (metis cacheOk_def out_def)
      obtain out' e' where loop: "repeatLoop ?n out e t = (out', e')" by (rule prod.exhaust)
      have res: "fst (repeatString e t cache) = take (nat ?n) (out' @ e')"
        "snd (repeatString e t cache) = \<lparr>rc_string = Some e, rc_output = take (nat ?n) (out' @ e')\<rparr>"
        using 3 False loop by (auto simp: repeatString_def Let_def out_def)
      have "take (nat ?n) (out' @ e') = copies (nat t) e"
      proof (cases "e = '''' \<or> t \<le> 0")
        case True
        have "nat ?n = 0" using True by (auto simp: mult_nonneg_nonpos)
        then show ?thesis using True by auto
      next
        case False
        then have "1 \<le> t" by simp
        moreover have "?n \<le> int (length out) + int (length e) * t" by simp
        ultimately obtain k' m' where "out' = copies k' e" "e' = copies m' e" "?n \<le> int (length out') + int (length e')"
          using repeatLoop_copies [OF loop out, of 1] assms(2) by (auto simp: copies_def)
        then have oe: "out' @ e' = copies (k' + m') e" "?n \<le> int (length (out' @ e'))" by (simp_all add: copies_add)
        then have "int (length e) * t \<le> int (length e) * int (k' + m')" by (simp add: mult.commute)
        then have "nat t \<le> k' + m'" using False by (simp add: mult_le_cancel_left_pos nat_le_iff)
        then show ?thesis using take_copies_int [of "nat t" "k' + m'" e] False oe(1) by simp
      qed
      then show ?thesis using res by (auto simp: cacheOk_def)
    qed
  qed (use assms(1) in \<open>simp_all add: repeatString_def numeral_2_eq_2\<close>)
qed

section \<open>Cookies\<close>

text \<open>Text that may follow the value of a cookie.\<close>

definition attributes :: "string \<Rightarrow> bool" where
  "attributes r \<longleftrightarrow> r = '''' \<or> hd r = CHR '';''"

lemma splitCookies_append:
  "CHR '';'' \<notin> set a \<Longrightarrow> attributes r \<Longrightarrow> \<exists>ps. splitCookies (a @ r) = a # ps"
proof (induction a)
  case Nil
  then show ?case by (cases r) (auto simp: attributes_def)
qed auto

lemma attributes_append: "attributes r \<Longrightarrow> attributes t \<Longrightarrow> attributes (r @ t)"
  by (cases r) (auto simp: attributes_def)

lemma appendAll_attributes:
  "appendAll s ts = Inr s' \<Longrightarrow> (\<And>t. Inr t \<in> set ts \<Longrightarrow> attributes t) \<Longrightarrow> \<exists>r. s' = s @ r \<and> attributes r"
proof (induction s ts rule: appendAll.induct)
  case (1 s)
  then show ?case by (auto simp: attributes_def)
next
  case (3 s t ts)
  then obtain r where "s' = (s @ t) @ r" "attributes r" by auto
  moreover have "attributes t" using 3 by simp
  ultimately show ?case by (intro exI [of _ "t @ r"]) (simp add: attributes_append)
qed simp

lemma attribute_texts:
  "maxAgeText m = Inr x \<Longrightarrow> attributes x"
  "attributeText l p a = Inr x \<Longrightarrow> attributes x"
  "expiresText m = Inr x \<Longrightarrow> attributes x"
  "sameSiteText w = Inr x \<Longrightarrow> attributes x"
  by (auto simp: attributes_def maxAgeText_def attributeText_def expiresText_def sameSiteText_def
      split: option.splits if_splits SameSite.splits)

lemma cookieSerialize_shape:
  assumes "cookieSerialize encode e t r = Inr s" "ck_encode r = None"
  shows "\<exists>r. s = e @ ''='' @ encode t @ r \<and> attributes r"
proof -
  let ?ts = "[maxAgeText (ck_maxAge r), attributeText ''Domain'' ''option domain is invalid'' (ck_domain r),
    attributeText ''Path'' ''option path is invalid'' (ck_path r), expiresText (ck_expires r),
    Inr (if ck_httpOnly r then ''; HttpOnly'' else ''''), Inr (if ck_secure r then ''; Secure'' else ''''),
    sameSiteText (ck_sameSite r)]"
  have "attributes x" if "Inr x \<in> set ?ts" for x
    using that by (auto dest!: attribute_texts [OF sym] simp: attributes_def)
  moreover have "appendAll (e @ ''='' @ encode t) ?ts = Inr s"
    using assms by (simp add: cookieSerialize_def Let_def split: if_splits)
  ultimately show ?thesis using appendAll_attributes [of "e @ ''='' @ encode t" ?ts s] by auto
qed

lemma cookieStep_keeps: "jget m p = Some v \<Longrightarrow> jget (cookieStep decode c m) p = Some v"
  by (auto simp: cookieStep_def Let_def jm.get_put split: option.split)

lemma cookieSteps_keep: "jget m p = Some v \<Longrightarrow> jget (fold (cookieStep decode) cs m) p = Some v"
  by (induction cs arbitrary: m) (simp_all add: cookieStep_keeps)


definition sessionCookie :: CookieOptions where
  "sessionCookie = \<lparr>ck_encode = None, ck_maxAge = Some (Some ''60''), ck_domain = '''', ck_path = ''/ui'',
     ck_expires = None, ck_httpOnly = True, ck_secure = False, ck_sameSite = SameSiteText ''LAX''\<rparr>"

lemma sessionCookie_text:
  "cookieSerialize id ''sid'' ''a7'' sessionCookie = Inr ''sid=a7; Max-Age=60; Path=/ui; HttpOnly; SameSite=Lax''"
  by code_simp


theorem repeatString_copies_witness:
  "fst (repeatString ''ab'' 5 (snd (repeatString ''ab'' 3 emptyCache))) = ''ababababab''"
proof -
  have "cacheOk emptyCache" by (simp add: cacheOk_def emptyCache_def)
  from repeatString_copies [OF this, of 3 "''ab''"] have "cacheOk (snd (repeatString ''ab'' 3 emptyCache))" by simp
  from repeatString_copies [OF this, of 5 "''ab''"] show ?thesis by (simp add: copies_def eval_nat_numeral)
qed

section \<open>Path components\<close>

lemma replacePair_skip:
  "x \<noteq> a \<Longrightarrow> replacePair a b r (x # s) = x # replacePair a b r s"
  by (cases s) auto

lemma substChar_simps [simp]:
  "substChar c r [] = []" "substChar c r (x # s) = (if x = c then r else [x]) @ substChar c r s"
  by (simp_all add: substChar_def)

lemma substChar_absent: "c \<notin> set s \<Longrightarrow> substChar c r s = s"
  by (induction s) auto

text \<open>Undoing the second replacement leaves the text of the first one.\<close>

lemma unescape_slashes:
  "replacePair CHR ''~'' CHR ''1'' CHR ''/'' (substChar CHR ''/'' ''~1'' (substChar CHR ''~'' ''~0'' s))
    = substChar CHR ''~'' ''~0'' s"
  by (induction s) (auto simp: replacePair_skip)

lemma unescape_tildes: "replacePair CHR ''~'' CHR ''0'' CHR ''~'' (substChar CHR ''~'' ''~0'' s) = s"
  by (induction s) (auto simp: replacePair_skip)

text \<open>Unescaping an escaped path component gives back the component, and an escaped component has
  no slash.\<close>

theorem unescape_escape:
  "unescapePathComponent (escapePathComponent e) = e \<and> CHR ''/'' \<notin> set (escapePathComponent e)"
proof -
  have e: "escapePathComponent e = substChar CHR ''/'' ''~1'' (substChar CHR ''~'' ''~0'' e)"
    by (simp add: escapePathComponent_def indexOf_None substChar_absent)
  have "CHR ''/'' \<notin> set (substChar CHR ''/'' ''~1'' s)" for s by (induction s) auto
  then show ?thesis unfolding e unescapePathComponent_def unescape_slashes unescape_tildes by blast
qed

end
