(* ===== verification/UiValues.thy ===== *)
theory UiValues
  imports UiText Complex_Main
begin

text \<open>
  The parts of \<open>swagger-ui-bundle.js\<close> that walk over values: the helpers of \<open>json-patch\<close>
  (\<open>getPath\<close>, \<open>hasUndefined\<close>, \<open>_deepClone\<close>), \<open>classnames\<close>, and the event test of the rendering
  library. Objects are compared by reference there, so they live in a store; a walk over a cyclic
  store does not return, which is the value \<open>None\<close>.
\<close>

section \<open>Values\<close>

text \<open>A number is \<open>None\<close> for \<open>NaN\<close>.\<close>

datatype jsval =
    JsUndefined
  | JsNull
  | JsBool bool
  | JsNum "rat option"
  | JsText string
  | JsFun nat
  | JsRef nat

datatype jscell = ArrayCell "jsval list" | ObjectCell "(string \<times> jsval) list"

type_synonym jsstore = "nat \<Rightarrow> jscell"

definition strictEq :: "jsval \<Rightarrow> jsval \<Rightarrow> bool" where
  "strictEq v w \<longleftrightarrow> v = w \<and> v \<noteq> JsNum None"

definition typeofObject :: "jsval \<Rightarrow> bool" where
  "typeofObject v \<longleftrightarrow> v = JsNull \<or> (\<exists>a. v = JsRef a)"

lemma typeofObject_code [code, simp]:
  "typeofObject JsUndefined = False" "typeofObject JsNull = True" "typeofObject (JsBool b) = False"
  "typeofObject (JsNum n) = False" "typeofObject (JsText s) = False" "typeofObject (JsFun f) = False"
  "typeofObject (JsRef a) = True"
  by (simp_all add: typeofObject_def)

definition truthy :: "jsval \<Rightarrow> bool" where
  "truthy v = (case v of
     JsUndefined \<Rightarrow> False | JsNull \<Rightarrow> False | JsBool b \<Rightarrow> b | JsNum None \<Rightarrow> False | JsNum (Some n) \<Rightarrow> n \<noteq> 0
   | JsText s \<Rightarrow> s \<noteq> '''' | JsFun _ \<Rightarrow> True | JsRef _ \<Rightarrow> True)"

definition indexed :: "jsval list \<Rightarrow> (string \<times> jsval) list" where
  "indexed vs = zip (map showNat [0..<length vs]) vs"

text \<open>The own enumerable properties in their order, as \<open>for (var r in e) if (o(e,r))\<close> visits them.\<close>

definition ownEntries :: "jsstore \<Rightarrow> jsval \<Rightarrow> (string \<times> jsval) list" where
  "ownEntries h v = (case v of
     JsRef a \<Rightarrow> (case h a of ArrayCell vs \<Rightarrow> indexed vs | ObjectCell es \<Rightarrow> es)
   | JsText s \<Rightarrow> indexed (map (\<lambda>c. JsText [c]) s)
   | _ \<Rightarrow> [])"

definition objectKeys :: "jsstore \<Rightarrow> jsval \<Rightarrow> string list" where
  "objectKeys h v = map fst (ownEntries h v)"

section \<open>json-patch\<close>

text \<open>\<open>u(e,t)\<close>, \<open>_getPathRecursive\<close>: the loop over the properties that are left.\<close>

partial_function (option) getPathRecursive :: "jsstore \<Rightarrow> jsval \<Rightarrow> (string \<times> jsval) list \<Rightarrow> string option" where
  "getPathRecursive h t es =
    (case es of
       [] \<Rightarrow> Some ''''
     | (r, v) # es' \<Rightarrow>
         if strictEq v t then Some (escapePathComponent r @ ''/'')
         else if typeofObject v then
           Option.bind (getPathRecursive h t (ownEntries h v)) (\<lambda>n.
             if n \<noteq> '''' then Some (escapePathComponent r @ ''/'' @ n) else getPathRecursive h t es')
         else getPathRecursive h t es')"

definition getPath :: "jsstore \<Rightarrow> jsval \<Rightarrow> jsval \<Rightarrow> (JsFailure + string) option" where
  "getPath h e t =
    (if strictEq e t then Some (Inr ''/'')
     else Option.bind (getPathRecursive h t (ownEntries h e)) (\<lambda>n.
       Some (if n = '''' then Inl (PlainError ''Object not found in root'') else Inr (''/'' @ n))))"

text \<open>\<open>hasUndefined\<close>: the values that are left to look at, the elements of the inner loops included.\<close>

partial_function (option) anyUndefined :: "jsstore \<Rightarrow> jsval list \<Rightarrow> bool option" where
  "anyUndefined h vs =
    (case vs of
       [] \<Rightarrow> Some False
     | v # vs' \<Rightarrow>
         if v = JsUndefined then Some True
         else if truthy v \<and> typeofObject v then
           Option.bind (anyUndefined h (map snd (ownEntries h v))) (\<lambda>b.
             if b then Some True else anyUndefined h vs')
         else anyUndefined h vs')"

definition hasUndefined :: "jsstore \<Rightarrow> jsval \<Rightarrow> bool option" where
  "hasUndefined h t = anyUndefined h [t]"

text \<open>\<open>_deepClone\<close>; \<open>viaJson\<close> is \<open>JSON.parse(JSON.stringify(e))\<close>.\<close>

definition deepClone :: "(jsval \<Rightarrow> jsval) \<Rightarrow> jsval \<Rightarrow> jsval" where
  "deepClone viaJson e = (if typeofObject e then viaJson e else if e = JsUndefined then JsNull else e)"

section \<open>classnames\<close>

text \<open>
  An argument as the function tells them apart: false, \<open>null\<close>, \<open>0\<close> and the like; the text of a string
  or number; an array; the own keys of an object with the truth of their values; anything else.
\<close>

datatype ClassArg =
    ClassFalsy
  | ClassText string
  | ClassArray "ClassArg list"
  | ClassObject "(string \<times> bool) list"
  | ClassOther

fun joinSpaces :: "string list \<Rightarrow> string" where
  "joinSpaces [] = ''''"
| "joinSpaces [s] = s"
| "joinSpaces (s # t # ss) = s @ '' '' @ joinSpaces (t # ss)"

text \<open>What one turn of the loop pushes; the names of an array are joined before they are pushed.\<close>

fun classTokens :: "ClassArg \<Rightarrow> string list" where
  "classTokens ClassFalsy = []"
| "classTokens (ClassText s) = [s]"
| "classTokens (ClassArray as) = [joinSpaces (concat (map classTokens as))]"
| "classTokens (ClassObject es) = map fst (filter snd es)"
| "classTokens ClassOther = []"

definition classNames :: "ClassArg list \<Rightarrow> string" where
  "classNames as = joinSpaces (concat (map classTokens as))"

section \<open>The event test\<close>

text \<open>The browser: the properties of \<open>document\<close>, \<open>document.implementation.hasFeature\<close> where it
  exists, and whether an element whose handler attribute was set has a function there.\<close>

record Dom =
  canUseDOM :: bool
  inDocument :: "string list"
  hasFeature :: "(string \<Rightarrow> string \<Rightarrow> bool) option"
  handlerIsFunction :: "string \<Rightarrow> bool"

definition useHasFeature :: "Dom \<Rightarrow> bool" where
  "useHasFeature d \<longleftrightarrow> canUseDOM d \<and> (case hasFeature d of None \<Rightarrow> False | Some f \<Rightarrow> \<not> f '''' '''')"

definition isEventSupported :: "Dom \<Rightarrow> string \<Rightarrow> bool \<Rightarrow> bool" where
  "isEventSupported d e capture =
    (if \<not> canUseDOM d \<or> (capture \<and> ''addEventListener'' \<notin> set (inDocument d)) then False
     else
       (let n = ''on'' @ e;
            i = (if n \<in> set (inDocument d) then True else handlerIsFunction d n)
        in if \<not> i \<and> useHasFeature d \<and> e = ''wheel''
           then (case hasFeature d of None \<Rightarrow> i | Some f \<Rightarrow> f ''Events.wheel'' ''3.0'')
           else i))"

end
