(* ===== verification/UiValuesSpec.thy ===== *)
theory UiValuesSpec
  imports UiValues
begin

text \<open>
  The path search of \<open>json-patch\<close> against the paths of the store, and the names \<open>classnames\<close> joins.
\<close>

section \<open>Paths\<close>

text \<open>The ways through the properties of a value: own properties, and on through objects.\<close>

inductive path :: "jsstore \<Rightarrow> (string \<times> jsval) list \<Rightarrow> string list \<Rightarrow> jsval \<Rightarrow> bool" for h :: jsstore where
  here: "(k, v) \<in> set es \<Longrightarrow> path h es [k] v"
| deeper: "(k, v) \<in> set es \<Longrightarrow> typeofObject v \<Longrightarrow> path h (ownEntries h v) ks w \<Longrightarrow> path h es (k # ks) w"

inductive_cases path_NilE [elim!]: "path h [] ks w"

lemma path_Cons: "path h es ks w \<Longrightarrow> path h (e # es) ks w"
  by (induction rule: path.cases) (auto intro: path.intros)

lemma path_ConsE:
  assumes "path h ((k, v) # es) ks w"
  obtains (here) "ks = [k]" "w = v" | (deeper) ks' where "ks = k # ks'" "typeofObject v" "path h (ownEntries h v) ks' w"
    | (later) "path h es ks w"
  using assms by (cases rule: path.cases) (auto intro: path.intros)

definition pathText :: "string list \<Rightarrow> string" where
  "pathText ks = concat (map (\<lambda>k. escapePathComponent k @ ''/'') ks)"

lemma pathText_simps [simp]: "pathText [] = ''''" "pathText (k # ks) = escapePathComponent k @ ''/'' @ pathText ks"
  by (simp_all add: pathText_def)

text \<open>A search result against the paths: the keys of a way to the value, or nothing and no way.\<close>

definition pathResult :: "jsstore \<Rightarrow> jsval \<Rightarrow> (string \<times> jsval) list \<Rightarrow> string \<Rightarrow> bool" where
  "pathResult h t es p \<longleftrightarrow>
    (if p = '''' then (\<forall>ks w. path h es ks w \<longrightarrow> \<not> strictEq w t)
     else (\<exists>ks w. path h es ks w \<and> strictEq w t \<and> p = pathText ks))"

lemma pathResult_hit: "strictEq v t \<Longrightarrow> pathResult h t ((k, v) # es) (escapePathComponent k @ ''/'')"
  using path.here [of k v "(k, v) # es" h] by (auto simp: pathResult_def intro!: exI [of _ "[k]"] exI [of _ v])

lemma pathResult_deep:
  assumes "typeofObject v" "pathResult h t (ownEntries h v) n" "n \<noteq> ''''"
  shows "pathResult h t ((k, v) # es) (escapePathComponent k @ ''/'' @ n)"
proof -
  obtain ks w where "path h (ownEntries h v) ks w" "strictEq w t" "n = pathText ks"
    using assms(2,3) by (auto simp: pathResult_def)
  then show ?thesis using path.deeper [of k v "(k, v) # es" h ks w] assms(1)
    by (auto simp: pathResult_def intro!: exI [of _ "k # ks"] exI [of _ w])
qed

lemma pathResult_later:
  assumes "\<not> strictEq v t" "typeofObject v \<Longrightarrow> pathResult h t (ownEntries h v) ''''" "pathResult h t es p"
  shows "pathResult h t ((k, v) # es) p"
proof (cases "p = ''''")
  case True
  show ?thesis unfolding pathResult_def if_P [OF True]
  proof (intro allI impI)
    fix ks w assume "path h ((k, v) # es) ks w"
    then show "\<not> strictEq w t"
      by (cases rule: path_ConsE) (use assms True in \<open>auto simp: pathResult_def\<close>)
  qed
next
  case False
  then show ?thesis using assms(3) path_Cons by (fastforce simp: pathResult_def)
qed

lemma getPathRecursive_result:
  assumes "getPathRecursive h t es = Some p" shows "pathResult h t es p"
proof (rule getPathRecursive.raw_induct [of pathResult, OF _ assms], goal_cases)
  case (1 rec h t es p)
  note IH = 1(1) and run = 1(2)
  show ?case
  proof (cases es)
    case Nil
    then show ?thesis using run by (auto simp: pathResult_def)
  next
    case (Cons e es')
    obtain k v where e: "e = (k, v)" by (cases e)
    consider (hit) "strictEq v t" "p = escapePathComponent k @ ''/''"
      | (deep) n where "typeofObject v" "rec h t (ownEntries h v) = Some n" "n \<noteq> ''''" "p = escapePathComponent k @ ''/'' @ n"
      | (later) "\<not> strictEq v t" "typeofObject v \<Longrightarrow> rec h t (ownEntries h v) = Some ''''" "rec h t es' = Some p"
      using run Cons e by (auto simp: bind_eq_Some_conv split: if_splits)
    then show ?thesis
      by cases (simp_all only: Cons e, auto intro: pathResult_hit pathResult_deep [simplified] pathResult_later IH)
  qed
qed

text \<open>A store is acyclic when the references of a cell have smaller ranks than the cell.\<close>

definition acyclicStore :: "(nat \<Rightarrow> nat) \<Rightarrow> jsstore \<Rightarrow> bool" where
  "acyclicStore rank h \<longleftrightarrow> (\<forall>a k b. (k, JsRef b) \<in> set (ownEntries h (JsRef a)) \<longrightarrow> rank b < rank a)"

lemma ownEntries_JsText: "(k, JsRef b) \<notin> set (ownEntries h (JsText s))"
  by (auto simp: ownEntries_def indexed_def dest: set_zip_rightD)

lemma getPathRecursive_returns:
  assumes "acyclicStore rank h" "\<And>k b. (k, JsRef b) \<in> set es \<Longrightarrow> rank b < n"
  shows "\<exists>p. getPathRecursive h t es = Some p"
  using assms(2)
proof (induction n arbitrary: es rule: less_induct)
  case (less n)
  from less.prems show ?case
  proof (induction es)
    case Nil
    then show ?case by (simp add: getPathRecursive.simps)
  next
    case (Cons e es)
    obtain k v where e: "e = (k, v)" by (cases e)
    have rest: "\<exists>p. getPathRecursive h t es = Some p" using Cons.IH Cons.prems by (metis list.set_intros(2))
    have sub: "\<exists>p. getPathRecursive h t (ownEntries h v) = Some p" if "typeofObject v"
    proof (cases v)
      case (JsRef a)
      then have "rank a < n" using Cons.prems e by auto
      moreover have "rank b < rank a" if "(k', JsRef b) \<in> set (ownEntries h v)" for k' b
        using that assms(1) JsRef by (auto simp: acyclicStore_def)
      ultimately show ?thesis using less.IH by blast
    next
      case JsNull
      then show ?thesis by (simp add: ownEntries_def getPathRecursive.simps)
    qed (use that in simp_all)
    show ?case using rest sub e by (subst getPathRecursive.simps) (auto simp: bind_eq_Some_conv)
  qed
qed

text \<open>C34: on a store without cycles \<open>getPath\<close> returns: with the escaped keys of a way through own
  properties from the root to the very value asked for, whenever there is such a way, and otherwise
  with the error that the object is not in the root.\<close>

theorem getPath_finds:
  assumes "acyclicStore rank h" "\<not> strictEq start t"
  shows "(\<exists>ks w. path h (ownEntries h start) ks w \<and> strictEq w t \<and> getPath h start t = Some (Inr (''/'' @ pathText ks))) \<or>
    (\<forall>ks w. path h (ownEntries h start) ks w \<longrightarrow> \<not> strictEq w t) \<and>
      getPath h start t = Some (Inl (PlainError ''Object not found in root''))"
proof -
  obtain n where "\<And>k b. (k, JsRef b) \<in> set (ownEntries h start) \<Longrightarrow> rank b < n"
  proof (cases start)
    case (JsRef a)
    then show ?thesis using that [of "rank a"] assms(1) by (auto simp: acyclicStore_def)
  next
    case (JsText s)
    then show ?thesis using that ownEntries_JsText by blast
  qed (use that in \<open>auto simp: ownEntries_def\<close>)
  then obtain p where p: "getPathRecursive h t (ownEntries h start) = Some p"
    using getPathRecursive_returns [OF assms(1)] by blast
  show ?thesis using getPathRecursive_result [OF p] p assms(2)
    by (cases "p = []") (auto simp: getPath_def pathResult_def)
qed

definition sampleStore :: jsstore where
  "sampleStore = (\<lambda>a. if a = 0 then ObjectCell [(''a/b'', JsRef 1), (''c'', JsText ''x'')] else ArrayCell [JsNull, JsText ''y''])"

theorem getPath_finds_witness:
  "getPath sampleStore (JsRef 0) (JsFun 3) = Some (Inl (PlainError ''Object not found in root''))"
proof -
  have a: "acyclicStore (\<lambda>a. 1 - a) sampleStore"
    by (auto simp: acyclicStore_def sampleStore_def ownEntries_def indexed_def split: if_splits dest!: set_zip_rightD)
  have "\<not> strictEq w (JsFun 3)" if "path sampleStore es ks w" "\<forall>(k, v) \<in> set es. v \<noteq> JsFun 3" for es ks w
    using that
  proof (induction rule: path.induct)
    case (deeper k v es ks w)
    have "\<forall>(k', v') \<in> set (ownEntries sampleStore v). v' \<noteq> JsFun 3"
      by (auto simp: ownEntries_def sampleStore_def indexed_def split: jsval.splits if_splits dest!: set_zip_rightD)
    then show ?case using deeper.IH by simp
  qed (auto simp: strictEq_def)
  then have "\<forall>ks w. path sampleStore (ownEntries sampleStore (JsRef 0)) ks w \<longrightarrow> \<not> strictEq w (JsFun 3)"
    by (auto simp: ownEntries_def sampleStore_def)
  moreover have "\<not> strictEq (JsRef 0) (JsFun 3)" by (simp add: strictEq_def)
  ultimately show ?thesis using getPath_finds [OF a, of "JsRef 0" "JsFun 3"] by blast
qed

section \<open>Class names\<close>

text \<open>Joined texts; an empty text still leaves its separator.\<close>

lemma joinSpaces_append:
  "ss \<noteq> [] \<Longrightarrow> ts \<noteq> [] \<Longrightarrow> joinSpaces (ss @ ts) = joinSpaces ss @ '' '' @ joinSpaces ts"
proof (induction ss rule: joinSpaces.induct)
  case (2 s)
  then show ?case by (cases ts) auto
qed auto

lemma classNames_append:
  assumes "concat (map classTokens as) \<noteq> []" "concat (map classTokens bs) \<noteq> []"
  shows "classNames (as @ bs) = classNames as @ '' '' @ classNames bs"
  using joinSpaces_append [OF assms] by (simp add: classNames_def)

lemma classNames_empty_array: "classNames [ClassText ''a'', ClassArray [], ClassText ''b''] = ''a  b''"
  by code_simp

end
