(* ===== verification/JsTree.thy ===== *)
theory JsTree
  imports UiText
begin

text \<open>
  The values of the application code of the pages (\<open>swagger-ui.js\<close>): what JSON can hold, with
  \<open>undefined\<close>, the lists and maps of the \<open>immutable\<close> library and the files of a form. They are trees:
  where the code changes an object in place, the model returns the changed tree. The language
  itself is modelled here as far as that code uses it: truth of a value, conversion to text and to
  a number, \<open>>\<close>, property reads, and the reads and updates of \<open>immutable\<close> along a path.
\<close>

section \<open>Numbers\<close>

text \<open>
  A finite number is its shortest decimal \<open>m * 10 ^ e\<close>, the one \<open>String\<close> prints. The rounding of a
  text with more digits than a double holds is not modelled.
\<close>

datatype jsnum = NaN | Infinite bool | Dec int int

fun stripZeros :: "nat \<Rightarrow> int \<Rightarrow> nat \<times> int" where
  "stripZeros m e = (if m = 0 then (0, 0) else if m mod 10 = 0 then stripZeros (m div 10) (e + 1) else (m, e))"

declare stripZeros.simps [simp del]

text \<open>\<open>Number::toString\<close> for the digits \<open>m\<close> and the exponent \<open>e\<close>.\<close>

definition decimalText :: "nat \<times> int \<Rightarrow> string" where
  "decimalText = (\<lambda>(m, e).
    (let ds = showNat m; k = int (length ds); n = k + e in
     if m = 0 then ''0''
     else if k \<le> n \<and> n \<le> 21 then ds @ replicate (nat (n - k)) CHR ''0''
     else if 0 < n \<and> n \<le> 21 then take (nat n) ds @ ''.'' @ drop (nat n) ds
     else if - 6 < n \<and> n \<le> 0 then ''0.'' @ replicate (nat (- n)) CHR ''0'' @ ds
     else
       (let ex = ''e'' @ (if n - 1 < 0 then ''-'' else ''+'') @ showNat (nat \<bar>n - 1\<bar>) in
        if k = 1 then ds @ ex else take 1 ds @ ''.'' @ drop 1 ds @ ex)))"

fun numText :: "jsnum \<Rightarrow> string" where
  "numText NaN = ''NaN''"
| "numText (Infinite neg) = (if neg then ''-Infinity'' else ''Infinity'')"
| "numText (Dec m e) = (if m < 0 then ''-'' else '''') @ decimalText (stripZeros (nat \<bar>m\<bar>) e)"

text \<open>The two mantissas at the smaller of the two exponents.\<close>

definition aligned :: "int \<Rightarrow> int \<Rightarrow> int \<Rightarrow> int \<Rightarrow> int \<times> int" where
  "aligned m e m' e' = (m * 10 ^ nat (e - min e e'), m' * 10 ^ nat (e' - min e e'))"

fun numLess :: "jsnum \<Rightarrow> jsnum \<Rightarrow> bool" where
  "numLess NaN b = False"
| "numLess a NaN = False"
| "numLess (Infinite neg) (Infinite neg') = (neg \<and> \<not> neg')"
| "numLess (Infinite neg) (Dec m e) = neg"
| "numLess (Dec m e) (Infinite neg) = (\<not> neg)"
| "numLess (Dec m e) (Dec m' e') = (case aligned m e m' e' of (a, b) \<Rightarrow> a < b)"

fun numEq :: "jsnum \<Rightarrow> jsnum \<Rightarrow> bool" where
  "numEq NaN b = False"
| "numEq (Infinite neg) b = (b = Infinite neg)"
| "numEq (Dec m e) (Dec m' e') = (case aligned m e m' e' of (a, b) \<Rightarrow> a = b)"
| "numEq (Dec m e) b = False"

definition decimalDigit :: "char \<Rightarrow> bool" where
  "decimalDigit c \<longleftrightarrow> digitVal c \<noteq> None"

definition digitsNum :: "string \<Rightarrow> int" where
  "digitsNum s = (case digitsVal 0 s of None \<Rightarrow> 0 | Some v \<Rightarrow> v)"

text \<open>The digits of a number in base 2, 8 or 16.\<close>

fun radixVal :: "int \<Rightarrow> int \<Rightarrow> string \<Rightarrow> int option" where
  "radixVal b acc [] = Some acc"
| "radixVal b acc (c # s) =
    (case (case digitVal c of
             Some d \<Rightarrow> Some d
           | None \<Rightarrow> (let n = (of_char (lowerAscii c) :: nat) in if 97 \<le> n \<and> n \<le> 102 then Some (int n - 87) else None)) of
       None \<Rightarrow> None
     | Some d \<Rightarrow> if d < b then radixVal b (b * acc + d) s else None)"

definition signedText :: "string \<Rightarrow> bool \<times> string" where
  "signedText s =
    (if startsWith s ''-'' then (True, drop 1 s) else if startsWith s ''+'' then (False, drop 1 s) else (False, s))"

text \<open>\<open>e\<close> or \<open>E\<close>, an optional sign and digits; nothing at all is the exponent 0.\<close>

definition exponentVal :: "string \<Rightarrow> int option" where
  "exponentVal s =
    (case s of
       [] \<Rightarrow> Some 0
     | c # r \<Rightarrow>
         if lowerAscii c = CHR ''e'' then
           (case signedText r of (neg, ds) \<Rightarrow>
              if ds \<noteq> [] \<and> list_all decimalDigit ds then Some (if neg then - digitsNum ds else digitsNum ds) else None)
         else None)"

definition decimalNum :: "bool \<Rightarrow> string \<Rightarrow> jsnum" where
  "decimalNum neg s =
    (let ip = takeWhile decimalDigit s; r = dropWhile decimalDigit s;
         fp = (if startsWith r ''.'' then takeWhile decimalDigit (drop 1 r) else []);
         x = (if startsWith r ''.'' then dropWhile decimalDigit (drop 1 r) else r);
         m = digitsNum (ip @ fp)
     in if ip = [] \<and> fp = [] then NaN
        else (case exponentVal x of
                None \<Rightarrow> NaN
              | Some k \<Rightarrow> Dec (if neg then - m else m) (k - int (length fp))))"

text \<open>The conversion of a text to a number.\<close>

definition textNum :: "string \<Rightarrow> jsnum" where
  "textNum t =
    (let s = jsTrim t;
         radix = (\<lambda>b. case radixVal b 0 (drop 2 s) of None \<Rightarrow> NaN | Some v \<Rightarrow> if length s = 2 then NaN else Dec v 0)
     in if s = '''' then Dec 0 0
        else if startsWith (map lowerAscii s) ''0x'' then radix 16
        else if startsWith (map lowerAscii s) ''0o'' then radix 8
        else if startsWith (map lowerAscii s) ''0b'' then radix 2
        else (case signedText s of (neg, r) \<Rightarrow>
                if r = ''Infinity'' then Infinite neg else decimalNum neg r))"

section \<open>Values\<close>

datatype jstree =
    TUndef
  | TNull
  | TBool bool
  | TNum jsnum
  | TStr string
  | TArr "jstree list"
  | TObj "(string \<times> jstree) list"
  | IList "jstree list"
  | IMap "(string \<times> jstree) list"
  | TFile string string

definition treeTruthy :: "jstree \<Rightarrow> bool" where
  "treeTruthy v = (case v of
     TUndef \<Rightarrow> False | TNull \<Rightarrow> False | TBool b \<Rightarrow> b
   | TNum n \<Rightarrow> (case n of NaN \<Rightarrow> False | Infinite _ \<Rightarrow> True | Dec m e \<Rightarrow> m \<noteq> 0)
   | TStr s \<Rightarrow> s \<noteq> '''' | _ \<Rightarrow> True)"

lemma treeTruthy_simps [simp]:
  "treeTruthy TUndef = False" "treeTruthy TNull = False" "treeTruthy (TBool b) = b"
  "treeTruthy (TNum (Dec m e)) = (m \<noteq> 0)" "treeTruthy (TNum (Infinite g)) = True" "treeTruthy (TNum NaN) = False"
  "treeTruthy (TStr s) = (s \<noteq> '''')" "treeTruthy (TArr vs) = True" "treeTruthy (TObj ps) = True"
  "treeTruthy (IList vs) = True" "treeTruthy (IMap ps) = True" "treeTruthy (TFile f t) = True"
  by (simp_all add: treeTruthy_def)

text \<open>\<open>typeof\<close>\<close>

definition typeOf :: "jstree \<Rightarrow> string" where
  "typeOf v = (case v of
     TUndef \<Rightarrow> ''undefined'' | TBool _ \<Rightarrow> ''boolean'' | TNum _ \<Rightarrow> ''number'' | TStr _ \<Rightarrow> ''string'' | _ \<Rightarrow> ''object'')"

text \<open>
  \<open>String(v)\<close>. How \<open>immutable\<close> prints its lists and maps is a parameter; an object is taken not to
  bring a \<open>toString\<close> or \<open>valueOf\<close> of its own.
\<close>

fun joinWith :: "string \<Rightarrow> string list \<Rightarrow> string" where
  "joinWith d [] = ''''"
| "joinWith d [s] = s"
| "joinWith d (s # t # ss) = s @ d @ joinWith d (t # ss)"

fun treeText :: "(jstree \<Rightarrow> string) \<Rightarrow> jstree \<Rightarrow> string" where
  "treeText im TUndef = ''undefined''"
| "treeText im TNull = ''null''"
| "treeText im (TBool b) = (if b then ''true'' else ''false'')"
| "treeText im (TNum n) = numText n"
| "treeText im (TStr s) = s"
| "treeText im (TArr vs) = joinWith '','' (map (\<lambda>v. if v = TUndef \<or> v = TNull then '''' else treeText im v) vs)"
| "treeText im (TObj ps) = ''[object Object]''"
| "treeText im (IList vs) = im (IList vs)"
| "treeText im (IMap ps) = im (IMap ps)"
| "treeText im (TFile n t) = ''[object File]''"

definition treeNum :: "(jstree \<Rightarrow> string) \<Rightarrow> jstree \<Rightarrow> jsnum" where
  "treeNum im v = (case v of
     TUndef \<Rightarrow> NaN | TNull \<Rightarrow> Dec 0 0 | TBool b \<Rightarrow> Dec (if b then 1 else 0) 0 | TNum n \<Rightarrow> n
   | _ \<Rightarrow> textNum (treeText im v))"

text \<open>The order of two texts by their characters.\<close>

fun textLess :: "string \<Rightarrow> string \<Rightarrow> bool" where
  "textLess s [] = False"
| "textLess [] (d # t) = True"
| "textLess (c # s) (d # t) = ((of_char c :: nat) < of_char d \<or> c = d \<and> textLess s t)"

definition isPrimitive :: "jstree \<Rightarrow> bool" where
  "isPrimitive v = (case v of TArr _ \<Rightarrow> False | TObj _ \<Rightarrow> False | IList _ \<Rightarrow> False | IMap _ \<Rightarrow> False | TFile _ _ \<Rightarrow> False | _ \<Rightarrow> True)"

definition toPrimitive :: "(jstree \<Rightarrow> string) \<Rightarrow> jstree \<Rightarrow> jstree" where
  "toPrimitive im v = (if isPrimitive v then v else TStr (treeText im v))"

text \<open>\<open>v < w\<close>\<close>

definition treeLess :: "(jstree \<Rightarrow> string) \<Rightarrow> jstree \<Rightarrow> jstree \<Rightarrow> bool" where
  "treeLess im v w =
    (case (toPrimitive im v, toPrimitive im w) of
       (TStr s, TStr t) \<Rightarrow> textLess s t
     | (a, b) \<Rightarrow> numLess (treeNum im a) (treeNum im b))"


section \<open>Failures\<close>

fun bindJ :: "JsFailure + 'a \<Rightarrow> ('a \<Rightarrow> JsFailure + 'b) \<Rightarrow> JsFailure + 'b" where
  "bindJ (Inl e) f = Inl e"
| "bindJ (Inr x) f = f x"

lemma bindJ_cong [fundef_cong]:
  "m = m' \<Longrightarrow> (\<And>x. m' = Inr x \<Longrightarrow> f x = g x) \<Longrightarrow> bindJ m f = bindJ m' g"
  by (cases m') auto

lemma bindJ_Inr_conv: "bindJ m f = Inr y \<longleftrightarrow> (\<exists>x. m = Inr x \<and> f x = Inr y)"
  by (cases m) auto

lemma bindJ_InrE [res_elims]:
  assumes "bindJ m f = Inr y"
  obtains x where "m = Inr x" and "f x = Inr y"
  using assms by (cases m) auto

fun mapJ :: "('a \<Rightarrow> JsFailure + 'b) \<Rightarrow> 'a list \<Rightarrow> JsFailure + 'b list" where
  "mapJ f [] = Inr []"
| "mapJ f (x # xs) = bindJ (f x) (\<lambda>y. bindJ (mapJ f xs) (\<lambda>ys. Inr (y # ys)))"

lemma mapJ_cong [fundef_cong]:
  "xs = ys \<Longrightarrow> (\<And>x. x \<in> set ys \<Longrightarrow> f x = g x) \<Longrightarrow> mapJ f xs = mapJ g ys"
  by (induction ys arbitrary: xs) auto

lemma mapJ_Inr_conv: "mapJ f xs = Inr ys \<longleftrightarrow> list_all2 (\<lambda>x y. f x = Inr y) xs ys"
  by (induction xs arbitrary: ys) (auto simp: bindJ_Inr_conv list_all2_Cons1)

fun foldJ :: "('s \<Rightarrow> 'a \<Rightarrow> JsFailure + 's) \<Rightarrow> 's \<Rightarrow> 'a list \<Rightarrow> JsFailure + 's" where
  "foldJ f s [] = Inr s"
| "foldJ f s (x # xs) = bindJ (f s x) (\<lambda>s'. foldJ f s' xs)"

lemma foldJ_cong [fundef_cong]:
  "s = s' \<Longrightarrow> xs = ys \<Longrightarrow> (\<And>t x. x \<in> set ys \<Longrightarrow> f t x = g t x) \<Longrightarrow> foldJ f s xs = foldJ g s' ys"
proof (induction ys arbitrary: s s' xs)
  case (Cons y ys)
  then show ?case by (cases "g s' y") auto
qed simp

section \<open>Properties and paths\<close>

text \<open>The field of a plain object or of a map; \<open>undefined\<close> when it has none.\<close>

definition fieldOf :: "(string \<times> jstree) list \<Rightarrow> string \<Rightarrow> jstree" where
  "fieldOf ps k = (case jget ps k of None \<Rightarrow> TUndef | Some v \<Rightarrow> v)"

lemma fieldOf_simps [simp]:
  "fieldOf [] k = TUndef"
  "fieldOf ((k, v) # ps) k = v"
  "j \<noteq> k \<Longrightarrow> fieldOf ((j, v) # ps) k = fieldOf ps k"
  "fieldOf (jput k v ps) k = v"
  "j \<noteq> k \<Longrightarrow> fieldOf (jput j v ps) k = fieldOf ps k"
  by (simp_all add: fieldOf_def jget_def jm.get_put [unfolded jget_def] split: option.splits)

text \<open>\<open>v.k\<close> for a name that no prototype has.\<close>

definition readProp :: "jstree \<Rightarrow> string \<Rightarrow> JsFailure + jstree" where
  "readProp v k = (case v of
     TUndef \<Rightarrow> Inl (TypeError (''Cannot read property '' @ k @ '' of undefined''))
   | TNull \<Rightarrow> Inl (TypeError (''Cannot read property '' @ k @ '' of null''))
   | TObj ps \<Rightarrow> Inr (fieldOf ps k)
   | _ \<Rightarrow> Inr TUndef)"

text \<open>\<open>v || d\<close>\<close>

definition orElse :: "jstree \<Rightarrow> jstree \<Rightarrow> jstree" where
  "orElse v d = (if treeTruthy v then v else d)"

text \<open>\<open>v.get(k)\<close> of an immutable map; nothing else has a \<open>get\<close> for names.\<close>

definition imGet :: "jstree \<Rightarrow> string \<Rightarrow> JsFailure + jstree" where
  "imGet v k = (case v of
     IMap ps \<Rightarrow> Inr (fieldOf ps k)
   | IList _ \<Rightarrow> Inr TUndef
   | _ \<Rightarrow> Inl (TypeError ''get is not a function''))"

text \<open>The index a text means in a list: its canonical decimal below \<open>2 ^ 32 - 1\<close>.\<close>

definition listIndex :: "string \<Rightarrow> nat option" where
  "listIndex k =
    (case unsignedVal k of
       None \<Rightarrow> None
     | Some i \<Rightarrow> if showNat (nat i) = k \<and> i < 4294967295 then Some (nat i) else None)"

definition childAt :: "jstree \<Rightarrow> string \<Rightarrow> jstree option" where
  "childAt v k = (case v of
     IMap ps \<Rightarrow> jget ps k
   | IList vs \<Rightarrow> (case listIndex k of None \<Rightarrow> None | Some i \<Rightarrow> if i < length vs then Some (vs ! i) else None)
   | _ \<Rightarrow> None)"

text \<open>\<open>getIn\<close>: \<open>None\<close> where it returns its second argument.\<close>

fun getIn :: "jstree \<Rightarrow> string list \<Rightarrow> jstree option" where
  "getIn v [] = Some v"
| "getIn v (k # ks) = (case childAt v k of None \<Rightarrow> None | Some w \<Rightarrow> getIn w ks)"

definition getInOr :: "jstree \<Rightarrow> jstree \<Rightarrow> string list \<Rightarrow> jstree" where
  "getInOr d v ks = (case getIn v ks of None \<Rightarrow> d | Some w \<Rightarrow> w)"

definition setChild :: "jstree \<Rightarrow> string \<Rightarrow> jstree \<Rightarrow> jstree" where
  "setChild v k w = (case v of
     IMap ps \<Rightarrow> IMap (jput k w ps)
   | IList vs \<Rightarrow> (case listIndex k of
       None \<Rightarrow> v
     | Some i \<Rightarrow> IList (if i < length vs then vs[i := w] else vs @ replicate (i - length vs) TUndef @ [w]))
   | _ \<Rightarrow> v)"

definition removeChild :: "jstree \<Rightarrow> string \<Rightarrow> jstree" where
  "removeChild v k = (case v of
     IMap ps \<Rightarrow> IMap (jremove k ps)
   | IList vs \<Rightarrow> (case listIndex k of
       None \<Rightarrow> v
     | Some i \<Rightarrow> IList (if i < length vs then take i vs @ drop (Suc i) vs else vs))
   | _ \<Rightarrow> v)"

definition hasSet :: "jstree \<Rightarrow> bool" where
  "hasSet v = (case v of IMap _ \<Rightarrow> True | IList _ \<Rightarrow> True | _ \<Rightarrow> False)"

text \<open>
  \<open>updateIn\<close>: \<open>None\<close> for \<open>NOT_SET\<close>. A node that is missing becomes a map once a value is set below
  it; a value that came out missing is removed.
\<close>

fun updateAt :: "string list \<Rightarrow> (jstree option \<Rightarrow> JsFailure + jstree option) \<Rightarrow> jstree option
    \<Rightarrow> JsFailure + jstree option" where
  "updateAt [] f v = f v"
| "updateAt (k # ks) f None =
    bindJ (updateAt ks f None) (\<lambda>r. Inr (case r of None \<Rightarrow> None | Some w \<Rightarrow> Some (IMap [(k, w)])))"
| "updateAt (k # ks) f (Some v) =
    (if \<not> hasSet v then Inl (PlainError ''invalid keyPath'')
     else bindJ (updateAt ks f (childAt v k)) (\<lambda>r. Inr (Some (case r of
            None \<Rightarrow> (if childAt v k = None then v else removeChild v k)
          | Some w \<Rightarrow> setChild v k w))))"

definition updateTree :: "string list \<Rightarrow> (jstree option \<Rightarrow> JsFailure + jstree option) \<Rightarrow> jstree \<Rightarrow> JsFailure + jstree" where
  "updateTree ks f v = bindJ (updateAt ks f (Some v)) (\<lambda>r. Inr (case r of None \<Rightarrow> TUndef | Some w \<Rightarrow> w))"

definition setIn :: "string list \<Rightarrow> jstree \<Rightarrow> jstree \<Rightarrow> JsFailure + jstree" where
  "setIn ks w v = updateTree ks (\<lambda>_. Inr (Some w)) v"

definition deleteIn :: "string list \<Rightarrow> jstree \<Rightarrow> JsFailure + jstree" where
  "deleteIn ks v = updateTree ks (\<lambda>_. Inr None) v"

text \<open>\<open>fromJS\<close> and \<open>toJS\<close>\<close>

fun fromJS :: "jstree \<Rightarrow> jstree" where
  "fromJS (TArr vs) = IList (map fromJS vs)"
| "fromJS (TObj ps) = IMap (map (\<lambda>(k, v). (k, fromJS v)) ps)"
| "fromJS v = v"

fun toJS :: "jstree \<Rightarrow> jstree" where
  "toJS (IList vs) = TArr (map toJS vs)"
| "toJS (IMap ps) = TObj (map (\<lambda>(k, v). (k, toJS v)) ps)"
| "toJS v = v"

end
