(* ===== verification/UiRegex.thy ===== *)
theory UiRegex
  imports JsTree
begin

text \<open>
  The regular expressions of the form checks, written as the code writes them: a small matcher by
  derivatives, and the lemmas that say what each operator accepts.
\<close>

datatype rx = RNone | REmpty | RSet "char \<Rightarrow> bool" | RSeq rx rx | RAlt rx rx | RStar rx

fun rxNullable :: "rx \<Rightarrow> bool" where
  "rxNullable RNone = False"
| "rxNullable REmpty = True"
| "rxNullable (RSet P) = False"
| "rxNullable (RSeq r q) = (rxNullable r \<and> rxNullable q)"
| "rxNullable (RAlt r q) = (rxNullable r \<or> rxNullable q)"
| "rxNullable (RStar r) = True"

fun rxDeriv :: "char \<Rightarrow> rx \<Rightarrow> rx" where
  "rxDeriv c RNone = RNone"
| "rxDeriv c REmpty = RNone"
| "rxDeriv c (RSet P) = (if P c then REmpty else RNone)"
| "rxDeriv c (RSeq r q) =
    (if rxNullable r then RAlt (RSeq (rxDeriv c r) q) (rxDeriv c q) else RSeq (rxDeriv c r) q)"
| "rxDeriv c (RAlt r q) = RAlt (rxDeriv c r) (rxDeriv c q)"
| "rxDeriv c (RStar r) = RSeq (rxDeriv c r) (RStar r)"

fun rxTest :: "rx \<Rightarrow> string \<Rightarrow> bool" where
  "rxTest r [] = rxNullable r"
| "rxTest r (c # s) = rxTest (rxDeriv c r) s"

lemma rxTest_RNone [simp]: "\<not> rxTest RNone s"
  by (induction s) auto

lemma rxTest_REmpty [simp]: "rxTest REmpty s \<longleftrightarrow> s = []"
  by (cases s) auto

lemma rxTest_RSet [simp]: "rxTest (RSet P) s \<longleftrightarrow> (\<exists>c. s = [c] \<and> P c)"
  by (cases s) auto

lemma rxTest_RAlt [simp]: "rxTest (RAlt r q) s \<longleftrightarrow> rxTest r s \<or> rxTest q s"
  by (induction s arbitrary: r q) auto

lemma rxTest_RSeq: "rxTest (RSeq r q) s \<longleftrightarrow> (\<exists>u v. s = u @ v \<and> rxTest r u \<and> rxTest q v)"
proof (induction s arbitrary: r q)
  case (Cons c s)
  have "(\<exists>u v. c # s = u @ v \<and> rxTest r u \<and> rxTest q v)
      \<longleftrightarrow> rxNullable r \<and> rxTest q (c # s) \<or> (\<exists>u v. s = u @ v \<and> rxTest (rxDeriv c r) u \<and> rxTest q v)"
    (is "?L \<longleftrightarrow> ?R")
  proof
    assume ?L
    then obtain u v where uv: "c # s = u @ v" "rxTest r u" "rxTest q v" by blast
    then show ?R by (cases u) auto
  next
    assume ?R
    then show ?L
    proof
      assume "rxNullable r \<and> rxTest q (c # s)"
      then show ?L by (intro exI [of _ "[]"] exI [of _ "c # s"]) simp
    next
      assume "\<exists>u v. s = u @ v \<and> rxTest (rxDeriv c r) u \<and> rxTest q v"
      then obtain u v where "s = u @ v" "rxTest (rxDeriv c r) u" "rxTest q v" by blast
      then show ?L by (intro exI [of _ "c # u"] exI [of _ v]) simp
    qed
  qed
  then show ?case using Cons.IH [of "rxDeriv c r" q] by auto
qed auto

lemma rxTest_RStar_RSet [simp]: "rxTest (RStar (RSet P)) s \<longleftrightarrow> list_all P s"
  by (induction s) (auto simp: rxTest_RSeq)

definition rxPlus :: "rx \<Rightarrow> rx" where
  "rxPlus r = RSeq r (RStar r)"

definition rxOpt :: "rx \<Rightarrow> rx" where
  "rxOpt r = RAlt REmpty r"

definition rxChar :: "char \<Rightarrow> rx" where
  "rxChar c = RSet (\<lambda>x. x = c)"

fun rxTimes :: "nat \<Rightarrow> rx \<Rightarrow> rx" where
  "rxTimes 0 r = REmpty"
| "rxTimes (Suc n) r = RSeq r (rxTimes n r)"

fun rxCat :: "rx list \<Rightarrow> rx" where
  "rxCat [] = REmpty"
| "rxCat (r # rs) = RSeq r (rxCat rs)"

lemma rxTest_rxPlus [simp]: "rxTest (rxPlus (RSet P)) s \<longleftrightarrow> s \<noteq> [] \<and> list_all P s"
  by (cases s) (auto simp: rxPlus_def rxTest_RSeq)

lemma rxTest_rxOpt [simp]: "rxTest (rxOpt r) s \<longleftrightarrow> s = [] \<or> rxTest r s"
  by (simp add: rxOpt_def)

lemma rxTest_rxChar [simp]: "rxTest (rxChar c) s \<longleftrightarrow> s = [c]"
  by (auto simp: rxChar_def)

lemma rxTest_optional_char:
  "rxTest (RSeq (rxOpt (rxChar c)) q) s \<longleftrightarrow> rxTest q s \<or> (\<exists>t. s = c # t \<and> rxTest q t)"
proof -
  have "rxTest (RSeq (rxOpt (rxChar c)) q) s \<longleftrightarrow> (\<exists>u v. (u = [] \<or> u = [c]) \<and> s = u @ v \<and> rxTest q v)"
    unfolding rxTest_RSeq by auto
  also have "\<dots> \<longleftrightarrow> rxTest q s \<or> (\<exists>t. s = c # t \<and> rxTest q t)"
    by (simp add: conj_disj_distribR ex_disj_distrib)
  finally show ?thesis .
qed

lemma rxTest_RSet_then [simp]: "rxTest (RSeq (RSet P) q) (c # s) \<longleftrightarrow> P c \<and> rxTest q s"
  by (simp add: rxTest_RSeq)

lemma rxTest_rxTimes_RSet: "rxTest (rxTimes n (RSet P)) s \<longleftrightarrow> length s = n \<and> list_all P s"
proof (induction n arbitrary: s)
  case (Suc n)
  show ?case by (cases s) (simp_all add: Suc.IH rxTest_RSet_then conj_ac del: rxTest.simps(2))
qed auto

section \<open>The expressions of the checks\<close>

definition digitRx :: rx where
  "digitRx = RSet decimalDigit"

text \<open>\<open>/^-?\d+$/\<close>\<close>

definition integerRx :: rx where
  "integerRx = RSeq (rxOpt (rxChar CHR ''-'')) (rxPlus digitRx)"

text \<open>\<open>/^-?\d+(\.?\d+)?$/\<close>\<close>

definition numberRx :: rx where
  "numberRx = RSeq (rxOpt (rxChar CHR ''-''))
     (RSeq (rxPlus digitRx) (rxOpt (RSeq (rxOpt (rxChar CHR ''.'')) (rxPlus digitRx))))"

text \<open>\<open>/^[{(]?[0-9a-f]{8}-[0-9a-f]{4}-[0-9a-f]{4}-[0-9a-f]{4}-[0-9a-f]{12}[)}]?$/\<close>\<close>

definition hexRx :: rx where
  "hexRx = RSet (\<lambda>c. decimalDigit c \<or> 97 \<le> (of_char c :: nat) \<and> (of_char c :: nat) \<le> 102)"

definition guidRx :: rx where
  "guidRx =
    (let dash = rxChar CHR ''-'' in
     rxCat [rxOpt (RSet (\<lambda>c. c = CHR 0x7B \<or> c = CHR ''('')), rxTimes 8 hexRx, dash, rxTimes 4 hexRx, dash,
       rxTimes 4 hexRx, dash, rxTimes 4 hexRx, dash, rxTimes 12 hexRx, rxOpt (RSet (\<lambda>c. c = CHR '')'' \<or> c = CHR 0x7D))])"

lemma integerRx_iff:
  "rxTest integerRx s \<longleftrightarrow> (\<exists>neg ds. s = (if neg then ''-'' else '''') @ ds \<and> ds \<noteq> [] \<and> list_all decimalDigit ds)"
  by (auto simp: integerRx_def digitRx_def rxTest_optional_char ex_bool_eq)

lemma numberRx_tail:
  "rxTest (RSeq (rxPlus digitRx) (rxOpt (RSeq (rxOpt (rxChar CHR ''.'')) (rxPlus digitRx)))) s
    \<longleftrightarrow> (\<exists>ip fp. ip \<noteq> [] \<and> list_all decimalDigit ip \<and>
          (s = ip \<or> fp \<noteq> [] \<and> list_all decimalDigit fp \<and> s = ip @ CHR ''.'' # fp))"
proof -
  have "(\<exists>u v. s = u @ v \<and> (u \<noteq> [] \<and> list_all decimalDigit u) \<and>
          (v = [] \<or> (v \<noteq> [] \<and> list_all decimalDigit v \<or> (\<exists>t. v = CHR ''.'' # t \<and> t \<noteq> [] \<and> list_all decimalDigit t))))
    \<longleftrightarrow> (\<exists>ip fp. ip \<noteq> [] \<and> list_all decimalDigit ip \<and>
          (s = ip \<or> fp \<noteq> [] \<and> list_all decimalDigit fp \<and> s = ip @ CHR ''.'' # fp))" (is "?L \<longleftrightarrow> ?R")
  proof
    assume ?L
    then obtain u v where uv: "s = u @ v" "u \<noteq> []" "list_all decimalDigit u"
      and v: "v = [] \<or> v \<noteq> [] \<and> list_all decimalDigit v \<or> (\<exists>t. v = CHR ''.'' # t \<and> t \<noteq> [] \<and> list_all decimalDigit t)" by blast
    from v show ?R
    proof (elim disjE exE conjE)
      fix t assume "v = CHR ''.'' # t" "t \<noteq> []" "list_all decimalDigit t"
      then show ?R using uv by (intro exI [of _ u] exI [of _ t]) simp
    qed (use uv in \<open>auto intro!: exI [of _ "u @ v"]\<close>)
  next
    assume ?R
    then show ?L by (metis append_Nil2)
  qed
  then show ?thesis unfolding rxTest_RSeq [of "rxPlus digitRx"] by (simp add: rxTest_optional_char digitRx_def)
qed

lemma numberRx_iff:
  "rxTest numberRx s \<longleftrightarrow>
    (\<exists>neg ip fp. ip \<noteq> [] \<and> list_all decimalDigit ip \<and>
       (s = (if neg then ''-'' else '''') @ ip
        \<or> fp \<noteq> [] \<and> list_all decimalDigit fp \<and> s = (if neg then ''-'' else '''') @ ip @ CHR ''.'' # fp))"
  by (auto simp: numberRx_def rxTest_optional_char numberRx_tail ex_bool_eq)

end
