(* ===== verification/UiValidate.thy ===== *)
theory UiValidate
  imports UiRegex
begin

text \<open>
  The checks of the parameters of an operation, \<open>validateParam\<close> and its validators in
  \<open>core/utils.js\<close> of \<open>swagger-ui.js\<close>. A message is \<open>None\<close> where the validator returns nothing.
\<close>

text \<open>
  What the checks leave to the browser: \<open>new RegExp\<close> (\<open>None\<close> where it throws), whether
  \<open>Date.parse\<close> and \<open>JSON.parse\<close> accept a text, and how \<open>immutable\<close> prints its collections.
\<close>

record PageEnv =
  regExpOf :: "string \<Rightarrow> (string \<Rightarrow> bool) option"
  dateParses :: "string \<Rightarrow> bool"
  jsonParses :: "string \<Rightarrow> bool"
  immutableText :: "jstree \<Rightarrow> string"

abbreviation textOf :: "PageEnv \<Rightarrow> jstree \<Rightarrow> string" where
  "textOf env \<equiv> treeText (immutableText env)"

abbreviation lessThan :: "PageEnv \<Rightarrow> jstree \<Rightarrow> jstree \<Rightarrow> bool" where
  "lessThan env \<equiv> treeLess (immutableText env)"

section \<open>The validators\<close>

definition validateMaximum :: "PageEnv \<Rightarrow> jstree \<Rightarrow> jstree \<Rightarrow> string option" where
  "validateMaximum env val limit = (if lessThan env limit val then Some ''Value must be less than Maximum'' else None)"

definition validateMinimum :: "PageEnv \<Rightarrow> jstree \<Rightarrow> jstree \<Rightarrow> string option" where
  "validateMinimum env val limit = (if lessThan env val limit then Some ''Value must be greater than Minimum'' else None)"

definition validateNumber :: "PageEnv \<Rightarrow> jstree \<Rightarrow> string option" where
  "validateNumber env val = (if rxTest numberRx (textOf env val) then None else Some ''Value must be a number'')"

definition validateInteger :: "PageEnv \<Rightarrow> jstree \<Rightarrow> string option" where
  "validateInteger env val = (if rxTest integerRx (textOf env val) then None else Some ''Value must be an integer'')"

definition isFile :: "jstree \<Rightarrow> bool" where
  "isFile v = (case v of TFile _ _ \<Rightarrow> True | _ \<Rightarrow> False)"

definition validateFile :: "jstree \<Rightarrow> string option" where
  "validateFile val = (if treeTruthy val \<and> \<not> isFile val then Some ''Value must be a file'' else None)"

definition validateBoolean :: "jstree \<Rightarrow> string option" where
  "validateBoolean val =
    (if val = TStr ''true'' \<or> val = TStr ''false'' \<or> val = TBool True \<or> val = TBool False then None
     else Some ''Value must be a boolean'')"

definition validateString :: "jstree \<Rightarrow> string option" where
  "validateString val =
    (if treeTruthy val \<and> typeOf val \<noteq> ''string'' then Some ''Value must be a string'' else None)"

definition validateDateTime :: "PageEnv \<Rightarrow> jstree \<Rightarrow> string option" where
  "validateDateTime env val = (if dateParses env (textOf env val) then None else Some ''Value must be a DateTime'')"

definition isNullish :: "jstree \<Rightarrow> bool" where
  "isNullish v \<longleftrightarrow> v = TUndef \<or> v = TNull"

definition validateGuid :: "PageEnv \<Rightarrow> jstree \<Rightarrow> JsFailure + string option" where
  "validateGuid env val =
    (if isNullish val then Inl (TypeError ''Cannot read property toString'')
     else Inr (if rxTest guidRx (map lowerAscii (textOf env val)) then None else Some ''Value must be a Guid''))"

text \<open>\<open>val.length\<close>: texts and arrays have one; \<open>immutable\<close> lists, numbers and the rest do not.\<close>

definition lengthOf :: "jstree \<Rightarrow> JsFailure + jstree" where
  "lengthOf v =
    (if isNullish v then Inl (TypeError ''Cannot read property length'')
     else Inr (case v of
            TStr s \<Rightarrow> TNum (Dec (int (length s)) 0)
          | TArr vs \<Rightarrow> TNum (Dec (int (length vs)) 0)
          | TObj ps \<Rightarrow> fieldOf ps ''length''
          | _ \<Rightarrow> TUndef))"

definition validateMaxLength :: "PageEnv \<Rightarrow> jstree \<Rightarrow> jstree \<Rightarrow> JsFailure + string option" where
  "validateMaxLength env val limit =
    bindJ (lengthOf val) (\<lambda>n. Inr (if lessThan env limit n then Some ''Value must be less than MaxLength'' else None))"

definition validateMinLength :: "PageEnv \<Rightarrow> jstree \<Rightarrow> jstree \<Rightarrow> JsFailure + string option" where
  "validateMinLength env val limit =
    bindJ (lengthOf val) (\<lambda>n. Inr (if lessThan env n limit then Some ''Value must be greater than MinLength'' else None))"

definition validatePattern :: "PageEnv \<Rightarrow> jstree \<Rightarrow> jstree \<Rightarrow> JsFailure + string option" where
  "validatePattern env val rxPattern =
    (case regExpOf env (textOf env rxPattern) of
       None \<Rightarrow> Inl (PlainError ''SyntaxError'')
     | Some patt \<Rightarrow>
         Inr (if patt (textOf env val) then None else Some (''Value must follow pattern '' @ textOf env rxPattern)))"

section \<open>The check of a parameter\<close>

definition isZero :: "jstree \<Rightarrow> bool" where
  "isZero v = (case v of TNum n \<Rightarrow> numEq n (Dec 0 0) | _ \<Rightarrow> False)"

definition isNonEmptyArray :: "jstree \<Rightarrow> bool" where
  "isNonEmptyArray v = (case v of TArr vs \<Rightarrow> vs \<noteq> [] | _ \<Rightarrow> False)"

definition isNonEmptyList :: "jstree \<Rightarrow> bool" where
  "isNonEmptyList v = (case v of IList vs \<Rightarrow> vs \<noteq> [] | _ \<Rightarrow> False)"

text \<open>\<open>allChecks.some(...)\<close>, without the check for objects.\<close>

definition presenceCheck :: "string \<Rightarrow> jstree \<Rightarrow> bool" where
  "presenceCheck type value =
    (type = ''string'' \<and> treeTruthy value
     \<or> type = ''array'' \<and> isNonEmptyArray value
     \<or> type = ''array'' \<and> isNonEmptyList value
     \<or> type = ''file'' \<and> isFile value
     \<or> type = ''boolean'' \<and> (treeTruthy value \<or> value = TBool False)
     \<or> (type = ''number'' \<or> type = ''integer'') \<and> (treeTruthy value \<or> isZero value))"

definition whenJ :: "bool \<Rightarrow> JsFailure + 'a option \<Rightarrow> JsFailure + 'a option" where
  "whenJ b m = (if b then m else Inr None)"

definition messages :: "string option list \<Rightarrow> jstree list" where
  "messages es = concat (map (\<lambda>e. case e of None \<Rightarrow> [] | Some m \<Rightarrow> [TStr m]) es)"

definition constraintErrors :: "PageEnv \<Rightarrow> (string \<times> jstree) list \<Rightarrow> jstree \<Rightarrow> JsFailure + jstree list" where
  "constraintErrors env ds value =
    (let pattern = fieldOf ds ''pattern''; maxLength = fieldOf ds ''maxLength''; minLength = fieldOf ds ''minLength'';
         maximum = fieldOf ds ''maximum''; minimum = fieldOf ds ''minimum'' in
     bindJ (mapJ id
       [whenJ (treeTruthy pattern) (validatePattern env value pattern),
        whenJ (treeTruthy maxLength \<or> isZero maxLength) (validateMaxLength env value maxLength),
        whenJ (treeTruthy minLength) (validateMinLength env value minLength),
        whenJ (treeTruthy maximum \<or> isZero maximum) (Inr (validateMaximum env value maximum)),
        whenJ (treeTruthy minimum \<or> isZero minimum) (Inr (validateMinimum env value minimum))])
       (\<lambda>es. Inr (messages es)))"

text \<open>The messages of the elements of a list, with their positions.\<close>

definition itemError :: "PageEnv \<Rightarrow> jstree \<Rightarrow> jstree \<Rightarrow> string option" where
  "itemError env itemType item =
    (if itemType = TStr ''number'' then validateNumber env item
     else if itemType = TStr ''integer'' then validateInteger env item
     else if itemType = TStr ''string'' then validateString item
     else None)"

definition itemErrors :: "PageEnv \<Rightarrow> jstree \<Rightarrow> jstree list \<Rightarrow> jstree list" where
  "itemErrors env itemType items =
    concat (map (\<lambda>(index, item). case itemError env itemType item of
        None \<Rightarrow> []
      | Some e \<Rightarrow> [TObj [(''index'', TNum (Dec (int index) 0)), (''error'', TStr e)]])
      (zip [0..<length items] items))"

definition typeErrors :: "PageEnv \<Rightarrow> (string \<times> jstree) list \<Rightarrow> jstree \<Rightarrow> JsFailure + jstree list" where
  "typeErrors env ds value =
    (let type = fieldOf ds ''type''; format = fieldOf ds ''format'' in
     if type = TStr ''string'' then
       bindJ (if format = TStr ''date-time'' then Inr (validateDateTime env value)
              else if format = TStr ''uuid'' then validateGuid env value
              else Inr (validateString value)) (\<lambda>e. Inr (messages [e]))
     else if type = TStr ''boolean'' then Inr (messages [validateBoolean value])
     else if type = TStr ''number'' then Inr (messages [validateNumber env value])
     else if type = TStr ''integer'' then Inr (messages [validateInteger env value])
     else if type = TStr ''array'' then
       (case value of
          IList items \<Rightarrow> Inr (itemErrors env (getInOr TUndef (IMap ds) [''items'', ''type'']) items)
        | _ \<Rightarrow> Inr [])
     else if type = TStr ''file'' then Inr (messages [validateFile value])
     else Inr [])"

text \<open>The check for an object of OpenAPI 3: \<open>None\<close> where a text is no JSON.\<close>

definition objectCheck :: "PageEnv \<Rightarrow> bool \<Rightarrow> jstree \<Rightarrow> jstree \<Rightarrow> bool option" where
  "objectCheck env isOAS3 type value =
    (if isOAS3 \<and> type = TStr ''object'' then
       (if typeOf value = ''object'' then Some True
        else (case value of TStr s \<Rightarrow> if jsonParses env s then Some True else None | _ \<Rightarrow> Some False))
     else Some False)"

text \<open>The body of \<open>validateParam\<close> once the details \<open>ds\<close> of the parameter are there.\<close>

definition validateDetails :: "PageEnv \<Rightarrow> bool \<Rightarrow> (string \<times> jstree) list \<Rightarrow> jstree \<Rightarrow> bool \<Rightarrow> bool \<Rightarrow> JsFailure + jstree list" where
  "validateDetails env required ds value isOAS3 bypassRequiredCheck =
    (let type = fieldOf ds ''type'' in
     if treeTruthy type \<and> (required \<or> treeTruthy value) then
       (case objectCheck env isOAS3 type value of
          None \<Rightarrow> Inr [TStr ''Parameter string value must be valid JSON'']
        | Some oas3ObjectCheck \<Rightarrow>
            (let passedAnyCheck = oas3ObjectCheck \<or> (case type of TStr t \<Rightarrow> presenceCheck t value | _ \<Rightarrow> False) in
             if required \<and> \<not> passedAnyCheck \<and> \<not> bypassRequiredCheck
             then Inr [TStr ''Required field is not provided'']
             else bindJ (constraintErrors env ds value) (\<lambda>es.
                  bindJ (typeErrors env ds value) (\<lambda>ts. Inr (es @ ts)))))
     else Inr [])"

definition validateParam :: "PageEnv \<Rightarrow> (string \<times> jstree) list \<Rightarrow> jstree \<Rightarrow> bool \<Rightarrow> bool \<Rightarrow> JsFailure + jstree list" where
  "validateParam env param value isOAS3 bypassRequiredCheck =
    (let required = treeTruthy (fieldOf param ''required'');
         paramDetails = (if isOAS3 then fieldOf param ''schema'' else IMap param) in
     if \<not> treeTruthy paramDetails then Inr []
     else (case paramDetails of
       IMap ds \<Rightarrow> validateDetails env required ds value isOAS3 bypassRequiredCheck
     | IList _ \<Rightarrow> Inr []
     | _ \<Rightarrow> Inl (TypeError ''paramDetails.get is not a function'')))"

end
