(* ===== verification/UiValidateSpec.thy ===== *)
theory UiValidateSpec
  imports UiValidate Complex_Main
begin

text \<open>
  What the checks of parameters accept: numerals within their bounds, and values that are there
  when they must be.
\<close>

section \<open>The order of decimals\<close>

definition decRat :: "int \<Rightarrow> int \<Rightarrow> rat" where
  "decRat m e = of_int m * 10 powi e"

lemma decRat_shift: "k \<le> e \<Longrightarrow> decRat m e = of_int (m * 10 ^ nat (e - k)) * 10 powi k"
proof -
  assume "k \<le> e"
  then have "(10::rat) powi e = 10 powi k * 10 ^ nat (e - k)"
    using power_int_add [of "10::rat" k "e - k"] by (simp add: power_int_def)
  then show ?thesis by (simp add: decRat_def)
qed

lemma aligned_less:
  assumes "aligned m e m' e' = (a, b)"
  shows "a < b \<longleftrightarrow> decRat m e < decRat m' e'"
proof -
  let ?k = "min e e'"
  have "decRat m e = of_int a * 10 powi ?k" "decRat m' e' = of_int b * 10 powi ?k"
    using assms decRat_shift [of ?k e m] decRat_shift [of ?k e' m'] by (auto simp: aligned_def)
  moreover have "(0::rat) < 10 powi ?k" by simp
  ultimately show ?thesis by (simp add: mult_less_cancel_right_pos)
qed

lemma numLess_decRat [simp]: "numLess (Dec m e) (Dec m' e') \<longleftrightarrow> decRat m e < decRat m' e'"
  using aligned_less by (auto split: prod.splits)

declare numLess.simps(7) [simp del]

section \<open>Numerals\<close>

text \<open>A sign, digits before the point and digits after it; without the latter there is no point.\<close>

definition numeralText :: "bool \<Rightarrow> string \<Rightarrow> string \<Rightarrow> string" where
  "numeralText neg ip fp = (if neg then ''-'' else '''') @ ip @ (if fp = [] then [] else CHR ''.'' # fp)"

definition isNumeral :: "string \<Rightarrow> string \<Rightarrow> bool" where
  "isNumeral ip fp \<longleftrightarrow> ip \<noteq> [] \<and> list_all decimalDigit ip \<and> list_all decimalDigit fp"

definition numeralRat :: "bool \<Rightarrow> string \<Rightarrow> string \<Rightarrow> rat" where
  "numeralRat neg ip fp = decRat (if neg then - digitsNum (ip @ fp) else digitsNum (ip @ fp)) (- int (length fp))"

lemma numberRx_numeral: "rxTest numberRx s \<longleftrightarrow> (\<exists>neg ip fp. isNumeral ip fp \<and> s = numeralText neg ip fp)"
  (is "?L \<longleftrightarrow> ?R")
proof
  assume ?L
  then obtain neg ip fp where n: "ip \<noteq> []" "list_all decimalDigit ip"
    and "s = (if neg then ''-'' else '''') @ ip
      \<or> fp \<noteq> [] \<and> list_all decimalDigit fp \<and> s = (if neg then ''-'' else '''') @ ip @ CHR ''.'' # fp"
    unfolding numberRx_iff by blast
  then show ?R
  proof (elim disjE conjE)
    assume "s = (if neg then ''-'' else '''') @ ip"
    then have "isNumeral ip [] \<and> s = numeralText neg ip []" using n by (simp add: isNumeral_def numeralText_def)
    then show ?R by blast
  next
    assume "fp \<noteq> []" "list_all decimalDigit fp" "s = (if neg then ''-'' else '''') @ ip @ CHR ''.'' # fp"
    then have "isNumeral ip fp \<and> s = numeralText neg ip fp" using n by (simp add: isNumeral_def numeralText_def)
    then show ?R by blast
  qed
next
  assume ?R
  then obtain neg ip fp where "isNumeral ip fp" "s = numeralText neg ip fp" by blast
  then show ?L unfolding numberRx_iff
    by (intro exI [of _ neg] exI [of _ ip] exI [of _ fp]) (auto simp: isNumeral_def numeralText_def)
qed

lemma integerRx_numeral: "rxTest integerRx s \<longleftrightarrow> (\<exists>neg ip. isNumeral ip [] \<and> s = numeralText neg ip [])"
  by (auto simp: integerRx_iff isNumeral_def numeralText_def)

lemma decimalDigit_bounds: "decimalDigit c \<longleftrightarrow> 48 \<le> (of_char c :: nat) \<and> (of_char c :: nat) \<le> 57"
  by (auto simp: decimalDigit_def digitVal_def Let_def)

lemma digit_no_space: "decimalDigit c \<Longrightarrow> \<not> isJsSpace c"
  by (auto simp: decimalDigit_bounds isJsSpace_def)

lemma dropWhile_hd: "s \<noteq> [] \<Longrightarrow> \<not> P (hd s) \<Longrightarrow> dropWhile P s = s"
  by (cases s) auto

lemma jsTrim_id: "s \<noteq> [] \<Longrightarrow> \<not> isJsSpace (hd s) \<Longrightarrow> \<not> isJsSpace (last s) \<Longrightarrow> jsTrim s = s"
  by (simp add: jsTrim_def dropWhile_hd hd_rev)

definition numeralChar :: "char \<Rightarrow> bool" where
  "numeralChar c \<longleftrightarrow> decimalDigit c \<or> c = CHR ''-'' \<or> c = CHR ''.''"

lemma numeralChar_facts:
  assumes "numeralChar c"
  shows "\<not> isJsSpace c" "lowerAscii c = c" "c \<noteq> CHR ''x''" "c \<noteq> CHR ''o''" "c \<noteq> CHR ''b''" "c \<noteq> CHR ''I''"
  using assms by (auto simp: numeralChar_def decimalDigit_bounds isJsSpace_def lowerAscii_def)

lemma numeralText_chars: "isNumeral ip fp \<Longrightarrow> list_all numeralChar (numeralText neg ip fp)"
  by (auto simp: isNumeral_def numeralText_def list_all_iff numeralChar_def)

lemma numeralText_not_Nil: "isNumeral ip fp \<Longrightarrow> numeralText neg ip fp \<noteq> []"
  by (auto simp: isNumeral_def numeralText_def)

lemma lower_numeral: "list_all numeralChar s \<Longrightarrow> map lowerAscii s = s"
  by (induction s) (auto simp: numeralChar_facts)

lemma no_radix_prefix:
  assumes "list_all numeralChar s" "c = CHR ''x'' \<or> c = CHR ''o'' \<or> c = CHR ''b''"
  shows "\<not> startsWith s [CHR ''0'', c]"
proof
  assume "startsWith s [CHR ''0'', c]"
  then have "take 2 s = [CHR ''0'', c]" by (simp add: startsWith_def numeral_2_eq_2)
  then have "c \<in> set s" by (metis in_set_takeD list.set_intros)
  then show False using assms numeralChar_facts [of c] by (auto simp: list_all_iff)
qed

lemma decimalNum_numeral:
  assumes "isNumeral ip fp"
  shows "decimalNum neg (ip @ (if fp = [] then [] else CHR ''.'' # fp))
    = Dec (if neg then - digitsNum (ip @ fp) else digitsNum (ip @ fp)) (- int (length fp))"
proof -
  have dot: "\<not> decimalDigit CHR ''.''" by (simp add: decimalDigit_bounds)
  have ds: "\<forall>x\<in>set ip. decimalDigit x" "\<forall>x\<in>set fp. decimalDigit x" "ip \<noteq> []"
    using assms by (auto simp: isNumeral_def list_all_iff)
  then have all: "takeWhile decimalDigit ip = ip" "dropWhile decimalDigit ip = []" "takeWhile decimalDigit fp = fp" "dropWhile decimalDigit fp = []"
    by (auto simp: takeWhile_eq_all_conv)
  have cut: "takeWhile decimalDigit (ip @ CHR ''.'' # fp) = ip" "dropWhile decimalDigit (ip @ CHR ''.'' # fp) = CHR ''.'' # fp"
    using ds dot by (simp_all add: takeWhile_append2 dropWhile_append2)
  show ?thesis
    by (cases "fp = []") (simp_all add: decimalNum_def Let_def all cut ds startsWith_def exponentVal_def)
qed

lemma textNum_numeral:
  assumes "isNumeral ip fp"
  shows "textNum (numeralText neg ip fp)
    = Dec (if neg then - digitsNum (ip @ fp) else digitsNum (ip @ fp)) (- int (length fp))"
proof -
  let ?s = "numeralText neg ip fp" and ?r = "ip @ (if fp = [] then [] else CHR ''.'' # fp)"
  have chars: "list_all numeralChar ?s" and ne: "?s \<noteq> []" using assms numeralText_chars numeralText_not_Nil by blast+
  have "jsTrim ?s = ?s" using chars ne by (intro jsTrim_id) (auto simp: list_all_iff numeralChar_facts)
  moreover have "\<not> startsWith (map lowerAscii ?s) ''0x'' \<and> \<not> startsWith (map lowerAscii ?s) ''0o''
      \<and> \<not> startsWith (map lowerAscii ?s) ''0b''"
    using chars no_radix_prefix by (simp add: lower_numeral)
  moreover have "signedText ?s = (neg, ?r)"
  proof -
    from assms obtain c t where c: "ip = c # t" "decimalDigit c" by (cases ip) (auto simp: isNumeral_def)
    then have "c \<noteq> CHR ''-''" "c \<noteq> CHR ''+''" by (auto simp: decimalDigit_bounds)
    with c show ?thesis by (auto simp: signedText_def numeralText_def startsWith_def)
  qed
  moreover have "?r \<noteq> ''Infinity''"
  proof
    assume "?r = ''Infinity''"
    moreover have "list_all numeralChar ?r" using assms by (auto simp: isNumeral_def list_all_iff numeralChar_def)
    ultimately have "numeralChar CHR ''I''" by simp
    then show False using numeralChar_facts(6) by blast
  qed
  ultimately show ?thesis using ne decimalNum_numeral [OF assms] by (simp add: textNum_def Let_def)
qed

section \<open>What is accepted\<close>

text \<open>The fields that describe a parameter: its own, or those of its schema in OpenAPI 3.\<close>

definition describedBy :: "bool \<Rightarrow> (string \<times> jstree) list \<Rightarrow> (string \<times> jstree) list \<Rightarrow> bool" where
  "describedBy isOAS3 param ds \<longleftrightarrow> (if isOAS3 then fieldOf param ''schema'' = IMap ds else param = ds)"

lemma validateParam_described:
  "describedBy isOAS3 param ds \<Longrightarrow> validateParam env param value isOAS3 bypass
    = validateDetails env (treeTruthy (fieldOf param ''required'')) ds value isOAS3 bypass"
  by (simp add: validateParam_def describedBy_def split: if_splits)

lemma limit_checked: "treeTruthy (TNum (Dec m e)) \<or> isZero (TNum (Dec m e))"
  by (auto simp: isZero_def aligned_def)

lemma messages_Nil [simp]: "messages [] = []"
  by (simp add: messages_def)

lemma messages_Cons [simp]: "messages (e # es) = (case e of None \<Rightarrow> [] | Some m \<Rightarrow> [TStr m]) @ messages es"
  by (simp add: messages_def)

text \<open>What a limit of a number says of a text; a limit that is not set says nothing.\<close>

definition isLimit :: "jstree \<Rightarrow> bool" where
  "isLimit v \<longleftrightarrow> v = TUndef \<or> (\<exists>m e. v = TNum (Dec m e))"

lemma maximum_text:
  assumes "isLimit v"
  shows "whenJ (treeTruthy v \<or> isZero v) (Inr (validateMaximum env (TStr s) v))
    = Inr (if \<forall>m e. v = TNum (Dec m e) \<longrightarrow> \<not> numLess (Dec m e) (textNum s) then None
           else Some ''Value must be less than Maximum'')"
  using assms unfolding isLimit_def
proof (elim disjE exE)
  fix m e assume v: "v = TNum (Dec m e)"
  show ?thesis using limit_checked [of m e]
    by (simp add: v whenJ_def validateMaximum_def treeLess_def toPrimitive_def isPrimitive_def treeNum_def
        del: treeTruthy_simps numLess_decRat numLess.simps)
qed (simp add: whenJ_def isZero_def)

lemma minimum_text:
  assumes "isLimit v"
  shows "whenJ (treeTruthy v \<or> isZero v) (Inr (validateMinimum env (TStr s) v))
    = Inr (if \<forall>m e. v = TNum (Dec m e) \<longrightarrow> \<not> numLess (textNum s) (Dec m e) then None
           else Some ''Value must be greater than Minimum'')"
  using assms unfolding isLimit_def
proof (elim disjE exE)
  fix m e assume v: "v = TNum (Dec m e)"
  show ?thesis using limit_checked [of m e]
    by (simp add: v whenJ_def validateMinimum_def treeLess_def toPrimitive_def isPrimitive_def treeNum_def
        del: treeTruthy_simps numLess_decRat numLess.simps)
qed (simp add: whenJ_def isZero_def)

lemma textLimits:
  assumes "fieldOf ds ''pattern'' = TUndef" "fieldOf ds ''maxLength'' = TUndef" "fieldOf ds ''minLength'' = TUndef"
    and "isLimit (fieldOf ds ''maximum'')" "isLimit (fieldOf ds ''minimum'')"
  shows "\<exists>es. constraintErrors env ds (TStr s) = Inr es \<and>
    (es = [] \<longleftrightarrow>
      (\<forall>m e. fieldOf ds ''maximum'' = TNum (Dec m e) \<longrightarrow> \<not> numLess (Dec m e) (textNum s))
      \<and> (\<forall>m e. fieldOf ds ''minimum'' = TNum (Dec m e) \<longrightarrow> \<not> numLess (textNum s) (Dec m e)))"
  using assms
  by (simp add: constraintErrors_def Let_def maximum_text minimum_text whenJ_def [of False] isZero_def [of TUndef]
      del: numLess_decRat)


text \<open>A page that knows no regular expression, date or JSON text, for the examples.\<close>

definition plainEnv :: PageEnv where
  "plainEnv = \<lparr>regExpOf = (\<lambda>_. None), dateParses = (\<lambda>_. False), jsonParses = (\<lambda>_. False), immutableText = (\<lambda>_. '''')\<rparr>"


text \<open>
  A parameter without a value raises exactly one complaint, or none when it is not required,
  whatever its bounds, its pattern and its format; except for the objects of OpenAPI 3.
\<close>

theorem validateParam_missing:
  assumes "describedBy isOAS3 param ds" "fieldOf ds ''type'' = TStr t" "t \<noteq> ''''" "\<not> (isOAS3 \<and> t = ''object'')"
    and "value = TUndef \<or> value = TNull \<or> value = TStr ''''"
  shows "validateParam env param value isOAS3 False
    = Inr (if treeTruthy (fieldOf param ''required'') then [TStr ''Required field is not provided''] else [])"
proof -
  have "\<not> treeTruthy value" "\<not> presenceCheck t value" "objectCheck env isOAS3 (TStr t) value = Some False"
    using assms(4,5) by (auto simp: presenceCheck_def isNonEmptyArray_def isNonEmptyList_def isFile_def isZero_def objectCheck_def)
  then show ?thesis
    by (simp add: validateParam_described [OF assms(1)] validateDetails_def Let_def assms(2,3))
qed

theorem validateParam_missing_witness:
  "validateParam plainEnv [(''type'', TStr ''string''), (''required'', TBool True), (''maxLength'', TNum (Dec 5 0))] TUndef False False
    = Inr [TStr ''Required field is not provided'']"
  using validateParam_missing [of False
      "[(''type'', TStr ''string''), (''required'', TBool True), (''maxLength'', TNum (Dec 5 0))]"
      "[(''type'', TStr ''string''), (''required'', TBool True), (''maxLength'', TNum (Dec 5 0))]" "''string''" TUndef plainEnv]
  by (simp add: describedBy_def)

text \<open>
  The same parameter, once the user has asked to send it empty: the check of its length reads a
  property of \<open>undefined\<close> and throws.
\<close>

lemma empty_inclusion_throws:
  "validateParam env [(''type'', TStr ''string''), (''required'', TBool True), (''maxLength'', TNum (Dec 5 0))] TUndef False True
    = Inl (TypeError ''Cannot read property length'')"
  by (simp add: validateParam_def validateDetails_def objectCheck_def presenceCheck_def constraintErrors_def whenJ_def
      isNullish_def validateMaxLength_def lengthOf_def Let_def isZero_def)

text \<open>The number zero is no value for an optional parameter: its minimum is not looked at.\<close>

lemma optional_zero_unchecked:
  "validateParam env [(''type'', TStr ''number''), (''minimum'', TNum (Dec 1 0))] (TNum (Dec 0 0)) False bypass = Inr []"
  by (simp add: validateParam_def validateDetails_def Let_def)

text \<open>The elements of a list: a complaint for each that is refused, at its position, and no other.\<close>

lemma itemErrors_iff:
  "TObj [(''index'', TNum (Dec (int i) 0)), (''error'', TStr e)] \<in> set (itemErrors env itemType items)
    \<longleftrightarrow> i < length items \<and> itemError env itemType (items ! i) = Some e"
  by (auto simp: itemErrors_def set_zip split: option.splits intro!: exI [of _ i])

end
