(* ===== verification/UiSchema.thy ===== *)
theory UiSchema
  imports JsTree
begin

text \<open>
  The samples that the pages make of the schemas of a description: \<open>deeplyStripKey\<close> and its helpers in
  \<open>core/utils.js\<close>, \<open>primitive\<close>, \<open>sampleFromSchema\<close> and \<open>inferSchema\<close> in \<open>samples/fn.js\<close>. Schemas are
  plain objects; an immutable map is made plain first, as the code does.
\<close>

section \<open>Helpers\<close>

definition isObject :: "jstree \<Rightarrow> bool" where
  "isObject v \<longleftrightarrow> treeTruthy v \<and> typeOf v = ''object''"

definition isImmutable :: "jstree \<Rightarrow> bool" where
  "isImmutable v = (case v of IList _ \<Rightarrow> True | IMap _ \<Rightarrow> True | _ \<Rightarrow> False)"

definition objectify :: "jstree \<Rightarrow> jstree" where
  "objectify v = (if \<not> isObject v then TObj [] else if isImmutable v then toJS v else v)"

definition normalizeArray :: "jstree \<Rightarrow> jstree list" where
  "normalizeArray v = (case v of TArr vs \<Rightarrow> vs | _ \<Rightarrow> [v])"

text \<open>\<open>deeplyStripKey\<close> on a value that \<open>objectify\<close> made plain.\<close>

fun deeplyStripKey :: "string \<Rightarrow> (jstree \<Rightarrow> string \<Rightarrow> bool) \<Rightarrow> jstree \<Rightarrow> jstree" where
  "deeplyStripKey key p (TObj ps) =
    (if key = '''' then TObj ps
     else TObj (map (\<lambda>(k, v). (k, deeplyStripKey key p v)) (filter (\<lambda>(k, v). \<not> (k = key \<and> p v k)) ps)))"
| "deeplyStripKey key p v = v"

text \<open>\<open>function(val){return typeof val==="string"&&val.indexOf("#")>-1}\<close>\<close>

definition isRefText :: "jstree \<Rightarrow> string \<Rightarrow> bool" where
  "isRefText v k = (case v of TStr s \<Rightarrow> indexOf s CHR ''#'' \<noteq> None | _ \<Rightarrow> False)"

section \<open>Values of the primitive types\<close>

text \<open>
  The clock, the text of an immutable value, and what the functions that every object inherits
  return when they are called with a schema.
\<close>

record SampleEnv =
  isoNow :: string
  sampleText :: "jstree \<Rightarrow> string"
  inheritedCall :: "string \<Rightarrow> jstree \<Rightarrow> JsFailure + jstree"

text \<open>The own functions of the table \<open>primitives\<close>.\<close>

definition primitives :: "SampleEnv \<Rightarrow> (string \<times> ((string \<times> jstree) list \<Rightarrow> jstree)) list" where
  "primitives env =
    [(''string'', \<lambda>_. TStr ''string''),
     (''string_email'', \<lambda>_. TStr ''user@example.com''),
     (''string_date-time'', \<lambda>_. TStr (isoNow env)),
     (''string_date'', \<lambda>_. TStr (take 10 (isoNow env))),
     (''string_uuid'', \<lambda>_. TStr ''3fa85f64-5717-4562-b3fc-2c963f66afa6''),
     (''string_hostname'', \<lambda>_. TStr ''example.com''),
     (''string_ipv4'', \<lambda>_. TStr ''198.51.100.42''),
     (''string_ipv6'', \<lambda>_. TStr ''2001:0db8:5b96:0000:0000:426f:8e17:642a''),
     (''number'', \<lambda>_. TNum (Dec 0 0)),
     (''number_float'', \<lambda>_. TNum (Dec 0 0)),
     (''integer'', \<lambda>_. TNum (Dec 0 0)),
     (''boolean'', \<lambda>schema. (case fieldOf schema ''default'' of TBool b \<Rightarrow> TBool b | _ \<Rightarrow> TBool True))]"

text \<open>The fields of a schema that was made plain; an array has none of the names the code reads.\<close>

definition schemaFields :: "jstree \<Rightarrow> (string \<times> jstree) list" where
  "schemaFields schema = (case objectify schema of TObj ps \<Rightarrow> ps | _ \<Rightarrow> [])"

text \<open>\<open>primitives[name]\<close>, called with the schema; \<open>None\<close> where there is nothing or no function.\<close>

datatype Looked = NotThere | NoFunction | Calls "JsFailure + jstree"

definition lookPrimitive :: "SampleEnv \<Rightarrow> string \<Rightarrow> jstree \<Rightarrow> Looked" where
  "lookPrimitive env name schema =
    (case map_of (primitives env) name of
       Some f \<Rightarrow> Calls (Inr (f (schemaFields schema)))
     | None \<Rightarrow>
         if name = ''__proto__'' then NoFunction
         else if name \<in> set inheritedNames then Calls (inheritedCall env name (objectify schema))
         else NotThere)"

definition primitive :: "SampleEnv \<Rightarrow> jstree \<Rightarrow> JsFailure + jstree" where
  "primitive env schema =
    (let fs = schemaFields schema;
         type = treeText (sampleText env) (fieldOf fs ''type'');
         format = treeText (sampleText env) (fieldOf fs ''format'');
         unknown = Inr (TStr (''Unknown Type: '' @ type))
     in case lookPrimitive env (type @ ''_'' @ format) schema of
          Calls r \<Rightarrow> r
        | NoFunction \<Rightarrow> unknown
        | NotThere \<Rightarrow> (case lookPrimitive env type schema of Calls r \<Rightarrow> r | _ \<Rightarrow> unknown))"

section \<open>Samples\<close>

record SampleConfig =
  includeReadOnly :: bool
  includeWriteOnly :: bool

text \<open>\<open>v.k\<close> of a value that is there: primitives and arrays have none of the names read.\<close>

definition propOf :: "jstree \<Rightarrow> string \<Rightarrow> jstree" where
  "propOf v k = (case v of TObj ps \<Rightarrow> fieldOf ps k | _ \<Rightarrow> TUndef)"

definition isTrue :: "jstree \<Rightarrow> string \<Rightarrow> bool" where
  "isTrue v k \<longleftrightarrow> treeTruthy v \<and> treeTruthy (propOf v k)"

definition leftOut :: "SampleConfig \<Rightarrow> jstree \<Rightarrow> bool" where
  "leftOut config v \<longleftrightarrow>
    isTrue v ''deprecated'' \<or> isTrue v ''readOnly'' \<and> \<not> includeReadOnly config
    \<or> isTrue v ''writeOnly'' \<and> \<not> includeWriteOnly config"

text \<open>What \<open>for (var name in props)\<close> visits: the names of an object, the indices of an array.\<close>

definition entriesOf :: "jstree \<Rightarrow> (string \<times> jstree) list" where
  "entriesOf v = (case v of TObj ps \<Rightarrow> ps | TArr vs \<Rightarrow> zip (map showNat [0..<length vs]) vs | _ \<Rightarrow> [])"

text \<open>\<open>obj[name] = v\<close> on a new object: the name \<open>__proto__\<close> makes no property.\<close>

definition assign :: "(string \<times> jstree) list \<Rightarrow> string \<times> jstree \<Rightarrow> (string \<times> jstree) list" where
  "assign obj = (\<lambda>(name, v). if name = ''__proto__'' then obj else jput name v obj)"

definition assignAll :: "(string \<times> jstree) list \<Rightarrow> (string \<times> jstree) list \<Rightarrow> (string \<times> jstree) list" where
  "assignAll obj es = fold (\<lambda>e o'. assign o' e) es obj"

definition schemaType :: "(string \<times> jstree) list \<Rightarrow> jstree" where
  "schemaType fs =
    (if treeTruthy (fieldOf fs ''type'') then fieldOf fs ''type''
     else if treeTruthy (fieldOf fs ''properties'') then TStr ''object''
     else if treeTruthy (fieldOf fs ''items'') then TStr ''array''
     else TUndef)"

definition shownProps :: "SampleConfig \<Rightarrow> jstree \<Rightarrow> (string \<times> jstree) list" where
  "shownProps config properties = filter (\<lambda>(name, v). \<not> leftOut config v) (entriesOf (objectify properties))"

text \<open>The schemas of the elements: those of \<open>anyOf\<close>, those of \<open>oneOf\<close>, or the items themselves.\<close>

definition arrayOf :: "jstree \<Rightarrow> jstree list option" where
  "arrayOf v = (case v of TArr vs \<Rightarrow> Some vs | _ \<Rightarrow> None)"

lemma arrayOf_Some [simp]: "arrayOf v = Some vs \<longleftrightarrow> v = TArr vs"
  by (auto simp: arrayOf_def split: jstree.splits)

definition itemSchemas :: "jstree \<Rightarrow> JsFailure + jstree list" where
  "itemSchemas items =
    bindJ (readProp items ''anyOf'') (\<lambda>anyOf.
    bindJ (readProp items ''oneOf'') (\<lambda>oneOf.
      Inr (case arrayOf anyOf of
             Some schemas \<Rightarrow> schemas
           | None \<Rightarrow> (case arrayOf oneOf of Some schemas \<Rightarrow> schemas | None \<Rightarrow> [items]))))"

text \<open>\<open>schema[k]\<close>, read from the schema as it was passed.\<close>

definition enumSample :: "jstree \<Rightarrow> jstree" where
  "enumSample schema =
    (if treeTruthy (propOf schema ''default'') then propOf schema ''default''
     else (case normalizeArray (propOf schema ''enum'') of [] \<Rightarrow> TUndef | v # _ \<Rightarrow> v))"

section \<open>The sizes of the parts\<close>

lemma size_toJS [simp]: "size (toJS v) = size v"
proof (induction v)
  case (IList vs)
  then show ?case by (induction vs) auto
next
  case (IMap ps)
  have "size_prod (\<lambda>x. 0) size (case e of (k, v) \<Rightarrow> (k, toJS v)) = size_prod (\<lambda>x. 0) size e" if "e \<in> set ps" for e :: "string \<times> jstree"
    using IMap [OF that] by (cases e) (simp add: snds.simps)
  then show ?case by (simp add: size_list_conv_sum_list cong: map_cong)
qed auto

lemma size_objectify: "size (objectify v) \<le> Suc (size v)"
  by (auto simp: objectify_def)

lemma size_objectify_object: "isObject v \<Longrightarrow> size (objectify v) = size v"
  by (simp add: objectify_def)

lemma size_entry: "(k, v) \<in> set ps \<Longrightarrow> Suc (size v) < size (TObj ps)"
  by (induction ps) auto

lemma size_fieldOf: "fieldOf ps k \<noteq> TUndef \<Longrightarrow> Suc (size (fieldOf ps k)) < size (TObj ps)"
  unfolding fieldOf_def jget_def by (auto dest!: map_of_SomeD size_entry split: option.splits)

lemma schemaFields_object: "schemaFields schema = ps \<Longrightarrow> ps \<noteq> [] \<Longrightarrow> isObject schema \<and> objectify schema = TObj ps"
  by (auto simp: schemaFields_def objectify_def split: jstree.splits if_splits)

lemma size_schemaField:
  assumes "fieldOf (schemaFields schema) k \<noteq> TUndef"
  shows "Suc (size (fieldOf (schemaFields schema) k)) < size schema"
proof -
  have "schemaFields schema \<noteq> []" using assms by auto
  have "Suc (size (fieldOf (schemaFields schema) k)) < size (TObj (schemaFields schema))"
    using assms by (rule size_fieldOf)
  also have "\<dots> \<le> size schema"
    using schemaFields_object [OF refl \<open>schemaFields schema \<noteq> []\<close>] size_objectify_object by fastforce
  finally show ?thesis .
qed

lemma size_entriesOf: "(k, v) \<in> set (entriesOf w) \<Longrightarrow> size v < size w"
proof (cases w)
  case (TArr vs)
  assume "(k, v) \<in> set (entriesOf w)"
  then have "v \<in> set vs" using TArr by (auto simp: entriesOf_def dest: set_zip_rightD)
  then have "size v \<le> size_list size vs" by (simp add: size_list_estimation')
  then show ?thesis using TArr by simp
qed (auto simp: entriesOf_def dest: size_entry)

lemma size_shownProps:
  assumes "(k, v) \<in> set (shownProps config (fieldOf (schemaFields schema) f))"
  shows "size v < size schema"
proof -
  let ?p = "fieldOf (schemaFields schema) f"
  have e: "(k, v) \<in> set (entriesOf (objectify ?p))" using assms by (auto simp: shownProps_def)
  then have t: "isObject ?p" by (auto simp: objectify_def entriesOf_def split: if_splits)
  then have "?p \<noteq> TUndef" by (auto simp: isObject_def)
  then show ?thesis using size_entriesOf [OF e] size_objectify_object [OF t] size_schemaField [of schema f] by linarith
qed

lemma size_member: "w = TArr vs \<Longrightarrow> v \<in> set vs \<Longrightarrow> size v < size w"
  by (simp add: size_list_estimation' less_Suc_eq_le)

lemma size_readProp: "readProp v k = Inr w \<Longrightarrow> size w \<le> size v"
proof (cases "v = TUndef \<or> v = TNull \<or> w = TUndef")
  case False
  assume "readProp v k = Inr w"
  with False obtain ps where "v = TObj ps" "w = fieldOf ps k" by (cases v) (auto simp: readProp_def)
  then show ?thesis using False size_fieldOf [of ps k] by auto
qed (auto simp: readProp_def)

lemma size_itemSchemas:
  assumes "itemSchemas items = Inr schemas" "i \<in> set schemas"
  shows "size i \<le> size items"
proof -
  obtain anyOf oneOf where r: "readProp items ''anyOf'' = Inr anyOf" "readProp items ''oneOf'' = Inr oneOf"
    and s: "schemas = (case arrayOf anyOf of Some ss \<Rightarrow> ss
      | None \<Rightarrow> (case arrayOf oneOf of Some ss \<Rightarrow> ss | None \<Rightarrow> [items]))"
    using assms(1) by (auto simp: itemSchemas_def bindJ_Inr_conv)
  then have "anyOf = TArr schemas \<or> oneOf = TArr schemas \<or> schemas = [items]"
    by (auto split: option.splits)
  then show ?thesis
    using size_readProp [OF r(1)] size_readProp [OF r(2)] size_member [OF _ assms(2)] assms(2)
    by (elim disjE) (force dest: less_le_trans)+
qed

section \<open>sampleFromSchema\<close>

function sampleFromSchema :: "SampleEnv \<Rightarrow> SampleConfig \<Rightarrow> jstree \<Rightarrow> JsFailure + jstree" where
  "sampleFromSchema env config schema =
    (let fs = schemaFields schema; example = fieldOf fs ''example''; type = schemaType fs in
     if example \<noteq> TUndef then Inr (deeplyStripKey ''$$ref'' isRefText example)
     else if type = TUndef then Inr TUndef
     else if type = TStr ''object'' then
       bindJ (mapJ (\<lambda>(name, v). bindJ (sampleFromSchema env config v) (\<lambda>w. Inr (name, w)))
               (shownProps config (fieldOf fs ''properties''))) (\<lambda>es.
         let obj = assignAll [] es; additionalProperties = fieldOf fs ''additionalProperties'' in
         if additionalProperties = TBool True then Inr (TObj (assign obj (''additionalProp1'', TObj [])))
         else if treeTruthy additionalProperties then
           bindJ (sampleFromSchema env config (objectify additionalProperties)) (\<lambda>w.
             Inr (TObj (assignAll obj [(''additionalProp1'', w), (''additionalProp2'', w), (''additionalProp3'', w)])))
         else Inr (TObj obj))
     else if type = TStr ''array'' then
       bindJ (itemSchemas (fieldOf fs ''items'')) (\<lambda>schemas.
         bindJ (mapJ (sampleFromSchema env config) schemas) (\<lambda>vs. Inr (TArr vs)))
     else if treeTruthy (propOf schema ''enum'') then Inr (enumSample schema)
     else if type = TStr ''file'' then Inr TUndef
     else primitive env schema)"
  by pat_completeness auto
termination
proof (relation "measure (\<lambda>(env, config, schema). size schema)", goal_cases)
  case (2 env config schema fs example type e name v)
  then show ?case using size_shownProps [of name v config schema "''properties''"] by auto
next
  case (3 env config schema fs example type es obj ap)
  then have "fieldOf (schemaFields schema) ''additionalProperties'' \<noteq> TUndef" by auto
  then show ?case
    using 3 size_schemaField [of schema "''additionalProperties''"] size_objectify [of ap] by auto
next
  case (4 env config schema fs example type schemas i)
  then have "fieldOf (schemaFields schema) ''items'' \<noteq> TUndef" by (auto simp: itemSchemas_def readProp_def)
  then show ?case
    using 4 size_schemaField [of schema "''items''"] size_itemSchemas [of "fieldOf fs ''items''" schemas i] by auto
qed simp

declare sampleFromSchema.simps [simp del]

text \<open>\<open>inferSchema\<close> changes the schema it is given; the model returns the changed schema.\<close>

definition inferSchema :: "jstree \<Rightarrow> JsFailure + jstree" where
  "inferSchema thing =
    bindJ (readProp thing ''schema'') (\<lambda>inner.
      let thing' = (if treeTruthy inner then inner else thing) in
      bindJ (readProp thing' ''properties'') (\<lambda>properties.
        Inr (if treeTruthy properties
             then (case thing' of TObj ps \<Rightarrow> TObj (jput ''type'' (TStr ''object'') ps) | _ \<Rightarrow> thing')
             else thing')))"

end
