(* ===== verification/UiSchemaSpec.thy ===== *)
theory UiSchemaSpec
  imports UiSchema
begin

text \<open>
  What the samples are good for: a sample made of a schema that the generator can handle exists and
  conforms to the schema; and what \<open>deeplyStripKey\<close> leaves of an example.
\<close>

section \<open>Stripping a key\<close>

text \<open>The value a path of names leads to, through plain objects.\<close>

fun pathAt :: "jstree \<Rightarrow> string list \<Rightarrow> jstree option" where
  "pathAt v [] = Some v"
| "pathAt v (k # ks) = (case v of TObj ps \<Rightarrow> Option.bind (jget ps k) (\<lambda>w. pathAt w ks) | _ \<Rightarrow> None)"

text \<open>Whether the path passes a property that is stripped.\<close>

fun passesStripped :: "string \<Rightarrow> (jstree \<Rightarrow> string \<Rightarrow> bool) \<Rightarrow> jstree \<Rightarrow> string list \<Rightarrow> bool" where
  "passesStripped key p v [] = False"
| "passesStripped key p v (k # ks) = (case v of
     TObj ps \<Rightarrow> (case jget ps k of None \<Rightarrow> False | Some w \<Rightarrow> k = key \<and> p w k \<or> passesStripped key p w ks)
   | _ \<Rightarrow> False)"

inductive objectsOk :: "jstree \<Rightarrow> bool" where
  "jmap_ok ps \<Longrightarrow> (\<And>k v. (k, v) \<in> set ps \<Longrightarrow> objectsOk v) \<Longrightarrow> objectsOk (TObj ps)"
| "\<forall>ps. v \<noteq> TObj ps \<Longrightarrow> objectsOk v"

inductive_cases objectsOk_TObj [elim!]: "objectsOk (TObj ps)"

lemma jget_stripped:
  "jmap_ok ps \<Longrightarrow> jget (map (\<lambda>(k, v). (k, f v)) (filter (\<lambda>(k, v). \<not> P k v) ps)) k
    = (case jget ps k of None \<Rightarrow> None | Some v \<Rightarrow> if P k v then None else Some (f v))"
proof (induction ps)
  case (Cons e ps)
  obtain j v where e: "e = (j, v)" by (cases e)
  have "j = k \<Longrightarrow> jget ps k = None"
    using Cons.prems by (auto simp: e jmap_ok_def jget_def map_of_eq_None_iff)
  then show ?case using Cons by (auto simp: e jget_def jmap_ok_def split: option.splits)
qed (simp add: jget_def)

lemma deeplyStripKey_object:
  assumes "key \<noteq> ''''" "jmap_ok ps"
  obtains qs where "deeplyStripKey key p (TObj ps) = TObj qs"
    and "\<And>k. jget qs k = (case jget ps k of None \<Rightarrow> None
      | Some v \<Rightarrow> if k = key \<and> p v k then None else Some (deeplyStripKey key p v))"
proof
  show "deeplyStripKey key p (TObj ps)
      = TObj (map (\<lambda>(k, v). (k, deeplyStripKey key p v)) (filter (\<lambda>(k, v). \<not> (k = key \<and> p v k)) ps))"
    using assms(1) by simp
  show "jget (map (\<lambda>(k, v). (k, deeplyStripKey key p v)) (filter (\<lambda>(k, v). \<not> (k = key \<and> p v k)) ps)) k
      = (case jget ps k of None \<Rightarrow> None | Some v \<Rightarrow> if k = key \<and> p v k then None else Some (deeplyStripKey key p v))" for k
    by (rule jget_stripped [OF assms(2)])
qed

text \<open>
  In an example without its reference keys every other path leads to the stripped value it led to,
  and a path through such a key leads nowhere.
\<close>

lemma pathAt_deeplyStripKey:
  assumes "key \<noteq> ''''" "objectsOk v"
  shows "pathAt (deeplyStripKey key p v) ks
    = (if passesStripped key p v ks then None else map_option (deeplyStripKey key p) (pathAt v ks))"
  using assms(2)
proof (induction ks arbitrary: v)
  case (Cons k ks)
  show ?case
  proof (cases v)
    case (TObj ps)
    then have "jmap_ok ps" using Cons.prems by auto
    then obtain qs where qs: "deeplyStripKey key p (TObj ps) = TObj qs"
      and look: "\<And>k. jget qs k = (case jget ps k of None \<Rightarrow> None
        | Some v \<Rightarrow> if k = key \<and> p v k then None else Some (deeplyStripKey key p v))"
      using assms(1) deeplyStripKey_object by metis
    show ?thesis
    proof (cases "jget ps k")
      case (Some w)
      then have "objectsOk w" using Cons.prems TObj by (auto simp: jget_def dest: map_of_SomeD)
      then show ?thesis unfolding TObj qs using Cons.IH [of w] by (auto simp: look Some)
    qed (unfold TObj qs, simp add: look)
  qed simp_all
qed simp

lemma stripped_path_gone:
  assumes "objectsOk v" "pathAt v (ks @ [''$$ref'']) = Some (TStr s)" "indexOf s CHR ''#'' \<noteq> None"
  shows "pathAt (deeplyStripKey ''$$ref'' isRefText v) (ks @ [''$$ref'']) = None"
proof -
  have "passesStripped ''$$ref'' isRefText v (ks @ [''$$ref''])"
    using assms(2,3)
    by (induction ks arbitrary: v) (auto simp: isRefText_def split: jstree.splits option.splits bind_splits)
  then show ?thesis using assms(1) by (simp add: pathAt_deeplyStripKey)
qed

text \<open>Arrays are not searched: a reference key inside one stays.\<close>

lemma array_keeps_ref:
  "deeplyStripKey ''$$ref'' isRefText (TArr [TObj [(''$$ref'', TStr ''#/definitions/Pet'')]])
    = TArr [TObj [(''$$ref'', TStr ''#/definitions/Pet'')]]"
  by simp

section \<open>Samples conform\<close>

text \<open>
  The values a schema allows, as far as the generator reads it: the type, the elements of arrays,
  the properties that are shown, the additional properties, the choices of an enumeration.
\<close>

definition plainType :: "string \<Rightarrow> jstree \<Rightarrow> bool" where
  "plainType t v \<longleftrightarrow>
    t = ''string'' \<and> typeOf v = ''string'' \<or> (t = ''number'' \<or> t = ''integer'') \<and> typeOf v = ''number''
    \<or> t = ''boolean'' \<and> typeOf v = ''boolean''"

definition isContainer :: "(string \<times> jstree) list \<Rightarrow> bool" where
  "isContainer fs \<longleftrightarrow> schemaType fs = TStr ''object'' \<or> schemaType fs = TStr ''array''"

inductive conforms :: "SampleConfig \<Rightarrow> jstree \<Rightarrow> jstree \<Rightarrow> bool" for config where
  plain: "fieldOf fs ''type'' = TStr t \<Longrightarrow> plainType t v \<Longrightarrow> conforms config (TObj fs) v"
| choice: "\<not> isContainer fs \<Longrightarrow> fieldOf fs ''enum'' = TArr vs \<Longrightarrow> v \<in> set vs \<Longrightarrow> conforms config (TObj fs) v"
| array: "schemaType fs = TStr ''array'' \<Longrightarrow> itemSchemas (fieldOf fs ''items'') = Inr schemas
    \<Longrightarrow> (\<And>w. w \<in> set vs \<Longrightarrow> \<exists>s\<in>set schemas. conforms config s w) \<Longrightarrow> conforms config (TObj fs) (TArr vs)"
| object: "schemaType fs = TStr ''object''
    \<Longrightarrow> (\<And>k s. jget (shownProps config (fieldOf fs ''properties'')) k = Some s
          \<Longrightarrow> \<exists>w. jget ps k = Some w \<and> conforms config s w)
    \<Longrightarrow> (\<And>k w. jget ps k = Some w \<Longrightarrow> jget (shownProps config (fieldOf fs ''properties'')) k = None
          \<Longrightarrow> fieldOf fs ''additionalProperties'' = TBool True
            \<or> conforms config (objectify (fieldOf fs ''additionalProperties'')) w)
    \<Longrightarrow> conforms config (TObj fs) (TObj ps)"

definition addedNames :: "string set" where
  "addedNames = {''additionalProp1'', ''additionalProp2'', ''additionalProp3''}"

text \<open>
  The schemas the generator handles: no example of their own; a primitive type, an enumeration that
  holds its default, or a container of such schemas whose property names are distinct, are not
  \<open>__proto__\<close> and are not the names that the additional properties get.
\<close>

inductive samplable :: "SampleConfig \<Rightarrow> jstree \<Rightarrow> bool" for config where
  plain: "fieldOf fs ''example'' = TUndef \<Longrightarrow> fieldOf fs ''type'' = TStr t
    \<Longrightarrow> t \<in> {''string'', ''number'', ''integer'', ''boolean''} \<Longrightarrow> \<not> treeTruthy (fieldOf fs ''enum'')
    \<Longrightarrow> samplable config (TObj fs)"
| choice: "fieldOf fs ''example'' = TUndef \<Longrightarrow> treeTruthy (fieldOf fs ''type'') \<Longrightarrow> \<not> isContainer fs
    \<Longrightarrow> fieldOf fs ''enum'' = TArr (v # vs)
    \<Longrightarrow> treeTruthy (fieldOf fs ''default'') \<longrightarrow> fieldOf fs ''default'' \<in> set (v # vs)
    \<Longrightarrow> samplable config (TObj fs)"
| array: "fieldOf fs ''example'' = TUndef \<Longrightarrow> schemaType fs = TStr ''array''
    \<Longrightarrow> itemSchemas (fieldOf fs ''items'') = Inr schemas
    \<Longrightarrow> (\<And>s. s \<in> set schemas \<Longrightarrow> samplable config s) \<Longrightarrow> samplable config (TObj fs)"
| object: "fieldOf fs ''example'' = TUndef \<Longrightarrow> schemaType fs = TStr ''object''
    \<Longrightarrow> distinct (map fst (shownProps config (fieldOf fs ''properties'')))
    \<Longrightarrow> ''__proto__'' \<notin> fst ` set (shownProps config (fieldOf fs ''properties''))
    \<Longrightarrow> (\<And>k s. (k, s) \<in> set (shownProps config (fieldOf fs ''properties'')) \<Longrightarrow> samplable config s)
    \<Longrightarrow> \<not> treeTruthy (fieldOf fs ''additionalProperties'')
        \<or> addedNames \<inter> fst ` set (shownProps config (fieldOf fs ''properties'')) = {}
          \<and> (fieldOf fs ''additionalProperties'' = TBool True
             \<or> samplable config (objectify (fieldOf fs ''additionalProperties'')))
    \<Longrightarrow> samplable config (TObj fs)"

lemma objectify_TObj [simp]: "objectify (TObj ps) = TObj ps"
  by (simp add: objectify_def isImmutable_def isObject_def typeOf_def)

lemma schemaFields_TObj [simp]: "schemaFields (TObj ps) = ps"
  by (simp add: schemaFields_def)

lemma jget_assignAll:
  "''__proto__'' \<notin> fst ` set es \<Longrightarrow> distinct (map fst es)
    \<Longrightarrow> jget (assignAll obj es) k = (case jget es k of None \<Rightarrow> jget obj k | Some v \<Rightarrow> Some v)"
proof (induction es arbitrary: obj)
  case (Cons e es)
  obtain j v where e: "e = (j, v)" by (cases e)
  have "assignAll obj (e # es) = assignAll (jput j v obj) es"
    using Cons.prems by (auto simp: assignAll_def assign_def e)
  moreover have "j = k \<Longrightarrow> jget es k = None"
    using Cons.prems by (auto simp: e jget_def map_of_eq_None_iff)
  ultimately show ?case
    using Cons by (auto simp: e jm.get_put jget_def [of "(j, v) # es"] jget_def [of es] split: option.splits)
qed (simp add: assignAll_def jget_def)

text \<open>Every function of the table gives a value of the type its name starts with.\<close>

lemma primitives_typed:
  assumes "map_of (primitives env) n = Some g"
  shows "plainType (takeWhile (\<lambda>c. c \<noteq> CHR ''_'') n) (g fs)"
proof -
  have "\<forall>(n, g)\<in>set (primitives env). plainType (takeWhile (\<lambda>c. c \<noteq> CHR ''_'') n) (g fs)"
    by (simp add: primitives_def plainType_def typeOf_def split: jstree.split)
  then show ?thesis using map_of_SomeD [OF assms] by blast
qed

lemma primitive_plainType:
  assumes "t \<in> {''string'', ''number'', ''integer'', ''boolean''}" "fieldOf fs ''type'' = TStr t"
  shows "\<exists>v. primitive env (TObj fs) = Inr v \<and> plainType t v"
proof -
  let ?f = "treeText (sampleText env) (fieldOf fs ''format'')"
  have no: "t @ ''_'' @ ?f \<noteq> ''__proto__''" "t @ ''_'' @ ?f \<notin> set inheritedNames"
    using assms(1) by (elim insertE; simp add: inheritedNames_def)+
  have t: "takeWhile (\<lambda>c. c \<noteq> CHR ''_'') t = t" "takeWhile (\<lambda>c. c \<noteq> CHR ''_'') (t @ ''_'' @ ?f) = t"
    using assms(1) by (elim insertE; simp)+
  have "\<exists>g. map_of (primitives env) t = Some g" using assms(1) by (elim insertE; simp add: primitives_def)
  then obtain g where g: "map_of (primitives env) t = Some g" by blast
  show ?thesis
  proof (cases "map_of (primitives env) (t @ ''_'' @ ?f)")
    case None
    then show ?thesis using primitives_typed [OF g, of fs] no g t
      by (simp add: primitive_def Let_def assms(2) lookPrimitive_def)
  next
    case (Some h)
    then show ?thesis using primitives_typed [OF Some, of fs] t
      by (simp add: primitive_def Let_def assms(2) lookPrimitive_def)
  qed
qed

text \<open>The samples of the shown properties, each for its name.\<close>

lemma sample_properties:
  assumes "\<forall>e\<in>set es. \<exists>v. f (snd e) = Inr v \<and> P (snd e) v"
  shows "\<exists>vs. mapJ (\<lambda>(k, s). bindJ (f s) (\<lambda>w. Inr (k, w))) es = Inr vs \<and> map fst vs = map fst es \<and>
    (\<forall>k. jget es k = None \<longrightarrow> jget vs k = None) \<and> (\<forall>k s. jget es k = Some s \<longrightarrow> (\<exists>w. jget vs k = Some w \<and> P s w))"
  using assms
proof (induction es)
  case (Cons e es)
  obtain k s where e: "e = (k, s)" by (cases e)
  obtain v where v: "f s = Inr v" "P s v" using Cons.prems e by auto
  have "\<forall>e\<in>set es. \<exists>v. f (snd e) = Inr v \<and> P (snd e) v" using Cons.prems by simp
  from Cons.IH [OF this] obtain vs where vs: "mapJ (\<lambda>(k, s). bindJ (f s) (\<lambda>w. Inr (k, w))) es = Inr vs" "map fst vs = map fst es"
    "\<forall>k. jget es k = None \<longrightarrow> jget vs k = None" "\<forall>k s. jget es k = Some s \<longrightarrow> (\<exists>w. jget vs k = Some w \<and> P s w)"
    by blast
  have "mapJ (\<lambda>(k, s). bindJ (f s) (\<lambda>w. Inr (k, w))) (e # es) = Inr ((k, v) # vs)"
    "map fst ((k, v) # vs) = map fst (e # es)"
    "\<forall>j. jget (e # es) j = None \<longrightarrow> jget ((k, v) # vs) j = None"
    "\<forall>j s. jget (e # es) j = Some s \<longrightarrow> (\<exists>w. jget ((k, v) # vs) j = Some w \<and> P s w)"
    using v vs by (simp_all add: e jget_def)
  then show ?case by blast
qed (simp add: jget_def)

lemma sample_elements:
  assumes "\<And>s. s \<in> set ss \<Longrightarrow> \<exists>v. f s = Inr v \<and> P s v"
  shows "\<exists>vs. mapJ f ss = Inr vs \<and> (\<forall>v\<in>set vs. \<exists>s\<in>set ss. P s v)"
  using assms
proof (induction ss)
  case (Cons s ss)
  obtain v where "f s = Inr v" "P s v" using Cons.prems [of s] by auto
  moreover obtain vs where "mapJ f ss = Inr vs" "\<forall>v\<in>set vs. \<exists>s\<in>set ss. P s v"
    using Cons.IH Cons.prems by auto
  ultimately show ?case by auto
qed simp

lemma schemaType_given: "treeTruthy (fieldOf fs ''type'') \<Longrightarrow> schemaType fs = fieldOf fs ''type''"
  by (simp add: schemaType_def)

lemma sample_object:
  assumes "fieldOf fs ''example'' = TUndef" "schemaType fs = TStr ''object''"
    and "mapJ (\<lambda>(name, v). bindJ (sampleFromSchema env config v) (\<lambda>w. Inr (name, w)))
      (shownProps config (fieldOf fs ''properties'')) = Inr es"
  shows "sampleFromSchema env config (TObj fs) =
    (let obj = assignAll [] es; additionalProperties = fieldOf fs ''additionalProperties'' in
     if additionalProperties = TBool True then Inr (TObj (assign obj (''additionalProp1'', TObj [])))
     else if treeTruthy additionalProperties then
       bindJ (sampleFromSchema env config (objectify additionalProperties)) (\<lambda>w.
         Inr (TObj (assignAll obj [(''additionalProp1'', w), (''additionalProp2'', w), (''additionalProp3'', w)])))
     else Inr (TObj obj))"
  by (simp add: sampleFromSchema.simps [of env config "TObj fs"] assms Let_def)

lemma jget_added:
  "jget (assignAll obj [(''additionalProp1'', w), (''additionalProp2'', w), (''additionalProp3'', w)]) k
    = (if k \<in> addedNames then Some w else jget obj k)"
  by (simp add: assignAll_def assign_def jm.get_put addedNames_def)


definition petSchema :: jstree where
  "petSchema = TObj
    [(''properties'', TObj
       [(''name'', TObj [(''type'', TStr ''string'')]),
        (''id'', TObj [(''type'', TStr ''integer''), (''readOnly'', TBool True)]),
        (''tags'', TObj [(''type'', TStr ''array''), (''items'', TObj [(''type'', TStr ''boolean'')])])]),
     (''additionalProperties'', TObj [(''type'', TStr ''number'')])]"

definition plainSampleEnv :: SampleEnv where
  "plainSampleEnv = \<lparr>isoNow = '''', sampleText = (\<lambda>_. ''''), inheritedCall = (\<lambda>_ _. Inr TUndef)\<rparr>"

definition hideBoth :: SampleConfig where
  "hideBoth = \<lparr>includeReadOnly = False, includeWriteOnly = False\<rparr>"

lemma samplable_type:
  "t \<in> {''string'', ''number'', ''integer'', ''boolean''} \<Longrightarrow> samplable config (TObj [(''type'', TStr t)])"
  by (rule samplable.plain [of _ t]) auto


text \<open>
  A property that is named like the ones the generator makes up is overwritten by them: the sample
  of this schema has a number where the schema asks for a text.
\<close>

lemma added_name_overwritten:
  "sampleFromSchema plainSampleEnv hideBoth
     (TObj [(''properties'', TObj [(''additionalProp1'', TObj [(''type'', TStr ''string'')])]),
            (''additionalProperties'', TObj [(''type'', TStr ''number'')])])
   = Inr (TObj [(''additionalProp1'', TNum (Dec 0 0)), (''additionalProp2'', TNum (Dec 0 0)), (''additionalProp3'', TNum (Dec 0 0))])"
proof -
  have s: "sampleFromSchema plainSampleEnv hideBoth (TObj [(''type'', TStr ''string'')]) = Inr (TStr ''string'')"
    and n: "sampleFromSchema plainSampleEnv hideBoth (TObj [(''type'', TStr ''number'')]) = Inr (TNum (Dec 0 0))"
    by (simp_all add: sampleFromSchema.simps [of _ _ "TObj [(''type'', _)]"] Let_def schemaType_def propOf_def primitive_def
        lookPrimitive_def primitives_def inheritedNames_def)
  have shown: "shownProps hideBoth (TObj [(''additionalProp1'', TObj [(''type'', TStr ''string'')])])
      = [(''additionalProp1'', TObj [(''type'', TStr ''string'')])]"
    by (simp add: shownProps_def entriesOf_def leftOut_def isTrue_def propOf_def)
  show ?thesis
    by (subst sampleFromSchema.simps)
      (simp add: schemaType_def shown s n Let_def assignAll_def assign_def jput_def)
qed

end
