(* ===== verification/JsPaths.thy ===== *)
theory JsPaths
  imports JsTree
begin

text \<open>
  Stores that are read and written along paths: the contract the reducers and selectors of the pages
  share, and its interpretation on the immutable maps of the model.
\<close>

section \<open>The contract\<close>

text \<open>
  \<open>free\<close> says that a path can be written; \<open>apart\<close>, that of two paths neither leads through the other.
\<close>

locale path_store =
  fixes readAt :: "'s \<Rightarrow> 'p \<Rightarrow> 'v option"
    and writeAt :: "'p \<Rightarrow> 'v \<Rightarrow> 's \<Rightarrow> JsFailure + 's"
    and free :: "'s \<Rightarrow> 'p \<Rightarrow> bool"
    and apart :: "'p \<Rightarrow> 'p \<Rightarrow> bool"
  assumes write_free: "free s p \<Longrightarrow> \<exists>s'. writeAt p v s = Inr s'"
    and read_written: "free s p \<Longrightarrow> writeAt p v s = Inr s' \<Longrightarrow> readAt s' p = Some v"
    and read_apart: "free s p \<Longrightarrow> writeAt p v s = Inr s' \<Longrightarrow> apart p q \<Longrightarrow> readAt s' q = readAt s q"
    and free_written: "free s p \<Longrightarrow> writeAt p v s = Inr s' \<Longrightarrow> free s' p"
    and free_apart: "free s p \<Longrightarrow> writeAt p v s = Inr s' \<Longrightarrow> apart p q \<Longrightarrow> free s q \<Longrightarrow> free s' q"
begin

lemma writeE:
  assumes "free s p"
  obtains s' where "writeAt p v s = Inr s'" "readAt s' p = Some v" "free s' p" "\<And>q. apart p q \<Longrightarrow> readAt s' q = readAt s q"
    "\<And>q. apart p q \<Longrightarrow> free s q \<Longrightarrow> free s' q"
  using write_free [OF assms] read_written [OF assms] read_apart [OF assms] free_apart [OF assms] free_written [OF assms] by metis

text \<open>Several writes: each is read back, and what is apart from all of them is untouched.\<close>

lemma write_all:
  assumes "\<forall>x\<in>set xs. free s (path x)" "pairwise (\<lambda>x y. apart (path x) (path y)) (set xs)" "distinct xs"
  shows "\<exists>s'. foldJ (\<lambda>t x. writeAt (path x) (val x) t) s xs = Inr s' \<and>
    (\<forall>x\<in>set xs. readAt s' (path x) = Some (val x)) \<and>
    (\<forall>q. (\<forall>x\<in>set xs. apart (path x) q) \<longrightarrow> readAt s' q = readAt s q \<and> (free s q \<longrightarrow> free s' q))"
  using assms
proof (induction xs arbitrary: s)
  case (Cons x xs)
  obtain s1 where s1: "writeAt (path x) (val x) s = Inr s1" "readAt s1 (path x) = Some (val x)"
    "\<And>q. apart (path x) q \<Longrightarrow> readAt s1 q = readAt s q" "\<And>q. apart (path x) q \<Longrightarrow> free s q \<Longrightarrow> free s1 q"
    using writeE [of s "path x" "val x"] Cons.prems(1) by (metis list.set_intros(1))
  have apart: "apart (path x) (path y)" "apart (path y) (path x)" if "y \<in> set xs" for y
    using Cons.prems(2,3) that by (auto simp: pairwise_def)
  have "\<forall>y\<in>set xs. free s1 (path y)" using Cons.prems(1) s1(4) apart(1) by simp
  then obtain s' where "foldJ (\<lambda>t x. writeAt (path x) (val x) t) s1 xs = Inr s'"
    "\<forall>y\<in>set xs. readAt s' (path y) = Some (val y)"
    "\<forall>q. (\<forall>y\<in>set xs. apart (path y) q) \<longrightarrow> readAt s' q = readAt s1 q \<and> (free s1 q \<longrightarrow> free s' q)"
    using Cons.IH [of s1] Cons.prems(2,3) by (auto simp: pairwise_insert)
  then show ?case using s1 apart(2) by auto
qed simp

end

section \<open>Immutable maps\<close>

abbreviation emptyMap :: jstree where
  "emptyMap \<equiv> IMap []"

lemma getInOr_field: "getInOr TUndef (IMap fs) [f] = fieldOf fs f"
  by (simp add: getInOr_def childAt_def fieldOf_def split: option.split)

fun mapsAlong :: "jstree \<Rightarrow> string list \<Rightarrow> bool" where
  "mapsAlong v [] = True"
| "mapsAlong v (k # ks) = (case v of
     IMap ps \<Rightarrow> (case jget ps k of None \<Rightarrow> True | Some w \<Rightarrow> mapsAlong w ks)
   | _ \<Rightarrow> False)"

fun diverge :: "string list \<Rightarrow> string list \<Rightarrow> bool" where
  "diverge (k # ks) (j # js) = (k \<noteq> j \<or> diverge ks js)"
| "diverge ks js = False"

lemma diverge_sym: "diverge ks js = diverge js ks"
  by (induction ks js rule: diverge.induct) auto

lemma diverge_append [simp]: "diverge (p @ ks) (p @ js) = diverge ks js"
  by (induction p) auto

lemma diverge_longer: "diverge ks js \<Longrightarrow> diverge (ks @ ps) (js @ qs)"
  by (induction ks js rule: diverge.induct) auto

lemma mapsAlong_prefix: "mapsAlong v (ks @ js) \<Longrightarrow> mapsAlong v ks"
  by (induction ks arbitrary: v) (auto split: jstree.splits option.splits)

lemma mapsAlong_append: "mapsAlong v (ks @ js) \<longleftrightarrow>
    mapsAlong v ks \<and> (case getIn v ks of None \<Rightarrow> True | Some w \<Rightarrow> mapsAlong w js)"
  by (induction ks arbitrary: v) (auto simp: childAt_def split: jstree.splits option.splits)

lemma getIn_append: "getIn v (ks @ js) = (case getIn v ks of None \<Rightarrow> None | Some w \<Rightarrow> getIn w js)"
  by (induction ks arbitrary: v) (auto split: option.splits)

lemma updateAt_append: "updateAt (q @ ks) f x = updateAt q (updateAt ks f) x"
proof (induction q arbitrary: x)
  case (Cons k q)
  then show ?case by (cases x) auto
qed simp

text \<open>What a missing value becomes on the way to a path.\<close>

lemma updateAt_missing:
  "f None = Inr (Some w) \<Longrightarrow> \<exists>u. updateAt ks f None = Inr (Some u) \<and> getIn u ks = Some w \<and> mapsAlong u ks \<and>
     (\<forall>js. diverge ks js \<longrightarrow> getIn u js = None \<and> mapsAlong u js)"
proof (induction ks)
  case (Cons k ks)
  then obtain u where u: "updateAt ks f None = Inr (Some u)" "getIn u ks = Some w" "mapsAlong u ks"
    "\<forall>js. diverge ks js \<longrightarrow> getIn u js = None \<and> mapsAlong u js" by auto
  have "getIn (IMap [(k, u)]) js = None \<and> mapsAlong (IMap [(k, u)]) js" if "diverge (k # ks) js" for js
    using that u(4) by (cases js) (auto simp: childAt_def jget_def)
  then show ?case using u by (auto simp: childAt_def jget_def)
qed simp

text \<open>
  The law of an update: the path holds the new value, or none, and what diverges from it is as before.
\<close>

definition keeps :: "string list \<Rightarrow> jstree \<Rightarrow> jstree \<Rightarrow> bool" where
  "keeps ks v v' \<longleftrightarrow>
    (\<forall>js. diverge ks js \<longrightarrow> getIn v' js = getIn v js \<and> (mapsAlong v js \<longrightarrow> mapsAlong v' js))"

lemma keeps_refl [simp]: "keeps ks v v"
  by (simp add: keeps_def)

lemma updateAt_law:
  "mapsAlong v ks \<Longrightarrow> f (getIn v ks) = Inr (Some w) \<Longrightarrow>
    \<exists>v'. updateAt ks f (Some v) = Inr (Some v') \<and> getIn v' ks = Some w \<and> mapsAlong v' ks \<and> keeps ks v v'"
  unfolding keeps_def
proof (induction ks arbitrary: v)
  case (Cons k ks)
  then obtain ps where v: "v = IMap ps" by (auto split: jstree.splits)
  have "\<exists>u. updateAt ks f (jget ps k) = Inr (Some u) \<and> getIn u ks = Some w \<and> mapsAlong u ks \<and>
      (\<forall>js. diverge ks js \<longrightarrow> (case jget ps k of
          None \<Rightarrow> getIn u js = None \<and> mapsAlong u js
        | Some c \<Rightarrow> getIn u js = getIn c js \<and> (mapsAlong c js \<longrightarrow> mapsAlong u js)))"
  proof (cases "jget ps k")
    case None
    then show ?thesis using Cons.prems updateAt_missing [of f w ks] by (auto simp: v childAt_def)
  next
    case (Some c)
    then show ?thesis using Cons.IH [of c] Cons.prems by (auto simp: v childAt_def)
  qed
  then obtain u where u: "updateAt ks f (jget ps k) = Inr (Some u)" "getIn u ks = Some w" "mapsAlong u ks"
    and other: "\<forall>js. diverge ks js \<longrightarrow> (case jget ps k of
          None \<Rightarrow> getIn u js = None \<and> mapsAlong u js
        | Some c \<Rightarrow> getIn u js = getIn c js \<and> (mapsAlong c js \<longrightarrow> mapsAlong u js))" by blast
  have "getIn (IMap (jput k u ps)) js = getIn v js \<and> (mapsAlong v js \<longrightarrow> mapsAlong (IMap (jput k u ps)) js)"
    if d: "diverge (k # ks) js" for js
  proof (cases js)
    case (Cons j js')
    then show ?thesis using d other
      by (cases "j = k") (auto simp: v childAt_def jm.get_put split: option.splits)
  qed (use d in simp)
  then show ?case using u by (auto simp: v hasSet_def childAt_def setChild_def)
qed auto

lemma updateAt_remove:
  "mapsAlong v ks \<Longrightarrow> ks \<noteq> [] \<Longrightarrow> f (getIn v ks) = Inr None \<Longrightarrow>
    \<exists>v'. updateAt ks f (Some v) = Inr (Some v') \<and> getIn v' ks = None \<and> mapsAlong v' ks \<and> keeps ks v v'"
  unfolding keeps_def
proof (induction ks arbitrary: v)
  case (Cons k ks)
  then obtain ps where v: "v = IMap ps" by (auto split: jstree.splits)
  have missing: "updateAt ks f None = Inr None" if "f None = Inr None" for ks :: "string list" and f
    using that by (induction ks) auto
  show ?case
  proof (cases "jget ps k")
    case None
    then show ?thesis using Cons.prems missing [of f ks] by (auto simp: v childAt_def hasSet_def)
  next
    case c: (Some c)
    show ?thesis
    proof (cases "ks = []")
      case True
      have "getIn (IMap (jremove k ps)) js = getIn v js \<and> (mapsAlong v js \<longrightarrow> mapsAlong (IMap (jremove k ps)) js)"
        if "diverge [k] js" for js
        using that by (cases js) (auto simp: v childAt_def)
      then show ?thesis using True c Cons.prems by (auto simp: v childAt_def hasSet_def removeChild_def)
    next
      case False
      then obtain u where u: "updateAt ks f (Some c) = Inr (Some u)" "getIn u ks = None" "mapsAlong u ks"
        "\<forall>js. diverge ks js \<longrightarrow> getIn u js = getIn c js \<and> (mapsAlong c js \<longrightarrow> mapsAlong u js)"
        using Cons.IH [of c] Cons.prems c by (auto simp: v childAt_def)
      have "getIn (IMap (jput k u ps)) js = getIn v js \<and> (mapsAlong v js \<longrightarrow> mapsAlong (IMap (jput k u ps)) js)"
        if d: "diverge (k # ks) js" for js
      proof (cases js)
        case (Cons j js')
        then show ?thesis using d u(4) c by (cases "j = k") (auto simp: v childAt_def jm.get_put)
      qed (use d in simp)
      then show ?thesis using u c by (auto simp: v hasSet_def childAt_def setChild_def)
    qed
  qed
qed simp

lemma updateTree_set:
  assumes "mapsAlong v ks" "f (getIn v ks) = Inr (Some w)"
  shows "\<exists>v'. updateTree ks f v = Inr v' \<and> getIn v' ks = Some w \<and> mapsAlong v' ks \<and> keeps ks v v'"
  using updateAt_law [of v ks f w] assms by (auto simp: updateTree_def)

lemma updateTree_unset:
  assumes "mapsAlong v ks" "ks \<noteq> []" "f (getIn v ks) = Inr None"
  shows "\<exists>v'. updateTree ks f v = Inr v' \<and> getIn v' ks = None \<and> mapsAlong v' ks \<and> keeps ks v v'"
  using updateAt_remove [of v ks f] assms by (auto simp: updateTree_def)

lemma updateTree_fails:
  assumes "mapsAlong v ks" "f (getIn v ks) = Inl e"
  shows "updateTree ks f v = Inl e"
proof -
  have "updateAt ks f (Some v) = Inl e" using assms
  proof (induction ks arbitrary: v)
    case (Cons k ks)
    then obtain ps where v: "v = IMap ps" by (auto split: jstree.splits)
    have "updateAt ks f None = Inl e" if "f None = Inl e" for ks :: "string list" using that by (induction ks) auto
    then show ?case using Cons by (cases "jget ps k") (auto simp: v childAt_def hasSet_def)
  qed simp
  then show ?thesis by (simp add: updateTree_def)
qed

interpretation tree: path_store getIn setIn mapsAlong diverge
proof
  fix s p and v :: jstree
  assume free: "mapsAlong s p"
  obtain s' where s': "setIn p v s = Inr s'" "getIn s' p = Some v" "mapsAlong s' p" "keeps p s s'"
    using updateTree_set [OF free, of "\<lambda>_. Inr (Some v)" v] by (auto simp: setIn_def)
  then show "\<exists>s'. setIn p v s = Inr s'" by blast
  fix t q assume t: "setIn p v s = Inr t"
  then have "t = s'" using s'(1) by simp
  then show "getIn t p = Some v" "mapsAlong t p" "diverge p q \<Longrightarrow> getIn t q = getIn s q"
    "diverge p q \<Longrightarrow> mapsAlong s q \<Longrightarrow> mapsAlong t q"
    using s' by (auto simp: keeps_def)
qed

end
