(* ===== verification/UiStore.thy ===== *)
theory UiStore
  imports JsTree
begin

text \<open>
  How the store of the pages runs a reducer (\<open>wrapWithTryCatch\<close> and \<open>makeReducer\<close> of
  \<open>swagger-ui.js\<close>): a reducer that throws is logged and leaves the state as it was. A state is
  never \<open>null\<close>, so that the result \<open>None\<close> stands for it.
\<close>

definition wrapWithTryCatch :: "('s \<Rightarrow> JsFailure + 's) \<Rightarrow> 's \<Rightarrow> 's option" where
  "wrapWithTryCatch f state = (case f state of Inl e \<Rightarrow> None | Inr r \<Rightarrow> Some r)"

text \<open>A plugin without reducers, and one without a reducer for the action, keep the state.\<close>

definition makeReducer :: "('a \<Rightarrow> ('s \<Rightarrow> JsFailure + 's) option) option \<Rightarrow> 's \<Rightarrow> 'a \<Rightarrow> 's" where
  "makeReducer reducerObj state action =
    (case reducerObj of
       None \<Rightarrow> state
     | Some reducers \<Rightarrow>
         (case reducers action of
            None \<Rightarrow> state
          | Some redFn \<Rightarrow> (case wrapWithTryCatch redFn state of None \<Rightarrow> state | Some res \<Rightarrow> res)))"

text \<open>A store whose reducers know every action.\<close>

definition reduceWith :: "('a \<Rightarrow> 's \<Rightarrow> JsFailure + 's) \<Rightarrow> 's \<Rightarrow> 'a \<Rightarrow> 's" where
  "reduceWith reducers state action = makeReducer (Some (\<lambda>a. Some (reducers a))) state action"

lemma reduceWith_cases [simp]:
  "reducers a s = Inr s' \<Longrightarrow> reduceWith reducers s a = s'"
  "reducers a s = Inl e \<Longrightarrow> reduceWith reducers s a = s"
  by (simp_all add: reduceWith_def makeReducer_def wrapWithTryCatch_def)

lemma reduceWith_invariant:
  "I s \<Longrightarrow> (\<And>s'. reducers a s = Inr s' \<Longrightarrow> I s') \<Longrightarrow> I (reduceWith reducers s a)"
  by (cases "reducers a s") auto

text \<open>The stable sort by a comparator, of which only the sign counts; without one the order stays.\<close>

fun insertBy :: "('a \<Rightarrow> 'a \<Rightarrow> int) \<Rightarrow> 'a \<Rightarrow> 'a list \<Rightarrow> 'a list" where
  "insertBy cmp x [] = [x]"
| "insertBy cmp x (y # ys) = (if cmp y x < 0 then y # insertBy cmp x ys else x # y # ys)"

definition sortBy :: "('a \<Rightarrow> 'a \<Rightarrow> int) option \<Rightarrow> 'a list \<Rightarrow> 'a list" where
  "sortBy cmp xs = (case cmp of None \<Rightarrow> xs | Some f \<Rightarrow> foldr (insertBy f) xs [])"

end
