(* ===== verification/UiSpecState.thy ===== *)
theory UiSpecState
  imports JsPaths UiValidate UiStore
begin

text \<open>
  The state of the description that a page shows: the reducers and the selectors of the \<open>spec\<close>
  plugin of \<open>swagger-ui.js\<close>. The state is an immutable map; the reducers return the next one.
  \<open>hashText\<close> stands for \<open>hashCode\<close> of \<open>immutable\<close>.
\<close>

section \<open>The names and values of parameters\<close>

text \<open>\<open>fromJSOrdered\<close> differs from \<open>fromJS\<close> only in the order that a map keeps.\<close>

definition fromJSOrdered :: "jstree \<Rightarrow> jstree" where
  "fromJSOrdered v = fromJS v"

definition isMap :: "jstree \<Rightarrow> bool" where
  "isMap v = (case v of IMap _ \<Rightarrow> True | _ \<Rightarrow> False)"

text \<open>\<open>a + "." + b\<close>\<close>

definition dotted :: "PageEnv \<Rightarrow> jstree \<Rightarrow> jstree \<Rightarrow> string" where
  "dotted env a b = textOf env a @ ''.'' @ textOf env b"

text \<open>\<open>paramToIdentifier\<close> with \<open>returnAll\<close>: the names under which the value of a parameter may be.\<close>

definition paramIdentifiers :: "PageEnv \<Rightarrow> (jstree \<Rightarrow> string) \<Rightarrow> bool \<Rightarrow> jstree \<Rightarrow> JsFailure + jstree list" where
  "paramIdentifiers env hashText allowHashes param =
    (case param of
       IMap ps \<Rightarrow>
         (let paramName = fieldOf ps ''name''; paramIn = fieldOf ps ''in'';
              both = treeTruthy paramIn \<and> treeTruthy paramName in
          Inr ((if both \<and> allowHashes then [TStr (dotted env paramIn paramName @ ''.hash-'' @ hashText param)] else [])
               @ (if both then [TStr (dotted env paramIn paramName)] else [])
               @ [paramName]))
     | _ \<Rightarrow> Inl (PlainError ''paramToIdentifier: received a non-Im.Map parameter as input''))"

text \<open>Without \<open>returnAll\<close>: the first of them, or the empty text; as the text of a key.\<close>

definition paramToIdentifier :: "PageEnv \<Rightarrow> (jstree \<Rightarrow> string) \<Rightarrow> bool \<Rightarrow> jstree \<Rightarrow> JsFailure + string" where
  "paramToIdentifier env hashText allowHashes param =
    bindJ (paramIdentifiers env hashText allowHashes param) (\<lambda>ids.
      Inr (case ids of [] \<Rightarrow> '''' | i # _ \<Rightarrow> if treeTruthy i then textOf env i else ''''))"

text \<open>
  \<open>paramToValue\<close>: the first value that is there. The values are read like a map: no parameter is
  named like a property every object inherits.
\<close>

definition paramToValue :: "PageEnv \<Rightarrow> (jstree \<Rightarrow> string) \<Rightarrow> jstree \<Rightarrow> (string \<times> jstree) list \<Rightarrow> JsFailure + jstree" where
  "paramToValue env hashText param paramValues =
    bindJ (paramIdentifiers env hashText True param) (\<lambda>ids.
      Inr (case filter (\<lambda>v. v \<noteq> TUndef) (map (\<lambda>i. fieldOf paramValues (textOf env i)) ids) of
             [] \<Rightarrow> TUndef | v # _ \<Rightarrow> v))"

section \<open>Selectors of the description\<close>

text \<open>\<open>mergerFn\<close>, and the merge of one map into another that calls it where both have a key.\<close>

fun mergerFn :: "jstree \<Rightarrow> jstree \<Rightarrow> jstree"
  and mergeEntries :: "(string \<times> jstree) list \<Rightarrow> (string \<times> jstree) list \<Rightarrow> (string \<times> jstree) list" where
  "mergerFn (IMap os) (IMap ns) =
    (if treeTruthy (fieldOf ns ''$$ref'') then IMap ns else IMap (mergeEntries os ns))"
| "mergerFn oldVal newVal = newVal"
| "mergeEntries os [] = os"
| "mergeEntries os ((k, v) # ns) =
    mergeEntries (jput k (case jget os k of None \<Rightarrow> v | Some ov \<Rightarrow> mergerFn ov v) os) ns"

definition mapFields :: "jstree \<Rightarrow> (string \<times> jstree) list" where
  "mapFields v = (case v of IMap ps \<Rightarrow> ps | TObj ps \<Rightarrow> map (\<lambda>(k, w). (k, fromJS w)) ps | _ \<Rightarrow> [])"

definition specJson :: "jstree \<Rightarrow> jstree" where
  "specJson state = getInOr (IMap []) state [''json'']"

definition specJsonWithResolvedSubtrees :: "jstree \<Rightarrow> jstree" where
  "specJsonWithResolvedSubtrees state =
    IMap (mergeEntries (mapFields (getInOr TUndef state [''json''])) (mapFields (getInOr TUndef state [''resolvedSubtrees''])))"

text \<open>The elements of a list or the values of a map, and \<open>map\<close> over them.\<close>

definition elements :: "jstree \<Rightarrow> JsFailure + jstree list" where
  "elements v = (case v of IList vs \<Rightarrow> Inr vs | IMap ps \<Rightarrow> Inr (map snd ps) | TArr vs \<Rightarrow> Inr vs
     | _ \<Rightarrow> Inl (TypeError ''not a collection''))"

text \<open>\<open>v.get(k, d)\<close>\<close>

definition imGetOr :: "jstree \<Rightarrow> jstree \<Rightarrow> string \<Rightarrow> JsFailure + jstree" where
  "imGetOr d v k = (if hasSet v then Inr (getInOr d v [k]) else Inl (TypeError ''get is not a function''))"

text \<open>\<open>OrderedMap().merge(a, b, c)\<close>: what is no map adds nothing.\<close>

definition mergeMaps :: "jstree list \<Rightarrow> jstree" where
  "mergeMaps vs = IMap (fold (\<lambda>v m. jputAll m (mapFields v)) vs [])"

definition metaPath :: "string list \<Rightarrow> string list \<Rightarrow> string list" where
  "metaPath pathMethod ks = [''meta'', ''paths''] @ pathMethod @ ks"

text \<open>
  Where no parameter is found the result is undefined: the map that the code passes to \<open>find\<close> takes
  the place of its context, not of its default.
\<close>

definition parameterWithMetaByIdentity :: "PageEnv \<Rightarrow> (jstree \<Rightarrow> string) \<Rightarrow> jstree \<Rightarrow> string list \<Rightarrow> jstree \<Rightarrow> JsFailure + jstree" where
  "parameterWithMetaByIdentity env hashText state pathMethod param =
    bindJ (imGet param ''in'') (\<lambda>pin. bindJ (imGet param ''name'') (\<lambda>name.
      let opParams = getInOr emptyMap (specJsonWithResolvedSubtrees state) ([''paths''] @ pathMethod @ [''parameters'']);
          metaParams = getInOr emptyMap state (metaPath pathMethod [''parameters'']);
          inNameKeyedMeta = getInOr TUndef metaParams [dotted env pin name];
          hashKeyedMeta = getInOr TUndef metaParams [dotted env pin name @ ''.hash-'' @ hashText param]
      in bindJ (elements opParams) (\<lambda>ps.
           Inr (case filter (\<lambda>c. getInOr TUndef c [''in''] = pin \<and> getInOr TUndef c [''name''] = name)
                       (map (\<lambda>p. mergeMaps [p, inNameKeyedMeta, hashKeyedMeta]) ps) of
                  [] \<Rightarrow> TUndef | c # _ \<Rightarrow> c))))"

definition parameterInclusionSettingFor :: "PageEnv \<Rightarrow> jstree \<Rightarrow> string list \<Rightarrow> jstree \<Rightarrow> jstree \<Rightarrow> jstree" where
  "parameterInclusionSettingFor env state pathMethod paramName paramIn =
    getInOr (TBool False) state (metaPath pathMethod [''parameter_inclusions'', dotted env paramIn paramName])"

fun findJ :: "('a \<Rightarrow> JsFailure + bool) \<Rightarrow> 'a list \<Rightarrow> JsFailure + 'a option" where
  "findJ p [] = Inr None"
| "findJ p (x # xs) = bindJ (p x) (\<lambda>b. if b then Inr (Some x) else findJ p xs)"

text \<open>A parameter that is not found is \<open>undefined\<close>, which has no \<open>get\<close>: it is read once for each parameter.\<close>

definition parameterWithMeta :: "PageEnv \<Rightarrow> (jstree \<Rightarrow> string) \<Rightarrow> jstree \<Rightarrow> string list \<Rightarrow> jstree \<Rightarrow> jstree \<Rightarrow> JsFailure + jstree" where
  "parameterWithMeta env hashText state pathMethod paramName paramIn =
    bindJ (elements (getInOr emptyMap (specJsonWithResolvedSubtrees state) ([''paths''] @ pathMethod @ [''parameters'']))) (\<lambda>ps.
    bindJ (findJ (\<lambda>p. bindJ (imGet p ''in'') (\<lambda>i. bindJ (imGet p ''name'') (\<lambda>n. Inr (i = paramIn \<and> n = paramName)))) ps) (\<lambda>found.
      case found of
        Some c \<Rightarrow> parameterWithMetaByIdentity env hashText state pathMethod c
      | None \<Rightarrow> if ps = [] then Inr TUndef else Inl (TypeError ''Cannot read property get of undefined'')))"

text \<open>\<open>getParameter\<close> looks in the meta data.\<close>

definition getParameter :: "jstree \<Rightarrow> string list \<Rightarrow> jstree \<Rightarrow> jstree \<Rightarrow> JsFailure + jstree" where
  "getParameter state pathMethod name inType =
    bindJ (elements (getInOr (IList []) state (metaPath pathMethod [''parameters'']))) (\<lambda>ps.
      Inr (case filter (\<lambda>p. isMap p \<and> getInOr TUndef p [''name''] = name \<and> getInOr TUndef p [''in''] = inType) ps of
             [] \<Rightarrow> emptyMap | p # _ \<Rightarrow> p))"

definition operationWithMeta :: "PageEnv \<Rightarrow> (jstree \<Rightarrow> string) \<Rightarrow> jstree \<Rightarrow> string list \<Rightarrow> JsFailure + jstree" where
  "operationWithMeta env hashText state pathMethod =
    (let op = getInOr emptyMap (specJsonWithResolvedSubtrees state) ([''paths''] @ pathMethod);
         meta = getInOr emptyMap state (metaPath pathMethod []) in
     bindJ (imGetOr (IList []) op ''parameters'') (\<lambda>params. bindJ (elements params) (\<lambda>ps.
       bindJ (mapJ (parameterWithMetaByIdentity env hashText state pathMethod) ps) (\<lambda>mergedParams.
         Inr (IMap (jput ''parameters'' (IList mergedParams) (mapFields (mergeMaps [op, meta]))))))))"

definition parameterValues :: "PageEnv \<Rightarrow> (jstree \<Rightarrow> string) \<Rightarrow> jstree \<Rightarrow> string list \<Rightarrow> bool \<Rightarrow> JsFailure + (string \<times> jstree) list" where
  "parameterValues env hashText state pathMethod isXml =
    bindJ (operationWithMeta env hashText state pathMethod) (\<lambda>op.
    bindJ (elements (getInOr (IList []) op [''parameters''])) (\<lambda>ps.
      foldJ (\<lambda>hash p.
        bindJ (imGet p (if isXml \<and> getInOr TUndef p [''in''] = TStr ''body'' then ''value_xml'' else ''value'')) (\<lambda>value.
        bindJ (paramToIdentifier env hashText False p) (\<lambda>i. Inr (jput i value hash)))) [] ps))"

definition validateBeforeExecute :: "jstree \<Rightarrow> string list \<Rightarrow> JsFailure + bool" where
  "validateBeforeExecute state pathMethod =
    bindJ (elements (getInOr (IList []) state (metaPath pathMethod [''parameters'']))) (\<lambda>ps.
      foldJ (\<lambda>isValid p.
        bindJ (imGet p ''errors'') (\<lambda>errors.
          if treeTruthy errors then bindJ (elements errors) (\<lambda>es. Inr (if es \<noteq> [] then False else isValid))
          else Inr isValid)) True ps)"

section \<open>The reducers\<close>

record ParamPayload =
  up_path :: "string list"
  up_paramName :: jstree
  up_paramIn :: jstree
  up_param :: jstree
  up_value :: jstree
  up_isXml :: bool

datatype SpecAction =
    UpdateSpec jstree
  | UpdateUrl jstree
  | UpdateJson jstree
  | UpdateResolved jstree
  | UpdateResolvedSubtree "string list" jstree
  | UpdateParam ParamPayload
  | UpdateEmptyParamInclusion "string list" jstree jstree jstree
  | ValidateParams "string list" bool
  | ClearValidateParams "string list"
  | SetResponse jstree string string
  | SetRequest jstree string string
  | SetMutatedRequest jstree string string
  | UpdateOperationMetaValue "string list" jstree string
  | ClearResponse string string
  | ClearRequest string string
  | SetScheme jstree jstree jstree

text \<open>\<open>UPDATE_PARAM\<close>\<close>

definition updateParam :: "PageEnv \<Rightarrow> (jstree \<Rightarrow> string) \<Rightarrow> ParamPayload \<Rightarrow> jstree \<Rightarrow> JsFailure + jstree" where
  "updateParam env hashText payload state =
    bindJ (if treeTruthy (up_param payload) then paramToIdentifier env hashText True (up_param payload)
           else Inr (dotted env (up_paramIn payload) (up_paramName payload))) (\<lambda>paramKey.
      setIn (metaPath (up_path payload) [''parameters'', paramKey, if up_isXml payload then ''value_xml'' else ''value''])
        (up_value payload) state)"

text \<open>\<open>VALIDATE_PARAMS\<close>: the complaints about one parameter, and their place in the meta data.\<close>

definition paramErrors :: "PageEnv \<Rightarrow> (jstree \<Rightarrow> string) \<Rightarrow> jstree \<Rightarrow> string list \<Rightarrow> bool \<Rightarrow> (string \<times> jstree) list \<Rightarrow> jstree
    \<Rightarrow> JsFailure + jstree list" where
  "paramErrors env hashText state pathMethod isOAS3 paramValues param =
    bindJ (paramToValue env hashText param paramValues) (\<lambda>value.
      validateParam env (mapFields param) value isOAS3
        (treeTruthy (parameterInclusionSettingFor env state pathMethod (fieldOf (mapFields param) ''name'') (fieldOf (mapFields param) ''in''))))"

definition validateInto :: "PageEnv \<Rightarrow> (jstree \<Rightarrow> string) \<Rightarrow> (jstree \<Rightarrow> JsFailure + jstree list) \<Rightarrow> jstree \<Rightarrow> jstree \<Rightarrow> JsFailure + jstree" where
  "validateInto env hashText errorsOf res param =
    bindJ (errorsOf param) (\<lambda>errors.
    bindJ (paramToIdentifier env hashText True param) (\<lambda>i.
      setIn [i, ''errors''] (fromJS (TArr errors)) res))"

text \<open>The function that \<open>updateIn\<close> applies to the meta data of the parameters.\<close>

definition validatedMeta :: "PageEnv \<Rightarrow> (jstree \<Rightarrow> string) \<Rightarrow> (jstree \<Rightarrow> JsFailure + jstree list) \<Rightarrow> jstree \<Rightarrow> jstree option
    \<Rightarrow> JsFailure + jstree option" where
  "validatedMeta env hashText errorsOf op paramMeta =
    bindJ (imGetOr (IList []) op ''parameters'') (\<lambda>params.
    bindJ (elements params) (\<lambda>ps.
    bindJ (foldJ (validateInto env hashText errorsOf) (case paramMeta of None \<Rightarrow> emptyMap | Some m \<Rightarrow> m) ps) (\<lambda>m.
      Inr (if paramMeta = None \<and> m = emptyMap then None else Some m))))"

definition validateParams :: "PageEnv \<Rightarrow> (jstree \<Rightarrow> string) \<Rightarrow> string list \<Rightarrow> bool \<Rightarrow> jstree \<Rightarrow> JsFailure + jstree" where
  "validateParams env hashText pathMethod isOAS3 state =
    (let op = getInOr TUndef (specJsonWithResolvedSubtrees state) ([''paths''] @ pathMethod) in
     bindJ (parameterValues env hashText state pathMethod False) (\<lambda>values.
       let paramValues = map (\<lambda>(k, v). (k, toJS v)) values in
       updateTree (metaPath pathMethod [''parameters''])
         (validatedMeta env hashText (paramErrors env hashText state pathMethod isOAS3 paramValues) op) state))"

text \<open>\<open>CLEAR_VALIDATE_PARAMS\<close>: \<open>map\<close> keeps the keys; a missing node stays missing.\<close>

definition clearErrors :: "jstree \<Rightarrow> JsFailure + jstree" where
  "clearErrors p = (if hasSet p then Inr (setChild p ''errors'' (IList [])) else Inl (TypeError ''set is not a function''))"

definition clearValidateParams :: "string list \<Rightarrow> jstree \<Rightarrow> JsFailure + jstree" where
  "clearValidateParams pathMethod state =
    updateTree (metaPath pathMethod [''parameters'']) (\<lambda>parameters.
      case parameters of
        None \<Rightarrow> Inr None
      | Some (IMap ps) \<Rightarrow> bindJ (mapJ (\<lambda>(k, p). bindJ (clearErrors p) (\<lambda>q. Inr (k, q))) ps) (\<lambda>qs. Inr (Some (IMap qs)))
      | Some (IList ps) \<Rightarrow> bindJ (mapJ clearErrors ps) (\<lambda>qs. Inr (Some (IList qs)))
      | Some _ \<Rightarrow> Inl (TypeError ''parameters.map is not a function'')) state"

text \<open>\<open>SET_RESPONSE\<close>; a file of the browser is a \<open>Blob\<close>.\<close>

definition responseResult :: "jstree \<Rightarrow> JsFailure + jstree" where
  "responseResult res =
    bindJ (readProp res ''error'') (\<lambda>e.
    bindJ (if treeTruthy e then
             bindJ (readProp res ''err'') (\<lambda>err. bindJ (readProp err ''name'') (\<lambda>name. bindJ (readProp err ''message'') (\<lambda>message.
             bindJ (readProp err ''statusCode'') (\<lambda>statusCode. bindJ (readProp err ''response'') (\<lambda>response.
               Inr (TObj (jputAll [(''error'', TBool True), (''name'', name), (''message'', message), (''statusCode'', statusCode)]
                 (case response of TObj ps \<Rightarrow> ps | _ \<Rightarrow> []))))))))
           else Inr res) (\<lambda>result.
      Inr (case result of
             TObj ps \<Rightarrow> TObj (jput ''headers'' (if treeTruthy (fieldOf ps ''headers'') then fieldOf ps ''headers'' else TObj []) ps)
           | _ \<Rightarrow> result)))"

definition setResponse :: "jstree \<Rightarrow> string \<Rightarrow> string \<Rightarrow> jstree \<Rightarrow> JsFailure + jstree" where
  "setResponse res path method state =
    bindJ (responseResult res) (\<lambda>result.
    bindJ (setIn [''responses'', path, method] (fromJSOrdered result) state) (\<lambda>newState.
    bindJ (readProp res ''data'') (\<lambda>data.
      if isFile data then setIn [''responses'', path, method, ''text''] data newState else Inr newState)))"

definition updateOperationMetaValue :: "string list \<Rightarrow> jstree \<Rightarrow> string \<Rightarrow> jstree \<Rightarrow> JsFailure + jstree" where
  "updateOperationMetaValue path value key state =
    (if \<not> treeTruthy (getInOr TUndef state ([''json'', ''paths''] @ path))
        \<and> \<not> treeTruthy (getInOr TUndef state ([''resolved'', ''paths''] @ path))
        \<and> \<not> treeTruthy (getInOr TUndef state ([''resolvedSubtrees'', ''paths''] @ path))
     then Inr state
     else setIn (metaPath path [key]) (fromJS value) state)"

text \<open>\<open>SET_SCHEME\<close> returns nothing when only one of path and method is given.\<close>

definition setScheme :: "PageEnv \<Rightarrow> jstree \<Rightarrow> jstree \<Rightarrow> jstree \<Rightarrow> jstree \<Rightarrow> JsFailure + jstree" where
  "setScheme env scheme path method state =
    (if treeTruthy path \<and> treeTruthy method then setIn [''scheme'', textOf env path, textOf env method] scheme state
     else if \<not> treeTruthy path \<and> \<not> treeTruthy method then setIn [''scheme'', ''_defaultScheme''] scheme state
     else Inr TUndef)"

definition reduceSpec :: "PageEnv \<Rightarrow> (jstree \<Rightarrow> string) \<Rightarrow> SpecAction \<Rightarrow> jstree \<Rightarrow> JsFailure + jstree" where
  "reduceSpec env hashText action state = (case action of
     UpdateSpec payload \<Rightarrow> if typeOf payload = ''string'' then setIn [''spec''] payload state else Inr state
   | UpdateUrl payload \<Rightarrow> setIn [''url''] (TStr (textOf env payload)) state
   | UpdateJson payload \<Rightarrow> setIn [''json''] (fromJSOrdered payload) state
   | UpdateResolved payload \<Rightarrow> setIn [''resolved''] (fromJSOrdered payload) state
   | UpdateResolvedSubtree path value \<Rightarrow> setIn ([''resolvedSubtrees''] @ path) (fromJSOrdered value) state
   | UpdateParam payload \<Rightarrow> updateParam env hashText payload state
   | UpdateEmptyParamInclusion pathMethod paramName paramIn includeEmptyValue \<Rightarrow>
       if \<not> treeTruthy paramName \<or> \<not> treeTruthy paramIn then Inr state
       else setIn (metaPath pathMethod [''parameter_inclusions'', dotted env paramIn paramName]) includeEmptyValue state
   | ValidateParams pathMethod isOAS3 \<Rightarrow> validateParams env hashText pathMethod isOAS3 state
   | ClearValidateParams pathMethod \<Rightarrow> clearValidateParams pathMethod state
   | SetResponse res path method \<Rightarrow> setResponse res path method state
   | SetRequest req path method \<Rightarrow> setIn [''requests'', path, method] (fromJSOrdered req) state
   | SetMutatedRequest req path method \<Rightarrow> setIn [''mutatedRequests'', path, method] (fromJSOrdered req) state
   | UpdateOperationMetaValue path value key \<Rightarrow> updateOperationMetaValue path value key state
   | ClearResponse path method \<Rightarrow> deleteIn [''responses'', path, method] state
   | ClearRequest path method \<Rightarrow> deleteIn [''requests'', path, method] state
   | SetScheme scheme path method \<Rightarrow> setScheme env scheme path method state)"

end
