(* ===== verification/UiSpecStateSpec.thy ===== *)
theory UiSpecStateSpec
  imports UiSpecState
begin

text \<open>
  What holds of the state of the description after any actions: the places of the entered values can
  always be written, an entered value is read back, and an operation may be executed exactly when
  none of its parameters is complained about.
\<close>

section \<open>The shape of the state\<close>

text \<open>The paths the reducers write below the description itself.\<close>

inductive_set reducerPaths :: "string list set" where
  "metaPath [p, m] [''parameters''] \<in> reducerPaths"
| "metaPath [p, m] [''parameter_inclusions'', k] \<in> reducerPaths"
| "h \<in> {''responses'', ''requests'', ''mutatedRequests''} \<Longrightarrow> [h, p, m] \<in> reducerPaths"

inductive_cases reducerPathsE: "t \<in> reducerPaths"

text \<open>
  The meta data of the parameters: for each identifier a map of at most three fields, of which the
  complaints are a list.
\<close>

definition okField :: "string \<Rightarrow> jstree \<Rightarrow> bool" where
  "okField f w \<longleftrightarrow> f = ''value'' \<or> f = ''value_xml'' \<or> f = ''errors'' \<and> (\<exists>es. w = IList es)"

definition entryOk :: "jstree \<Rightarrow> bool" where
  "entryOk v \<longleftrightarrow> (\<exists>e. v = IMap e \<and> jmap_ok e \<and> (\<forall>f w. jget e f = Some w \<longrightarrow> okField f w))"

definition entriesOk :: "(string \<times> jstree) list \<Rightarrow> bool" where
  "entriesOk es \<longleftrightarrow> jmap_ok es \<and> (\<forall>k v. jget es k = Some v \<longrightarrow> entryOk v)"

definition metaOk :: "jstree option \<Rightarrow> bool" where
  "metaOk r \<longleftrightarrow> r = None \<or> (\<exists>es. r = Some (IMap es) \<and> entriesOk es)"

definition specOk :: "jstree \<Rightarrow> bool" where
  "specOk state \<longleftrightarrow> (\<forall>t\<in>reducerPaths. mapsAlong state t)
    \<and> (\<forall>p m. metaOk (getIn state (metaPath [p, m] [''parameters''])))"

lemma metaPath_simps [simp]: "metaPath [p, m] ks = ''meta'' # ''paths'' # p # m # ks"
  by (simp add: metaPath_def)

lemma specOk_path:
  "specOk s \<Longrightarrow> mapsAlong s (''meta'' # ''paths'' # p # m # [''parameters''])"
  "specOk s \<Longrightarrow> mapsAlong s (''meta'' # ''paths'' # p # m # ''parameter_inclusions'' # [k])"
  "specOk s \<Longrightarrow> h \<in> {''responses'', ''requests'', ''mutatedRequests''} \<Longrightarrow> mapsAlong s [h, p, m]"
  using reducerPaths.intros(1) [of p m] reducerPaths.intros(2) [of p m k] reducerPaths.intros(3) [of h p m]
  by (auto simp: specOk_def)

lemma specOk_parameters: "specOk s \<Longrightarrow> metaOk (getIn s (''meta'' # ''paths'' # p # m # [''parameters'']))"
  by (simp add: specOk_def)

lemma mapsAlong_sibling: "mapsAlong v (ks @ [j]) \<Longrightarrow> mapsAlong v (ks @ [i])"
  by (auto simp: mapsAlong_append split: option.splits jstree.splits)

lemma specOk_map: "specOk state \<Longrightarrow> \<exists>ps. state = IMap ps"
  using specOk_path(3) [of state "''requests''" "''''" "''''"] by (cases state) auto

lemma specOk_empty [simp]: "specOk (IMap [])"
  by (auto simp: specOk_def metaOk_def childAt_def elim!: reducerPathsE)

text \<open>A step that leaves what diverges from a path as it is, and keeps the shape where it does not.\<close>

lemma specOk_keeps:
  assumes "specOk s" "keeps q s s'"
    and "\<And>t. t \<in> reducerPaths \<Longrightarrow> \<not> diverge q t \<Longrightarrow> mapsAlong s' t"
    and "\<And>p m. \<not> diverge q (metaPath [p, m] [''parameters'']) \<Longrightarrow> metaOk (getIn s' (metaPath [p, m] [''parameters'']))"
  shows "specOk s'"
  unfolding specOk_def
proof (intro conjI ballI allI)
  fix t assume "t \<in> reducerPaths"
  then show "mapsAlong s' t" using assms(1,2) assms(3) [of t] by (cases "diverge q t") (auto simp: specOk_def keeps_def)
next
  fix p m
  let ?t = "metaPath [p, m] [''parameters'']"
  show "metaOk (getIn s' ?t)"
  proof (cases "diverge q ?t")
    case True
    then have "getIn s' ?t = getIn s ?t" using assms(2) unfolding keeps_def by blast
    then show ?thesis using assms(1) unfolding specOk_def by metis
  next
    case False
    then show ?thesis by (rule assms(4))
  qed
qed

lemma specOk_setIn:
  assumes "specOk s" "mapsAlong s q" "setIn q w s = Inr s'"
    and "\<And>t. t \<in> reducerPaths \<Longrightarrow> diverge q t \<or> (\<exists>r. q = t @ r)"
    and "\<And>p m. diverge q (metaPath [p, m] [''parameters''])"
  shows "specOk s'"
proof -
  obtain s'' where s'': "updateTree q (\<lambda>_. Inr (Some w)) s = Inr s''" "mapsAlong s'' q" "keeps q s s''"
    using updateTree_set [OF assms(2), of "\<lambda>_. Inr (Some w)" w] by auto
  then have "s'' = s'" using assms(3) by (simp add: setIn_def)
  then show ?thesis
    using specOk_keeps [OF assms(1) s''(3)] assms(4,5) s''(2) mapsAlong_prefix by metis
qed

text \<open>A write below one entry of the state changes that entry only.\<close>

lemma updateAt_set_some: "updateAt ks (\<lambda>_. Inr (Some w)) x = Inr r \<Longrightarrow> r \<noteq> None"
proof (induction ks arbitrary: x r)
  case (Cons k ks)
  then show ?case by (cases x) (auto simp: bindJ_Inr_conv split: if_splits option.splits)
qed simp

lemma setIn_entry:
  assumes "setIn (k # ks) w (IMap ps) = Inr v'"
  shows "\<exists>u. v' = IMap (jput k u ps)"
proof -
  obtain r where r: "updateAt ks (\<lambda>_. Inr (Some w)) (jget ps k) = Inr r"
    using assms by (auto simp: setIn_def updateTree_def hasSet_def childAt_def bindJ_Inr_conv)
  then obtain u where "r = Some u" using updateAt_set_some by blast
  then show ?thesis using assms r by (auto simp: setIn_def updateTree_def hasSet_def childAt_def setChild_def)
qed

lemma reducerPaths_head:
  "t \<in> reducerPaths \<Longrightarrow> \<exists>h r. t = h # r \<and> h \<in> {''meta'', ''responses'', ''requests'', ''mutatedRequests''}"
  by (auto elim!: reducerPathsE)

lemma specOk_entry:
  assumes "specOk s" "setIn (k # ks) w s = Inr s'" "k \<notin> {''meta'', ''responses'', ''requests'', ''mutatedRequests''}"
  shows "specOk s'"
proof (rule specOk_keeps [OF assms(1)])
  obtain ps where s: "s = IMap ps" using specOk_map [OF assms(1)] by blast
  obtain u where s': "s' = IMap (jput k u ps)" using setIn_entry assms(2) s by blast
  show "keeps [k] s s'"
    unfolding keeps_def
  proof (intro allI impI)
    fix js assume "diverge [k] js"
    then obtain h r where "js = h # r" "h \<noteq> k" by (cases js) auto
    then show "getIn s' js = getIn s js \<and> (mapsAlong s js \<longrightarrow> mapsAlong s' js)"
      by (simp add: s s' jm.get_put childAt_def)
  qed
  show "mapsAlong s' t" if "t \<in> reducerPaths" "\<not> diverge [k] t" for t
    using reducerPaths_head [OF that(1)] that(2) assms(3) by auto
  show "metaOk (getIn s' (metaPath [p, m] [''parameters'']))" if "\<not> diverge [k] (metaPath [p, m] [''parameters''])" for p m
    using that assms(3) by simp
qed

section \<open>Actions\<close>

text \<open>
  The actions the pages send: the path and the name of a method name an operation, a meta value is not filed
  under the two names the reducers use, a response is an object, and a scheme is set for an
  operation or for all.
\<close>

definition isOperation :: "string list \<Rightarrow> bool" where
  "isOperation pm \<longleftrightarrow> (\<exists>p m. pm = [p, m])"

definition properAction :: "SpecAction \<Rightarrow> bool" where
  "properAction a = (case a of
     UpdateParam payload \<Rightarrow> isOperation (up_path payload)
   | UpdateEmptyParamInclusion pm _ _ _ \<Rightarrow> isOperation pm
   | ValidateParams pm _ \<Rightarrow> isOperation pm
   | ClearValidateParams pm \<Rightarrow> isOperation pm
   | SetResponse res _ _ \<Rightarrow> (\<exists>ps. res = TObj ps)
   | UpdateOperationMetaValue pm _ key \<Rightarrow> isOperation pm \<and> key \<noteq> ''parameters'' \<and> key \<noteq> ''parameter_inclusions''
   | SetScheme _ path method \<Rightarrow> treeTruthy path = treeTruthy method
   | _ \<Rightarrow> True)"

lemma entriesOk_Nil [simp]: "entriesOk []"
  by (simp add: entriesOk_def)

lemma entriesOk_jput: "entriesOk es \<Longrightarrow> entryOk v \<Longrightarrow> entriesOk (jput i v es)"
  by (auto simp: entriesOk_def jm.get_put)

lemma entryOk_put: "entryOk (IMap e) \<Longrightarrow> okField f w \<Longrightarrow> entryOk (IMap (jput f w e))"
  by (auto simp: entryOk_def jm.get_put)

lemma entryOk_new: "okField f w \<Longrightarrow> entryOk (IMap [(f, w)])"
  by (auto simp: entryOk_def jget_def jmap_ok_def)

lemma entriesOk_get: "entriesOk es \<Longrightarrow> jget es k = Some v \<Longrightarrow> \<exists>e. v = IMap e \<and> entryOk (IMap e)"
  unfolding entriesOk_def entryOk_def by blast

text \<open>A new value for the parameters of an operation that has the shape keeps the shape of the state.\<close>

lemma specOk_updateParameters:
  assumes "specOk s" "updateTree (''meta'' # ''paths'' # p # m # [''parameters'']) f s = Inr s'"
    and "\<And>r. f (getIn s (''meta'' # ''paths'' # p # m # [''parameters''])) = Inr r \<Longrightarrow> metaOk r"
  shows "specOk s'"
proof -
  let ?q = "''meta'' # ''paths'' # p # m # [''parameters'']"
  note free = specOk_path(1) [OF assms(1), of p m]
  have "f (getIn s ?q) \<noteq> Inl e" for e using updateTree_fails [OF free] assms(2) by fastforce
  then obtain r where r: "f (getIn s ?q) = Inr r" by (cases "f (getIn s ?q)") auto
  have "\<exists>t. updateTree ?q f s = Inr t \<and> getIn t ?q = r \<and> mapsAlong t ?q \<and> keeps ?q s t"
    using updateTree_set [OF free, of f] updateTree_unset [OF free, of f] r by (cases r) auto
  then have t: "getIn s' ?q = r" "mapsAlong s' ?q" "keeps ?q s s'" using assms(2) by auto
  have "mapsAlong s' u" if "u \<in> reducerPaths" "\<not> diverge ?q u" for u
    using that t(2) by (auto elim!: reducerPathsE simp del: mapsAlong.simps)
  moreover have "metaOk (getIn s' (metaPath [p', m'] [''parameters'']))"
    if "\<not> diverge ?q (metaPath [p', m'] [''parameters''])" for p' m'
    using that t(1) assms(3) [OF r] by (simp del: getIn.simps)
  ultimately show ?thesis using specOk_keeps [OF assms(1) t(3)] by blast
qed

text \<open>A field of an entry is written.\<close>

lemma setIn_two:
  assumes "entriesOk es" "okField f w"
  shows "\<exists>u. setIn [i, f] w (IMap es) = Inr (IMap (jput i u es)) \<and> entryOk u \<and> getIn u [f] = Some w
    \<and> (\<forall>g. g \<noteq> f \<longrightarrow> getIn u [g] = Option.bind (jget es i) (\<lambda>v. getIn v [g]))"
proof (cases "jget es i")
  case None
  then have "setIn [i, f] w (IMap es) = Inr (IMap (jput i (IMap [(f, w)]) es))"
    by (simp add: setIn_def updateTree_def hasSet_def childAt_def setChild_def jput_def)
  then show ?thesis using None entryOk_new [OF assms(2)] by (auto simp: childAt_def jget_def)
next
  case (Some v)
  then obtain e where e: "v = IMap e" "entryOk (IMap e)" using entriesOk_get assms(1) by blast
  then have "setIn [i, f] w (IMap es) = Inr (IMap (jput i (IMap (jput f w e)) es))"
    using Some by (simp add: setIn_def updateTree_def hasSet_def childAt_def setChild_def)
  then show ?thesis using Some e entryOk_put [OF e(2) assms(2)] by (auto simp: childAt_def jm.get_put)
qed

lemma validateInto_step:
  assumes "entriesOk es" "validateInto env hashText errorsOf (IMap es) p = Inr r"
  obtains i errors u where "paramToIdentifier env hashText True p = Inr i" "errorsOf p = Inr errors"
    "r = IMap (jput i u es)" "entriesOk (jput i u es)" "getIn u [''errors''] = Some (fromJS (TArr errors))"
proof -
  obtain errors i where e: "errorsOf p = Inr errors" "paramToIdentifier env hashText True p = Inr i"
    "setIn [i, ''errors''] (fromJS (TArr errors)) (IMap es) = Inr r"
    using assms(2) by (auto simp: validateInto_def bindJ_Inr_conv simp del: fromJS.simps)
  obtain u where u: "setIn [i, ''errors''] (fromJS (TArr errors)) (IMap es) = Inr (IMap (jput i u es))" "entryOk u"
    "getIn u [''errors''] = Some (fromJS (TArr errors))"
    using setIn_two [OF assms(1), of "''errors''" "fromJS (TArr errors)" i] by (auto simp: okField_def)
  show thesis
  proof (rule that [OF e(2,1)])
    show "r = IMap (jput i u es)" using e(3) u(1) by simp
    show "entriesOk (jput i u es)" by (rule entriesOk_jput [OF assms(1) u(2)])
  qed (rule u(3))
qed

lemma validateInto_fold:
  "entriesOk es \<Longrightarrow> foldJ (validateInto env hashText errorsOf) (IMap es) ps = Inr r
    \<Longrightarrow> \<exists>es'. r = IMap es' \<and> entriesOk es'"
proof (induction ps arbitrary: es)
  case (Cons p ps)
  then obtain t where t: "validateInto env hashText errorsOf (IMap es) p = Inr t"
    "foldJ (validateInto env hashText errorsOf) t ps = Inr r" by (auto simp: bindJ_Inr_conv)
  obtain i u where "t = IMap (jput i u es)" "entriesOk (jput i u es)"
    using validateInto_step [OF Cons.prems(1) t(1)] by metis
  then show ?case using Cons.IH t(2) by blast
qed auto

lemma validatedMeta_shape:
  assumes "validatedMeta env hashText errorsOf op meta = Inr r" "metaOk meta"
  shows "metaOk r"
proof -
  obtain es where es: "(case meta of None \<Rightarrow> emptyMap | Some m \<Rightarrow> m) = IMap es" "entriesOk es"
    using assms(2) by (auto simp: metaOk_def)
  obtain ps m where m: "foldJ (validateInto env hashText errorsOf) (IMap es) ps = Inr m"
    and "r = (if meta = None \<and> m = emptyMap then None else Some m)"
    using assms(1) es(1) by (auto simp: validatedMeta_def bindJ_Inr_conv)
  then show ?thesis using validateInto_fold [OF es(2) m] by (auto simp: metaOk_def)
qed

lemma specOk_validateParams:
  assumes "specOk s" "validateParams env hashText [p, m] isOAS3 s = Inr s'"
  shows "specOk s'"
proof -
  obtain errorsOf op where up: "updateTree (''meta'' # ''paths'' # p # m # [''parameters''])
      (validatedMeta env hashText errorsOf op) s = Inr s'"
    using assms(2) by (auto simp: validateParams_def Let_def bindJ_Inr_conv)
  show ?thesis
    using validatedMeta_shape specOk_parameters [OF assms(1)] by (intro specOk_updateParameters [OF assms(1) up]) blast
qed

lemma mapJ_entries:
  "mapJ (\<lambda>(k, p). bindJ (c p) (\<lambda>q. Inr (k, q))) es = Inr qs
    \<Longrightarrow> map fst qs = map fst es \<and> rel_option (\<lambda>p q. c p = Inr q) (jget es k) (jget qs k)"
proof (induction es arbitrary: qs)
  case (Cons e es)
  obtain j p where e: "e = (j, p)" by (cases e)
  obtain q qs' where q: "c p = Inr q" "mapJ (\<lambda>(k, p). bindJ (c p) (\<lambda>q. Inr (k, q))) es = Inr qs'" "qs = (j, q) # qs'"
    using Cons.prems by (auto simp: e bindJ_Inr_conv)
  then show ?case using Cons.IH [OF q(2)] by (simp add: e jget_def)
qed (simp add: jget_def)

lemma specOk_clearValidateParams:
  assumes "specOk s" "clearValidateParams [p, m] s = Inr s'"
  shows "specOk s'"
proof (rule specOk_updateParameters [OF assms(1) assms(2) [unfolded clearValidateParams_def metaPath_simps]])
  let ?v = "getIn s [''meta'', ''paths'', p, m, ''parameters'']"
  fix r
  assume r: "(case ?v of
        None \<Rightarrow> Inr None
      | Some (IMap ps) \<Rightarrow> bindJ (mapJ (\<lambda>(k, p). bindJ (clearErrors p) (\<lambda>q. Inr (k, q))) ps) (\<lambda>qs. Inr (Some (IMap qs)))
      | Some (IList ps) \<Rightarrow> bindJ (mapJ clearErrors ps) (\<lambda>qs. Inr (Some (IList qs)))
      | Some _ \<Rightarrow> Inl (TypeError ''parameters.map is not a function'')) = Inr r"
  show "metaOk r"
  proof (cases ?v)
    case (Some v)
    then obtain es where es: "v = IMap es" "entriesOk es"
      using specOk_parameters [OF assms(1), of p m] by (auto simp: metaOk_def simp del: getIn.simps)
    then obtain qs where qs: "mapJ (\<lambda>(k, p). bindJ (clearErrors p) (\<lambda>q. Inr (k, q))) es = Inr qs" "r = Some (IMap qs)"
      using r Some by (auto simp: bindJ_Inr_conv simp del: getIn.simps)
    have "entryOk q" if q: "jget qs k = Some q" for k q
    proof -
      obtain p where p: "jget es k = Some p" "clearErrors p = Inr q"
        using mapJ_entries [OF qs(1), of k] unfolding q by (cases "jget es k") auto
      then obtain e where "p = IMap e" "entryOk (IMap e)" using entriesOk_get es(2) by blast
      then show ?thesis using p(2) entryOk_put [of e "''errors''" "IList []"] by (auto simp: clearErrors_def hasSet_def setChild_def okField_def)
    qed
    then show ?thesis using qs mapJ_entries [OF qs(1)] es(2) by (auto simp: metaOk_def entriesOk_def jmap_ok_def)
  qed (use r in \<open>simp add: metaOk_def\<close>)
qed

lemma specOk_opMeta:
  assumes "specOk s" "key \<noteq> ''parameters''" "key \<noteq> ''parameter_inclusions''"
    and "setIn (''meta'' # ''paths'' # p # m # [key]) w s = Inr s'"
  shows "specOk s'"
proof -
  have "mapsAlong s ([''meta'', ''paths'', p, m] @ [''parameters''])" using specOk_path(1) [OF assms(1)] by simp
  then have "mapsAlong s ([''meta'', ''paths'', p, m] @ [key])" by (rule mapsAlong_sibling)
  then show ?thesis
    using assms(2,3) by (intro specOk_setIn [OF assms(1) _ assms(4)]) (auto elim!: reducerPathsE simp del: mapsAlong.simps)
qed

lemma specOk_place:
  assumes "specOk s" "q \<in> reducerPaths" "last q \<noteq> ''parameters'' \<or> length q \<noteq> 5" "setIn q w s = Inr s'"
  shows "specOk s'"
proof (rule specOk_setIn [OF assms(1) _ assms(4)])
  show "mapsAlong s q" using assms(1,2) by (simp add: specOk_def)
  show "diverge q t \<or> (\<exists>r. q = t @ r)" if "t \<in> reducerPaths" for t
    using assms(2,3) that by (auto elim!: reducerPathsE)
  show "diverge q (metaPath [p, m] [''parameters''])" for p m
    using assms(2,3) by (auto elim!: reducerPathsE)
qed

text \<open>The write of an entered value, as an update of the meta data of the parameters.\<close>

lemma specOk_setField:
  assumes "specOk s" "okField f w"
    and "setIn (''meta'' # ''paths'' # p # m # ''parameters'' # i # [f]) w s = Inr s'"
  shows "specOk s'"
proof (rule specOk_updateParameters [OF assms(1)])
  show "updateTree (''meta'' # ''paths'' # p # m # [''parameters'']) (updateAt [i, f] (\<lambda>_. Inr (Some w))) s = Inr s'"
    using assms(3) updateAt_append [of "[''meta'', ''paths'', p, m, ''parameters'']" "[i, f]"]
    by (simp add: setIn_def updateTree_def del: updateAt.simps)
  fix r
  let ?v = "getIn s (''meta'' # ''paths'' # p # m # [''parameters''])"
  assume r: "updateAt [i, f] (\<lambda>_. Inr (Some w)) ?v = Inr r"
  show "metaOk r"
  proof (cases ?v)
    case None
    then have "r = Some (IMap [(i, IMap [(f, w)])])" using r by simp
    then show ?thesis using entriesOk_jput [OF entriesOk_Nil entryOk_new [OF assms(2)], of i] by (simp add: metaOk_def jput_def)
  next
    case (Some v)
    then obtain es where es: "v = IMap es" "entriesOk es"
      using specOk_parameters [OF assms(1), of p m] by (auto simp: metaOk_def simp del: getIn.simps)
    obtain u where "setIn [i, f] w (IMap es) = Inr (IMap (jput i u es))" "entryOk u"
      using setIn_two [OF es(2) assms(2)] by blast
    then have "r = Some (IMap (jput i u es))"
      using r [unfolded Some es(1)]
      by (cases r) (auto simp: setIn_def updateTree_def bindJ_Inr_conv simp del: updateAt.simps getIn.simps)
    then show ?thesis using entriesOk_jput [OF es(2) \<open>entryOk u\<close>] by (simp add: metaOk_def)
  qed
qed

lemma specOk_delete:
  assumes "specOk s" "h \<in> {''responses'', ''requests'', ''mutatedRequests''}" "deleteIn [h, p, m] s = Inr s'"
  shows "specOk s'"
proof -
  have free: "mapsAlong s [h, p, m]" using specOk_path(3) [OF assms(1,2)] .
  obtain t where "updateTree [h, p, m] (\<lambda>_. Inr None) s = Inr t" "mapsAlong t [h, p, m]" "keeps [h, p, m] s t"
    using updateTree_unset [OF free, of "\<lambda>_. Inr None"] by auto
  then have t: "mapsAlong s' [h, p, m]" "keeps [h, p, m] s s'" using assms(3) by (auto simp: deleteIn_def)
  show ?thesis
    using t(1) assms(2) by (intro specOk_keeps [OF assms(1) t(2)]) (auto elim!: reducerPathsE simp del: mapsAlong.simps)
qed

lemma responseResult_object: "responseResult (TObj ps) = Inr r \<Longrightarrow> \<exists>qs. r = TObj qs"
  by (auto simp: responseResult_def bindJ_Inr_conv split: if_splits)

lemma specOk_setResponse:
  assumes "specOk s" "setResponse (TObj ps) p m s = Inr s'"
  shows "specOk s'"
proof -
  obtain qs where r: "responseResult (TObj ps) = Inr (TObj qs)"
    using assms(2) responseResult_object by (fastforce simp: setResponse_def bindJ_Inr_conv)
  obtain s1 where s1: "setIn [''responses'', p, m] (fromJSOrdered (TObj qs)) s = Inr s1"
    using assms(2) r by (auto simp: setResponse_def bindJ_Inr_conv)
  have q: "[''responses'', p, m] \<in> reducerPaths" by (rule reducerPaths.intros(3)) simp
  have ok1: "specOk s1" by (rule specOk_place [OF assms(1) q _ s1]) simp
  have "getIn s1 [''responses'', p, m] = Some (fromJSOrdered (TObj qs))"
    using tree.read_written [OF specOk_path(3) s1] assms(1) by simp
  then have "mapsAlong s1 ([''responses'', p, m] @ [''text''])"
    using specOk_path(3) [OF ok1, of "''responses''" p m] unfolding mapsAlong_append
    by (simp add: fromJSOrdered_def split: option.split del: mapsAlong.simps(2)) (simp split: option.split)
  then have "specOk t" if "setIn [''responses'', p, m, ''text''] w s1 = Inr t" for w t
    by (intro specOk_setIn [OF ok1 _ that]) (auto elim!: reducerPathsE simp del: mapsAlong.simps)
  then show ?thesis
    using assms(2) r s1 ok1 by (auto simp: setResponse_def bindJ_Inr_conv split: if_splits)
qed

text \<open>Every action the pages send keeps the shape of the state.\<close>

lemma specOk_reduce:
  assumes "specOk s" "properAction a" "reduceSpec env hashText a s = Inr s'"
  shows "specOk s'"
proof (cases a)
  case (UpdateSpec v)
  then show ?thesis using assms specOk_entry [of s "''spec''" "[]" v s'] by (auto simp: reduceSpec_def split: if_splits)
next
  case (UpdateUrl v)
  then show ?thesis using assms(3) specOk_entry [OF assms(1), of "''url''" "[]"] by (simp add: reduceSpec_def)
next
  case (UpdateJson v)
  then show ?thesis using assms(3) specOk_entry [OF assms(1), of "''json''" "[]"] by (simp add: reduceSpec_def)
next
  case (UpdateResolved v)
  then show ?thesis using assms(3) specOk_entry [OF assms(1), of "''resolved''" "[]"] by (simp add: reduceSpec_def)
next
  case (UpdateResolvedSubtree path v)
  then show ?thesis using assms(3) specOk_entry [OF assms(1), of "''resolvedSubtrees''" path] by (simp add: reduceSpec_def)
next
  case (UpdateParam payload)
  then obtain p m where pm: "up_path payload = [p, m]" using assms(2) by (auto simp: properAction_def isOperation_def)
  with UpdateParam assms(3) obtain k f where "setIn (metaPath [p, m] [''parameters'', k, f]) (up_value payload) s = Inr s'"
    and "okField f (up_value payload)"
    by (auto simp: reduceSpec_def updateParam_def bindJ_Inr_conv okField_def)
  then show ?thesis using specOk_setField [OF assms(1)] by simp
next
  case (UpdateEmptyParamInclusion pm n i v)
  then obtain p m where "pm = [p, m]" using assms(2) by (auto simp: properAction_def isOperation_def)
  with UpdateEmptyParamInclusion assms(3)
  have "s' = s \<or> setIn (metaPath [p, m] [''parameter_inclusions'', dotted env i n]) v s = Inr s'"
    by (simp add: reduceSpec_def split: if_splits)
  then show ?thesis using assms(1) specOk_place [OF assms(1) reducerPaths.intros(2)] by auto
next
  case (ValidateParams pm o3)
  then show ?thesis using assms specOk_validateParams by (auto simp: reduceSpec_def properAction_def isOperation_def)
next
  case (ClearValidateParams pm)
  then show ?thesis using assms specOk_clearValidateParams by (auto simp: reduceSpec_def properAction_def isOperation_def)
next
  case (SetResponse res path meth)
  then show ?thesis using assms specOk_setResponse by (auto simp: reduceSpec_def properAction_def)
next
  case (SetRequest req path meth)
  then show ?thesis using assms(3) specOk_place [OF assms(1) reducerPaths.intros(3) [of "''requests''"]] by (simp add: reduceSpec_def)
next
  case (SetMutatedRequest req path meth)
  then show ?thesis using assms(3) specOk_place [OF assms(1) reducerPaths.intros(3) [of "''mutatedRequests''"]] by (simp add: reduceSpec_def)
next
  case (UpdateOperationMetaValue pm v key)
  then obtain p m where "pm = [p, m]" using assms(2) by (auto simp: properAction_def isOperation_def)
  with UpdateOperationMetaValue show ?thesis
    using assms specOk_opMeta [OF assms(1)]
    by (auto simp: reduceSpec_def properAction_def updateOperationMetaValue_def split: if_splits)
next
  case (ClearResponse path meth)
  then show ?thesis using assms(3) specOk_delete [OF assms(1)] by (auto simp: reduceSpec_def)
next
  case (ClearRequest path meth)
  then show ?thesis using assms(3) specOk_delete [OF assms(1)] by (auto simp: reduceSpec_def)
next
  case (SetScheme scheme path meth)
  then show ?thesis
    using assms specOk_entry [OF assms(1), of "''scheme''"]
    by (auto simp: reduceSpec_def properAction_def setScheme_def split: if_splits)
qed

text \<open>The states the store of the page goes through.\<close>

inductive specReached :: "PageEnv \<Rightarrow> (jstree \<Rightarrow> string) \<Rightarrow> jstree \<Rightarrow> bool" for env hashText where
  start: "specReached env hashText (IMap [])"
| act: "specReached env hashText s \<Longrightarrow> properAction a \<Longrightarrow> specReached env hashText (reduceWith (reduceSpec env hashText) s a)"

lemma specReached_ok: "specReached env hashText s \<Longrightarrow> specOk s"
  by (induction rule: specReached.induct) (auto intro: reduceWith_invariant specOk_reduce)

lemma specReached_step:
  "specReached env hashText s \<Longrightarrow> properAction a \<Longrightarrow> reduceSpec env hashText a s = Inr s' \<Longrightarrow> specReached env hashText s'"
  using specReached.act [of env hashText s a] by simp

end
