(* ===== verification/UiExecuteSpec.thy ===== *)
theory UiExecuteSpec
  imports UiSpecStateSpec UiValidateSpec
begin

text \<open>
  What a page does with an entered value: it is read back for its parameter, and a request may be
  sent exactly when no parameter is complained about.
\<close>

section \<open>An example\<close>

text \<open>A page that describes one operation with one parameter, and what is stored for it.\<close>

definition exParam :: jstree where
  "exParam = IMap [(''in'', TStr ''query''), (''name'', TStr ''n''), (''type'', TStr ''integer'')]"

definition exPage :: "jstree list \<Rightarrow> jstree" where
  "exPage es = IMap ((''json'', IMap [(''paths'', IMap [(''/a'', IMap [(''get'', IMap [(''parameters'', IList [exParam])])])])]) #
    (if es = [] then []
     else [(''meta'', IMap [(''paths'', IMap [(''/a'', IMap [(''get'', IMap [(''parameters'', IMap [(''query.n.hash-1'', hd es)])])])])])]))"

definition exHash :: "jstree \<Rightarrow> string" where
  "exHash c = ''1''"

definition exJson :: jstree where
  "exJson = TObj [(''paths'', TObj [(''/a'', TObj [(''get'', TObj [(''parameters'', TArr [
     TObj [(''in'', TStr ''query''), (''name'', TStr ''n''), (''type'', TStr ''integer'')]])])])])]"

definition exEnter :: "string \<Rightarrow> ParamPayload" where
  "exEnter v = \<lparr>up_path = [''/a'', ''get''], up_paramName = TUndef, up_paramIn = TUndef, up_param = exParam,
     up_value = TStr v, up_isXml = False\<rparr>"

lemma exPage_start: "specReached plainEnv exHash (exPage [])"
proof (rule specReached_step [OF specReached.start])
  show "reduceSpec plainEnv exHash (UpdateJson exJson) (IMap []) = Inr (exPage [])" by code_simp
qed (simp add: properAction_def)

lemma exPage_entered:
  "specReached plainEnv exHash (exPage [IMap [(''value'', TStr ''7'')]])"
  "specReached plainEnv exHash (exPage [IMap [(''value'', TStr ''x'')]])"
proof -
  have "properAction (UpdateParam (exEnter v))" for v by (simp add: properAction_def isOperation_def exEnter_def)
  moreover have "reduceSpec plainEnv exHash (UpdateParam (exEnter ''7'')) (exPage []) = Inr (exPage [IMap [(''value'', TStr ''7'')]])"
    "reduceSpec plainEnv exHash (UpdateParam (exEnter ''x'')) (exPage []) = Inr (exPage [IMap [(''value'', TStr ''x'')]])"
    by code_simp+
  ultimately show "specReached plainEnv exHash (exPage [IMap [(''value'', TStr ''7'')]])"
    "specReached plainEnv exHash (exPage [IMap [(''value'', TStr ''x'')]])"
    using specReached_step [OF exPage_start] by blast+
qed

lemma exPage_validated:
  "reduceSpec plainEnv exHash (ValidateParams [''/a'', ''get''] False) (exPage [IMap [(''value'', TStr ''7'')]])
    = Inr (exPage [IMap [(''value'', TStr ''7''), (''errors'', IList [])]])"
  "reduceSpec plainEnv exHash (ValidateParams [''/a'', ''get''] False) (exPage [IMap [(''value'', TStr ''x'')]])
    = Inr (exPage [IMap [(''value'', TStr ''x''), (''errors'', IList [TStr ''Value must be an integer''])]])"
  by code_simp+

section \<open>The parameters of an operation\<close>

definition described :: "jstree \<Rightarrow> string \<Rightarrow> string \<Rightarrow> jstree list \<Rightarrow> bool" where
  "described s p m ps \<longleftrightarrow> getIn (specJsonWithResolvedSubtrees s) [''paths'', p, m, ''parameters''] = Some (IList ps)"

text \<open>The two names of a parameter: \<open>in.name\<close> and the one with its hash.\<close>

definition plainKey :: "jstree \<Rightarrow> string" where
  "plainKey c = (case (fieldOf (mapFields c) ''in'', fieldOf (mapFields c) ''name'') of
     (TStr a, TStr b) \<Rightarrow> a @ ''.'' @ b | _ \<Rightarrow> '''')"

definition hashKey :: "(jstree \<Rightarrow> string) \<Rightarrow> jstree \<Rightarrow> string" where
  "hashKey hashText c = plainKey c @ ''.hash-'' @ hashText c"

definition bareName :: "jstree \<Rightarrow> string" where
  "bareName c = (case fieldOf (mapFields c) ''name'' of TStr b \<Rightarrow> b | _ \<Rightarrow> '''')"

definition isParameter :: "jstree \<Rightarrow> bool" where
  "isParameter c \<longleftrightarrow> (\<exists>fs a b. c = IMap fs \<and> jmap_ok fs \<and> fieldOf fs ''in'' = TStr a \<and> fieldOf fs ''name'' = TStr b
     \<and> a \<noteq> '''' \<and> b \<noteq> '''')"

text \<open>Parameters that differ have different names, none of which is a name of another.\<close>

definition wellNamed :: "(jstree \<Rightarrow> string) \<Rightarrow> jstree list \<Rightarrow> bool" where
  "wellNamed hashText ps \<longleftrightarrow> distinct ps \<and> list_all isParameter ps \<and>
    (\<forall>c\<in>set ps. \<forall>d\<in>set ps. (c \<noteq> d \<longrightarrow> plainKey c \<noteq> plainKey d \<and> hashKey hashText c \<noteq> hashKey hashText d)
       \<and> hashKey hashText c \<noteq> plainKey d \<and> bareName c \<noteq> plainKey d)"

lemma wellNamedD:
  assumes "wellNamed hashText ps" "c \<in> set ps"
  shows "isParameter c"
    and "d \<in> set ps \<Longrightarrow> c \<noteq> d \<Longrightarrow> plainKey c \<noteq> plainKey d" "d \<in> set ps \<Longrightarrow> c \<noteq> d \<Longrightarrow> hashKey hashText c \<noteq> hashKey hashText d"
    and "d \<in> set ps \<Longrightarrow> hashKey hashText c \<noteq> plainKey d" "d \<in> set ps \<Longrightarrow> bareName c \<noteq> plainKey d"
  using assms by (auto simp: wellNamed_def list_all_iff)

lemma isParameterE:
  assumes "isParameter c"
  obtains fs a b where "c = IMap fs" "jmap_ok fs" "fieldOf fs ''in'' = TStr a" "fieldOf fs ''name'' = TStr b" "a \<noteq> ''''" "b \<noteq> ''''"
    "plainKey c = a @ ''.'' @ b" "bareName c = b"
  using assms by (auto simp: isParameter_def plainKey_def bareName_def mapFields_def)

text \<open>The meta data of the parameters of an operation, and a field of one entry.\<close>

definition metaEntries :: "jstree \<Rightarrow> string \<Rightarrow> string \<Rightarrow> (string \<times> jstree) list" where
  "metaEntries s p m = mapFields (getInOr emptyMap s (metaPath [p, m] [''parameters'']))"

definition entryField :: "(string \<times> jstree) list \<Rightarrow> string \<Rightarrow> string \<Rightarrow> jstree option" where
  "entryField es k f = Option.bind (jget es k) (\<lambda>v. getIn v [f])"

lemma metaEntries_ok:
  assumes "specOk s"
  shows "entriesOk (metaEntries s p m)" "getInOr emptyMap s (metaPath [p, m] [''parameters'']) = IMap (metaEntries s p m)"
proof -
  have "metaOk (getIn s (metaPath [p, m] [''parameters'']))" using assms unfolding specOk_def by blast
  then have "\<exists>es. getInOr emptyMap s (metaPath [p, m] [''parameters'']) = IMap es \<and> entriesOk es"
    unfolding metaOk_def getInOr_def by (elim disjE exE conjE) (simp_all del: metaPath_simps getIn.simps)
  then show "entriesOk (metaEntries s p m)" "getInOr emptyMap s (metaPath [p, m] [''parameters'']) = IMap (metaEntries s p m)"
    by (auto simp: metaEntries_def mapFields_def simp del: metaPath_simps)
qed

lemma metaEntries_cases:
  assumes "specOk s"
  obtains "getIn s (metaPath [p, m] [''parameters'']) = None" "metaEntries s p m = []"
    | "getIn s (metaPath [p, m] [''parameters'']) = Some (IMap (metaEntries s p m))"
proof (cases "getIn s (metaPath [p, m] [''parameters''])")
  case None
  then have "metaEntries s p m = []" unfolding metaEntries_def getInOr_def by (simp add: mapFields_def del: metaPath_simps)
  with None show thesis by (rule that(1))
next
  case (Some v)
  then have "v = IMap (metaEntries s p m)"
    using metaEntries_ok(2) [OF assms, of p m] unfolding getInOr_def by (simp del: metaPath_simps)
  with Some show thesis by (intro that(2)) simp
qed

text \<open>A stored field: that of the entry with the hash, of the one without, or the parameter's own.\<close>

definition stored :: "(jstree \<Rightarrow> string) \<Rightarrow> (string \<times> jstree) list \<Rightarrow> jstree \<Rightarrow> string \<Rightarrow> jstree" where
  "stored hashText es c f =
    (case entryField es (hashKey hashText c) f of
       Some w \<Rightarrow> w
     | None \<Rightarrow> (case entryField es (plainKey c) f of Some w \<Rightarrow> w | None \<Rightarrow> fieldOf (mapFields c) f))"

lemma stored_eq:
  "entryField es' (hashKey hashText d) f = entryField es (hashKey hashText d) f
    \<Longrightarrow> entryField es' (plainKey d) f = entryField es (plainKey d) f \<Longrightarrow> stored hashText es' d f = stored hashText es d f"
  by (auto simp: stored_def split: option.split)

text \<open>The parameter with its meta data.\<close>

definition withMeta :: "(jstree \<Rightarrow> string) \<Rightarrow> (string \<times> jstree) list \<Rightarrow> jstree \<Rightarrow> jstree" where
  "withMeta hashText es c = mergeMaps [c, fieldOf es (plainKey c), fieldOf es (hashKey hashText c)]"

lemma fieldOf_jputAll: "jmap_ok ns \<Longrightarrow> fieldOf (jputAll os ns) f = (case jget ns f of Some w \<Rightarrow> w | None \<Rightarrow> fieldOf os f)"
  by (simp add: fieldOf_def jget_jputAll_ok split: option.splits)

lemma jget_mapFields_entry:
  assumes "entriesOk es"
  shows "jget (mapFields (fieldOf es k)) f = entryField es k f" "jmap_ok (mapFields (fieldOf es k))"
proof -
  have "jget (mapFields (fieldOf es k)) f = entryField es k f \<and> jmap_ok (mapFields (fieldOf es k))"
  proof (cases "jget es k")
    case None
    then show ?thesis by (simp add: fieldOf_def mapFields_def entryField_def)
  next
    case (Some v)
    then obtain e where "v = IMap e" "entryOk (IMap e)" using entriesOk_get assms by blast
    then show ?thesis using Some
      by (auto simp: fieldOf_def mapFields_def entryField_def childAt_def entryOk_def split: option.split)
  qed
  then show "jget (mapFields (fieldOf es k)) f = entryField es k f" "jmap_ok (mapFields (fieldOf es k))" by auto
qed

lemma entryField_other:
  assumes "entriesOk es" "f \<notin> {''value'', ''value_xml'', ''errors''}"
  shows "entryField es k f = None"
proof (cases "jget es k")
  case (Some v)
  then obtain e where e: "v = IMap e" "entryOk (IMap e)" using entriesOk_get assms(1) by blast
  then have "jget e f = None" using assms(2) by (cases "jget e f") (auto simp: entryOk_def okField_def)
  then show ?thesis using Some e by (simp add: entryField_def childAt_def)
qed (simp add: entryField_def)

lemma fieldOf_jputAll_Nil: "jmap_ok ns \<Longrightarrow> fieldOf (jputAll [] ns) f = fieldOf ns f"
  by (simp add: fieldOf_jputAll) (simp add: fieldOf_def split: option.split)

lemma merged_fields:
  assumes "entriesOk es" "isParameter d"
  shows "\<exists>fs. mergeMaps [d, fieldOf es i, fieldOf es j] = IMap fs \<and>
    (\<forall>f. fieldOf fs f = (case entryField es j f of Some w \<Rightarrow> w
       | None \<Rightarrow> (case entryField es i f of Some w \<Rightarrow> w | None \<Rightarrow> fieldOf (mapFields d) f)))"
proof -
  have "jmap_ok (mapFields d)" using assms(2) by (auto simp: isParameter_def mapFields_def)
  then show ?thesis using jget_mapFields_entry [OF assms(1)]
    by (simp add: mergeMaps_def fieldOf_jputAll_Nil fieldOf_jputAll [of _ "jputAll x y" for x y] del: fieldOf_simps
        split: option.split)
qed

lemma withMeta_fields:
  assumes "entriesOk es" "isParameter c"
  shows "\<exists>fs. withMeta hashText es c = IMap fs \<and> (\<forall>f. fieldOf fs f = stored hashText es c f)"
  using merged_fields [OF assms] by (simp add: withMeta_def stored_def)

lemma stored_own:
  assumes "entriesOk es" "f \<notin> {''value'', ''value_xml'', ''errors''}"
  shows "stored hashText es c f = fieldOf (mapFields c) f"
  using entryField_other [OF assms] by (simp add: stored_def)

text \<open>Of the parameters with the meta data of one of them, the first that has its names is that one.\<close>

lemma filter_only: "x \<in> set xs \<Longrightarrow> (\<And>y. y \<in> set xs \<Longrightarrow> P (g y) \<longleftrightarrow> y = x) \<Longrightarrow> \<exists>r. filter P (map g xs) = g x # r"
proof (induction xs)
  case (Cons y ys)
  then show ?case by (cases "y = x") auto
qed simp

lemma parameterWithMeta:
  assumes "specOk s" "described s p m ps" "wellNamed hashText ps" "c \<in> set ps"
  shows "parameterWithMetaByIdentity env hashText s [p, m] c = Inr (withMeta hashText (metaEntries s p m) c)"
proof -
  let ?es = "metaEntries s p m"
  note es = metaEntries_ok [OF assms(1), of p m]
  obtain fs a b where c: "c = IMap fs" "fieldOf fs ''in'' = TStr a" "fieldOf fs ''name'' = TStr b" "plainKey c = a @ ''.'' @ b"
    using isParameterE wellNamedD(1) [OF assms(3,4)] by metis
  let ?M = "\<lambda>d. mergeMaps [d, fieldOf ?es (plainKey c), fieldOf ?es (hashKey hashText c)]"
  have own: "getInOr TUndef (?M d) [f] = fieldOf (mapFields d) f" if isp: "isParameter d" and f: "f = ''in'' \<or> f = ''name''" for d f
  proof -
    have none: "entryField ?es k f = None" for k by (rule entryField_other [OF es(1)]) (use f in auto)
    obtain gs where "?M d = IMap gs" "fieldOf gs f = fieldOf (mapFields d) f"
      using merged_fields [OF es(1) isp, of "plainKey c" "hashKey hashText c"] by (auto simp: none)
    then show ?thesis by (simp add: getInOr_field)
  qed
  have "\<exists>r. filter (\<lambda>d. getInOr TUndef d [''in''] = TStr a \<and> getInOr TUndef d [''name''] = TStr b) (map ?M ps) = ?M c # r"
  proof (rule filter_only [OF assms(4)])
    fix d assume d: "d \<in> set ps"
    then have "isParameter d" using wellNamedD(1) assms(3) by blast
    then have names: "getInOr TUndef (?M d) [''in''] = fieldOf (mapFields d) ''in''"
      "getInOr TUndef (?M d) [''name''] = fieldOf (mapFields d) ''name''" using own by blast+
    show "(getInOr TUndef (?M d) [''in''] = TStr a \<and> getInOr TUndef (?M d) [''name''] = TStr b) \<longleftrightarrow> d = c"
    proof
      assume "getInOr TUndef (?M d) [''in''] = TStr a \<and> getInOr TUndef (?M d) [''name''] = TStr b"
      then have "fieldOf (mapFields d) ''in'' = TStr a" "fieldOf (mapFields d) ''name'' = TStr b" unfolding names by blast+
      then have "plainKey d = plainKey c" unfolding c(4) by (simp add: plainKey_def)
      then show "d = c" using wellNamedD(2) [OF assms(3) d assms(4)] by blast
    next
      assume "d = c"
      then show "getInOr TUndef (?M d) [''in''] = TStr a \<and> getInOr TUndef (?M d) [''name''] = TStr b"
        unfolding names using c by (simp add: mapFields_def)
    qed
  qed
  then obtain r where r: "filter (\<lambda>d. getInOr TUndef d [''in''] = TStr a \<and> getInOr TUndef d [''name''] = TStr b) (map ?M ps) = ?M c # r"
    by blast
  have ops: "getInOr emptyMap (specJsonWithResolvedSubtrees s) [''paths'', p, m, ''parameters''] = IList ps"
    using assms(2) unfolding described_def getInOr_def by simp
  show ?thesis
    using r c
    by (simp add: parameterWithMetaByIdentity_def imGet_def Let_def es(2) [simplified] ops elements_def withMeta_def dotted_def
        getInOr_field hashKey_def del: getIn.simps)
qed

section \<open>The values of an operation\<close>

definition valueField :: "bool \<Rightarrow> jstree \<Rightarrow> string" where
  "valueField isXml c = (if isXml \<and> fieldOf (mapFields c) ''in'' = TStr ''body'' then ''value_xml'' else ''value'')"

lemma mapJ_all: "(\<And>x. x \<in> set xs \<Longrightarrow> f x = Inr (g x)) \<Longrightarrow> mapJ f xs = Inr (map g xs)"
  by (induction xs) auto

lemma foldJ_all: "(\<And>t x. x \<in> set xs \<Longrightarrow> f t x = Inr (g x t)) \<Longrightarrow> foldJ f s xs = Inr (fold g xs s)"
  by (induction xs arbitrary: s) auto

lemma foldJ_map: "foldJ f s (map g xs) = foldJ (\<lambda>t x. f t (g x)) s xs"
  by (induction xs arbitrary: s) auto

lemma jget_fold_off: "k \<notin> K ` set xs \<Longrightarrow> jget (fold (\<lambda>c. jput (K c) (V c)) xs m) k = jget m k"
  by (induction xs arbitrary: m) (auto simp: jm.get_put)

lemma jget_fold_put:
  "inj_on K (set xs) \<Longrightarrow> c \<in> set xs \<Longrightarrow> jget (fold (\<lambda>c. jput (K c) (V c)) xs m) (K c) = Some (V c)"
proof (induction xs arbitrary: m)
  case (Cons x xs)
  show ?case
  proof (cases "c \<in> set xs")
    case False
    then have "K c \<notin> K ` set xs" "c = x" using Cons.prems by (auto simp: inj_on_def)
    then show ?thesis using jget_fold_off [of "K c" K xs V "jput (K x) (V x) m"] by (simp add: jm.get_put)
  qed (use Cons in \<open>simp add: inj_on_def\<close>)
qed simp

lemma described_op:
  assumes "described s p m ps"
  shows "\<exists>op. getInOr emptyMap (specJsonWithResolvedSubtrees s) [''paths'', p, m] = IMap op
    \<and> getInOr TUndef (specJsonWithResolvedSubtrees s) [''paths'', p, m] = IMap op
    \<and> getInOr (IList []) (IMap op) [''parameters''] = IList ps"
proof -
  let ?d = "specJsonWithResolvedSubtrees s"
  have get: "getIn ?d ([''paths'', p, m] @ [''parameters'']) = Some (IList ps)" using assms by (simp add: described_def)
  obtain v where v: "getIn ?d [''paths'', p, m] = Some v" "getIn v [''parameters''] = Some (IList ps)"
    using get unfolding getIn_append by (auto split: option.splits simp del: getIn.simps)
  have "listIndex ''parameters'' = None"
    by (simp add: listIndex_def unsignedVal_def digitVal_def)
  then obtain op where "v = IMap op" using v(2) by (auto simp: childAt_def split: jstree.splits option.splits)
  with v show ?thesis by (auto simp: getInOr_def simp del: getIn.simps)
qed

lemma paramToIdentifier_stored:
  assumes "isParameter c" "fieldOf fs ''in'' = fieldOf (mapFields c) ''in''" "fieldOf fs ''name'' = fieldOf (mapFields c) ''name''"
  shows "paramToIdentifier env hashText False (IMap fs) = Inr (plainKey c)"
  using assms by (auto simp: isParameter_def mapFields_def paramToIdentifier_def paramIdentifiers_def plainKey_def dotted_def)

lemma parameterValues_get:
  assumes "specOk s" "described s p m ps" "wellNamed hashText ps"
  obtains vs where "parameterValues env hashText s [p, m] isXml = Inr vs"
    "\<And>c. c \<in> set ps \<Longrightarrow> jget vs (plainKey c) = Some (stored hashText (metaEntries s p m) c (valueField isXml c))"
    "\<And>k. k \<notin> plainKey ` set ps \<Longrightarrow> jget vs k = None"
proof -
  let ?es = "metaEntries s p m"
  note es = metaEntries_ok(1) [OF assms(1), of p m]
  obtain op where op: "getInOr emptyMap (specJsonWithResolvedSubtrees s) [''paths'', p, m] = IMap op"
    "getInOr (IList []) (IMap op) [''parameters''] = IList ps" using described_op [OF assms(2)] by blast
  have withMeta: "mapJ (parameterWithMetaByIdentity env hashText s [p, m]) ps = Inr (map (withMeta hashText ?es) ps)"
    by (rule mapJ_all) (rule parameterWithMeta [OF assms])
  then obtain ms where "operationWithMeta env hashText s [p, m] = Inr (IMap ms)"
    and ms: "fieldOf ms ''parameters'' = IList (map (withMeta hashText ?es) ps)"
    using op by (simp add: operationWithMeta_def Let_def imGetOr_def hasSet_def elements_def)
  moreover have "getInOr (IList []) (IMap ms) [''parameters''] = IList (map (withMeta hashText ?es) ps)"
    using ms by (auto simp: getInOr_def childAt_def fieldOf_def split: option.splits)
  moreover have "bindJ (imGet q (if isXml \<and> getInOr TUndef q [''in''] = TStr ''body'' then ''value_xml'' else ''value''))
      (\<lambda>value. bindJ (paramToIdentifier env hashText False q) (\<lambda>i. Inr (jput i value hash)))
    = Inr (jput (plainKey c) (stored hashText ?es c (valueField isXml c)) hash)"
    if in_ps: "c \<in> set ps" and q: "q = withMeta hashText ?es c" for c q hash
  proof -
    have c: "isParameter c" using wellNamedD(1) assms(3) in_ps by blast
    obtain fs where fs: "q = IMap fs" "\<And>f. fieldOf fs f = stored hashText ?es c f"
      using withMeta_fields [OF es c] q by blast
    then have "fieldOf fs ''in'' = fieldOf (mapFields c) ''in''" "fieldOf fs ''name'' = fieldOf (mapFields c) ''name''"
      using stored_own [OF es] by simp_all
    then show ?thesis using paramToIdentifier_stored [OF c] fs(2)
      by (simp add: fs(1) getInOr_field imGet_def valueField_def)
  qed
  ultimately have "parameterValues env hashText s [p, m] isXml
      = Inr (fold (\<lambda>c. jput (plainKey c) (stored hashText ?es c (valueField isXml c))) ps [])"
    by (simp add: parameterValues_def elements_def foldJ_map foldJ_all)
  then show thesis
  proof (rule that)
    have inj: "inj_on plainKey (set ps)" using wellNamedD(2) [OF assms(3)] by (auto simp: inj_on_def)
    fix c assume "c \<in> set ps"
    then show "jget (fold (\<lambda>c. jput (plainKey c) (stored hashText ?es c (valueField isXml c))) ps []) (plainKey c)
        = Some (stored hashText ?es c (valueField isXml c))" by (rule jget_fold_put [OF inj])
  next
    show "jget (fold (\<lambda>c. jput (plainKey c) (stored hashText ?es c (valueField isXml c))) ps []) k = None"
      if "k \<notin> plainKey ` set ps" for k by (rule jget_fold_off [OF that, THEN trans]) (simp add: jget_def)
  qed
qed

section \<open>Entered values are read back\<close>

lemma entryField_path:
  assumes "specOk s"
  shows "entryField (metaEntries s p m) i f = getIn s (metaPath [p, m] [''parameters'', i, f])"
    and "mapsAlong s (metaPath [p, m] [''parameters'', i, f])"
proof -
  let ?q = "metaPath [p, m] [''parameters'']"
  have path: "metaPath [p, m] [''parameters'', i, f] = ?q @ [i, f]" by simp
  note es = metaEntries_ok [OF assms, of p m]
  have free: "mapsAlong s ?q" using specOk_path(1) [OF assms] by (simp del: mapsAlong.simps)
  have "mapsAlong (IMap (metaEntries s p m)) [i, f]"
    using entriesOk_get [OF es(1), of i] by (auto split: option.split)
  then show "mapsAlong s (metaPath [p, m] [''parameters'', i, f])"
    using free unfolding path mapsAlong_append
    by - (rule metaEntries_cases [OF assms, of p m], simp_all del: metaPath_simps mapsAlong.simps)
  show "entryField (metaEntries s p m) i f = getIn s (metaPath [p, m] [''parameters'', i, f])"
    unfolding path getIn_append
    by (rule metaEntries_cases [OF assms, of p m])
      (simp_all add: entryField_def childAt_def jget_def split: option.split del: metaPath_simps)
qed

lemma described_apart:
  assumes "diverge q [''json'']" "diverge q [''resolvedSubtrees'']" "mapsAlong s q" "setIn q w s = Inr s'"
  shows "specJsonWithResolvedSubtrees s' = specJsonWithResolvedSubtrees s"
  using tree.read_apart [OF assms(3,4,1)] tree.read_apart [OF assms(3,4,2)]
  by (simp add: specJsonWithResolvedSubtrees_def getInOr_def del: getIn.simps)

lemma field_written:
  assumes "specOk s" "okField f w"
  obtains s' where "setIn (metaPath [p, m] [''parameters'', i, f]) w s = Inr s'" "specOk s'"
    "specJsonWithResolvedSubtrees s' = specJsonWithResolvedSubtrees s"
    "\<And>j g. entryField (metaEntries s' p m) j g = (if j = i \<and> g = f then Some w else entryField (metaEntries s p m) j g)"
proof -
  let ?q = "metaPath [p, m] [''parameters'', i, f]"
  note free = entryField_path(2) [OF assms(1), of p m i f]
  obtain s' where s': "setIn ?q w s = Inr s'" "getIn s' ?q = Some w" "\<And>q. diverge ?q q \<Longrightarrow> getIn s' q = getIn s q"
    using tree.writeE [OF free, of w] by metis
  have ok: "specOk s'" using specOk_setField [OF assms] s'(1) by simp
  show thesis
  proof (rule that [OF s'(1) ok])
    show "specJsonWithResolvedSubtrees s' = specJsonWithResolvedSubtrees s"
      by (rule described_apart [OF _ _ free s'(1)]) simp_all
    fix j g
    show "entryField (metaEntries s' p m) j g = (if j = i \<and> g = f then Some w else entryField (metaEntries s p m) j g)"
      using s'(2) s'(3) [of "metaPath [p, m] [''parameters'', j, g]"] unfolding entryField_path(1) [OF assms(1)] entryField_path(1) [OF ok]
      by (auto simp del: getIn.simps)
  qed
qed

lemma paramToIdentifier_hash:
  "isParameter c \<Longrightarrow> paramToIdentifier env hashText True c = Inr (hashKey hashText c)"
  by (auto simp: isParameter_def mapFields_def paramToIdentifier_def paramIdentifiers_def plainKey_def hashKey_def dotted_def)

text \<open>C11: whatever was done before: a value that is entered for a parameter is the value of this parameter,
  and the values of all the others stay.
\<close>

theorem entered_value_read:
  assumes "specReached env hashText s" "described s p m ps" "wellNamed hashText ps" "c \<in> set ps"
    and "up_path payload = [p, m]" "up_param payload = c" "up_isXml payload = (valueField isXml c = ''value_xml'')"
  shows "\<exists>s' before after. reduceSpec env hashText (UpdateParam payload) s = Inr s' \<and>
    parameterValues env hashText s [p, m] isXml = Inr before \<and> parameterValues env hashText s' [p, m] isXml = Inr after \<and>
    (\<forall>k. jget after k = (if k = plainKey c then Some (up_value payload) else jget before k))"
proof -
  let ?f = "valueField isXml c" and ?w = "up_value payload"
  note ok = specReached_ok [OF assms(1)]
  have isp: "isParameter c" using wellNamedD(1) [OF assms(3,4)] .
  have f: "okField ?f ?w" "(if up_isXml payload then ''value_xml'' else ''value'') = ?f"
    using assms(7) by (auto simp: okField_def valueField_def)
  obtain s' where s': "setIn (metaPath [p, m] [''parameters'', hashKey hashText c, ?f]) ?w s = Inr s'" "specOk s'"
    "specJsonWithResolvedSubtrees s' = specJsonWithResolvedSubtrees s"
    and entry: "\<And>j g. entryField (metaEntries s' p m) j g
      = (if j = hashKey hashText c \<and> g = ?f then Some ?w else entryField (metaEntries s p m) j g)"
    using field_written [OF ok f(1)] by metis
  have "treeTruthy c" using isp by (auto simp: isParameter_def)
  then have step: "reduceSpec env hashText (UpdateParam payload) s = Inr s'"
    using s'(1) f(2) paramToIdentifier_hash [OF isp] by (simp add: reduceSpec_def updateParam_def assms(5,6))
  obtain ws where ws: "parameterValues env hashText s [p, m] isXml = Inr ws"
    "\<And>d. d \<in> set ps \<Longrightarrow> jget ws (plainKey d) = Some (stored hashText (metaEntries s p m) d (valueField isXml d))"
    "\<And>k. k \<notin> plainKey ` set ps \<Longrightarrow> jget ws k = None"
    using parameterValues_get [OF ok assms(2,3)] by metis
  have "described s' p m ps" using assms(2) by (simp add: described_def s'(3))
  then obtain vs where vs: "parameterValues env hashText s' [p, m] isXml = Inr vs"
    "\<And>d. d \<in> set ps \<Longrightarrow> jget vs (plainKey d) = Some (stored hashText (metaEntries s' p m) d (valueField isXml d))"
    "\<And>k. k \<notin> plainKey ` set ps \<Longrightarrow> jget vs k = None"
    using parameterValues_get [OF s'(2) _ assms(3)] by metis
  have "jget vs k = (if k = plainKey c then Some ?w else jget ws k)" for k
  proof (cases "k \<in> plainKey ` set ps")
    case True
    then obtain d where d: "k = plainKey d" "d \<in> set ps" by blast
    show ?thesis
    proof (cases "d = c")
      case True
      then show ?thesis using d vs(2) by (simp add: stored_def entry)
    next
      case False
      have "hashKey hashText d \<noteq> hashKey hashText c" "plainKey d \<noteq> hashKey hashText c" "plainKey d \<noteq> plainKey c"
        using wellNamedD(2,3) [OF assms(3) d(2) assms(4) False] wellNamedD(4) [OF assms(3,4) d(2)] by auto
      then have "entryField (metaEntries s' p m) (hashKey hashText d) g = entryField (metaEntries s p m) (hashKey hashText d) g"
        "entryField (metaEntries s' p m) (plainKey d) g = entryField (metaEntries s p m) (plainKey d) g" for g
        by (simp_all add: entry)
      then have "stored hashText (metaEntries s' p m) d g = stored hashText (metaEntries s p m) d g" for g by (rule stored_eq)
      then show ?thesis using False d vs(2) ws(2) wellNamedD(2) [OF assms(3) d(2) assms(4)] by simp
    qed
  next
    case False
    then show ?thesis using vs(3) ws(3) assms(4) by auto
  qed
  then show ?thesis using step ws(1) vs(1) by blast
qed

lemma exPage_described: "described (exPage es) ''/a'' ''get'' [exParam]" "wellNamed exHash [exParam]"
proof -
  have "getIn (specJsonWithResolvedSubtrees (exPage es)) [''paths'', ''/a'', ''get'', ''parameters''] = Some (IList [exParam])"
    by (simp add: specJsonWithResolvedSubtrees_def exPage_def getInOr_def childAt_def mapFields_def jget_def jput_def)
  then show "described (exPage es) ''/a'' ''get'' [exParam]" by (simp add: described_def)
  show "wellNamed exHash [exParam]"
    by (simp add: wellNamed_def isParameter_def exParam_def exHash_def plainKey_def hashKey_def bareName_def mapFields_def jmap_ok_def)
qed

theorem entered_value_read_witness:
  "\<exists>s' before after. reduceSpec plainEnv exHash (UpdateParam (exEnter ''8'')) (exPage [IMap [(''value'', TStr ''7'')]]) = Inr s' \<and>
    parameterValues plainEnv exHash (exPage [IMap [(''value'', TStr ''7'')]]) [''/a'', ''get''] False = Inr before \<and>
    parameterValues plainEnv exHash s' [''/a'', ''get''] False = Inr after \<and>
    (\<forall>k. jget after k = (if k = ''query.n'' then Some (TStr ''8'') else jget before k))"
proof -
  have names: "plainKey exParam = ''query.n''" "up_value (exEnter ''8'') = TStr ''8''"
    by (simp_all add: plainKey_def exParam_def mapFields_def exEnter_def)
  have "up_path (exEnter ''8'') = [''/a'', ''get'']" "up_param (exEnter ''8'') = exParam"
    "up_isXml (exEnter ''8'') = (valueField False exParam = ''value_xml'')"
    by (simp_all add: exEnter_def valueField_def)
  then show ?thesis
    by (rule entered_value_read [OF exPage_entered(1) exPage_described, of exParam "exEnter ''8''" False, unfolded names, rotated]) simp
qed

section \<open>When a request may be sent\<close>

definition complains :: "(string \<times> jstree) list \<Rightarrow> string \<Rightarrow> bool" where
  "complains es k \<longleftrightarrow> (\<exists>e rest. entryField es k ''errors'' = Some (IList (e # rest)))"

lemma validFold:
  "(\<And>v. v \<in> set vs \<Longrightarrow> entryOk v) \<Longrightarrow>
    foldJ (\<lambda>isValid p. bindJ (imGet p ''errors'') (\<lambda>errors.
        if treeTruthy errors then bindJ (elements errors) (\<lambda>es. Inr (if es \<noteq> [] then False else isValid)) else Inr isValid)) b vs
    = Inr (b \<and> (\<forall>v\<in>set vs. \<nexists>e rest. getIn v [''errors''] = Some (IList (e # rest))))"
proof (induction vs arbitrary: b)
  case (Cons v vs)
  obtain e where e: "v = IMap e" "\<And>w. jget e ''errors'' = Some w \<Longrightarrow> \<exists>es. w = IList es"
    using Cons.prems [of v] by (auto simp: entryOk_def okField_def)
  have step: "bindJ (imGet v ''errors'') (\<lambda>errors.
      if treeTruthy errors then bindJ (elements errors) (\<lambda>es. Inr (if es \<noteq> [] then False else c)) else Inr c)
    = Inr (c \<and> (\<nexists>e rest. getIn v [''errors''] = Some (IList (e # rest))))" for c
  proof (cases "jget e ''errors''")
    case None
    then show ?thesis by (simp add: e(1) imGet_def fieldOf_def childAt_def)
  next
    case (Some w)
    then obtain es where "w = IList es" using e(2) by blast
    then show ?thesis using Some by (cases es) (simp_all add: e(1) imGet_def fieldOf_def childAt_def elements_def)
  qed
  show ?case using Cons.IH [OF Cons.prems, of "b \<and> (\<nexists>e rest. getIn v [''errors''] = Some (IList (e # rest)))"]
    by (simp only: foldJ.simps step bindJ.simps) auto
qed simp

lemma validateBeforeExecute_iff:
  assumes "specOk s"
  shows "validateBeforeExecute s [p, m] = Inr (\<forall>k. \<not> complains (metaEntries s p m) k)"
proof -
  let ?es = "metaEntries s p m"
  note es = metaEntries_ok [OF assms, of p m]
  have "elements (getInOr (IList []) s (metaPath [p, m] [''parameters''])) = Inr (map snd ?es)"
    unfolding getInOr_def
    by (rule metaEntries_cases [OF assms, of p m]) (simp_all add: elements_def del: metaPath_simps)
  moreover have vals: "v \<in> set (map snd ?es) \<longleftrightarrow> (\<exists>k. jget ?es k = Some v)" for v
    using es(1) by (force simp: entriesOk_def jmap_ok_def jget_def)
  moreover have "entryOk v" if "v \<in> set (map snd ?es)" for v using that es(1) vals by (auto simp: entriesOk_def)
  ultimately have "validateBeforeExecute s [p, m]
      = Inr (\<forall>v\<in>set (map snd ?es). \<nexists>e rest. getIn v [''errors''] = Some (IList (e # rest)))"
    using validFold [of "map snd ?es" True] unfolding validateBeforeExecute_def by simp
  moreover have "(\<forall>v\<in>set (map snd ?es). \<nexists>e rest. getIn v [''errors''] = Some (IList (e # rest)))
      \<longleftrightarrow> (\<forall>k. \<not> complains ?es k)"
    unfolding Ball_def vals complains_def entryField_def by (auto simp: bind_eq_Some_conv simp del: getIn.simps)
  ultimately show ?thesis by simp
qed

text \<open>What \<open>VALIDATE_PARAMS\<close> says of a parameter, from its stored value.\<close>

definition complaintsOf :: "PageEnv \<Rightarrow> (jstree \<Rightarrow> string) \<Rightarrow> jstree \<Rightarrow> string \<Rightarrow> string \<Rightarrow> bool \<Rightarrow> jstree \<Rightarrow> JsFailure + jstree list" where
  "complaintsOf env hashText s p m isOAS3 c =
    validateParam env (mapFields c) (toJS (stored hashText (metaEntries s p m) c ''value'')) isOAS3
      (treeTruthy (getInOr (TBool False) s (metaPath [p, m] [''parameter_inclusions'', plainKey c])))"

lemma paramErrors_stored:
  assumes "wellNamed hashText ps" "c \<in> set ps"
    and "jget vs (plainKey c) = Some (stored hashText (metaEntries s p m) c ''value'')" "\<And>k. k \<notin> plainKey ` set ps \<Longrightarrow> jget vs k = None"
  shows "paramErrors env hashText s [p, m] isOAS3 (map (\<lambda>(k, v). (k, toJS v)) vs) c = complaintsOf env hashText s p m isOAS3 c"
proof -
  let ?vs = "map (\<lambda>(k, v). (k, toJS v)) vs"
  obtain fs a b where c: "c = IMap fs" "fieldOf fs ''in'' = TStr a" "fieldOf fs ''name'' = TStr b" "a \<noteq> ''''" "b \<noteq> ''''"
    "plainKey c = a @ ''.'' @ b" "bareName c = b" using isParameterE wellNamedD(1) [OF assms(1,2)] by metis
  have field: "fieldOf ?vs k = (case jget vs k of None \<Rightarrow> TUndef | Some v \<Rightarrow> toJS v)" for k
    by (simp add: fieldOf_def jget_def map_of_map split: option.split)
  have ids: "paramIdentifiers env hashText True c = Inr [TStr (hashKey hashText c), TStr (plainKey c), TStr (bareName c)]"
    using c by (simp add: paramIdentifiers_def hashKey_def dotted_def)
  have "hashKey hashText c \<notin> plainKey ` set ps" "bareName c \<notin> plainKey ` set ps"
    using wellNamedD(4,5) [OF assms(1,2)] by auto
  then have "fieldOf ?vs (hashKey hashText c) = TUndef" "fieldOf ?vs (bareName c) = TUndef"
    "fieldOf ?vs (plainKey c) = toJS (stored hashText (metaEntries s p m) c ''value'')"
    using assms(3,4) by (simp_all add: field)
  then have "paramToValue env hashText c ?vs = Inr (toJS (stored hashText (metaEntries s p m) c ''value''))"
    by (auto simp: paramToValue_def ids)
  then show ?thesis
    using c(6) by (simp add: paramErrors_def complaintsOf_def parameterInclusionSettingFor_def c(1-5) mapFields_def dotted_def)
qed

text \<open>The complaints, once they are all there, are written to places of their own.\<close>

lemma validateInto_all:
  assumes "wellNamed hashText ps" "entriesOk es" "foldJ (validateInto env hashText errorsOf) (IMap es) ps = Inr r"
  obtains complaints where "\<And>c. c \<in> set ps \<Longrightarrow> errorsOf c = Inr (complaints c)"
    and "\<And>c. c \<in> set ps \<Longrightarrow> getIn r [hashKey hashText c, ''errors''] = Some (IList (map fromJS (complaints c)))"
    and "\<And>k. k \<notin> hashKey hashText ` set ps \<Longrightarrow> getIn r [k, ''errors''] = getIn (IMap es) [k, ''errors'']"
proof -
  have "\<forall>c\<in>set xs. \<exists>E. errorsOf c = Inr E" if "foldJ (validateInto env hashText errorsOf) t xs = Inr r" for t xs
    using that by (induction xs arbitrary: t) (auto simp: bindJ_Inr_conv validateInto_def)
  then obtain E where E: "\<And>c. c \<in> set ps \<Longrightarrow> errorsOf c = Inr (E c)" using assms(3) by metis
  let ?path = "\<lambda>c. [hashKey hashText c, ''errors'']" and ?val = "\<lambda>c. fromJS (TArr (E c))"
  have "foldJ (validateInto env hashText errorsOf) (IMap es) ps = foldJ (\<lambda>t c. setIn (?path c) (?val c) t) (IMap es) ps"
    by (rule foldJ_cong) (auto simp: validateInto_def E paramToIdentifier_hash wellNamedD(1) [OF assms(1)])
  moreover have "\<forall>c\<in>set ps. mapsAlong (IMap es) (?path c)"
    using entriesOk_get [OF assms(2)] by (auto split: option.split dest!: entriesOk_get [OF assms(2)])
  moreover have "pairwise (\<lambda>c d. diverge (?path c) (?path d)) (set ps)" "distinct ps"
    using wellNamedD(3) [OF assms(1)] assms(1) by (auto simp: pairwise_def wellNamed_def)
  ultimately have r: "\<forall>c\<in>set ps. getIn r (?path c) = Some (?val c)"
    "\<forall>q. (\<forall>c\<in>set ps. diverge (?path c) q) \<longrightarrow> getIn r q = getIn (IMap es) q"
    using tree.write_all [of ps "IMap es" ?path ?val] assms(3) by auto
  show thesis
  proof (rule that [OF E])
    show "getIn r (?path c) = Some (IList (map fromJS (E c)))" if "c \<in> set ps" for c using r(1) that by simp
    show "getIn r [k, ''errors''] = getIn (IMap es) [k, ''errors'']" if "k \<notin> hashKey hashText ` set ps" for k
    proof -
      have "\<forall>c\<in>set ps. diverge (?path c) [k, ''errors'']" using that by auto
      then show ?thesis using r(2) by blast
    qed
  qed
qed

lemma validated_entries:
  assumes "specOk s" "described s p m ps" "validateParams env hashText [p, m] isOAS3 s = Inr s'" "wellNamed hashText ps"
  obtains complaints where "\<And>c. c \<in> set ps \<Longrightarrow> complaintsOf env hashText s p m isOAS3 c = Inr (complaints c)"
    and "\<And>c. c \<in> set ps \<Longrightarrow> entryField (metaEntries s' p m) (hashKey hashText c) ''errors'' = Some (IList (map fromJS (complaints c)))"
    and "\<And>k. k \<notin> hashKey hashText ` set ps \<Longrightarrow> entryField (metaEntries s' p m) k ''errors'' = entryField (metaEntries s p m) k ''errors''"
proof -
  let ?q = "metaPath [p, m] [''parameters'']" and ?es = "metaEntries s p m"
  obtain vs where vs: "parameterValues env hashText s [p, m] False = Inr vs"
    "\<And>c. c \<in> set ps \<Longrightarrow> jget vs (plainKey c) = Some (stored hashText ?es c (valueField False c))"
    "\<And>k. k \<notin> plainKey ` set ps \<Longrightarrow> jget vs k = None"
    using parameterValues_get [OF assms(1,2,4)] by metis
  let ?E = "paramErrors env hashText s [p, m] isOAS3 (map (\<lambda>(k, v). (k, toJS v)) vs)"
  have E: "?E c = complaintsOf env hashText s p m isOAS3 c" if "c \<in> set ps" for c
    by (rule paramErrors_stored [OF assms(4) that _ vs(3)]) (use vs(2) [OF that] in \<open>simp_all add: valueField_def\<close>)
  obtain op where op: "getInOr TUndef (specJsonWithResolvedSubtrees s) [''paths'', p, m] = IMap op"
    "getInOr (IList []) (IMap op) [''parameters''] = IList ps" using described_op [OF assms(2)] by blast
  have meta: "validatedMeta env hashText ?E (IMap op) r = bindJ (foldJ (validateInto env hashText ?E) (case r of None \<Rightarrow> emptyMap | Some m \<Rightarrow> m) ps)
      (\<lambda>m. Inr (if r = None \<and> m = emptyMap then None else Some m))" for r
    using op(2) by (simp add: validatedMeta_def imGetOr_def hasSet_def elements_def)
  have up: "updateTree ?q (validatedMeta env hashText ?E (IMap op)) s = Inr s'"
    using assms(3) vs(1) op(1) by (simp add: validateParams_def Let_def del: metaPath_simps)
  have free: "mapsAlong s ?q" using specOk_path(1) [OF assms(1)] by (simp del: mapsAlong.simps)
  have start: "(case getIn s ?q of None \<Rightarrow> emptyMap | Some m \<Rightarrow> m) = IMap ?es"
    by (rule metaEntries_cases [OF assms(1), of p m]) (simp_all del: metaPath_simps)
  obtain r where r: "validatedMeta env hashText ?E (IMap op) (getIn s ?q) = Inr r"
    using updateTree_fails [OF free, of "validatedMeta env hashText ?E (IMap op)"] up
    by (cases "validatedMeta env hashText ?E (IMap op) (getIn s ?q)") auto
  then obtain t where t: "foldJ (validateInto env hashText ?E) (IMap ?es) ps = Inr t"
    "r = (if getIn s ?q = None \<and> t = emptyMap then None else Some t)"
    unfolding meta start by (auto simp: bindJ_Inr_conv simp del: metaPath_simps)
  have "getIn s' ?q = r"
    using updateTree_set [OF free, of "validatedMeta env hashText ?E (IMap op)"]
      updateTree_unset [OF free, of "validatedMeta env hashText ?E (IMap op)"] r up by (cases r) auto
  moreover have "\<exists>ts. t = IMap ts" using validateInto_fold [OF metaEntries_ok(1) [OF assms(1)] t(1)] by blast
  ultimately have after: "entryField (metaEntries s' p m) k f = getIn t [k, f]" for k f
    using t(2) by (auto simp: metaEntries_def getInOr_def mapFields_def entryField_def childAt_def jget_def
        split: if_splits option.split simp del: metaPath_simps)
  have before: "entryField ?es k f = getIn (IMap ?es) [k, f]" for k f
    by (simp add: entryField_def childAt_def split: option.split)
  obtain complaints where "\<And>c. c \<in> set ps \<Longrightarrow> ?E c = Inr (complaints c)"
    "\<And>c. c \<in> set ps \<Longrightarrow> getIn t [hashKey hashText c, ''errors''] = Some (IList (map fromJS (complaints c)))"
    "\<And>k. k \<notin> hashKey hashText ` set ps \<Longrightarrow> getIn t [k, ''errors''] = getIn (IMap ?es) [k, ''errors'']"
    using validateInto_all [OF assms(4) metaEntries_ok(1) [OF assms(1)] t(1)] by metis
  then show thesis by (intro that [of complaints]) (simp_all add: E after before del: getIn.simps)
qed

text \<open>C12: once the parameters of an operation are validated, the page lets it be executed exactly when the
  value stored for each raises no complaint, and no complaint is left from another description.
\<close>

theorem execute_iff:
  assumes "specReached env hashText s" "described s p m ps" "wellNamed hashText ps"
    and "reduceSpec env hashText (ValidateParams [p, m] isOAS3) s = Inr s'"
  shows "validateBeforeExecute s' [p, m] = Inr
    ((\<forall>c\<in>set ps. complaintsOf env hashText s p m isOAS3 c = Inr []) \<and>
     (\<forall>k. k \<notin> hashKey hashText ` set ps \<longrightarrow> \<not> complains (metaEntries s p m) k))"
proof -
  have step: "validateParams env hashText [p, m] isOAS3 s = Inr s'" using assms(4) by (simp add: reduceSpec_def)
  note ok = specReached_ok [OF assms(1)]
  obtain complaints where *: "\<And>c. c \<in> set ps \<Longrightarrow> complaintsOf env hashText s p m isOAS3 c = Inr (complaints c)"
    "\<And>c. c \<in> set ps \<Longrightarrow> entryField (metaEntries s' p m) (hashKey hashText c) ''errors'' = Some (IList (map fromJS (complaints c)))"
    "\<And>k. k \<notin> hashKey hashText ` set ps \<Longrightarrow> entryField (metaEntries s' p m) k ''errors'' = entryField (metaEntries s p m) k ''errors''"
    using validated_entries [OF ok assms(2) step assms(3)] by metis
  have "complains (metaEntries s' p m) (hashKey hashText c) \<longleftrightarrow> complaintsOf env hashText s p m isOAS3 c \<noteq> Inr []"
    if "c \<in> set ps" for c
    using *(1,2) [OF that] by (cases "complaints c") (auto simp: complains_def)
  moreover have "complains (metaEntries s' p m) k \<longleftrightarrow> complains (metaEntries s p m) k" if "k \<notin> hashKey hashText ` set ps" for k
    using *(3) [OF that] by (simp add: complains_def)
  ultimately show ?thesis
    unfolding validateBeforeExecute_iff [OF specOk_validateParams [OF ok step]] by (intro arg_cong [of _ _ Inr]) (metis imageE)
qed

theorem execute_iff_witness:
  "validateBeforeExecute (exPage [IMap [(''value'', TStr ''7''), (''errors'', IList [])]]) [''/a'', ''get''] = Inr True \<and>
   complaintsOf plainEnv exHash (exPage [IMap [(''value'', TStr ''7'')]]) ''/a'' ''get'' False exParam = Inr [] \<and>
   complaintsOf plainEnv exHash (exPage [IMap [(''value'', TStr ''x'')]]) ''/a'' ''get'' False exParam \<noteq> Inr []"
proof -
  have checks: "complaintsOf plainEnv exHash (exPage [IMap [(''value'', TStr ''7'')]]) ''/a'' ''get'' False exParam = Inr []"
    "complaintsOf plainEnv exHash (exPage [IMap [(''value'', TStr ''x'')]]) ''/a'' ''get'' False exParam
      = Inr [TStr ''Value must be an integer'']" by code_simp+
  have "\<not> complains (metaEntries (exPage [IMap [(''value'', TStr ''7'')]]) ''/a'' ''get'') k" for k
    by (simp add: complains_def metaEntries_def exPage_def getInOr_def childAt_def mapFields_def entryField_def jget_def)
  then show ?thesis
    using checks execute_iff [OF exPage_entered(1) exPage_described exPage_validated(1)] by simp
qed

text \<open>
  The values that are validated were made plain before: what was a list is an array then, which the
  check of the elements, made for lists, passes over.
\<close>

lemma toJS_no_list: "toJS v \<noteq> IList vs"
  by (cases v) simp_all

lemma stored_elements_unchecked:
  assumes "fieldOf ds ''type'' = TStr ''array''"
  shows "typeErrors env ds (toJS v) = Inr []"
  using assms toJS_no_list [of v] by (cases "toJS v") (auto simp: typeErrors_def Let_def)

end
