(* ===== verification/UiUri.thy ===== *)
theory UiUri
  imports JsTree SimUtils
begin

text \<open>
  The coding of URI components of the language, which the links of the pages are made of, and the
  contract that their round trips rest on.
\<close>

section \<open>The contract\<close>

text \<open>
  What is encoded is decoded again, also in front of another text, and holds none of the characters
  that delimit components. A text that holds no percent sign is its own decoding.
\<close>

locale component_codec =
  fixes encode :: "string \<Rightarrow> string"
    and decode :: "string \<Rightarrow> JsFailure + string"
    and delimiter :: "char \<Rightarrow> bool"
  assumes decode_plain: "CHR ''%'' \<notin> set p \<Longrightarrow> decode (p @ t) = bindJ (decode t) (\<lambda>u. Inr (p @ u))"
    and decode_encoded: "decode (encode s @ t) = bindJ (decode t) (\<lambda>u. Inr (s @ u))"
    and decode_empty: "decode [] = Inr []"
    and encoded_free: "delimiter c \<Longrightarrow> c \<notin> set (encode s)"
begin

lemma decode_encode [simp]: "decode (encode s) = Inr s"
  using decode_encoded [of s "[]"] decode_empty by simp

text \<open>Encoded parts, each after a plain text.\<close>

lemma decode_parts:
  "list_all (\<lambda>(p, s). CHR ''%'' \<notin> set p) parts \<Longrightarrow>
    decode (concat (map (\<lambda>(p, s). p @ encode s) parts)) = Inr (concat (map (\<lambda>(p, s). p @ s) parts))"
proof (induction parts)
  case (Cons x parts)
  then show ?case by (cases x) (simp add: decode_plain decode_encoded)
qed (simp add: decode_empty)

end

section \<open>The coding of the language\<close>

definition uriMark :: "char \<Rightarrow> bool" where
  "uriMark c \<longleftrightarrow>
    (let n = (of_char c :: nat) in 97 \<le> n \<and> n \<le> 122 \<or> 65 \<le> n \<and> n \<le> 90 \<or> 48 \<le> n \<and> n \<le> 57) \<or> c \<in> set ''-_.!~*()'' \<or> c = CHR 0x27"

text \<open>The octets of UTF-8 of a character below 256.\<close>

definition utf8 :: "char \<Rightarrow> nat list" where
  "utf8 c = (let n = of_char c in if n < 128 then [n] else [192 + n div 64, 128 + n mod 64])"

definition percentOf :: "nat \<Rightarrow> string" where
  "percentOf n = [CHR ''%'', hexChar (n div 16), hexChar (n mod 16)]"

definition encodeURIComponent :: "string \<Rightarrow> string" where
  "encodeURIComponent s = concat (map (\<lambda>c. if uriMark c then [c] else concat (map percentOf (utf8 c))) s)"

definition hexPair :: "char \<Rightarrow> char \<Rightarrow> nat option" where
  "hexPair a b = (case (hexVal a, hexVal b) of (Some x, Some y) \<Rightarrow> Some (nat (16 * x + y)) | _ \<Rightarrow> None)"

abbreviation malformed :: "JsFailure + 'a" where
  "malformed \<equiv> Inl (PlainError ''URI malformed'')"

text \<open>
  What is no UTF-8 throws; so does, in this model, a sequence that stands for a character that is
  none of the model's 256.
\<close>

fun decodeURIComponent :: "string \<Rightarrow> JsFailure + string" where
  "decodeURIComponent [] = Inr []"
| "decodeURIComponent (p # s) =
    (if p \<noteq> CHR ''%'' then bindJ (decodeURIComponent s) (\<lambda>t. Inr (p # t))
     else (case s of
         a # b # r \<Rightarrow>
           (case hexPair a b of
              None \<Rightarrow> malformed
            | Some n \<Rightarrow>
                if n < 128 then bindJ (decodeURIComponent r) (\<lambda>t. Inr (char_of n # t))
                else if n = 194 \<or> n = 195 then
                  (case r of
                     q # c # d # r' \<Rightarrow>
                       (case (if q = CHR ''%'' then hexPair c d else None) of
                          None \<Rightarrow> malformed
                        | Some k \<Rightarrow>
                            if 128 \<le> k \<and> k < 192
                            then bindJ (decodeURIComponent r') (\<lambda>t. Inr (char_of ((n - 192) * 64 + (k - 128)) # t))
                            else malformed)
                   | _ \<Rightarrow> malformed)
                else malformed)
       | _ \<Rightarrow> malformed))"

lemma hexPair_hexChar: "n < 256 \<Longrightarrow> hexPair (hexChar (n div 16)) (hexChar (n mod 16)) = Some n"
  using hexVal_hexChar [of "n div 16"] hexVal_hexChar [of "n mod 16"]
  by (simp add: hexPair_def nat_add_distrib nat_mult_distrib less_mult_imp_div_less)

lemma char_code: "(of_char c :: nat) < 256"
  using of_char_mod_256 [of c, where 'a = nat] by (metis mod_less_divisor zero_less_numeral)

lemma percent_no_mark: "\<not> uriMark CHR ''%''"
  by (simp add: uriMark_def)

lemma decode_char:
  "decodeURIComponent ((if uriMark c then [c] else concat (map percentOf (utf8 c))) @ t)
    = bindJ (decodeURIComponent t) (\<lambda>u. Inr (c # u))"
proof (cases "uriMark c")
  case True
  then show ?thesis using percent_no_mark by auto
next
  case False
  define n where "n = (of_char c :: nat)"
  have n: "n < 256" "char_of n = c" by (simp_all add: n_def char_code)
  show ?thesis
  proof (cases "n < 128")
    case True
    then show ?thesis using False n by (simp add: utf8_def n_def [symmetric] percentOf_def hexPair_hexChar)
  next
    case large: False
    define hi lo where "hi = 192 + n div 64" and "lo = 128 + n mod 64"
    have q: "hi = 194 \<or> hi = 195" "hi < 256" "lo < 256" "128 \<le> lo" "lo < 192" "(hi - 192) * 64 + (lo - 128) = n"
    proof -
      define d m where "d = n div 64" and "m = n mod 64"
      then have dm: "n div 64 = d" "n mod 64 = m" "n = 64 * d + m" "m < 64" by auto
      then have "d = 2 \<or> d = 3" using large n(1) by linarith
      then show "hi = 194 \<or> hi = 195" "hi < 256" "lo < 256" "128 \<le> lo" "lo < 192" "(hi - 192) * 64 + (lo - 128) = n"
        unfolding hi_def lo_def dm(1,2) using dm(3,4) by auto
    qed
    have "utf8 c = [hi, lo]" using large by (simp add: utf8_def n_def [symmetric] hi_def lo_def)
    then have shape: "(if uriMark c then [c] else concat (map percentOf (utf8 c))) @ t
        = CHR ''%'' # hexChar (hi div 16) # hexChar (hi mod 16) # CHR ''%'' # hexChar (lo div 16) # hexChar (lo mod 16) # t"
      using False by (simp add: percentOf_def)
    have "\<not> hi < 128" using q(1) by auto
    then show ?thesis unfolding shape using q(1,4-6) n(2) by (simp add: hexPair_hexChar q(2,3))
  qed
qed

lemma decode_append: "decodeURIComponent (encodeURIComponent s @ t) = bindJ (decodeURIComponent t) (\<lambda>u. Inr (s @ u))"
proof (induction s)
  case Nil
  show ?case by (cases "decodeURIComponent t") (auto simp: encodeURIComponent_def)
next
  case (Cons c s)
  have "decodeURIComponent (encodeURIComponent (c # s) @ t)
      = bindJ (decodeURIComponent (encodeURIComponent s @ t)) (\<lambda>u. Inr (c # u))"
    using decode_char [of c "encodeURIComponent s @ t"] by (simp add: encodeURIComponent_def)
  then show ?case using Cons by (cases "decodeURIComponent t") auto
qed

lemma hexChar_uriMark: "n < 16 \<Longrightarrow> uriMark (hexChar n)"
  by (auto simp: uriMark_def hexChar_def Let_def of_char_of)

lemma utf8_small: "k \<in> set (utf8 c) \<Longrightarrow> k < 256"
proof -
  assume k: "k \<in> set (utf8 c)"
  define n where "n = (of_char c :: nat)"
  have "n < 256" using char_code [of c] by (simp add: n_def)
  then have "n div 64 < 4" "n mod 64 < 64" by (simp_all add: less_mult_imp_div_less)
  then show ?thesis using k by (auto simp: utf8_def n_def [symmetric] split: if_splits)
qed

lemma encoded_chars: "c \<in> set (encodeURIComponent s) \<Longrightarrow> uriMark c \<or> c = CHR ''%''"
  using utf8_small by (auto simp: encodeURIComponent_def percentOf_def hexChar_uriMark less_mult_imp_div_less
      split: if_splits dest!: utf8_small)

definition uriDelimiter :: "char \<Rightarrow> bool" where
  "uriDelimiter c \<longleftrightarrow> \<not> uriMark c \<and> c \<noteq> CHR ''%''"

interpretation uri: component_codec encodeURIComponent decodeURIComponent uriDelimiter
proof
  show "decodeURIComponent (p @ t) = bindJ (decodeURIComponent t) (\<lambda>u. Inr (p @ u))" if "CHR ''%'' \<notin> set p" for p t
    using that by (induction p) (cases "decodeURIComponent t"; auto)+
qed (use decode_append encoded_chars in \<open>auto simp: uriDelimiter_def\<close>)

end
