(* ===== verification/UiLinks.thy ===== *)
theory UiLinks
  imports UiUri UiSchema UiValidate UiStore
begin

text \<open>
  The links of the pages, from \<open>swagger-ui.js\<close>: the parameters of the address, form data, and the
  deep links, which the address keeps of the operation that is shown. With them, the state of the
  layout: its reducers and selectors.
\<close>

section \<open>Address and form parameters\<close>

text \<open>\<open>parseSearch\<close>; the argument is \<open>location.search\<close>.\<close>

definition searchPair :: "string \<Rightarrow> JsFailure + string \<times> string" where
  "searchPair part =
    (let i = pieces CHR ''='' part in
     bindJ (decodeURIComponent (hd i)) (\<lambda>name.
     bindJ (if 1 < length i \<and> i ! 1 \<noteq> [] then decodeURIComponent (i ! 1) else Inr []) (\<lambda>val.
       Inr (name, val))))"

definition parseSearch :: "string \<Rightarrow> JsFailure + (string, string) jmap" where
  "parseSearch search =
    (if search = [] then Inr []
     else foldJ (\<lambda>mp part. bindJ (searchPair part) (\<lambda>(k, v). Inr (jput k v mp))) [] (pieces CHR ''&'' (drop 1 search)))"

definition serializeSearch :: "(string, string) jmap \<Rightarrow> string" where
  "serializeSearch searchMap =
    joinWith ''&'' (map (\<lambda>(k, v). encodeURIComponent k @ ''='' @ encodeURIComponent v) searchMap)"

text \<open>\<open>s.replace(/%20/g, "+")\<close>\<close>

fun replaceAll :: "string \<Rightarrow> string \<Rightarrow> string \<Rightarrow> string" where
  "replaceAll old new [] = []"
| "replaceAll old new (c # s) =
    (if old \<noteq> [] \<and> startsWith (c # s) old then new @ replaceAll old new (drop (length old - 1) s)
     else c # replaceAll old new s)"

text \<open>\<open>buildFormData\<close>: the values are encoded, the names are not.\<close>

definition buildFormData :: "PageEnv \<Rightarrow> (string \<times> jstree) list \<Rightarrow> string" where
  "buildFormData env data =
    joinWith ''&'' (map (\<lambda>(name, val). name @ ''='' @ replaceAll ''%20'' ''+'' (encodeURIComponent (textOf env val)))
      (filter (\<lambda>(name, val). val \<noteq> TUndef \<and> val \<noteq> TStr '''') data))"

section \<open>The layout\<close>

text \<open>What is shown is a map whose keys are lists, the rest a map with texts as keys.\<close>

record LayoutState =
  ly_fields :: jstree
  ly_shown :: "(jstree \<times> jstree) list option"

datatype LayoutAction =
    UpdateLayout jstree
  | UpdateFilter jstree
  | ShowThing "jstree list" jstree
  | UpdateMode "string list" jstree
  | ScrollTo "jstree list"
  | ClearScrollTo

definition setField :: "string \<Rightarrow> jstree \<Rightarrow> LayoutState \<Rightarrow> JsFailure + LayoutState" where
  "setField k v state = bindJ (setIn [k] v (ly_fields state)) (\<lambda>fs. Inr (state\<lparr>ly_fields := fs\<rparr>))"

text \<open>The action creators: \<open>show\<close> and \<open>changeMode\<close> with their defaults, \<open>scrollTo\<close>.\<close>

definition showLayout :: "jstree \<Rightarrow> jstree \<Rightarrow> LayoutAction" where
  "showLayout thing shown = ShowThing (normalizeArray thing) (if shown = TUndef then TBool True else shown)"

definition changeMode :: "PageEnv \<Rightarrow> jstree \<Rightarrow> jstree \<Rightarrow> LayoutAction" where
  "changeMode env thing mode =
    UpdateMode (map (textOf env) (normalizeArray thing)) (if mode = TUndef then TStr '''' else mode)"

definition scrollTo :: "jstree \<Rightarrow> LayoutAction" where
  "scrollTo path = ScrollTo (normalizeArray path)"

text \<open>The reducers of the layout and of the deep links; \<open>(mode || "") + ""\<close> is a text.\<close>

definition reduceLayout :: "PageEnv \<Rightarrow> LayoutAction \<Rightarrow> LayoutState \<Rightarrow> JsFailure + LayoutState" where
  "reduceLayout env action state = (case action of
     UpdateLayout v \<Rightarrow> setField ''layout'' v state
   | UpdateFilter v \<Rightarrow> setField ''filter'' v state
   | ShowThing thing isShown \<Rightarrow>
       Inr (state\<lparr>ly_shown := Some (jput (fromJS (TArr thing)) isShown (case ly_shown state of None \<Rightarrow> [] | Some a \<Rightarrow> a))\<rparr>)
   | UpdateMode thing mode \<Rightarrow>
       bindJ (setIn (''modes'' # thing) (TStr (if treeTruthy mode then textOf env mode else '''')) (ly_fields state))
         (\<lambda>fs. Inr (state\<lparr>ly_fields := fs\<rparr>))
   | ScrollTo path \<Rightarrow> setField ''scrollToKey'' (fromJS (TArr path)) state
   | ClearScrollTo \<Rightarrow> bindJ (deleteIn [''scrollToKey''] (ly_fields state)) (\<lambda>fs. Inr (state\<lparr>ly_fields := fs\<rparr>)))"

definition layoutField :: "LayoutState \<Rightarrow> string \<Rightarrow> jstree" where
  "layoutField state k = getInOr TUndef (ly_fields state) [k]"

definition currentLayout :: "LayoutState \<Rightarrow> jstree" where
  "currentLayout state = layoutField state ''layout''"

definition currentFilter :: "LayoutState \<Rightarrow> jstree" where
  "currentFilter state = layoutField state ''filter''"

definition getScrollToKey :: "LayoutState \<Rightarrow> jstree" where
  "getScrollToKey state = layoutField state ''scrollToKey''"

definition isShown :: "LayoutState \<Rightarrow> jstree \<Rightarrow> jstree \<Rightarrow> jstree" where
  "isShown state thing def =
    (case ly_shown state of
       None \<Rightarrow> def
     | Some a \<Rightarrow> (case jget a (fromJS (TArr (normalizeArray thing))) of None \<Rightarrow> def | Some v \<Rightarrow> v))"

definition whatMode :: "PageEnv \<Rightarrow> LayoutState \<Rightarrow> jstree \<Rightarrow> jstree \<Rightarrow> jstree" where
  "whatMode env state thing def =
    getInOr (if def = TUndef then TStr '''' else def) (ly_fields state) (''modes'' # map (textOf env) (normalizeArray thing))"

definition showSummary :: "LayoutState \<Rightarrow> bool" where
  "showSummary state = (\<not> treeTruthy (isShown state (TStr ''editor'') TUndef))"

section \<open>Deep links\<close>

text \<open>\<open>createDeepLinkPath\<close>: trims, and encodes what white space is left.\<close>

definition createDeepLinkPath :: "jstree \<Rightarrow> string" where
  "createDeepLinkPath str = (case str of
     TStr s \<Rightarrow> concat (map (\<lambda>c. if isJsSpace c then ''%20'' else [c]) (jsTrim s))
   | _ \<Rightarrow> '''')"

text \<open>\<open>escapeDeepLinkPath\<close>; \<open>cssEscape\<close> is a library.\<close>

definition escapeDeepLinkPath :: "(string \<Rightarrow> string) \<Rightarrow> jstree \<Rightarrow> string" where
  "escapeDeepLinkPath cssEscape str = cssEscape (replaceAll ''%20'' ''_'' (createDeepLinkPath str))"

text \<open>An element of an array, \<open>undefined\<close> beyond its end.\<close>

definition nthOr :: "jstree list \<Rightarrow> nat \<Rightarrow> jstree" where
  "nthOr vs i = (if i < length vs then vs ! i else TUndef)"

definition isShownKeyFromUrlHashArray :: "jstree list \<Rightarrow> jstree list" where
  "isShownKeyFromUrlHashArray urlHashArray =
    (let tag = nthOr urlHashArray 0; operationId = nthOr urlHashArray 1 in
     if treeTruthy operationId then [TStr ''operations'', tag, operationId]
     else if treeTruthy tag then [TStr ''operations-tag'', tag] else [])"

definition urlHashArrayFromIsShownKey :: "jstree list \<Rightarrow> jstree list" where
  "urlHashArrayFromIsShownKey key =
    (let type = nthOr key 0; tag = nthOr key 1; operationId = nthOr key 2 in
     if type = TStr ''operations'' then [tag, operationId]
     else if type = TStr ''operations-tag'' then [tag] else [])"

text \<open>The page: its layout, the hash of its address and whether deep links are switched on.\<close>

record LinkedPage =
  pg_layout :: LayoutState
  pg_hash :: string
  pg_deepLinking :: bool

text \<open>\<open>setHash\<close>: the address shows the hash behind its sign, or nothing.\<close>

definition setHash :: "string \<Rightarrow> LinkedPage \<Rightarrow> LinkedPage" where
  "setHash val page = page\<lparr>pg_hash := (if val = [] then [] else CHR 0x23 # val)\<rparr>"

definition runLayout :: "PageEnv \<Rightarrow> LayoutAction \<Rightarrow> LinkedPage \<Rightarrow> LinkedPage" where
  "runLayout env action page = page\<lparr>pg_layout := reduceWith (reduceLayout env) (pg_layout page) action\<rparr>"

text \<open>The wrapped \<open>show\<close>: the original action, then the hash of what is shown.\<close>

definition showPage :: "PageEnv \<Rightarrow> jstree \<Rightarrow> jstree \<Rightarrow> LinkedPage \<Rightarrow> LinkedPage" where
  "showPage env thing shown page =
    (let page = runLayout env (showLayout thing shown) page in
     if \<not> pg_deepLinking page then page
     else
       (let urlHashArray = urlHashArrayFromIsShownKey (normalizeArray thing);
            coded = (\<lambda>v. ''/'' @ encodeURIComponent (textOf env v)) in
        if urlHashArray = [] then page
        else if \<not> treeTruthy shown then setHash ''/'' page
        else setHash (createDeepLinkPath (TStr (concat (map coded urlHashArray)))) page))"

text \<open>\<open>parseDeepLinkHash\<close>: shows what the hash names, once more with blanks for underscores, and scrolls.\<close>

definition withBlanks :: "jstree list \<Rightarrow> jstree list" where
  "withBlanks vs = map (\<lambda>v. case v of TStr s \<Rightarrow> TStr (map (\<lambda>c. if c = CHR ''_'' then CHR '' '' else c) s) | _ \<Rightarrow> v) vs"

definition hashArray :: "string \<Rightarrow> jstree list" where
  "hashArray rawHash =
    (let hash = drop 1 rawHash;
         hash = (if startsWith hash ''!'' then drop 1 hash else hash);
         hash = (if startsWith hash ''/'' then drop 1 hash else hash) in
     map TStr (pieces CHR ''/'' hash))"

definition hasUnderscore :: "jstree \<Rightarrow> bool" where
  "hasUnderscore v = (case v of TStr s \<Rightarrow> CHR ''_'' \<in> set s | _ \<Rightarrow> False)"

definition parseDeepLinkHash :: "PageEnv \<Rightarrow> string \<Rightarrow> LinkedPage \<Rightarrow> LinkedPage" where
  "parseDeepLinkHash env rawHash page =
    (if \<not> pg_deepLinking page \<or> rawHash = [] then page
     else
       (let isShownKey = isShownKeyFromUrlHashArray (hashArray rawHash);
            tagId = nthOr isShownKey 1; maybeOperationId = nthOr isShownKey 2;
            showKey = (\<lambda>key. showPage env (TArr key) (TBool True));
            page = (if nthOr isShownKey 0 = TStr ''operations'' then
                (let tagIsShownKey = isShownKeyFromUrlHashArray [tagId];
                     page = (if hasUnderscore tagId then showKey (withBlanks tagIsShownKey) page else page) in
                 showKey tagIsShownKey page)
              else page);
            page = (if hasUnderscore tagId \<or> hasUnderscore maybeOperationId then showKey (withBlanks isShownKey) page else page)
        in runLayout env (scrollTo (TArr isShownKey)) (showKey isShownKey page)))"

text \<open>When the configuration is loaded, the hash of the address is decoded and followed.\<close>

definition loadedPage :: "PageEnv \<Rightarrow> LinkedPage \<Rightarrow> JsFailure + LinkedPage" where
  "loadedPage env page =
    bindJ (decodeURIComponent (pg_hash page)) (\<lambda>hash. Inr (parseDeepLinkHash env hash page))"

text \<open>\<open>readyToScroll\<close>: whether an element that has appeared is scrolled to, after which the key is cleared.\<close>

definition readyToScroll :: "PageEnv \<Rightarrow> jstree list \<Rightarrow> LinkedPage \<Rightarrow> bool \<times> LinkedPage" where
  "readyToScroll env isShownKey page =
    (if getScrollToKey (pg_layout page) = fromJS (TArr isShownKey) then (True, runLayout env ClearScrollTo page)
     else (False, page))"

end
