(* ===== verification/UiLinksSpec.thy ===== *)
theory UiLinksSpec
  imports UiLinks JsPaths UiValidateSpec
begin

text \<open>
  Links lead back to what they were made of: the parameters of an address are read again, and a
  deep link opens the operation it was made for.
\<close>

section \<open>Address parameters\<close>

lemma pieces_joinWith:
  "ps \<noteq> [] \<Longrightarrow> list_all (\<lambda>p. d \<notin> set p) ps \<Longrightarrow> pieces d (joinWith [d] ps) = ps"
proof (induction ps)
  case (Cons p ps)
  then show ?case by (cases ps) (auto simp: pieces_no_delim pieces_append)
qed simp

lemma encoded_no_delimiter:
  "CHR ''&'' \<notin> set (encodeURIComponent s)" "CHR ''='' \<notin> set (encodeURIComponent s)" "CHR ''/'' \<notin> set (encodeURIComponent s)"
  "isJsSpace c \<Longrightarrow> c \<notin> set (encodeURIComponent s)"
proof -
  have "uriDelimiter CHR ''&''" "uriDelimiter CHR ''=''" "uriDelimiter CHR ''/''"
    by (simp_all add: uriDelimiter_def uriMark_def)
  then show "CHR ''&'' \<notin> set (encodeURIComponent s)" "CHR ''='' \<notin> set (encodeURIComponent s)" "CHR ''/'' \<notin> set (encodeURIComponent s)"
    using uri.encoded_free by blast+
  assume "isJsSpace c"
  then have "uriDelimiter c" by (auto simp: uriDelimiter_def uriMark_def isJsSpace_def Let_def)
  then show "c \<notin> set (encodeURIComponent s)" by (rule uri.encoded_free)
qed

lemma searchPair_encoded: "searchPair (encodeURIComponent k @ ''='' @ encodeURIComponent v) = Inr (k, v)"
proof -
  have "pieces CHR ''='' (encodeURIComponent k @ ''='' @ encodeURIComponent v) = [encodeURIComponent k, encodeURIComponent v]"
    by (simp add: pieces_append pieces_no_delim encoded_no_delimiter)
  moreover have "encodeURIComponent v = [] \<Longrightarrow> v = []" using uri.decode_encode [of v] by simp
  ultimately show ?thesis by (auto simp: searchPair_def)
qed

text \<open>The parameters that are written into an address are read from it, in their order.\<close>

theorem parseSearch_serializeSearch:
  assumes "jmap_ok m" "m \<noteq> []"
  shows "parseSearch (CHR ''?'' # serializeSearch m) = Inr m"
proof -
  let ?part = "\<lambda>(k, v). encodeURIComponent k @ ''='' @ encodeURIComponent v"
  have "list_all (\<lambda>p. CHR ''&'' \<notin> set p) (map ?part m)"
    by (auto simp: list_all_iff encoded_no_delimiter)
  then have parts: "pieces CHR ''&'' (serializeSearch m) = map ?part m"
    using assms(2) by (simp add: serializeSearch_def pieces_joinWith del: append_Cons append_Nil)
  have "foldJ (\<lambda>mp part. bindJ (searchPair part) (\<lambda>(k, v). Inr (jput k v mp))) acc (map ?part m) = Inr (acc @ m)"
    if "jmap_ok (acc @ m)" for acc
    using that
  proof (induction m arbitrary: acc)
    case (Cons x m)
    obtain k v where x: "x = (k, v)" by (cases x)
    have fresh: "k \<notin> fst ` set acc" using Cons.prems x by (auto simp: jmap_ok_def)
    have "jmap_ok ((acc @ [(k, v)]) @ m)" using Cons.prems x by simp
    from Cons.IH [OF this] show ?case using fresh searchPair_encoded [of k v] by (simp add: x jput_fresh)
  qed simp
  then show ?thesis using assms(1) by (simp add: parseSearch_def parts)
qed

theorem parseSearch_serializeSearch_witness:
  "parseSearch (CHR ''?'' # serializeSearch [(''a&b'', ''1=2''), (''c'', '''')]) = Inr [(''a&b'', ''1=2''), (''c'', '''')]"
  by (rule parseSearch_serializeSearch) (simp_all add: jmap_ok_def)

text \<open>The names of form data are not encoded: one that holds a delimiter is read as another field.\<close>

lemma form_name_unencoded: "buildFormData env [(''a&b'', TStr ''1'')] = ''a&b=1''"
  by (simp add: buildFormData_def encodeURIComponent_def uriMark_def startsWith_def)

section \<open>Deep links\<close>

definition deepLink :: "string list \<Rightarrow> string" where
  "deepLink ks = CHR 0x23 # concat (map (\<lambda>k. CHR ''/'' # encodeURIComponent k) ks)"

lemma createDeepLinkPath_id: "s \<noteq> [] \<Longrightarrow> list_all (\<lambda>c. \<not> isJsSpace c) s \<Longrightarrow> createDeepLinkPath (TStr s) = s"
proof -
  assume s: "s \<noteq> []" "list_all (\<lambda>c. \<not> isJsSpace c) s"
  have drop: "dropWhile isJsSpace t = t" if "t \<noteq> []" "set t = set s" for t
    using that s(2) by (cases t) (auto simp: list_all_iff)
  have "jsTrim s = s" using drop [of s] drop [of "rev s"] s(1) by (simp add: jsTrim_def)
  moreover have "concat (map (\<lambda>c. if isJsSpace c then ''%20'' else [c]) s) = s"
    using s(2) by (induction s) auto
  ultimately show ?thesis by (simp add: createDeepLinkPath_def)
qed

lemma createDeepLinkPath_link:
  "ks \<noteq> [] \<Longrightarrow> CHR 0x23 # createDeepLinkPath (TStr (concat (map (\<lambda>k. CHR ''/'' # encodeURIComponent k) ks))) = deepLink ks"
proof -
  assume "ks \<noteq> []"
  then have "concat (map (\<lambda>k. CHR ''/'' # encodeURIComponent k) ks) \<noteq> []" by (cases ks) auto
  moreover have "\<not> isJsSpace CHR ''/''" by (simp add: isJsSpace_def)
  then have "list_all (\<lambda>c. \<not> isJsSpace c) (concat (map (\<lambda>k. CHR ''/'' # encodeURIComponent k) ks))"
    using encoded_no_delimiter(4) by (fastforce simp: list_all_iff)
  ultimately show ?thesis by (simp add: deepLink_def createDeepLinkPath_id)
qed

lemma decode_deepLink: "decodeURIComponent (deepLink ks) = Inr (CHR 0x23 # concat (map (\<lambda>k. CHR ''/'' # k) ks))"
proof -
  have "decodeURIComponent (deepLink ks) = bindJ (decodeURIComponent (concat (map (\<lambda>k. CHR ''/'' # encodeURIComponent k) ks)))
      (\<lambda>u. Inr (CHR 0x23 # u))" by (simp add: deepLink_def)
  moreover have "decodeURIComponent (concat (map (\<lambda>k. CHR ''/'' # encodeURIComponent k) ks)) = Inr (concat (map (\<lambda>k. CHR ''/'' # k) ks))"
    using uri.decode_parts [of "map (\<lambda>k. (''/'', k)) ks"] by (simp add: comp_def list_all_iff)
  ultimately show ?thesis by simp
qed

text \<open>One \<open>show\<close>: the thing is shown, the rest stays, and the hash is its link.\<close>

abbreviation key :: "string list \<Rightarrow> jstree" where
  "key ks \<equiv> TArr (map TStr ks)"

lemma fromJS_key: "fromJS (key ks) = IList (map TStr ks)"
  by (simp add: comp_def)

lemma key_inj: "map TStr ks = map TStr js \<longleftrightarrow> ks = js"
  by (auto intro: map_injective simp: inj_on_def inj_def)

lemma showPage_shown:
  "isShown (pg_layout (showPage env (key ks) (TBool True) p)) (key js) d
    = (if js = ks then TBool True else isShown (pg_layout p) (key js) d)"
  "ly_fields (pg_layout (showPage env (key ks) (TBool True) p)) = ly_fields (pg_layout p)"
  "pg_deepLinking (showPage env (key ks) (TBool True) p) = pg_deepLinking p"
  by (auto simp: showPage_def Let_def setHash_def runLayout_def showLayout_def normalizeArray_def reduceLayout_def isShown_def
      jm.get_put fromJS_key key_inj comp_def inj_eq simp del: fromJS.simps split: option.split)

lemma showPage_hash:
  "pg_deepLinking p \<Longrightarrow> pg_hash (showPage env (key [''operations'', tag, op]) (TBool True) p) = deepLink [tag, op]"
  "pg_deepLinking p \<Longrightarrow> pg_hash (showPage env (key [''operations-tag'', tag]) (TBool True) p) = deepLink [tag]"
  using createDeepLinkPath_link [of "[tag, op]"] createDeepLinkPath_link [of "[tag]"]
  by (auto simp: showPage_def Let_def setHash_def runLayout_def normalizeArray_def urlHashArrayFromIsShownKey_def nthOr_def deepLink_def)

text \<open>What a decoded link names.\<close>

lemma hashArray_link:
  assumes "CHR ''/'' \<notin> set tag" "CHR ''/'' \<notin> set op"
  shows "hashArray (CHR 0x23 # concat (map (\<lambda>k. CHR ''/'' # k) [tag, op])) = [TStr tag, TStr op]"
  using assms by (simp add: hashArray_def Let_def startsWith_def pieces_append pieces_no_delim)

definition blanks :: "string \<Rightarrow> string" where
  "blanks s = map (\<lambda>c. if c = CHR ''_'' then CHR '' '' else c) s"

lemma withBlanks_key: "withBlanks (map TStr ks) = map TStr (map blanks ks)"
  by (simp add: withBlanks_def blanks_def)

lemma blanks_id: "CHR ''_'' \<notin> set s \<Longrightarrow> blanks s = s"
  by (auto simp: blanks_def intro: map_idI)

text \<open>What a link to an operation shows: the operation, its tag, and both with blanks for underscores.\<close>

definition linkedKeys :: "string \<Rightarrow> string \<Rightarrow> string list set" where
  "linkedKeys tag op = {[''operations'', tag, op], [''operations-tag'', tag], [''operations'', blanks tag, blanks op], [''operations-tag'', blanks tag]}"

lemma scrolled:
  assumes "ly_fields (pg_layout p) = IMap fs"
  shows "getScrollToKey (pg_layout (runLayout env (scrollTo (key ks)) p)) = IList (map TStr ks)"
    and "isShown (pg_layout (runLayout env (scrollTo (key ks)) p)) x d = isShown (pg_layout p) x d"
    and "pg_hash (runLayout env (scrollTo (key ks)) p) = pg_hash p"
proof -
  have "mapsAlong (IMap fs) [''scrollToKey'']" by (simp split: option.split)
  then obtain fs' where "setIn [''scrollToKey''] (IList (map TStr ks)) (IMap fs) = Inr fs'"
    using tree.write_free [of "IMap fs" "[''scrollToKey'']"] by blast
  moreover from this have "getIn fs' [''scrollToKey''] = Some (IList (map TStr ks))"
    using tree.read_written [of "IMap fs" "[''scrollToKey'']"] \<open>mapsAlong (IMap fs) [''scrollToKey'']\<close> by blast
  ultimately have "runLayout env (scrollTo (key ks)) p = p\<lparr>pg_layout := (pg_layout p)\<lparr>ly_fields := fs'\<rparr>\<rparr>"
    and "getIn fs' [''scrollToKey''] = Some (IList (map TStr ks))"
    using assms by (simp_all add: runLayout_def scrollTo_def normalizeArray_def reduceLayout_def setField_def comp_def del: getIn.simps)
  then show "getScrollToKey (pg_layout (runLayout env (scrollTo (key ks)) p)) = IList (map TStr ks)"
    "isShown (pg_layout (runLayout env (scrollTo (key ks)) p)) x d = isShown (pg_layout p) x d"
    "pg_hash (runLayout env (scrollTo (key ks)) p) = pg_hash p"
    by (simp_all add: getScrollToKey_def layoutField_def getInOr_def isShown_def del: getIn.simps)
qed


text \<open>A page that shows nothing yet, at an address.\<close>

definition newPage :: "string \<Rightarrow> LinkedPage" where
  "newPage hash = \<lparr>pg_layout = \<lparr>ly_fields = IMap [], ly_shown = None\<rparr>, pg_hash = hash, pg_deepLinking = True\<rparr>"


text \<open>A slash in the name of a tag: the hash is decoded before it is cut, so the link names another operation.\<close>

lemma slash_breaks_link:
  "isShownKeyFromUrlHashArray (hashArray (CHR 0x23 # concat (map (\<lambda>k. CHR ''/'' # k) [''a/b'', ''c''])))
    = map TStr [''operations'', ''a'', ''b'']"
  by (simp add: hashArray_def Let_def startsWith_def isShownKeyFromUrlHashArray_def nthOr_def)

text \<open>Showing a thing by the default is taken for hiding it: the address loses the link.\<close>

lemma default_show_unlinks:
  "pg_deepLinking p \<Longrightarrow> pg_hash (showPage env (key [''operations'', tag, op]) TUndef p) = ''#/''"
  by (simp add: showPage_def Let_def setHash_def runLayout_def normalizeArray_def urlHashArrayFromIsShownKey_def nthOr_def)

end
