(* ===== verification/UiOperations.thy ===== *)
theory UiOperations
  imports UiSpecState
begin

text \<open>
  What the pages list of a description: the selectors of the \<open>spec\<close> plugin of \<open>swagger-ui.js\<close> for
  operations, tags, media types and schemes. A set is written as the list of its elements.
\<close>

section \<open>Operations\<close>

definition OPERATION_METHODS :: "string list" where
  "OPERATION_METHODS = [''get'', ''put'', ''post'', ''delete'', ''options'', ''head'', ''patch'', ''trace'']"

definition DEFAULT_TAG :: jstree where
  "DEFAULT_TAG = TStr ''default''"

text \<open>The entries of a collection; \<open>None\<close> for what has no \<open>forEach\<close>.\<close>

definition imEntries :: "jstree \<Rightarrow> (jstree \<times> jstree) list option" where
  "imEntries v = (case v of
     IMap ps \<Rightarrow> Some (map (\<lambda>(k, w). (TStr k, w)) ps)
   | IList vs \<Rightarrow> Some (List.zip (map (\<lambda>i. TNum (Dec (int i) 0)) [0..<length vs]) vs)
   | _ \<Rightarrow> None)"

definition pathOperations :: "PageEnv \<Rightarrow> jstree \<times> jstree \<Rightarrow> jstree list" where
  "pathOperations env p = (case p of (pathName, path) \<Rightarrow>
     (case imEntries path of
        None \<Rightarrow> []
      | Some es \<Rightarrow>
          map (\<lambda>(method, operation). IMap [(''path'', pathName), (''method'', method), (''operation'', fromJS operation),
              (''id'', TStr (textOf env method @ ''-'' @ textOf env pathName))])
            (filter (\<lambda>(method, operation). \<exists>k\<in>set OPERATION_METHODS. method = TStr k) es)))"

definition operations :: "PageEnv \<Rightarrow> jstree \<Rightarrow> jstree list" where
  "operations env state =
    (case imEntries (getInOr TUndef (specJsonWithResolvedSubtrees state) [''paths'']) of
       None \<Rightarrow> [] | Some ps \<Rightarrow> concat (map (pathOperations env) ps))"

text \<open>\<open>Set(v)\<close>: the elements of a collection or the characters of a text.\<close>

definition setOf :: "jstree \<Rightarrow> JsFailure + jstree list" where
  "setOf v = (case v of
     TUndef \<Rightarrow> Inr [] | TNull \<Rightarrow> Inr []
   | IList vs \<Rightarrow> Inr (remdups vs) | IMap ps \<Rightarrow> Inr (remdups (map snd ps)) | TArr vs \<Rightarrow> Inr (remdups vs)
   | TStr s \<Rightarrow> if s = [] then Inl (TypeError ''Expected Array or iterable object of values'')
               else Inr (remdups (map (\<lambda>c. TStr [c]) s))
   | _ \<Rightarrow> Inl (TypeError ''Expected Array or iterable object of values''))"

definition setMerge :: "jstree list \<Rightarrow> jstree list \<Rightarrow> jstree list" where
  "setMerge xs ys = xs @ filter (\<lambda>y. y \<notin> set xs) ys"

definition rootSet :: "jstree \<Rightarrow> string \<Rightarrow> JsFailure + jstree list" where
  "rootSet state k = setOf (getInOr TUndef (specJson state) [k])"

text \<open>\<open>operationsWithRootInherited\<close>: a field the operation does not have comes from the description.\<close>

definition inheritSet :: "jstree list \<Rightarrow> string \<Rightarrow> (string \<times> jstree) list \<Rightarrow> JsFailure + (string \<times> jstree) list" where
  "inheritSet own k op =
    (if treeTruthy (fieldOf op k) then Inr op
     else bindJ (setOf (fieldOf op k)) (\<lambda>xs. Inr (jput k (IList (setMerge xs own)) op)))"

definition inheritRoot :: "jstree list \<Rightarrow> jstree list \<Rightarrow> jstree \<Rightarrow> JsFailure + jstree" where
  "inheritRoot cons prods ops =
    (let op = getInOr TUndef ops [''operation''] in
     bindJ (if treeTruthy op
            then (case op of
                    IMap fs \<Rightarrow> bindJ (inheritSet cons ''consumes'' fs) (\<lambda>fs. bindJ (inheritSet prods ''produces'' fs) (\<lambda>fs. Inr (IMap fs)))
                  | _ \<Rightarrow> Inr TUndef)
            else Inr emptyMap) (\<lambda>op. setIn [''operation''] op ops))"

definition operationsWithRootInherited :: "PageEnv \<Rightarrow> jstree \<Rightarrow> JsFailure + jstree list" where
  "operationsWithRootInherited env state =
    bindJ (rootSet state ''consumes'') (\<lambda>cons. bindJ (rootSet state ''produces'') (\<lambda>prods.
      mapJ (inheritRoot cons prods) (operations env state)))"

section \<open>Tags\<close>

definition tags :: "jstree \<Rightarrow> jstree list" where
  "tags state = (case getInOr (IList []) (specJson state) [''tags''] of IList vs \<Rightarrow> filter isMap vs | _ \<Rightarrow> [])"

text \<open>The default that \<open>tagDetails\<close> means to give is again taken for the context of \<open>find\<close>.\<close>

definition tagName :: "jstree \<Rightarrow> jstree" where
  "tagName t = getInOr TUndef t [''name'']"

definition tagDetails :: "jstree \<Rightarrow> jstree \<Rightarrow> jstree" where
  "tagDetails state tag = (case filter (\<lambda>t. tagName t = tag) (tags state) of [] \<Rightarrow> TUndef | t # _ \<Rightarrow> t)"

definition pushTo :: "jstree \<Rightarrow> jstree \<Rightarrow> (jstree \<times> jstree list) list \<Rightarrow> (jstree \<times> jstree list) list" where
  "pushTo op tag taggedMap = jput tag ((case jget taggedMap tag of None \<Rightarrow> [] | Some ar \<Rightarrow> ar) @ [op]) taggedMap"

definition fileUnderTags :: "(jstree \<times> jstree list) list \<Rightarrow> jstree \<Rightarrow> JsFailure + (jstree \<times> jstree list) list" where
  "fileUnderTags taggedMap op =
    bindJ (setOf (getInOr TUndef op [''operation'', ''tags''])) (\<lambda>ts.
      Inr (if ts = [] then pushTo op DEFAULT_TAG taggedMap else fold (pushTo op) ts taggedMap))"

definition operationsWithTags :: "PageEnv \<Rightarrow> jstree \<Rightarrow> JsFailure + (jstree \<times> jstree list) list" where
  "operationsWithTags env state =
    bindJ (operationsWithRootInherited env state) (\<lambda>ops.
      foldJ fileUnderTags (fold (\<lambda>t. jput (tagName t) []) (tags state) []) ops)"

text \<open>The sorters of the configuration: none, or comparators; those with a name compare texts.\<close>

record Sorters =
  so_tags :: "(jstree \<Rightarrow> jstree \<Rightarrow> int) option"
  so_operations :: "(jstree \<Rightarrow> jstree \<Rightarrow> int) option"

definition alphaSorter :: "(string \<Rightarrow> string \<Rightarrow> int) \<Rightarrow> PageEnv \<Rightarrow> string \<Rightarrow> jstree \<Rightarrow> jstree \<Rightarrow> int" where
  "alphaSorter localeCompare env field a b =
    localeCompare (textOf env (getInOr TUndef a [field])) (textOf env (getInOr TUndef b [field]))"

definition taggedOperations :: "PageEnv \<Rightarrow> Sorters \<Rightarrow> jstree \<Rightarrow> JsFailure + (jstree \<times> jstree) list" where
  "taggedOperations env sorters state =
    bindJ (operationsWithTags env state) (\<lambda>groups.
      Inr (map (\<lambda>(tag, ops). (tag, IMap [(''tagDetails'', tagDetails state tag), (''operations'', IList (sortBy (so_operations sorters) ops))]))
        (sortBy (map_option (\<lambda>f (a, _) (b, _). f a b) (so_tags sorters)) groups)))"

text \<open>\<open>opsFilter\<close>: the tags whose name holds the phrase; only texts have \<open>indexOf\<close> of texts.\<close>

definition opsFilter :: "(jstree \<times> 'a) list \<Rightarrow> string \<Rightarrow> (jstree \<times> 'a) list" where
  "opsFilter taggedOps phrase = filter (\<lambda>(tag, tagObj). case tag of TStr t \<Rightarrow> containsStr t phrase | _ \<Rightarrow> False) taggedOps"

section \<open>Parameters, media types and schemes\<close>

definition findDefinition :: "jstree \<Rightarrow> string \<Rightarrow> jstree" where
  "findDefinition state name =
    (let resolvedRes = getInOr TNull state [''resolvedSubtrees'', ''definitions'', name];
         unresolvedRes = getInOr TNull state [''json'', ''definitions'', name] in
     if treeTruthy resolvedRes then resolvedRes else if treeTruthy unresolvedRes then unresolvedRes else TNull)"

definition responseFor :: "jstree \<Rightarrow> string \<Rightarrow> string \<Rightarrow> jstree" where
  "responseFor state path method = getInOr TNull state [''responses'', path, method]"

definition requestFor :: "jstree \<Rightarrow> string \<Rightarrow> string \<Rightarrow> jstree" where
  "requestFor state path method = getInOr TNull state [''requests'', path, method]"

definition mutatedRequestFor :: "jstree \<Rightarrow> string \<Rightarrow> string \<Rightarrow> jstree" where
  "mutatedRequestFor state path method = getInOr TNull state [''mutatedRequests'', path, method]"

text \<open>\<open>None\<close> for what is no list.\<close>

definition parametersInclude :: "string \<Rightarrow> jstree \<Rightarrow> jstree \<Rightarrow> bool option" where
  "parametersInclude field parameters val = (case parameters of
     IList vs \<Rightarrow> Some (list_ex (\<lambda>p. isMap p \<and> getInOr TUndef p [field] = val) vs) | _ \<Rightarrow> None)"

definition parametersIncludeIn :: "jstree \<Rightarrow> jstree \<Rightarrow> bool option" where
  "parametersIncludeIn parameters val = parametersInclude ''in'' parameters val"

definition parametersIncludeType :: "jstree \<Rightarrow> jstree \<Rightarrow> bool option" where
  "parametersIncludeType parameters val = parametersInclude ''type'' parameters val"

text \<open>\<open>undefined\<close> for an operation that is not described.\<close>

definition firstTruthy :: "jstree list \<Rightarrow> jstree \<Rightarrow> jstree" where
  "firstTruthy vs d = (case filter treeTruthy vs of [] \<Rightarrow> d | v # _ \<Rightarrow> v)"

definition currentProducesFor :: "jstree \<Rightarrow> string list \<Rightarrow> jstree" where
  "currentProducesFor state pathMethod =
    (let operation = getInOr TNull (specJsonWithResolvedSubtrees state) (''paths'' # pathMethod) in
     if operation = TNull then TUndef
     else firstTruthy [getInOr TNull state (metaPath pathMethod [''produces_value'']), getInOr TNull operation [''produces'', ''0'']]
            (TStr ''application/json''))"

definition contentTypeValues :: "jstree \<Rightarrow> string list \<Rightarrow> jstree" where
  "contentTypeValues state pathMethod =
    (let op = getInOr emptyMap (specJsonWithResolvedSubtrees state) (''paths'' # pathMethod);
         meta = getInOr emptyMap state (metaPath pathMethod []);
         parameters = (let ps = getInOr TUndef op [''parameters''] in if treeTruthy ps then ps else IList []);
         consumesValue = getInOr TUndef meta [''consumes_value''] in
     IMap [(''requestContentType'',
             if treeTruthy consumesValue then consumesValue
             else if parametersIncludeType parameters (TStr ''file'') = Some True then TStr ''multipart/form-data''
             else if parametersIncludeType parameters (TStr ''formData'') = Some True then TStr ''application/x-www-form-urlencoded''
             else TUndef),
           (''responseContentType'', currentProducesFor state pathMethod)])"

definition optionsFor :: "string \<Rightarrow> jstree \<Rightarrow> string list \<Rightarrow> jstree" where
  "optionsFor k state pathMethod =
    (let spec = specJsonWithResolvedSubtrees state; operation = getInOr TNull spec (''paths'' # pathMethod) in
     if operation = TNull then TUndef
     else firstTruthy [getInOr TNull operation [k], getInOr TNull spec (''paths'' # take 1 pathMethod @ [k])] (getInOr TNull spec [k]))"

definition producesOptionsFor :: "jstree \<Rightarrow> string list \<Rightarrow> jstree" where
  "producesOptionsFor state pathMethod = optionsFor ''produces'' state pathMethod"

definition consumesOptionsFor :: "jstree \<Rightarrow> string list \<Rightarrow> jstree" where
  "consumesOptionsFor state pathMethod = optionsFor ''consumes'' state pathMethod"

text \<open>The scheme of an address, by \<open>^([a-z][a-z0-9+\-.]*):\<close>.\<close>

definition isLower :: "char \<Rightarrow> bool" where
  "isLower c \<longleftrightarrow> 97 \<le> (of_char c :: nat) \<and> (of_char c :: nat) \<le> 122"

definition urlScheme :: "string \<Rightarrow> string option" where
  "urlScheme url = (case url of
     [] \<Rightarrow> None
   | c # s \<Rightarrow>
       (let scheme = takeWhile (\<lambda>d. isLower d \<or> decimalDigit d \<or> d \<in> set ''+-.'') s in
        if isLower c \<and> startsWith (drop (length scheme) s) '':'' then Some (c # scheme) else None))"

text \<open>\<open>url.match\<close> throws where no address is there.\<close>

definition operationScheme :: "jstree \<Rightarrow> string \<Rightarrow> string \<Rightarrow> JsFailure + jstree" where
  "operationScheme state path method = (case getInOr TUndef state [''url''] of
     TStr url \<Rightarrow> Inr (firstTruthy [getInOr TUndef state [''scheme'', path, method], getInOr TUndef state [''scheme'', ''_defaultScheme'']]
       (TStr (case urlScheme url of None \<Rightarrow> '''' | Some s \<Rightarrow> s)))
   | _ \<Rightarrow> Inl (TypeError ''url.match is not a function''))"

definition canExecuteScheme :: "jstree \<Rightarrow> string \<Rightarrow> string \<Rightarrow> JsFailure + bool" where
  "canExecuteScheme state path method =
    bindJ (operationScheme state path method) (\<lambda>s. Inr (s = TStr ''http'' \<or> s = TStr ''https''))"

definition hasHost :: "jstree \<Rightarrow> bool" where
  "hasHost state = (case getInOr TUndef (specJson state) [''host''] of
     TStr h \<Rightarrow> h \<noteq> [] \<and> hd h \<noteq> CHR ''/'' | _ \<Rightarrow> False)"

text \<open>The version of a description, from the helpers of OpenAPI 3.\<close>

definition isOAS3 :: "jstree \<Rightarrow> bool" where
  "isOAS3 jsSpec = (case getInOr TUndef jsSpec [''openapi''] of TStr v \<Rightarrow> startsWith v ''3.0.'' \<and> 4 < length v | _ \<Rightarrow> False)"

definition isSwagger2 :: "jstree \<Rightarrow> bool" where
  "isSwagger2 jsSpec = (case getInOr TUndef jsSpec [''swagger''] of TStr v \<Rightarrow> startsWith v ''2.0'' | _ \<Rightarrow> False)"

end
