(* ===== verification/UiOperationsSpec.thy ===== *)
theory UiOperationsSpec
  imports UiOperations UiValidateSpec "HOL-Library.Multiset"
begin

text \<open>
  The page lists every operation of a description, under each of its tags, and nothing else.
\<close>

section \<open>Groups\<close>

text \<open>The tags of a value that stands for an operation; without any it is filed under the default tag.\<close>

definition filedUnder :: "jstree \<Rightarrow> jstree \<Rightarrow> bool" where
  "filedUnder ts tag \<longleftrightarrow> (case setOf ts of Inl e \<Rightarrow> False | Inr [] \<Rightarrow> tag = DEFAULT_TAG | Inr vs \<Rightarrow> tag \<in> set vs)"

abbreviation entryTags :: "jstree \<Rightarrow> jstree" where
  "entryTags op \<equiv> getInOr TUndef op [''operation'', ''tags'']"

lemma setOf_distinct: "setOf v = Inr vs \<Longrightarrow> distinct vs"
  by (cases v) (auto simp: setOf_def split: if_splits)

lemma pushTo_get:
  "jget (pushTo op tag m) t = (if t = tag then Some ((case jget m t of None \<Rightarrow> [] | Some a \<Rightarrow> a) @ [op]) else jget m t)"
  by (simp add: pushTo_def jm.get_put)

lemma fold_pushTo_get:
  "distinct ts \<Longrightarrow> jget (fold (pushTo op) ts m) t
    = (if t \<in> set ts then Some ((case jget m t of None \<Rightarrow> [] | Some a \<Rightarrow> a) @ [op]) else jget m t)"
  by (induction ts arbitrary: m) (auto simp: pushTo_get)

lemma fileUnderTags_get:
  assumes "fileUnderTags m op = Inr m'"
  shows "jget m' t
    = (if filedUnder (entryTags op) t then Some ((case jget m t of None \<Rightarrow> [] | Some a \<Rightarrow> a) @ [op]) else jget m t)"
proof -
  obtain ts where ts: "setOf (entryTags op) = Inr ts"
    and m': "m' = (if ts = [] then pushTo op DEFAULT_TAG m else fold (pushTo op) ts m)"
    using assms by (auto simp: fileUnderTags_def bindJ_Inr_conv)
  show ?thesis using fold_pushTo_get [OF setOf_distinct [OF ts]]
    by (cases ts) (auto simp: m' ts filedUnder_def pushTo_get)
qed

lemma fileAll_get:
  "foldJ fileUnderTags m ops = Inr m' \<Longrightarrow> jget m' t
    = (let news = filter (\<lambda>op. filedUnder (entryTags op) t) ops in
       if jget m t = None \<and> news = [] then None else Some ((case jget m t of None \<Rightarrow> [] | Some a \<Rightarrow> a) @ news))"
proof (induction ops arbitrary: m)
  case (Cons op ops)
  then obtain m1 where m1: "fileUnderTags m op = Inr m1" "foldJ fileUnderTags m1 ops = Inr m'"
    by (auto simp: bindJ_Inr_conv)
  show ?case using Cons.IH [OF m1(2)] fileUnderTags_get [OF m1(1), of t]
    by (cases "jget m t") (auto simp: Let_def)
qed (auto simp: Let_def split: option.split)

text \<open>A group holds the operations of its tag in their order; a tag without operations is listed when it is declared.\<close>

lemma operationsWithTags_get:
  assumes "operationsWithTags env s = Inr groups" "operationsWithRootInherited env s = Inr ops"
  shows "jget groups t = (if t \<in> tagName ` set (tags s) \<or> (\<exists>op\<in>set ops. filedUnder (entryTags op) t)
    then Some (filter (\<lambda>op. filedUnder (entryTags op) t) ops) else None)"
proof -
  have declared: "jget (fold (\<lambda>x. jput (tagName x) []) xs m) t
      = (if t \<in> tagName ` set xs then Some [] else jget m t)" for xs and m :: "(jstree \<times> jstree list) list"
    by (induction xs arbitrary: m) (auto simp: jm.get_put)
  have filed: "foldJ fileUnderTags (fold (\<lambda>t. jput (tagName t) []) (tags s) []) ops = Inr groups"
    using assms by (simp add: operationsWithTags_def)
  have "jget (fold (\<lambda>t. jput (tagName t) []) (tags s) ([] :: (jstree \<times> jstree list) list)) t = (if t \<in> tagName ` set (tags s) then Some [] else None)"
    using declared [of "tags s" "[]"] by (simp add: jget_def split: if_splits)
  then show ?thesis using fileAll_get [OF filed, of t] by (auto simp: Let_def filter_empty_conv)
qed

lemma operationsWithTags_ok:
  assumes "operationsWithTags env s = Inr groups"
  shows "jmap_ok groups"
proof -
  have push: "jmap_ok m \<Longrightarrow> jmap_ok (fold (pushTo op) ts m)" for op ts and m :: "(jstree \<times> jstree list) list"
    by (induction ts arbitrary: m) (auto simp: pushTo_def)
  have one: "fileUnderTags m op = Inr m' \<Longrightarrow> jmap_ok m \<Longrightarrow> jmap_ok m'" for m m' op
    by (auto simp: bindJ_Inr_conv fileUnderTags_def push pushTo_def split: if_splits)
  have "jmap_ok m \<Longrightarrow> foldJ fileUnderTags m ops = Inr m' \<Longrightarrow> jmap_ok m'" for m m' ops
    by (induction ops arbitrary: m) (auto simp: bindJ_Inr_conv dest: one)
  note all = this
  have start: "jmap_ok m \<Longrightarrow> jmap_ok (fold (\<lambda>t. jput (tagName t) []) ts m)" for ts and m :: "(jstree \<times> jstree list) list"
    by (induction ts arbitrary: m) auto
  obtain ops where "foldJ fileUnderTags (fold (\<lambda>t. jput (tagName t) []) (tags s) []) ops = Inr groups"
    using assms by (auto simp: operationsWithTags_def bindJ_Inr_conv)
  then show ?thesis by (rule all [OF start, rotated]) simp
qed

lemma insertBy_mset: "mset (insertBy f x xs) = add_mset x (mset xs)"
  by (induction xs) auto

lemma sortBy_mset: "mset (sortBy f xs) = mset xs"
proof -
  have "mset (foldr (insertBy g) xs []) = mset xs" for g by (induction xs) (auto simp: insertBy_mset)
  then show ?thesis by (simp add: sortBy_def split: option.split)
qed

lemma sortBy_set [simp]: "set (sortBy f xs) = set xs"
  using sortBy_mset [of f xs] by (metis set_mset_mset)

section \<open>The operations of a description\<close>

text \<open>The paths of a description are a map of maps, in which no key is twice.\<close>

definition pathsOk :: "jstree \<Rightarrow> bool" where
  "pathsOk s \<longleftrightarrow> (\<exists>ps. getIn (specJsonWithResolvedSubtrees s) [''paths''] = Some (IMap ps) \<and> jmap_ok ps \<and>
     (\<forall>p ms. jget ps p = Some (IMap ms) \<longrightarrow> jmap_ok ms))"

text \<open>What an operation is to the page: what is no map has no fields.\<close>

definition opTags :: "jstree \<Rightarrow> jstree" where
  "opTags op = (case fromJS op of IMap fs \<Rightarrow> fieldOf fs ''tags'' | _ \<Rightarrow> TUndef)"

lemma mapJ_each: "mapJ f xs = Inr ys \<Longrightarrow> x \<in> set xs \<Longrightarrow> \<exists>y. f x = Inr y"
  by (induction xs arbitrary: ys) (auto simp: bindJ_Inr_conv)

lemma mapJ_ex: "mapJ f xs = Inr ys \<Longrightarrow> (\<exists>y\<in>set ys. P y) \<longleftrightarrow> (\<exists>x\<in>set xs. \<exists>y. f x = Inr y \<and> P y)"
  by (induction xs arbitrary: ys) (auto simp: bindJ_Inr_conv)

lemma values_set: "(k, d) \<in> (\<lambda>(k, v). (k, D k v)) ` A \<longleftrightarrow> (\<exists>v. (k, v) \<in> A \<and> d = D k v)"
  by force

lemma jget_set: "jmap_ok m \<Longrightarrow> (k, v) \<in> set m \<longleftrightarrow> jget m k = Some v"
  by (simp add: jmap_ok_def jget_def)

lemma childAt_list_text: "m \<in> set OPERATION_METHODS \<Longrightarrow> childAt (IList vs) m = None"
  by (auto simp: OPERATION_METHODS_def childAt_def listIndex_def unsignedVal_def digitVal_def)

lemma operations_iff:
  assumes "pathsOk s"
  shows "e \<in> set (operations env s) \<longleftrightarrow> (\<exists>p m op. getIn (specJsonWithResolvedSubtrees s) [''paths'', p, m] = Some op \<and>
    m \<in> set OPERATION_METHODS \<and>
    e = IMap [(''path'', TStr p), (''method'', TStr m), (''operation'', fromJS op), (''id'', TStr (m @ ''-'' @ p))])"
proof -
  obtain ps where ps: "childAt (specJsonWithResolvedSubtrees s) ''paths'' = Some (IMap ps)" "jmap_ok ps"
    "\<And>p ms. jget ps p = Some (IMap ms) \<Longrightarrow> jmap_ok ms"
    using assms by (auto simp: pathsOk_def split: option.splits)
  let ?e = "\<lambda>p m op. IMap [(''path'', TStr p), (''method'', TStr m), (''operation'', fromJS op), (''id'', TStr (m @ ''-'' @ p))]"
  have one: "e \<in> set (pathOperations env (TStr p, path)) \<longleftrightarrow>
      (\<exists>m op. m \<in> set OPERATION_METHODS \<and> childAt path m = Some op \<and> e = ?e p m op)"
    if "jget ps p = Some path" for p path
  proof (cases path)
    case (IMap ms)
    then have "jmap_ok ms" using ps(3) that by simp
    then have child: "childAt path m = Some op \<longleftrightarrow> (m, op) \<in> set ms" for m op
      by (simp add: IMap childAt_def jget_set)
    have "pathOperations env (TStr p, path) = map (\<lambda>(m, op). ?e p m op) (filter (\<lambda>(m, op). m \<in> set OPERATION_METHODS) ms)"
      by (simp add: IMap pathOperations_def imEntries_def filter_map comp_def case_prod_unfold)
    then show ?thesis unfolding child by (auto simp: image_iff)
  next
    case (IList vs)
    have "filter (\<lambda>(method, operation). \<exists>k\<in>set OPERATION_METHODS. method = TStr k)
        (List.zip (map (\<lambda>i. TNum (Dec (int i) 0)) [0..<length vs]) vs) = []"
      by (auto simp: filter_empty_conv set_zip)
    then show ?thesis using childAt_list_text by (auto simp: IList pathOperations_def imEntries_def)
  qed (auto simp: pathOperations_def imEntries_def childAt_def)
  have look: "getIn (specJsonWithResolvedSubtrees s) [''paths'', p, m] = Some op
      \<longleftrightarrow> (\<exists>path. jget ps p = Some path \<and> childAt path m = Some op)" for p m op
    by (simp add: ps(1) childAt_def [of "IMap ps"] split: option.split)
  have all: "operations env s = concat (map (pathOperations env) (map (\<lambda>(k, w). (TStr k, w)) ps))"
    by (simp add: operations_def getInOr_def ps(1) imEntries_def)
  have "e \<in> set (operations env s) \<longleftrightarrow> (\<exists>p path. (p, path) \<in> set ps \<and> e \<in> set (pathOperations env (TStr p, path)))"
    unfolding all by force
  also have "\<dots> \<longleftrightarrow> (\<exists>p path m op. jget ps p = Some path \<and> m \<in> set OPERATION_METHODS \<and> childAt path m = Some op \<and> e = ?e p m op)"
    unfolding jget_set [OF ps(2)] using one by blast
  finally show ?thesis unfolding look by blast
qed

text \<open>What an operation inherits leaves its place and its tags alone.\<close>

lemma inheritSet_tags: "inheritSet own k op = Inr op' \<Longrightarrow> k \<noteq> ''tags'' \<Longrightarrow> fieldOf op' ''tags'' = fieldOf op ''tags''"
  by (auto simp: inheritSet_def bindJ_Inr_conv split: if_splits)

lemma setIn_field: "setIn [k] w (IMap fs) = Inr (IMap (jput k w fs))"
  by (simp add: setIn_def updateTree_def hasSet_def setChild_def)

lemma inheritRoot_keeps:
  assumes "inheritRoot cons prods (IMap [(''path'', TStr p), (''method'', TStr m), (''operation'', fromJS op), (''id'', i)]) = Inr e"
  shows "getIn e [''path''] = Some (TStr p)" "getIn e [''method''] = Some (TStr m)" "entryTags e = opTags op"
proof -
  let ?ops = "IMap [(''path'', TStr p), (''method'', TStr m), (''operation'', fromJS op), (''id'', i)]"
  have given: "getInOr TUndef ?ops [''operation''] = fromJS op" by (simp add: getInOr_field)
  obtain op' where op': "(if treeTruthy (fromJS op)
      then (case fromJS op of
              IMap fs \<Rightarrow> bindJ (inheritSet cons ''consumes'' fs) (\<lambda>fs. bindJ (inheritSet prods ''produces'' fs) (\<lambda>fs. Inr (IMap fs)))
            | _ \<Rightarrow> Inr TUndef)
      else Inr emptyMap) = Inr op'" "setIn [''operation''] op' ?ops = Inr e"
    using assms unfolding inheritRoot_def given by (auto simp: bindJ_Inr_conv Let_def)
  have e: "e = IMap [(''path'', TStr p), (''method'', TStr m), (''operation'', op'), (''id'', i)]"
    using op'(2) by (simp add: setIn_field jput_def)
  have "getInOr TUndef op' [''tags''] = opTags op"
  proof (cases "fromJS op")
    case (IMap fs)
    then show ?thesis using op'(1)
      by (auto simp: opTags_def bindJ_Inr_conv getInOr_field dest!: inheritSet_tags)
  qed (use op'(1) in \<open>auto simp: opTags_def getInOr_def childAt_def jget_def split: if_splits\<close>)
  then show "getIn e [''path''] = Some (TStr p)" "getIn e [''method''] = Some (TStr m)" "entryTags e = opTags op"
    by (simp_all add: e childAt_def jget_def getInOr_def)
qed

text \<open>An entry of a listed group that names an operation.\<close>

definition listsOperation :: "jstree \<Rightarrow> string \<Rightarrow> string \<Rightarrow> bool" where
  "listsOperation details p m \<longleftrightarrow> (case getInOr TUndef details [''operations''] of
     IList es \<Rightarrow> \<exists>e\<in>set es. getIn e [''path''] = Some (TStr p) \<and> getIn e [''method''] = Some (TStr m) | _ \<Rightarrow> False)"

text \<open>C19: however tags and operations are sorted, the page lists an operation under a tag exactly when the
  description has the operation, under a method it knows, and it has the tag, or has none and the
  tag is the default one.
\<close>

theorem taggedOperations_lists:
  assumes "pathsOk s" "taggedOperations env sorters s = Inr groups"
  shows "(\<exists>details. (tag, details) \<in> set groups \<and> listsOperation details p m) \<longleftrightarrow>
    (\<exists>op. getIn (specJsonWithResolvedSubtrees s) [''paths'', p, m] = Some op \<and> m \<in> set OPERATION_METHODS \<and> filedUnder (opTags op) tag)"
proof -
  obtain gs ops where gs: "operationsWithTags env s = Inr gs" and ops: "operationsWithRootInherited env s = Inr ops"
    using assms(2) by (auto simp: taggedOperations_def operationsWithTags_def bindJ_Inr_conv)
  obtain cons prods where inherit: "mapJ (inheritRoot cons prods) (operations env s) = Inr ops"
    using ops by (auto simp: operationsWithRootInherited_def bindJ_Inr_conv)
  have group: "(tag, os) \<in> set gs \<longleftrightarrow> jget gs tag = Some os" for os
    by (rule jget_set [OF operationsWithTags_ok [OF gs]])
  have "(tag, details) \<in> set groups \<longleftrightarrow>
      (\<exists>os. jget gs tag = Some os \<and> details = IMap [(''tagDetails'', tagDetails s tag), (''operations'', IList (sortBy (so_operations sorters) os))])"
    for details
    unfolding group [symmetric] using assms(2) values_set [of tag details "\<lambda>tag os. IMap [(''tagDetails'', tagDetails s tag), (''operations'', IList (sortBy (so_operations sorters) os))]" "set gs"]
    by (auto simp: taggedOperations_def gs)
  then have "(\<exists>details. (tag, details) \<in> set groups \<and> listsOperation details p m) \<longleftrightarrow>
      (\<exists>os e. jget gs tag = Some os \<and> e \<in> set os \<and> getIn e [''path''] = Some (TStr p) \<and> getIn e [''method''] = Some (TStr m))"
    by (auto simp: listsOperation_def getInOr_field simp del: getIn.simps)
  also have "\<dots> \<longleftrightarrow> (\<exists>e\<in>set ops. filedUnder (entryTags e) tag \<and> getIn e [''path''] = Some (TStr p) \<and> getIn e [''method''] = Some (TStr m))"
    unfolding operationsWithTags_get [OF gs ops] by (auto simp del: getIn.simps split: if_splits)
  also have "\<dots> \<longleftrightarrow> (\<exists>x\<in>set (operations env s). \<exists>e. inheritRoot cons prods x = Inr e \<and> filedUnder (entryTags e) tag \<and>
      getIn e [''path''] = Some (TStr p) \<and> getIn e [''method''] = Some (TStr m))"
    by (rule mapJ_ex [OF inherit])
  also have "\<dots> \<longleftrightarrow> (\<exists>op. getIn (specJsonWithResolvedSubtrees s) [''paths'', p, m] = Some op \<and> m \<in> set OPERATION_METHODS \<and>
      filedUnder (opTags op) tag)" (is "?L \<longleftrightarrow> ?R")
  proof
    assume ?L
    then show ?R unfolding operations_iff [OF assms(1)] Bex_def using inheritRoot_keeps by (auto simp del: getIn.simps)
  next
    assume ?R
    then obtain op where op: "getIn (specJsonWithResolvedSubtrees s) [''paths'', p, m] = Some op" "m \<in> set OPERATION_METHODS"
      "filedUnder (opTags op) tag" by blast
    let ?x = "IMap [(''path'', TStr p), (''method'', TStr m), (''operation'', fromJS op), (''id'', TStr (m @ ''-'' @ p))]"
    have x: "?x \<in> set (operations env s)" unfolding operations_iff [OF assms(1)] using op by blast
    then obtain e where "inheritRoot cons prods ?x = Inr e"
      using mapJ_each [OF inherit] by blast
    then show ?L using x inheritRoot_keeps op(3) by (metis (no_types, lifting))
  qed
  finally show ?thesis .
qed

definition exTagged :: jstree where
  "exTagged = IMap [(''json'', IMap [
     (''paths'', IMap [(''/a'', IMap [(''get'', IMap [(''tags'', IList [TStr ''pets''])]), (''post'', IMap [])])]),
     (''tags'', IList [IMap [(''name'', TStr ''pets'')]])])]"

theorem taggedOperations_lists_witness:
  "\<exists>groups. taggedOperations plainEnv \<lparr>so_tags = None, so_operations = None\<rparr> exTagged = Inr groups \<and>
    (\<exists>details. (TStr ''pets'', details) \<in> set groups \<and> listsOperation details ''/a'' ''get'') \<and>
    (\<exists>details. (TStr ''default'', details) \<in> set groups \<and> listsOperation details ''/a'' ''post'') \<and>
    \<not> (\<exists>details. (TStr ''pets'', details) \<in> set groups \<and> listsOperation details ''/a'' ''post'')"
proof -
  let ?paths = "[(''/a'', IMap [(''get'', IMap [(''tags'', IList [TStr ''pets''])]), (''post'', IMap [])])]"
  have described: "getIn (specJsonWithResolvedSubtrees exTagged) [''paths''] = Some (IMap ?paths)"
    by (simp add: specJsonWithResolvedSubtrees_def exTagged_def getInOr_def childAt_def mapFields_def jget_def jput_def)
  then have ok: "pathsOk exTagged" by (auto simp: pathsOk_def jmap_ok_def jget_def split: if_splits)
  obtain groups where groups: "taggedOperations plainEnv \<lparr>so_tags = None, so_operations = None\<rparr> exTagged = Inr groups"
  proof -
    have "\<not> isl (taggedOperations plainEnv \<lparr>so_tags = None, so_operations = None\<rparr> exTagged)" by code_simp
    then show thesis using that by (cases "taggedOperations plainEnv \<lparr>so_tags = None, so_operations = None\<rparr> exTagged") auto
  qed
  have get: "getIn (specJsonWithResolvedSubtrees exTagged) [''paths'', ''/a'', ''get''] = Some (IMap [(''tags'', IList [TStr ''pets''])])"
    and post: "getIn (specJsonWithResolvedSubtrees exTagged) [''paths'', ''/a'', ''post''] = Some (IMap [])"
    using described by (auto simp: childAt_def jget_def split: option.splits)
  have "opTags (IMap [(''tags'', IList [TStr ''pets''])]) = IList [TStr ''pets'']" "opTags (IMap []) = TUndef"
    by (simp_all add: opTags_def)
  then have "\<exists>details. (TStr ''pets'', details) \<in> set groups \<and> listsOperation details ''/a'' ''get''"
    "\<exists>details. (TStr ''default'', details) \<in> set groups \<and> listsOperation details ''/a'' ''post''"
    "\<not> (\<exists>details. (TStr ''pets'', details) \<in> set groups \<and> listsOperation details ''/a'' ''post'')"
    unfolding taggedOperations_lists [OF ok groups]
    by (simp_all add: get post filedUnder_def setOf_def DEFAULT_TAG_def OPERATION_METHODS_def del: getIn.simps)
  then show ?thesis using groups by blast
qed

end
