(* ===== verification/UiAuth.thy ===== *)
theory UiAuth
  imports UiLinks JsPaths
begin

text \<open>
  The authorizations of the pages, from the \<open>auth\<close> plugin of \<open>swagger-ui.js\<close>: its reducers and
  selectors, and the forms the actions send for a token. \<open>btoa\<close> stands for the base 64 coding of
  the library's buffers.
\<close>

section \<open>The reducers\<close>

datatype AuthAction =
    ShowAuthPopup jstree
  | Authorize "(string \<times> jstree) list"
  | AuthorizeOauth2 "(string \<times> jstree) list" jstree
  | Logout "string list"
  | ConfigureAuth jstree

text \<open>One entry of an authorization, once it is immutable; types without a case are passed over.\<close>

definition authorizeEntry :: "PageEnv \<Rightarrow> (string \<Rightarrow> string) \<Rightarrow> jstree \<Rightarrow> string \<times> jstree \<Rightarrow> JsFailure + jstree" where
  "authorizeEntry env btoa mp entry = (case entry of (key, security) \<Rightarrow>
     if \<not> hasSet security then Inl (TypeError ''security.getIn is not a function'')
     else
       (let type = getInOr TUndef security [''schema'', ''type''] in
        if type = TStr ''apiKey'' \<or> type = TStr ''http'' then setIn [key] security mp
        else if type = TStr ''basic'' then
          (let username = getInOr TUndef security [''value'', ''username''];
               password = getInOr TUndef security [''value'', ''password''];
               header = ''Basic '' @ btoa (textOf env username @ '':'' @ textOf env password) in
           bindJ (setIn [key, ''value''] (TObj [(''username'', username), (''header'', TStr header)]) mp) (\<lambda>mp.
             setIn [key, ''schema''] (getInOr TUndef security [''schema'']) mp))
        else Inr mp))"

definition authorizedOr :: "jstree \<Rightarrow> jstree" where
  "authorizedOr state = (let a = getInOr TUndef state [''authorized''] in if treeTruthy a then a else emptyMap)"

definition reduceAuth :: "PageEnv \<Rightarrow> (string \<Rightarrow> string) \<Rightarrow> AuthAction \<Rightarrow> jstree \<Rightarrow> JsFailure + jstree" where
  "reduceAuth env btoa action state = (case action of
     ShowAuthPopup payload \<Rightarrow> setIn [''showDefinitions''] payload state
   | Authorize payload \<Rightarrow>
       bindJ (foldJ (authorizeEntry env btoa) (authorizedOr state) (map (\<lambda>(k, v). (k, fromJS v)) payload)) (\<lambda>mp.
         setIn [''authorized''] mp state)
   | AuthorizeOauth2 auth token \<Rightarrow>
       (let parsedAuth = fromJS (TObj (jput ''token'' (TObj (case token of TObj ps \<Rightarrow> ps | _ \<Rightarrow> [])) auth)) in
        setIn [''authorized'', textOf env (getInOr TUndef parsedAuth [''name''])] parsedAuth state)
   | Logout keys \<Rightarrow>
       (case getInOr TUndef state [''authorized''] of
          IMap ps \<Rightarrow> setIn [''authorized''] (IMap (fold jremove keys ps)) state
        | _ \<Rightarrow> Inl (TypeError ''Cannot read property withMutations of undefined''))
   | ConfigureAuth payload \<Rightarrow> setIn [''configs''] payload state)"

section \<open>The selectors\<close>

definition shownDefinitions :: "jstree \<Rightarrow> jstree" where
  "shownDefinitions auth = getInOr TUndef auth [''showDefinitions'']"

definition authConfigs :: "jstree \<Rightarrow> jstree" where
  "authConfigs auth = getInOr TUndef auth [''configs'']"

text \<open>A definition as a map of its own, in a list; the definitions are those of the description.\<close>

definition definitionsToAuthorize :: "jstree \<Rightarrow> jstree list" where
  "definitionsToAuthorize definitions = (case definitions of IMap ps \<Rightarrow> map (\<lambda>e. IMap [e]) ps | _ \<Rightarrow> [])"

definition definitionsForRequirements :: "jstree \<Rightarrow> jstree list \<Rightarrow> jstree list" where
  "definitionsForRequirements definitions securities =
    filter (\<lambda>d. case d of IMap (e # _) \<Rightarrow> list_ex (\<lambda>sec. treeTruthy (getInOr TUndef sec [fst e])) securities | _ \<Rightarrow> False)
      (definitionsToAuthorize definitions)"

text \<open>
  \<open>getDefinitionsByNames\<close>: the definitions that each alternative of a requirement names, those of OAuth 2
  with the scopes that are asked for. A name without a definition makes it throw.
\<close>

definition allowedScopes :: "jstree \<Rightarrow> jstree list \<Rightarrow> JsFailure + jstree" where
  "allowedScopes definition scopes = (case getInOr TUndef definition [''scopes''] of
     IMap ps \<Rightarrow> Inr (IMap (filter (\<lambda>(k, v). TStr k \<in> set scopes) ps))
   | _ \<Rightarrow> Inl (TypeError ''Cannot read property keySeq''))"

definition scopeValues :: "jstree \<Rightarrow> jstree list option" where
  "scopeValues scopes = (case scopes of
     TUndef \<Rightarrow> None | TNull \<Rightarrow> None | IList vs \<Rightarrow> Some vs | IMap ps \<Rightarrow> Some (map snd ps) | _ \<Rightarrow> Some [])"

definition definitionByName :: "jstree \<Rightarrow> string \<times> jstree \<Rightarrow> JsFailure + string \<times> jstree" where
  "definitionByName securityDefinitions = (\<lambda>(name, scopes).
     (case getInOr TUndef securityDefinitions [name] of
        IMap fs \<Rightarrow>
          if fieldOf fs ''type'' = TStr ''oauth2''
          then (case scopeValues scopes of
                  None \<Rightarrow> Inl (TypeError ''Cannot read property size'')
                | Some [] \<Rightarrow> Inr (name, IMap fs)
                | Some wanted \<Rightarrow>
                    bindJ (allowedScopes (IMap fs) wanted) (\<lambda>allowed. Inr (name, IMap (jput ''allowedScopes'' allowed fs))))
          else Inr (name, IMap fs)
      | _ \<Rightarrow> Inl (TypeError ''Cannot read property get'')))"

definition getDefinitionsByNames :: "jstree \<Rightarrow> jstree list \<Rightarrow> JsFailure + jstree list" where
  "getDefinitionsByNames securityDefinitions securities =
    mapJ (\<lambda>names. case names of
        IMap ns \<Rightarrow> bindJ (mapJ (definitionByName securityDefinitions) ns) (\<lambda>ds. Inr (IMap ds))
      | _ \<Rightarrow> Inl (TypeError ''names.entrySeq is not a function'')) securities"

text \<open>\<open>isAuthorized\<close>: some alternative has all its names authorized; \<open>None\<close> for what is no list.\<close>

definition isAuthorized :: "jstree \<Rightarrow> jstree \<Rightarrow> bool option" where
  "isAuthorized state securities = (case securities of
     IList secs \<Rightarrow>
       Some (filter (\<lambda>security. False \<notin> set (map (\<lambda>(k, v). treeTruthy (getInOr TUndef (authorizedOr state) [k])) (entriesOf (toJS security)))) secs \<noteq> [])
   | _ \<Rightarrow> None)"

section \<open>The forms that ask for a token\<close>

record TokenRequest =
  tk_body :: string
  tk_headers :: "(string \<times> string) list"

definition basicHeader :: "PageEnv \<Rightarrow> (string \<Rightarrow> string) \<Rightarrow> (string \<times> jstree) list \<Rightarrow> (string \<times> string) list" where
  "basicHeader env btoa auth =
    [(''Authorization'', ''Basic '' @ btoa (textOf env (fieldOf auth ''clientId'') @ '':'' @ textOf env (fieldOf auth ''clientSecret'')))]"

definition joinScopes :: "PageEnv \<Rightarrow> (string \<times> jstree) list \<Rightarrow> JsFailure + jstree" where
  "joinScopes env auth = (case fieldOf auth ''scopes'' of
     TArr vs \<Rightarrow> Inr (TStr (joinWith '' '' (map (\<lambda>v. if v = TUndef \<or> v = TNull then '''' else textOf env v) vs)))
   | IList vs \<Rightarrow> Inr (TStr (joinWith '' '' (map (\<lambda>v. if v = TUndef \<or> v = TNull then '''' else textOf env v) vs)))
   | _ \<Rightarrow> Inl (TypeError ''scopes.join is not a function''))"

definition setClientIdAndSecret :: "(string \<times> jstree) list \<Rightarrow> (string \<times> jstree) list \<Rightarrow> (string \<times> jstree) list" where
  "setClientIdAndSecret target auth =
    (let t = (if treeTruthy (fieldOf auth ''clientId'') then jput ''client_id'' (fieldOf auth ''clientId'') target else target) in
     if treeTruthy (fieldOf auth ''clientSecret'') then jput ''client_secret'' (fieldOf auth ''clientSecret'') t else t)"

definition authorizePassword :: "PageEnv \<Rightarrow> (string \<Rightarrow> string) \<Rightarrow> (string \<times> jstree) list \<Rightarrow> JsFailure + TokenRequest" where
  "authorizePassword env btoa auth =
    bindJ (joinScopes env auth) (\<lambda>scope.
      let form = [(''grant_type'', TStr ''password''), (''scope'', scope),
                  (''username'', fieldOf auth ''username''), (''password'', fieldOf auth ''password'')] in
      Inr (if fieldOf auth ''passwordType'' = TStr ''request-body''
           then \<lparr>tk_body = buildFormData env (setClientIdAndSecret form auth), tk_headers = []\<rparr>
           else \<lparr>tk_body = buildFormData env form,
                 tk_headers = (if fieldOf auth ''passwordType'' = TStr ''basic'' then basicHeader env btoa auth else [])\<rparr>))"

definition authorizeApplication :: "PageEnv \<Rightarrow> (string \<Rightarrow> string) \<Rightarrow> (string \<times> jstree) list \<Rightarrow> JsFailure + TokenRequest" where
  "authorizeApplication env btoa auth =
    bindJ (joinScopes env auth) (\<lambda>scope.
      Inr \<lparr>tk_body = buildFormData env [(''grant_type'', TStr ''client_credentials''), (''scope'', scope)],
           tk_headers = basicHeader env btoa auth\<rparr>)"

definition authorizeAccessCodeWithFormParams :: "PageEnv \<Rightarrow> (string \<times> jstree) list \<Rightarrow> jstree \<Rightarrow> TokenRequest" where
  "authorizeAccessCodeWithFormParams env auth redirectUrl =
    \<lparr>tk_body = buildFormData env [(''grant_type'', TStr ''authorization_code''), (''code'', fieldOf auth ''code''),
        (''client_id'', fieldOf auth ''clientId''), (''client_secret'', fieldOf auth ''clientSecret''), (''redirect_uri'', redirectUrl)],
     tk_headers = []\<rparr>"

definition authorizeAccessCodeWithBasicAuthentication :: "PageEnv \<Rightarrow> (string \<Rightarrow> string) \<Rightarrow> (string \<times> jstree) list \<Rightarrow> jstree \<Rightarrow> TokenRequest" where
  "authorizeAccessCodeWithBasicAuthentication env btoa auth redirectUrl =
    \<lparr>tk_body = buildFormData env [(''grant_type'', TStr ''authorization_code''), (''code'', fieldOf auth ''code''),
        (''client_id'', fieldOf auth ''clientId''), (''redirect_uri'', redirectUrl)],
     tk_headers = basicHeader env btoa auth\<rparr>"

end
