(* ===== verification/UiAuthSpec.thy ===== *)
theory UiAuthSpec
  imports UiAuth UiValidateSpec
begin

text \<open>
  The authorizations refine a set of names: authorizing adds names, logging out removes them, and a
  requirement is met exactly when all its names are in the set.
\<close>

section \<open>The abstraction\<close>

text \<open>The names that an action adds and removes.\<close>

definition handledType :: "jstree \<Rightarrow> bool" where
  "handledType v \<longleftrightarrow> (let t = getInOr TUndef (fromJS v) [''schema'', ''type''] in t = TStr ''apiKey'' \<or> t = TStr ''http'' \<or> t = TStr ''basic'')"

fun authorizedNames :: "AuthAction \<Rightarrow> string set \<Rightarrow> string set" where
  "authorizedNames (Authorize ps) N = N \<union> {k. \<exists>v. (k, v) \<in> set ps \<and> handledType v}"
| "authorizedNames (AuthorizeOauth2 auth token) N = (case fieldOf auth ''name'' of TStr n \<Rightarrow> insert n N | _ \<Rightarrow> N)"
| "authorizedNames (Logout keys) N = N - set keys"
| "authorizedNames _ N = N"

text \<open>The actions of the pages: securities are objects, and what a token is for has a name.\<close>

definition properAuth :: "AuthAction \<Rightarrow> bool" where
  "properAuth a = (case a of
     Authorize ps \<Rightarrow> list_all (\<lambda>(k, v). \<exists>fs. v = TObj fs) ps
   | AuthorizeOauth2 auth token \<Rightarrow> (\<exists>n. fieldOf auth ''name'' = TStr n)
   | _ \<Rightarrow> True)"

text \<open>The state is a map, and so are the authorizations and each of them.\<close>

definition authMap :: "jstree \<Rightarrow> bool" where
  "authMap v \<longleftrightarrow> (\<exists>ps. v = IMap ps \<and> jmap_ok ps \<and> (\<forall>k w. jget ps k = Some w \<longrightarrow> (\<exists>fs. w = IMap fs)))"

definition authNames :: "jstree \<Rightarrow> string set" where
  "authNames v = {k. getIn v [k] \<noteq> None}"

definition authSim :: "jstree \<Rightarrow> string set \<Rightarrow> bool" where
  "authSim state N \<longleftrightarrow> (\<exists>fs. state = IMap fs) \<and>
    (getIn state [''authorized''] = None \<and> N = {} \<or>
     (\<exists>v. getIn state [''authorized''] = Some v \<and> authMap v \<and> authNames v = N))"

lemma setIn_key: "setIn [k] w (IMap fs) = Inr (IMap (jput k w fs))"
  by (simp add: setIn_def updateTree_def hasSet_def setChild_def)

lemma authMap_put: "authMap (IMap ps) \<Longrightarrow> authMap (IMap (jput k (IMap fs) ps))"
  by (auto simp: authMap_def jm.get_put)

lemma authNames_put: "authNames (IMap (jput k w ps)) = insert k (authNames (IMap ps))"
  by (auto simp: authNames_def childAt_def jm.get_put split: option.splits)

lemma authSim_other:
  assumes "authSim (IMap fs) N" "k \<noteq> ''authorized''"
  shows "authSim (IMap (jput k w fs)) N"
  using assms by (simp add: authSim_def childAt_def jm.get_put)

lemma authorizedOr_sim: "authSim (IMap fs) N \<Longrightarrow> \<exists>ps. authorizedOr (IMap fs) = IMap ps \<and> authMap (IMap ps) \<and> authNames (IMap ps) = N"
  by (auto simp: authSim_def authorizedOr_def getInOr_def authMap_def authNames_def childAt_def jget_def jmap_ok_def split: option.splits)

lemma authSim_set: "authMap (IMap ps) \<Longrightarrow> authSim (IMap (jput ''authorized'' (IMap ps) fs)) (authNames (IMap ps))"
  by (simp add: authSim_def childAt_def)

section \<open>Steps\<close>

lemma setIn_fields:
  assumes "authMap (IMap ps)" "key2 \<noteq> []"
  shows "\<exists>fs. setIn [k, key2] w (IMap ps) = Inr (IMap (jput k (IMap fs) ps))"
proof (cases "jget ps k")
  case (Some v)
  then obtain fs where "v = IMap fs" using assms(1) by (auto simp: authMap_def)
  then show ?thesis using Some by (auto simp: setIn_def updateTree_def hasSet_def childAt_def setChild_def)
qed (auto simp: setIn_def updateTree_def hasSet_def childAt_def setChild_def)

lemma authorizeEntry_sim:
  assumes "authMap (IMap ps)"
  shows "\<exists>qs. authorizeEntry env btoa (IMap ps) (k, fromJS (TObj fs)) = Inr (IMap qs) \<and> authMap (IMap qs) \<and>
    authNames (IMap qs) = authNames (IMap ps) \<union> (if handledType (TObj fs) then {k} else {})"
proof -
  let ?s = "fromJS (TObj fs)"
  let ?type = "getInOr TUndef ?s [''schema'', ''type'']"
  have set: "hasSet ?s" by (simp add: hasSet_def)
  consider (key) "?type = TStr ''apiKey'' \<or> ?type = TStr ''http''" | (basic) "?type = TStr ''basic''" | (other) "\<not> handledType (TObj fs)"
    by (auto simp: handledType_def Let_def)
  then show ?thesis
  proof cases
    case key
    then have "handledType (TObj fs)" by (auto simp: handledType_def Let_def)
    then show ?thesis using key set assms authMap_put
      by (auto simp: authorizeEntry_def Let_def setIn_key authNames_put)
  next
    case basic
    obtain f1 where f1: "setIn [k, ''value''] (TObj [(''username'', getInOr TUndef ?s [''value'', ''username'']),
        (''header'', TStr (''Basic '' @ btoa (textOf env (getInOr TUndef ?s [''value'', ''username'']) @ '':'' @
          textOf env (getInOr TUndef ?s [''value'', ''password'']))))]) (IMap ps) = Inr (IMap (jput k (IMap f1) ps))"
      using setIn_fields [OF assms, of "''value''"] by blast
    obtain f2 where f2: "setIn [k, ''schema''] (getInOr TUndef ?s [''schema'']) (IMap (jput k (IMap f1) ps))
        = Inr (IMap (jput k (IMap f2) (jput k (IMap f1) ps)))"
      using setIn_fields [OF authMap_put [OF assms], of "''schema''"] by blast
    have "handledType (TObj fs)" using basic by (auto simp: handledType_def Let_def)
    moreover have "authorizeEntry env btoa (IMap ps) (k, ?s) = Inr (IMap (jput k (IMap f2) (jput k (IMap f1) ps)))"
      using basic set f1 f2 by (simp add: authorizeEntry_def Let_def)
    ultimately show ?thesis using assms authMap_put by (auto simp: authNames_put)
  next
    case other
    then show ?thesis using set assms by (auto simp: authorizeEntry_def handledType_def Let_def)
  qed
qed

lemma authorizeAll_sim:
  assumes "authMap (IMap ps)" "list_all (\<lambda>(k, v). \<exists>fs. v = TObj fs) es"
  shows "\<exists>qs. foldJ (authorizeEntry env btoa) (IMap ps) (map (\<lambda>(k, v). (k, fromJS v)) es) = Inr (IMap qs) \<and> authMap (IMap qs) \<and>
    authNames (IMap qs) = authNames (IMap ps) \<union> {k. \<exists>v. (k, v) \<in> set es \<and> handledType v}"
  using assms
proof (induction es arbitrary: ps)
  case (Cons e es)
  then obtain k fs where e: "e = (k, TObj fs)" by (cases e) auto
  obtain qs where qs: "authorizeEntry env btoa (IMap ps) (k, fromJS (TObj fs)) = Inr (IMap qs)" "authMap (IMap qs)"
    "authNames (IMap qs) = authNames (IMap ps) \<union> (if handledType (TObj fs) then {k} else {})"
    using authorizeEntry_sim [OF Cons.prems(1)] by blast
  obtain rs where "foldJ (authorizeEntry env btoa) (IMap qs) (map (\<lambda>(k, v). (k, fromJS v)) es) = Inr (IMap rs)" "authMap (IMap rs)"
    "authNames (IMap rs) = authNames (IMap qs) \<union> {k. \<exists>v. (k, v) \<in> set es \<and> handledType v}"
    using Cons.IH [OF qs(2)] Cons.prems(2) by auto
  then show ?case using qs(1,3) by (auto simp: e simp del: fromJS.simps)
qed simp

lemma removeAll_sim:
  "authMap (IMap ps) \<Longrightarrow> authMap (IMap (fold jremove keys ps)) \<and> authNames (IMap (fold jremove keys ps)) = authNames (IMap ps) - set keys"
proof (induction keys arbitrary: ps)
  case (Cons k keys)
  have "authMap (IMap (jremove k ps))" using Cons.prems by (auto simp: authMap_def jm.get_remove split: if_splits)
  moreover have "authNames (IMap (jremove k ps)) = authNames (IMap ps) - {k}"
    by (auto simp: authNames_def childAt_def jm.get_remove split: option.splits if_splits)
  ultimately show ?case using Cons.IH [of "jremove k ps"] by auto
qed simp

lemma jget_fromJS: "jget (map (\<lambda>(k, v). (k, fromJS v)) ps) k = map_option fromJS (jget ps k)"
  by (simp add: jget_def map_of_map)

lemma authSim_oauth:
  assumes "authSim (IMap fs) N" "fieldOf auth ''name'' = TStr n"
  shows "\<exists>s'. reduceAuth env btoa (AuthorizeOauth2 auth token) (IMap fs) = Inr s' \<and> authSim s' (insert n N)"
proof -
  define ps where "ps = jput ''token'' (TObj (case token of TObj ps \<Rightarrow> ps | _ \<Rightarrow> [])) auth"
  obtain qs where qs: "fromJS (TObj ps) = IMap qs" by simp
  have "jget auth ''name'' = Some (TStr n)" using assms(2) by (simp add: fieldOf_def split: option.splits)
  then have "jget ps ''name'' = Some (TStr n)" by (simp add: ps_def jm.get_put)
  then have name: "getInOr TUndef (IMap qs) [''name''] = TStr n"
    using qs jget_fromJS [of ps "''name''"] by (auto simp: getInOr_field fieldOf_def)
  have reduce: "reduceAuth env btoa (AuthorizeOauth2 auth token) (IMap fs) = setIn [''authorized'', n] (IMap qs) (IMap fs)"
    by (simp add: reduceAuth_def Let_def ps_def [symmetric] qs name del: fromJS.simps)
  have one: "authMap (IMap [(n, IMap qs)])" "authNames (IMap [(n, IMap qs)]) = {n}"
    by (auto simp: authMap_def authNames_def childAt_def jget_def jmap_ok_def)
  show ?thesis
  proof (cases "jget fs ''authorized''")
    case None
    then have "N = {}" using assms(1) by (auto simp: authSim_def childAt_def)
    then show ?thesis using None authSim_set [OF one(1), of fs] one(2)
      by (auto simp: reduce setIn_def updateTree_def hasSet_def childAt_def setChild_def)
  next
    case (Some v)
    then obtain as where as: "v = IMap as" "authMap (IMap as)" "authNames (IMap as) = N"
      using assms(1) by (auto simp: authSim_def childAt_def authMap_def)
    have "setIn [''authorized'', n] (IMap qs) (IMap fs) = Inr (IMap (jput ''authorized'' (IMap (jput n (IMap qs) as)) fs))"
      using Some as(1) by (simp add: setIn_def updateTree_def hasSet_def childAt_def setChild_def)
    then show ?thesis using authSim_set [OF authMap_put [OF as(2)]] as(3) by (auto simp: reduce authNames_put)
  qed
qed

text \<open>Every action keeps the correspondence; one that throws, like a first logout, changes neither side.\<close>

lemma authSim_step:
  assumes "authSim state N" "properAuth a"
  shows "authSim (reduceWith (reduceAuth env btoa) state a) (authorizedNames a N)"
proof -
  obtain fs where state: "state = IMap fs" using assms(1) by (auto simp: authSim_def)
  note sim = assms(1) [unfolded state]
  show ?thesis
  proof (cases a)
    case (Authorize ps)
    obtain as where as: "authorizedOr (IMap fs) = IMap as" "authMap (IMap as)" "authNames (IMap as) = N"
      using authorizedOr_sim [OF sim] by blast
    obtain qs where qs: "foldJ (authorizeEntry env btoa) (IMap as) (map (\<lambda>(k, v). (k, fromJS v)) ps) = Inr (IMap qs)" "authMap (IMap qs)"
      "authNames (IMap qs) = authNames (IMap as) \<union> {k. \<exists>v. (k, v) \<in> set ps \<and> handledType v}"
      using authorizeAll_sim [OF as(2), of ps env btoa] assms(2) by (auto simp: Authorize properAuth_def)
    have "reduceAuth env btoa a (IMap fs) = Inr (IMap (jput ''authorized'' (IMap qs) fs))"
      using as(1) qs(1) by (simp add: Authorize reduceAuth_def setIn_key)
    then show ?thesis using authSim_set [OF qs(2), of fs] qs(3) as(3) by (simp add: state Authorize)
  next
    case (AuthorizeOauth2 auth token)
    then obtain n where "fieldOf auth ''name'' = TStr n" using assms(2) by (auto simp: properAuth_def)
    then show ?thesis using authSim_oauth [OF sim, of auth n env btoa token] by (auto simp: state AuthorizeOauth2)
  next
    case (Logout keys)
    show ?thesis
    proof (cases "jget fs ''authorized''")
      case None
      then have "reduceAuth env btoa a (IMap fs) = Inl (TypeError ''Cannot read property withMutations of undefined'')"
        by (simp add: Logout reduceAuth_def getInOr_def childAt_def)
      then show ?thesis using sim None by (auto simp: state Logout authSim_def childAt_def)
    next
      case (Some v)
      then obtain as where as: "v = IMap as" "authMap (IMap as)" "authNames (IMap as) = N"
        using sim by (auto simp: authSim_def childAt_def authMap_def)
      then have "reduceAuth env btoa a (IMap fs) = Inr (IMap (jput ''authorized'' (IMap (fold jremove keys as)) fs))"
        using Some by (simp add: Logout reduceAuth_def getInOr_def childAt_def setIn_key)
      then show ?thesis
        using removeAll_sim [OF as(2), of keys] authSim_set [of "fold jremove keys as" fs] as(3) by (simp add: state Logout)
    qed
  qed (use sim authSim_other in \<open>simp_all add: state reduceAuth_def setIn_key\<close>)
qed

lemma authSim_isAuthorized:
  assumes "authSim state N"
  shows "isAuthorized state (IList reqs) = Some (\<exists>r\<in>set reqs. fst ` set (entriesOf (toJS r)) \<subseteq> N)"
proof -
  obtain fs where "state = IMap fs" using assms by (auto simp: authSim_def)
  then obtain ps where ps: "authorizedOr state = IMap ps" "authMap (IMap ps)" "authNames (IMap ps) = N"
    using authorizedOr_sim assms by blast
  have "treeTruthy (getInOr TUndef (IMap ps) [k]) \<longleftrightarrow> k \<in> N" for k
  proof (cases "jget ps k")
    case (Some w)
    then have "\<exists>fs. w = IMap fs" using ps(2) by (auto simp: authMap_def)
    then show ?thesis using Some ps(3) by (auto simp: authNames_def getInOr_def childAt_def)
  qed (use ps(3) in \<open>auto simp: authNames_def getInOr_def childAt_def\<close>)
  then have "False \<notin> set (map (\<lambda>(k, v). treeTruthy (getInOr TUndef (IMap ps) [k])) es) \<longleftrightarrow> fst ` set es \<subseteq> N" for es :: "(string \<times> jstree) list"
    by (induction es) auto
  then show ?thesis by (simp only: isAuthorized_def jstree.case ps(1) filter_empty_conv) simp
qed

text \<open>C16: after any actions, the page takes a requirement for met exactly when one of its alternatives has
  only names that were authorized, by a key, basic credentials or a token, and not logged out since.
\<close>

theorem auth_refines_names:
  assumes "list_all properAuth actions"
  shows "isAuthorized (foldl (reduceWith (reduceAuth env btoa)) (IMap []) actions) (IList reqs)
    = Some (\<exists>r\<in>set reqs. fst ` set (entriesOf (toJS r)) \<subseteq> fold authorizedNames actions {})"
proof -
  have "authSim state N \<Longrightarrow> authSim (foldl (reduceWith (reduceAuth env btoa)) state actions) (fold authorizedNames actions N)" for state N
    using assms by (induction actions arbitrary: state N) (auto intro: authSim_step)
  moreover have "authSim (IMap []) {}" by (simp add: authSim_def childAt_def jget_def)
  ultimately show ?thesis by (intro authSim_isAuthorized) blast
qed

theorem auth_refines_names_witness:
  "isAuthorized (foldl (reduceWith (reduceAuth plainEnv id)) (IMap [])
      [Logout [''k''], Authorize [(''k'', TObj [(''schema'', TObj [(''type'', TStr ''apiKey'')])])]])
    (IList [IMap [(''k'', IList [])]]) = Some True
   \<and> isAuthorized (foldl (reduceWith (reduceAuth plainEnv id)) (IMap [])
      [Authorize [(''k'', TObj [(''schema'', TObj [(''type'', TStr ''apiKey'')])])], Logout [''k'']])
    (IList [IMap [(''k'', IList [])]]) = Some False"
proof -
  have "handledType (TObj [(''schema'', TObj [(''type'', TStr ''apiKey'')])])"
    by (simp add: handledType_def getInOr_def childAt_def jget_def)
  then show ?thesis by (subst (1 2) auth_refines_names) (auto simp: properAuth_def entriesOf_def)
qed

text \<open>An authorization of another type, such as one of OpenAPI 3 with an identity provider, is dropped silently.\<close>

lemma unhandled_type_dropped:
  "authorizedNames (Authorize [(''k'', TObj [(''schema'', TObj [(''type'', TStr ''openIdConnect'')])])]) N = N"
  by (simp add: handledType_def getInOr_def childAt_def jget_def)

end
