(* ===== verification/UiErrors.thy ===== *)
theory UiErrors
  imports UiLinks UiSpecState
begin

text \<open>
  The errors that the pages show, from the \<open>err\<close> plugin of \<open>swagger-ui.js\<close>: reducers, selectors and
  the transformers of messages; and the command line that a page offers for a request, from
  \<open>core/curlify.js\<close>.
\<close>

section \<open>Transformers\<close>

text \<open>The place of a text in another one.\<close>

fun indexOfStr :: "string \<Rightarrow> string \<Rightarrow> nat option" where
  "indexOfStr pat [] = (if pat = [] then Some 0 else None)"
| "indexOfStr pat (c # s) = (if startsWith (c # s) pat then Some 0 else map_option Suc (indexOfStr pat s))"

text \<open>\<open>makeNewMessage\<close>, from the element with the given number on.\<close>

fun messageFrom :: "nat \<Rightarrow> string list \<Rightarrow> string \<Rightarrow> string" where
  "messageFrom n [] p = p"
| "messageFrom n [c] p = (if 1 < n then p @ ''or '' @ c else p @ c)"
| "messageFrom n (c # d # cs) p =
    messageFrom n (d # cs) (if d \<noteq> [] \<and> 2 < n then p @ c @ '', '' else if d \<noteq> [] then p @ c @ '' '' else p @ c)"

definition makeNewMessage :: "string list \<Rightarrow> string" where
  "makeNewMessage types = messageFrom (length types) types ''should be a''"

text \<open>\<open>transform\<close> of \<open>not-of-type.js\<close> on one error; what is no text has no \<open>indexOf\<close>.\<close>

definition notOfType :: "jstree \<Rightarrow> JsFailure + jstree" where
  "notOfType err =
    bindJ (imGet err ''message'') (\<lambda>message. case message of
      TStr m \<Rightarrow>
        (case indexOfStr ''is not of a type(s)'' m of
           Some i \<Rightarrow>
             setIn [''message''] (TStr (take i m @ makeNewMessage (pieces CHR '','' (drop (i + length ''is not of a type(s)'') m)))) err
         | None \<Rightarrow> Inr err)
    | _ \<Rightarrow> Inl (TypeError ''indexOf is not a function''))"

text \<open>That of \<open>parameter-oneof.js\<close> returns its argument before it does anything.\<close>

definition parameterOneOf :: "jstree list \<Rightarrow> JsFailure + jstree list" where
  "parameterOneOf errors = Inr errors"

definition transformStep :: "jstree list \<Rightarrow> (jstree list \<Rightarrow> JsFailure + jstree list) \<Rightarrow> jstree list" where
  "transformStep errors transformer = (case transformer errors of Inl e \<Rightarrow> errors | Inr es \<Rightarrow> filter treeTruthy es)"

definition transformErrors :: "jstree list \<Rightarrow> jstree list" where
  "transformErrors errors = filter treeTruthy (foldl transformStep errors [mapJ notOfType, parameterOneOf])"

section \<open>The reducers\<close>

text \<open>
  The structure that is meant for the defaults is the target of \<open>Object.assign\<close>: it is part of the
  state of the module, and every error changes it.
\<close>

definition DEFAULT_ERROR_STRUCTURE :: "(string \<times> jstree) list" where
  "DEFAULT_ERROR_STRUCTURE = [(''line'', TNum (Dec 0 0)), (''level'', TStr ''error''), (''message'', TStr ''Unknown error'')]"

record ErrModule =
  er_default :: "(string \<times> jstree) list"
  er_state :: jstree

datatype ErrAction =
    NewThrownErr jstree
  | NewThrownErrBatch "jstree list"
  | NewSpecErr jstree
  | NewSpecErrBatch "jstree list"
  | NewAuthErr jstree
  | Clear "(string \<times> jstree) list option"
  | ClearBy "(jstree \<Rightarrow> bool) option"

definition assignDefault :: "string \<Rightarrow> jstree \<Rightarrow> (string \<times> jstree) list \<Rightarrow> (string \<times> jstree) list" where
  "assignDefault type err defaults = jput ''type'' (TStr type) (jputAll defaults (entriesOf err))"

text \<open>A batch: every error is a copy of the structure as it is after it.\<close>

fun assignBatch :: "string \<Rightarrow> jstree list \<Rightarrow> (string \<times> jstree) list \<Rightarrow> jstree list \<times> (string \<times> jstree) list" where
  "assignBatch type [] d = ([], d)"
| "assignBatch type (e # es) d =
    (let d1 = assignDefault type e d; (vs, d2) = assignBatch type es d1 in (fromJS (TObj d1) # vs, d2))"

definition errorList :: "jstree \<Rightarrow> jstree list" where
  "errorList state = (case getInOr TUndef state [''errors''] of IList es \<Rightarrow> es | _ \<Rightarrow> [])"

definition withErrors :: "(jstree list \<Rightarrow> jstree list) \<Rightarrow> jstree \<Rightarrow> JsFailure + jstree" where
  "withErrors f state = setIn [''errors''] (IList (transformErrors (f (errorList state)))) state"

text \<open>
  \<open>sortBy\<close> of \<open>immutable\<close> compares with \<open>>\<close> and \<open><\<close>; it is stable. Its result is what it is here where
  all lines compare.
\<close>

definition compareLines :: "PageEnv \<Rightarrow> jstree \<Rightarrow> jstree \<Rightarrow> int" where
  "compareLines env a b =
    (let l = getInOr TUndef a [''line'']; r = getInOr TUndef b [''line''] in
     if lessThan env r l then 1 else if lessThan env l r then -1 else 0)"

text \<open>\<open>errValue !== filterValue\<close>: collections made of the error are never the filter's.\<close>

definition strictlyEqual :: "jstree \<Rightarrow> jstree \<Rightarrow> bool" where
  "strictlyEqual v w \<longleftrightarrow> isPrimitive v \<and> v = w \<and> v \<noteq> TNum NaN"

definition isCleared :: "(string \<times> jstree) list \<Rightarrow> jstree \<Rightarrow> bool" where
  "isCleared payload err \<longleftrightarrow>
    list_ex (\<lambda>(k, errValue). treeTruthy (fieldOf payload k) \<and> strictlyEqual errValue (fieldOf payload k)) (case err of IMap fs \<Rightarrow> fs | _ \<Rightarrow> [])"

definition reduceErr :: "PageEnv \<Rightarrow> ErrAction \<Rightarrow> ErrModule \<Rightarrow> JsFailure + ErrModule" where
  "reduceErr env action md =
    (let next = (\<lambda>d f. bindJ (withErrors f (er_state md)) (\<lambda>s. Inr \<lparr>er_default = d, er_state = s\<rparr>)) in
     case action of
       NewThrownErr err \<Rightarrow>
         (let d = assignDefault ''thrown'' err (er_default md) in next d (\<lambda>es. es @ [fromJS (TObj d)]))
     | NewThrownErrBatch errs \<Rightarrow>
         (let (vs, d) = assignBatch ''thrown'' errs (er_default md) in next d (\<lambda>es. es @ vs))
     | NewSpecErr err \<Rightarrow>
         bindJ (setIn [''type''] (TStr ''spec'') (fromJS err)) (\<lambda>e.
           next (er_default md) (\<lambda>es. sortBy (Some (compareLines env)) (es @ [e])))
     | NewSpecErrBatch errs \<Rightarrow>
         (let (vs, d) = assignBatch ''spec'' errs (er_default md) in next d (\<lambda>es. es @ vs))
     | NewAuthErr err \<Rightarrow>
         next (er_default md) (\<lambda>es. es @ [fromJS (TObj (jput ''type'' (TStr ''auth'') (jputAll [] (entriesOf err))))])
     | Clear payload \<Rightarrow>
         (case (payload, getInOr TUndef (er_state md) [''errors'']) of
            (Some filterFields, IList es) \<Rightarrow>
              bindJ (setIn [''errors''] (IList (filter (\<lambda>err. \<not> isCleared filterFields err) es)) (er_state md))
                (\<lambda>s. Inr (md\<lparr>er_state := s\<rparr>))
          | _ \<Rightarrow> Inr md)
     | ClearBy payload \<Rightarrow>
         (case payload of
            None \<Rightarrow> Inr md
          | Some p \<Rightarrow>
              (case getInOr TUndef (er_state md) [''errors''] of
                 IList es \<Rightarrow> bindJ (setIn [''errors''] (IList (filter p es)) (er_state md)) (\<lambda>s. Inr (md\<lparr>er_state := s\<rparr>))
               | _ \<Rightarrow> Inl (TypeError ''Cannot read property filter of undefined''))))"

definition allErrors :: "jstree \<Rightarrow> jstree" where
  "allErrors err = getInOr (IList []) err [''errors'']"

definition lastError :: "jstree \<Rightarrow> jstree" where
  "lastError err = (case allErrors err of IList es \<Rightarrow> if es = [] then TUndef else last es | _ \<Rightarrow> TUndef)"

section \<open>Command lines\<close>

text \<open>\<open>curl\<close>; \<open>jsonText\<close> is \<open>JSON.stringify\<close>. The content type is taken from the last header.\<close>

definition doubleQuoted :: "string \<Rightarrow> string" where
  "doubleQuoted s = CHR 0x22 # s @ [CHR 0x22]"

definition joinedText :: "PageEnv \<Rightarrow> jstree \<Rightarrow> string" where
  "joinedText env v = (if v = TUndef \<or> v = TNull then '''' else textOf env v)"

definition formField :: "PageEnv \<Rightarrow> string \<times> jstree \<Rightarrow> string list" where
  "formField env e = (case e of (k, v) \<Rightarrow>
     [''-F'', doubleQuoted (case v of
        TFile name type \<Rightarrow> k @ ''=@'' @ name @ (if type = '''' then '''' else '';type='' @ type)
      | _ \<Rightarrow> k @ ''='' @ textOf env v)])"

definition curl :: "PageEnv \<Rightarrow> (jstree \<Rightarrow> string) \<Rightarrow> jstree \<Rightarrow> string" where
  "curl env jsonText request =
    (let get = (\<lambda>k. getInOr TUndef request [k]);
         headers = mapFields (get ''headers'');
         type = (if headers = [] then TStr '''' else snd (last headers));
         body = get ''body'' in
     joinWith '' '' (
       [''curl'', ''-X'', joinedText env (get ''method''), doubleQuoted (textOf env (get ''url''))] @
       concat (map (\<lambda>(h, v). [''-H '', doubleQuoted (h @ '': '' @ textOf env v)]) headers) @
       (if treeTruthy body
        then (if type = TStr ''multipart/form-data'' \<and> get ''method'' = TStr ''POST''
              then concat (map (formField env) (mapFields body))
              else [''-d'', replaceAll (CHR 0x5C # ''n'') '''' (jsonText body)])
        else [])))"

end
