(* ===== verification/UiErrorsSpec.thy ===== *)
theory UiErrorsSpec
  imports UiErrors UiValidateSpec
begin

text \<open>
  What an error on the page tells of the errors before it, which ones a filter removes, and what a
  shell reads from the command line of a request.
\<close>

section \<open>Transformers\<close>

text \<open>An error that is changed in its message only.\<close>

definition sameButMessage :: "jstree \<Rightarrow> jstree \<Rightarrow> bool" where
  "sameButMessage a b \<longleftrightarrow> isMap b \<and> (\<forall>f. f \<noteq> ''message'' \<longrightarrow> getIn b [f] = getIn a [f])"

lemma isMap_iff: "isMap v \<longleftrightarrow> (\<exists>fs. v = IMap fs)"
  by (cases v) (auto simp: isMap_def)

lemma notOfType_same: "isMap e \<Longrightarrow> notOfType e = Inr e' \<Longrightarrow> sameButMessage e e'"
  by (auto simp: isMap_iff notOfType_def imGet_def bindJ_Inr_conv setIn_def updateTree_def hasSet_def setChild_def
      sameButMessage_def childAt_def jm.get_put split: jstree.splits option.splits if_splits)

lemma transformErrors_same:
  assumes "list_all isMap es"
  shows "list_all2 sameButMessage es (transformErrors es)"
proof -
  have truthy: "list_all isMap xs \<Longrightarrow> filter treeTruthy xs = xs" for xs
    by (induction xs) (auto simp: isMap_iff)
  have refl: "list_all isMap xs \<Longrightarrow> list_all2 sameButMessage xs xs" for xs
    by (induction xs) (auto simp: sameButMessage_def)
  have maps: "list_all2 sameButMessage xs ys \<Longrightarrow> list_all isMap ys" for xs ys
    by (induction rule: list_all2_induct) (auto simp: sameButMessage_def)
  have "list_all isMap xs \<Longrightarrow> mapJ notOfType xs = Inr ys \<Longrightarrow> list_all2 sameButMessage xs ys" for xs ys
    by (induction xs arbitrary: ys) (auto simp: bindJ_Inr_conv notOfType_same)
  then have step: "list_all2 sameButMessage es (transformStep es (mapJ notOfType))"
    using assms refl maps truthy by (cases "mapJ notOfType es") (fastforce simp: transformStep_def)+
  have "transformErrors es = transformStep es (mapJ notOfType)"
    using truthy [OF maps [OF step]] by (simp add: transformErrors_def parameterOneOf_def transformStep_def [of _ parameterOneOf])
  then show ?thesis using step by simp
qed

section \<open>What errors inherit\<close>

definition errOk :: "ErrModule \<Rightarrow> bool" where
  "errOk md \<longleftrightarrow> (\<exists>fs. er_state md = IMap fs) \<and> list_all isMap (errorList (er_state md))"

lemma setIn_top: "setIn [k] w (IMap fs) = Inr (IMap (jput k w fs))"
  by (simp add: setIn_def updateTree_def hasSet_def setChild_def)

lemma thrown_step:
  assumes "errOk md"
  shows "\<exists>md'. reduceErr env (NewThrownErr err) md = Inr md' \<and> errOk md' \<and>
    er_default md' = assignDefault ''thrown'' err (er_default md) \<and>
    (\<forall>f. f \<noteq> ''message'' \<longrightarrow> getIn (lastError (er_state md')) [f] = map_option fromJS (jget (er_default md') f))"
proof -
  obtain fs where fs: "er_state md = IMap fs" "list_all isMap (errorList (IMap fs))" using assms by (auto simp: errOk_def)
  let ?d = "assignDefault ''thrown'' err (er_default md)"
  let ?es = "errorList (IMap fs) @ [fromJS (TObj ?d)]"
  let ?md = "\<lparr>er_default = ?d, er_state = IMap (jput ''errors'' (IList (transformErrors ?es)) fs)\<rparr>"
  have same: "list_all2 sameButMessage ?es (transformErrors ?es)"
    using fs(2) by (intro transformErrors_same) (simp add: isMap_def)
  then have maps: "list_all isMap (transformErrors ?es)"
    by (induction rule: list_all2_induct) (auto simp: sameButMessage_def)
  obtain xs y where xy: "transformErrors ?es = xs @ [y]" "sameButMessage (fromJS (TObj ?d)) y"
    using same by (auto simp: list_all2_append1 list_all2_Cons1)
  have "reduceErr env (NewThrownErr err) md = Inr ?md"
    by (simp add: reduceErr_def Let_def withErrors_def fs(1) setIn_top)
  moreover have "errOk ?md" using maps by (simp add: errOk_def errorList_def getInOr_field)
  moreover have "getIn (lastError (er_state ?md)) [f] = map_option fromJS (jget ?d f)" if "f \<noteq> ''message''" for f
  proof -
    have "lastError (er_state ?md) = y"
      by (simp add: lastError_def allErrors_def getInOr_def childAt_def xy(1) del: fromJS.simps)
    then have "getIn (lastError (er_state ?md)) [f] = getIn (fromJS (TObj ?d)) [f]"
      using xy(2) that by (simp add: sameButMessage_def)
    then show ?thesis by (simp add: childAt_def jget_def map_of_map split: option.split)
  qed
  ultimately show ?thesis by fastforce
qed

text \<open>The field of the last of some objects that has it.\<close>

definition latestField :: "string \<Rightarrow> (string \<times> jstree) list list \<Rightarrow> jstree option" where
  "latestField f es = (case filter (\<lambda>ps. jget ps f \<noteq> None) (rev es) of [] \<Rightarrow> None | ps # _ \<Rightarrow> jget ps f)"

lemma latestField_snoc: "latestField f (es @ [ps]) = (case jget ps f of Some w \<Rightarrow> Some w | None \<Rightarrow> latestField f es)"
  by (auto simp: latestField_def split: option.split)

lemma thrown_history:
  assumes "list_all jmap_ok es" "f \<noteq> ''type''"
  shows "let md = foldl (reduceWith (reduceErr env)) \<lparr>er_default = DEFAULT_ERROR_STRUCTURE, er_state = IMap []\<rparr>
      (map (\<lambda>ps. NewThrownErr (TObj ps)) es) in
    errOk md \<and> jget (er_default md) f = latestField f (DEFAULT_ERROR_STRUCTURE # es)"
  using assms(1)
proof (induction es rule: rev_induct)
  case Nil
  have "latestField f [DEFAULT_ERROR_STRUCTURE] = jget DEFAULT_ERROR_STRUCTURE f" by (auto simp: latestField_def)
  then show ?case by (simp add: errOk_def errorList_def getInOr_field)
next
  case (snoc ps es)
  let ?md = "foldl (reduceWith (reduceErr env)) \<lparr>er_default = DEFAULT_ERROR_STRUCTURE, er_state = IMap []\<rparr>
      (map (\<lambda>ps. NewThrownErr (TObj ps)) es)"
  have md: "errOk ?md" "jget (er_default ?md) f = latestField f (DEFAULT_ERROR_STRUCTURE # es)" and ps: "jmap_ok ps"
    using snoc by (auto simp: Let_def)
  obtain md' where md': "reduceErr env (NewThrownErr (TObj ps)) ?md = Inr md'" "errOk md'"
    "er_default md' = assignDefault ''thrown'' (TObj ps) (er_default ?md)"
    using thrown_step [OF md(1)] by blast
  have "jget (er_default md') f = (case jget ps f of Some w \<Rightarrow> Some w | None \<Rightarrow> jget (er_default ?md) f)"
    using assms(2) by (simp add: md'(3) assignDefault_def jm.get_put entriesOf_def jget_jputAll_ok [OF ps] split: option.split)
  then have "jget (er_default md') f = latestField f (DEFAULT_ERROR_STRUCTURE # es @ [ps])"
    using latestField_snoc [of f "DEFAULT_ERROR_STRUCTURE # es" ps] unfolding md(2) by simp
  then show ?case using md'(1,2) by (simp add: Let_def)
qed

text \<open>C21: a thrown error is shown with the fields it does not have itself as the errors before it have left
  them: the structure of the defaults is the target it is assigned to.
\<close>

theorem thrown_errors_inherit:
  assumes "list_all jmap_ok (es @ [ps])" "f \<noteq> ''type''" "f \<noteq> ''message''"
  shows "getIn (lastError (er_state (foldl (reduceWith (reduceErr env)) \<lparr>er_default = DEFAULT_ERROR_STRUCTURE, er_state = IMap []\<rparr>
      (map (\<lambda>ps. NewThrownErr (TObj ps)) (es @ [ps]))))) [f]
    = map_option fromJS (latestField f (DEFAULT_ERROR_STRUCTURE # es @ [ps]))"
proof -
  let ?md = "foldl (reduceWith (reduceErr env)) \<lparr>er_default = DEFAULT_ERROR_STRUCTURE, er_state = IMap []\<rparr>
      (map (\<lambda>ps. NewThrownErr (TObj ps)) es)"
  have "errOk ?md" using thrown_history [of es f env] assms by (simp add: Let_def)
  then obtain md' where md': "reduceErr env (NewThrownErr (TObj ps)) ?md = Inr md'"
    "getIn (lastError (er_state md')) [f] = map_option fromJS (jget (er_default md') f)"
    using thrown_step assms(3) by blast
  moreover have "jget (er_default md') f = latestField f (DEFAULT_ERROR_STRUCTURE # es @ [ps])"
    using thrown_history [OF assms(1,2), of env] md'(1) by (simp add: Let_def)
  ultimately show ?thesis by simp
qed

text \<open>An error without a line gets the line of the one before.\<close>

theorem thrown_errors_inherit_witness:
  "getIn (lastError (er_state (foldl (reduceWith (reduceErr plainEnv)) \<lparr>er_default = DEFAULT_ERROR_STRUCTURE, er_state = IMap []\<rparr>
      [NewThrownErr (TObj [(''line'', TNum (Dec 7 0))]), NewThrownErr (TObj [(''source'', TStr ''fetch'')])]))) [''line'']
    = Some (TNum (Dec 7 0))"
  using thrown_errors_inherit [of "[[(''line'', TNum (Dec 7 0))]]" "[(''source'', TStr ''fetch'')]" "''line''" plainEnv]
  by (simp add: jmap_ok_def latestField_def jget_def)


section \<open>What a shell reads\<close>

text \<open>
  The words of a command line with double quotes; \<open>None\<close> for a character that means more to a
  shell than itself.
\<close>

definition shellSpecial :: "bool \<Rightarrow> char \<Rightarrow> bool" where
  "shellSpecial quoting c \<longleftrightarrow> c \<in> {CHR 0x5C, CHR ''$'', CHR 0x60, CHR ''!''} \<or>
    \<not> quoting \<and> (c \<in> set '';&|<>()*?[]#~'' \<or> c = CHR 0x27 \<or> c = nl)"

fun shellWords :: "bool \<Rightarrow> string option \<Rightarrow> string \<Rightarrow> string list option" where
  "shellWords q w [] = (if q then None else Some (case w of None \<Rightarrow> [] | Some v \<Rightarrow> [v]))"
| "shellWords q w (c # s) =
    (if c = CHR 0x22 then shellWords (\<not> q) (Some (case w of None \<Rightarrow> [] | Some v \<Rightarrow> v)) s
     else if shellSpecial q c then None
     else if c = CHR '' '' \<and> \<not> q then map_option (\<lambda>ws. (case w of None \<Rightarrow> [] | Some v \<Rightarrow> [v]) @ ws) (shellWords q None s)
     else shellWords q (Some ((case w of None \<Rightarrow> [] | Some v \<Rightarrow> v) @ [c])) s)"

definition quoteSafe :: "string \<Rightarrow> bool" where
  "quoteSafe s \<longleftrightarrow> list_all (\<lambda>c. c \<noteq> CHR 0x22 \<and> \<not> shellSpecial True c) s"

definition plainWord :: "string \<Rightarrow> bool" where
  "plainWord s \<longleftrightarrow> s \<noteq> [] \<and> list_all (\<lambda>c. c \<noteq> CHR 0x22 \<and> c \<noteq> CHR '' '' \<and> \<not> shellSpecial False c) s"

lemma shellWords_plain:
  "list_all (\<lambda>c. c \<noteq> CHR 0x22 \<and> c \<noteq> CHR '' '' \<and> \<not> shellSpecial False c) s
    \<Longrightarrow> shellWords False (Some v) (s @ t) = shellWords False (Some (v @ s)) t"
  by (induction s arbitrary: v) auto

lemma shellWords_quoted: "quoteSafe s \<Longrightarrow> shellWords True (Some v) (s @ t) = shellWords True (Some (v @ s)) t"
  by (induction s arbitrary: v) (auto simp: quoteSafe_def)

text \<open>A part of a command line that stands for some words.\<close>

definition reads :: "string \<Rightarrow> string list \<Rightarrow> bool" where
  "reads part ws \<longleftrightarrow> shellWords False None part = Some ws \<and>
    (\<forall>t. shellWords False None (part @ CHR '' '' # t) = map_option (\<lambda>vs. ws @ vs) (shellWords False None t))"

lemma append_one: "(@) [x] = (#) x"
  by (simp add: fun_eq_iff)

lemma reads_plain: "plainWord s \<Longrightarrow> reads s [s]"
proof (cases s)
  case (Cons c r)
  assume "plainWord s"
  then show ?thesis using shellWords_plain [of r "[c]" "[]"] shellWords_plain [of r "[c]" "CHR '' '' # t" for t]
    by (simp add: Cons reads_def plainWord_def shellSpecial_def nl_def append_one)
qed (simp add: plainWord_def)

lemma reads_quoted: "quoteSafe s \<Longrightarrow> reads (doubleQuoted s) [s]"
  using shellWords_quoted [of s "[]" "[CHR 0x22]"] shellWords_quoted [of s "[]" "CHR 0x22 # CHR '' '' # t" for t]
  by (simp add: reads_def doubleQuoted_def shellSpecial_def nl_def append_one)

lemma reads_option: "reads ''-H '' [''-H'']" "reads ''-X'' [''-X'']" "reads ''curl'' [''curl'']"
  by (simp_all add: reads_def shellSpecial_def nl_def append_one option.map_comp comp_def)

lemma reads_join: "list_all2 reads parts wss \<Longrightarrow> shellWords False None (joinWith '' '' parts) = Some (concat wss)"
proof (induction parts wss rule: list_all2_induct)
  case (Cons p ps w ws)
  then show ?case by (cases ps) (auto simp: reads_def)
qed simp

text \<open>C22: a request without a body, none of whose texts holds a quote or a character special in quotes: the
  words a shell reads from the command line are its method, its address and its headers.
\<close>

theorem curl_words:
  assumes "getInOr TUndef request [''method''] = TStr method" "plainWord method"
    and "getInOr TUndef request [''url''] = TStr url" "quoteSafe url"
    and "mapFields (getInOr TUndef request [''headers'']) = map (\<lambda>(h, v). (h, TStr v)) headers"
    and "list_all (\<lambda>(h, v). quoteSafe h \<and> quoteSafe v) headers"
    and "\<not> treeTruthy (getInOr TUndef request [''body''])"
  shows "shellWords False None (curl env jsonText request)
    = Some ([''curl'', ''-X'', method, url] @ concat (map (\<lambda>(h, v). [''-H'', h @ '': '' @ v]) headers))"
proof -
  let ?parts = "concat (map (\<lambda>(h, v). [''-H '', doubleQuoted (h @ '': '' @ v)]) headers)"
  let ?words = "concat (map (\<lambda>(h, v). [[''-H''], [h @ '': '' @ v]]) headers)"
  have texts: "concat (map (\<lambda>(h, v). [''-H '', doubleQuoted (h @ '': '' @ textOf env v)]) (map (\<lambda>(h, v). (h, TStr v)) headers)) = ?parts"
    by (induction headers) auto
  have "list_all2 reads ?parts ?words" using assms(6)
  proof (induction headers)
    case (Cons e headers)
    then show ?case
      using reads_option reads_quoted [of "fst e @ '': '' @ snd e"]
      by (auto simp: quoteSafe_def shellSpecial_def split: prod.splits)
  qed simp
  then have "list_all2 reads ([''curl'', ''-X'', method, doubleQuoted url] @ ?parts) ([[''curl''], [''-X''], [method], [url]] @ ?words)"
    using reads_option reads_plain [OF assms(2)] reads_quoted [OF assms(4)] by simp
  note read = reads_join [OF this]
  have words: "concat ([[''curl''], [''-X''], [method], [url]] @ ?words)
      = [''curl'', ''-X'', method, url] @ concat (map (\<lambda>(h, v). [''-H'', h @ '': '' @ v]) headers)"
    by (simp, induction headers) auto
  have "curl env jsonText request = joinWith '' '' ([''curl'', ''-X'', method, doubleQuoted url] @ ?parts)"
    by (simp add: curl_def Let_def assms(1,3,5,7) texts joinedText_def comp_def case_prod_unfold
        del: joinWith.simps)
  then show ?thesis using read words by simp
qed

theorem curl_words_witness:
  "shellWords False None (curl plainEnv (\<lambda>_. '''') (IMap
      [(''method'', TStr ''GET''), (''url'', TStr ''http://h/a b''), (''headers'', IMap [(''accept'', TStr ''text/*'')])]))
    = Some [''curl'', ''-X'', ''GET'', ''http://h/a b'', ''-H'', ''accept: text/*'']"
proof -
  let ?r = "IMap [(''method'', TStr ''GET''), (''url'', TStr ''http://h/a b''), (''headers'', IMap [(''accept'', TStr ''text/*'')])]"
  have "shellWords False None (curl plainEnv (\<lambda>_. '''') ?r)
    = Some ([''curl'', ''-X'', ''GET'', ''http://h/a b''] @ concat (map (\<lambda>(h, v). [''-H'', h @ '': '' @ v]) [(''accept'', ''text/*'')]))"
    by (rule curl_words; code_simp)
  then show ?thesis by simp
qed

end
