(* ===== verification/UiPlugins.thy ===== *)
theory UiPlugins
  imports UiStore
begin

text \<open>
  How the store of the pages is put together from plugins: \<open>systemExtend\<close>, \<open>combinePlugins\<close>,
  \<open>callAfterLoad\<close> and the wrapping of actions and components in \<open>core/system.js\<close>, and
  \<open>object-assign-deep\<close>, which it copies plugins with. The fields that the code walks through are taken
  for objects where they are there; a function is a value of type \<open>'f\<close>.
\<close>

section \<open>Values\<close>

datatype 'f sysval =
    SUndef
  | SPrim jstree
  | SFun 'f
  | SArr "'f sysval list"
  | SObj "(string \<times> 'f sysval) list"

type_synonym 'f fields = "(string \<times> 'f sysval) list"

definition sysTruthy :: "'f sysval \<Rightarrow> bool" where
  "sysTruthy v = (case v of SUndef \<Rightarrow> False | SPrim p \<Rightarrow> treeTruthy p | _ \<Rightarrow> True)"

section \<open>Copies\<close>

text \<open>\<open>object-assign-deep\<close>: a copy, and an object merged into another, which replaces arrays.\<close>

fun cloneValue :: "'f sysval \<Rightarrow> 'f sysval" where
  "cloneValue (SObj fs) = SObj (map (\<lambda>(k, v). (k, cloneValue v)) fs)"
| "cloneValue (SArr vs) = SArr (map cloneValue vs)"
| "cloneValue v = v"

definition cloneFields :: "'f fields \<Rightarrow> 'f fields" where
  "cloneFields fs = map (\<lambda>(k, v). (k, cloneValue v)) fs"

lemma cloneValue_id [simp]: "cloneValue v = v"
proof (induction v rule: cloneValue.induct)
  case (1 fs)
  then show ?case by (auto intro!: map_idI)
next
  case (2 vs)
  then show ?case by (auto intro!: map_idI)
qed simp_all

lemma cloneFields_id [simp]: "cloneFields fs = fs"
  by (auto simp: cloneFields_def intro!: map_idI)

lemma size_field: "(k, v) \<in> set fs \<Longrightarrow> size v < size_list (size_prod (\<lambda>_. 0) size) fs"
  by (induction fs) auto

function mergeFields :: "'f fields \<Rightarrow> 'f fields \<Rightarrow> 'f fields" where
  "mergeFields target object =
    jputAll target (map (\<lambda>(k, v). (k, case v of
        SObj vs \<Rightarrow>
          (case jget target k of
             None \<Rightarrow> cloneValue v
           | Some SUndef \<Rightarrow> cloneValue v
           | Some (SObj es) \<Rightarrow> SObj (mergeFields (cloneFields es) (cloneFields vs))
           | Some _ \<Rightarrow> SObj (mergeFields [] (cloneFields vs)))
      | SArr vs \<Rightarrow> cloneValue v
      | _ \<Rightarrow> v)) object)"
  by pat_completeness auto
termination
  by (relation "measure (\<lambda>(target, object). size_list (size_prod (\<lambda>_. 0) size) object)") (auto dest: size_field)

declare mergeFields.simps [simp del]

definition objectAssignDeep :: "'f fields \<Rightarrow> 'f fields list \<Rightarrow> 'f fields" where
  "objectAssignDeep target objects = foldl mergeFields target objects"

section \<open>Extending a system\<close>

text \<open>\<open>dest.components && dest.components[key]\<close>.\<close>

definition componentAt :: "'f fields \<Rightarrow> string \<Rightarrow> 'f sysval" where
  "componentAt fs key = (case jget fs ''components'' of
     Some (SObj cs) \<Rightarrow> (case jget cs key of None \<Rightarrow> SUndef | Some v \<Rightarrow> v)
   | _ \<Rightarrow> SUndef)"

definition setComponent :: "string \<Rightarrow> 'f sysval \<Rightarrow> 'f fields \<Rightarrow> 'f fields" where
  "setComponent key v fs = (case jget fs ''components'' of
     Some (SObj cs) \<Rightarrow> jput ''components'' (SObj (jput key v cs)) fs
   | _ \<Rightarrow> fs)"

text \<open>One wrapper of a component, which leaves \<open>src.wrapComponents\<close> when it is used.\<close>

definition wrapComponent :: "string \<times> 'f sysval \<Rightarrow> 'f fields \<times> 'f fields \<Rightarrow> 'f fields \<times> 'f fields" where
  "wrapComponent = (\<lambda>(key, wrapperFn) (dest, wrapComponents).
     (let ori = componentAt dest key in
      case ori of
        SArr os \<Rightarrow> (setComponent key (SArr (os @ [wrapperFn])) dest, jremove key wrapComponents)
      | _ \<Rightarrow>
        if sysTruthy ori then (setComponent key (SArr [ori, wrapperFn]) dest, jremove key wrapComponents)
        else (dest, wrapComponents)))"

definition wrapAllComponents :: "'f fields \<Rightarrow> 'f fields \<Rightarrow> 'f fields \<times> 'f fields" where
  "wrapAllComponents dest src = (case jget src ''wrapComponents'' of
     Some (SObj ws) \<Rightarrow>
       (let (dest, rest) = fold wrapComponent ws (dest, ws) in
        (dest, if rest = [] then jremove ''wrapComponents'' src else jput ''wrapComponents'' (SObj rest) src))
   | _ \<Rightarrow> (dest, src))"

text \<open>The wrappers of an action of a namespace; a single one and a list of them.\<close>

definition wrapsAt :: "'f fields \<Rightarrow> string \<Rightarrow> string \<Rightarrow> 'f sysval option" where
  "wrapsAt fs namespace actionName = (case jget fs ''statePlugins'' of
     Some (SObj sps) \<Rightarrow>
       (case jget sps namespace of
          Some (SObj nfs) \<Rightarrow>
            (case jget nfs ''wrapActions'' of Some (SObj ws) \<Rightarrow> jget ws actionName | _ \<Rightarrow> None)
        | _ \<Rightarrow> None)
   | _ \<Rightarrow> None)"

definition listed :: "'f sysval \<Rightarrow> 'f sysval list" where
  "listed v = (case v of SArr vs \<Rightarrow> vs | _ \<Rightarrow> [v])"

definition setWraps :: "string \<Rightarrow> string \<Rightarrow> 'f sysval \<Rightarrow> 'f fields \<Rightarrow> 'f fields" where
  "setWraps namespace actionName v fs = (case jget fs ''statePlugins'' of
     Some (SObj sps) \<Rightarrow>
       (case jget sps namespace of
          Some (SObj nfs) \<Rightarrow>
            (case jget nfs ''wrapActions'' of
               Some (SObj ws) \<Rightarrow>
                 jput ''statePlugins'' (SObj (jput namespace (SObj (jput ''wrapActions'' (SObj (jput actionName v ws)) nfs)) sps)) fs
             | _ \<Rightarrow> fs)
        | _ \<Rightarrow> fs)
   | _ \<Rightarrow> fs)"

text \<open>The wrappers of \<open>dest\<close> become lists, and stand before those of \<open>src\<close> for the same action.\<close>

definition arrayedActions :: "'f sysval \<Rightarrow> 'f sysval" where
  "arrayedActions v = (case v of
     SObj nfs \<Rightarrow>
       (case jget nfs ''wrapActions'' of
          Some (SObj ws) \<Rightarrow> SObj (jput ''wrapActions'' (SObj (map (\<lambda>(a, w). (a, SArr (listed w))) ws)) nfs)
        | _ \<Rightarrow> v)
   | _ \<Rightarrow> v)"

definition wrapEntries :: "'f fields \<Rightarrow> ((string \<times> string) \<times> 'f sysval) list" where
  "wrapEntries sps = concat (map (\<lambda>(namespace, v). case v of
      SObj nfs \<Rightarrow> (case jget nfs ''wrapActions'' of Some (SObj ws) \<Rightarrow> map (\<lambda>(a, w). ((namespace, a), w)) ws | _ \<Rightarrow> [])
    | _ \<Rightarrow> []) sps)"

definition joinWraps :: "(string \<times> string) \<times> 'f sysval \<Rightarrow> 'f fields \<Rightarrow> 'f fields" where
  "joinWraps = (\<lambda>((namespace, a), w) src. (case wrapsAt src namespace a of
     Some u \<Rightarrow> if sysTruthy u then setWraps namespace a (SArr (listed w @ listed u)) src else src
   | None \<Rightarrow> src))"

text \<open>
  \<open>systemExtend\<close> on two objects. \<open>deepExtend\<close> is the package \<open>deep-extend\<close>, which is not part of the
  repository.
\<close>

definition systemExtend :: "('f fields \<Rightarrow> 'f fields \<Rightarrow> 'f fields) \<Rightarrow> 'f fields \<Rightarrow> 'f fields \<Rightarrow> 'f fields" where
  "systemExtend deepExtend dest src =
    (let (dest, src) = wrapAllComponents dest src in
     case jget dest ''statePlugins'' of
       Some (SObj sps) \<Rightarrow>
         deepExtend (jput ''statePlugins'' (SObj (map (\<lambda>(ns, v). (ns, arrayedActions v)) sps)) dest)
           (fold joinWraps (wrapEntries sps) src)
     | _ \<Rightarrow> deepExtend dest src)"

section \<open>Plugins\<close>

text \<open>A plugin: an object, a function of the system that returns a plugin, a list of plugins, or what is ignored.\<close>

datatype ('t, 'f) Plugin =
    PlObj "'f fields"
  | PlFun "'t \<Rightarrow> ('t, 'f) Plugin"
  | PlArr "('t, 'f) Plugin list"
  | PlOther

primrec combinePlugins :: "('f fields \<Rightarrow> 'f fields \<Rightarrow> 'f fields) \<Rightarrow> 't \<Rightarrow> ('t, 'f) Plugin \<Rightarrow> 'f fields" where
  "combinePlugins deepExtend toolbox (PlObj fs) = objectAssignDeep [] [fs]"
| "combinePlugins deepExtend toolbox (PlFun g) = combinePlugins deepExtend toolbox (g toolbox)"
| "combinePlugins deepExtend toolbox (PlArr ps) = foldl (systemExtend deepExtend) [] (map (combinePlugins deepExtend toolbox) ps)"
| "combinePlugins deepExtend toolbox PlOther = []"

text \<open>
  \<open>callAfterLoad\<close>: the functions it calls, in their order, and whether its result is true; that of a
  list of plugins is an array, which is.
\<close>

primrec callAfterLoad :: "'t \<Rightarrow> ('t, 'f) Plugin \<Rightarrow> bool \<Rightarrow> 'f list \<times> bool" where
  "callAfterLoad system (PlObj fs) hasLoaded =
    (case jget fs ''afterLoad'' of Some (SFun f) \<Rightarrow> ([f], True) | _ \<Rightarrow> ([], hasLoaded))"
| "callAfterLoad system (PlFun g) hasLoaded = callAfterLoad system (g system) hasLoaded"
| "callAfterLoad system (PlArr ps) hasLoaded = (concat (map fst (map (\<lambda>r. r hasLoaded) (map (callAfterLoad system) ps))), True)"
| "callAfterLoad system PlOther hasLoaded = ([], hasLoaded)"

text \<open>\<open>register\<close>: the new system, what is called after loading, and how often the system is rebuilt.\<close>

definition register :: "('f fields \<Rightarrow> 'f fields \<Rightarrow> 'f fields) \<Rightarrow> 't \<Rightarrow> ('t, 'f) Plugin \<Rightarrow> bool \<Rightarrow> 'f fields
    \<Rightarrow> 'f fields \<times> 'f list \<times> nat" where
  "register deepExtend toolbox plugins rebuild system =
    (let (called, needAnotherRebuild) = callAfterLoad toolbox plugins False in
     (systemExtend deepExtend system (combinePlugins deepExtend toolbox plugins), called,
      of_bool rebuild + of_bool needAnotherRebuild))"

section \<open>Wrapped actions and components\<close>

text \<open>
  An action is a program on a world of any type; \<open>interp\<close> makes a wrapper of a value of type \<open>'f\<close>. What
  is thrown in a wrapper is logged, and its result is \<open>null\<close>.
\<close>

type_synonym ('a, 'w, 'r) action = "'a \<Rightarrow> 'w \<Rightarrow> (JsFailure + 'r) \<times> 'w"

definition tryAction :: "'r \<Rightarrow> ('a, 'w, 'r) action \<Rightarrow> ('a, 'w, 'r) action" where
  "tryAction jsNull act args w = (case act args w of (Inl e, w') \<Rightarrow> (Inr jsNull, w') | r \<Rightarrow> r)"

definition wrapAction :: "('f \<Rightarrow> ('a, 'w, 'r) action \<Rightarrow> ('a, 'w, 'r) action) \<Rightarrow> 'r \<Rightarrow> ('a, 'w, 'r) action \<Rightarrow> 'f sysval
    \<Rightarrow> ('a, 'w, 'r) action" where
  "wrapAction interp jsNull acc fn =
    tryAction jsNull (case fn of
      SFun f \<Rightarrow> interp f acc
    | _ \<Rightarrow> (\<lambda>args w. (Inl (TypeError ''fn is not a function''), w)))"

definition wrappedAction :: "('f \<Rightarrow> ('a, 'w, 'r) action \<Rightarrow> ('a, 'w, 'r) action) \<Rightarrow> 'r \<Rightarrow> 'f fields \<Rightarrow> string \<Rightarrow> string
    \<Rightarrow> ('a, 'w, 'r) action \<Rightarrow> ('a, 'w, 'r) action" where
  "wrappedAction interp jsNull system namespace actionName act =
    (case wrapsAt system namespace actionName of
       None \<Rightarrow> act
     | Some wrap \<Rightarrow> if sysTruthy wrap then foldl (wrapAction interp jsNull) act (listed wrap) else act)"

text \<open>\<open>getComponents\<close> of a name: a list is reduced, its first element is the component without its wrappers.\<close>

definition componentFor :: "('f sysval \<Rightarrow> 'f sysval \<Rightarrow> 'f sysval) \<Rightarrow> 'f fields \<Rightarrow> string \<Rightarrow> JsFailure + 'f sysval" where
  "componentFor callWith system key = (case componentAt system key of
     SArr [] \<Rightarrow> Inl (TypeError ''Reduce of empty array with no initial value'')
   | SArr (ori # wrappers) \<Rightarrow> Inr (foldl (\<lambda>ori wrapper. callWith wrapper ori) ori wrappers)
   | v \<Rightarrow> Inr v)"

end
