(* ===== verification/UiPluginsSpec.thy ===== *)
theory UiPluginsSpec
  imports UiPlugins
begin

text \<open>
  The plugins of the pages: the wrappers of an action are those of all plugins, in their order, and
  what wrappers of components and selectors lose.
\<close>

section \<open>Objects\<close>

text \<open>Objects at every depth have each of their fields once.\<close>

fun sysOk :: "'f sysval \<Rightarrow> bool" where
  "sysOk (SObj fs) \<longleftrightarrow> jmap_ok fs \<and> list_all (\<lambda>(k, v). sysOk v) fs"
| "sysOk (SArr vs) \<longleftrightarrow> list_all sysOk vs"
| "sysOk v \<longleftrightarrow> True"

abbreviation fieldsOk :: "'f fields \<Rightarrow> bool" where
  "fieldsOk fs \<equiv> sysOk (SObj fs)"

lemma jget_in: "jget fs k = Some v \<Longrightarrow> (k, v) \<in> set fs"
  by (simp add: jget_def map_of_SomeD)

lemma jput_entry: "e \<in> set (jput k v fs) \<Longrightarrow> e = (k, v) \<or> e \<in> set fs"
  using set_jput [of k v fs] by auto

lemma sysOk_jget: "fieldsOk fs \<Longrightarrow> jget fs k = Some v \<Longrightarrow> sysOk v"
  by (auto dest: jget_in simp: list_all_iff)

lemma fieldsOk_jput: "fieldsOk fs \<Longrightarrow> sysOk v \<Longrightarrow> fieldsOk (jput k v fs)"
  by (auto simp: list_all_iff dest!: jput_entry)

lemma fieldsOk_jputAll: "fieldsOk fs \<Longrightarrow> list_all (\<lambda>(k, v). sysOk v) es \<Longrightarrow> fieldsOk (jputAll fs es)"
  by (induction fs es rule: jputAll.induct) (auto intro!: fieldsOk_jput simp del: sysOk.simps)

lemma fieldsOk_jremove: "fieldsOk fs \<Longrightarrow> fieldsOk (jremove k fs)"
proof -
  have "set (jremove k fs) \<subseteq> set fs" by (auto simp: jremove_def AList.delete_eq)
  then show "fieldsOk fs \<Longrightarrow> fieldsOk (jremove k fs)" by (auto simp: list_all_iff)
qed

section \<open>Extending objects\<close>

text \<open>
  What the code relies on of \<open>deep-extend\<close>: an object is merged into an object, field by field, and
  replaces anything else; what is no object replaces anything.
\<close>

locale deep_extend =
  fixes extend :: "'f fields \<Rightarrow> 'f fields \<Rightarrow> 'f fields"
  assumes extend_ok: "fieldsOk d \<Longrightarrow> fieldsOk s \<Longrightarrow> fieldsOk (extend d s)"
    and extend_field: "fieldsOk d \<Longrightarrow> fieldsOk s \<Longrightarrow> jget (extend d s) k =
      (case jget s k of
         None \<Rightarrow> jget d k
       | Some (SObj es) \<Rightarrow> Some (SObj (extend (case jget d k of Some (SObj ds) \<Rightarrow> ds | _ \<Rightarrow> []) es))
       | Some v \<Rightarrow> Some v)"

begin

lemma extend_object:
  assumes "fieldsOk d" "fieldsOk s" "jget s k = Some (SObj es)"
  shows "jget (extend d s) k = Some (SObj (extend (case jget d k of Some (SObj ds) \<Rightarrow> ds | _ \<Rightarrow> []) es))"
    and "fieldsOk (case jget d k of Some (SObj ds) \<Rightarrow> ds | _ \<Rightarrow> [])" and "fieldsOk es"
  using assms extend_field [OF assms(1,2), of k] sysOk_jget [OF assms(1)] sysOk_jget [OF assms(2,3)]
  by (auto simp del: sysOk.simps split: option.splits sysval.splits) (simp_all add: jmap_ok_def)

end

text \<open>\<open>object-assign-deep\<close> keeps this contract.\<close>

definition mergedValue :: "'f sysval option \<Rightarrow> 'f sysval \<Rightarrow> 'f sysval" where
  "mergedValue existing v = (case v of
     SObj vs \<Rightarrow>
       (case existing of
          None \<Rightarrow> v | Some SUndef \<Rightarrow> v
        | Some (SObj es) \<Rightarrow> SObj (mergeFields es vs)
        | Some _ \<Rightarrow> SObj (mergeFields [] vs))
   | _ \<Rightarrow> v)"

lemma mergeFields_eq: "mergeFields d s = jputAll d (map (\<lambda>(k, v). (k, mergedValue (jget d k) v)) s)"
  by (subst mergeFields.simps)
    (auto simp: mergedValue_def intro!: arg_cong [where f = "jputAll d"] map_cong split: sysval.splits option.splits)

lemma jget_keyed: "jget (map (\<lambda>(k, v). (k, f k v)) fs) k = map_option (f k) (jget fs k)"
  by (induction fs) (auto simp: jget_def)

lemma jmap_ok_keyed: "jmap_ok (map (\<lambda>(k, v). (k, f k v)) fs) = jmap_ok fs"
  by (simp add: jmap_ok_def comp_def case_prod_unfold)

lemma jget_mergeFields:
  "jmap_ok s \<Longrightarrow> jget (mergeFields d s) k = (case jget s k of None \<Rightarrow> jget d k | Some v \<Rightarrow> Some (mergedValue (jget d k) v))"
  by (simp add: mergeFields_eq jget_jputAll_ok jmap_ok_keyed jget_keyed split: option.split)

lemma jputAll_new: "jmap_ok es \<Longrightarrow> fst ` set es \<inter> fst ` set m = {} \<Longrightarrow> jputAll m es = m @ es"
  by (induction m es rule: jputAll.induct) (auto simp: jmap_ok_def jput_fresh)

lemma mergeFields_empty: "jmap_ok s \<Longrightarrow> mergeFields [] s = s"
proof -
  have "map (\<lambda>(k, v). (k, mergedValue (jget [] k) v)) s = s"
    by (auto simp: mergedValue_def intro!: map_idI split: sysval.splits)
  then show "jmap_ok s \<Longrightarrow> mergeFields [] s = s" by (simp add: mergeFields_eq jputAll_new)
qed

lemma mergeFields_ok: "fieldsOk d \<Longrightarrow> fieldsOk s \<Longrightarrow> fieldsOk (mergeFields d s)"
proof (induction d s rule: mergeFields.induct)
  case (1 d s)
  have "sysOk (mergedValue (jget d k) v)" if kv: "(k, v) \<in> set s" for k v
  proof -
    have v: "sysOk v" using kv "1.prems"(2) by (auto simp: list_all_iff)
    show ?thesis
    proof (cases v)
      case (SObj vs)
      have merged: "fieldsOk (mergeFields es vs)" if "jget d k = Some (SObj es)" for es
        using "1.IH"(4) [OF kv refl SObj that refl] sysOk_jget [OF "1.prems"(1) that] v SObj by simp
      moreover have "fieldsOk (mergeFields [] vs)" using v SObj by (simp add: mergeFields_empty)
      ultimately show ?thesis using v SObj by (auto simp: mergedValue_def simp del: sysOk.simps split: option.split sysval.split)
    qed (use v in \<open>simp_all add: mergedValue_def\<close>)
  qed
  then show ?case
    unfolding mergeFields_eq by (intro fieldsOk_jputAll [OF "1.prems"(1)]) (auto simp: list_all_iff)
qed

interpretation oad: deep_extend mergeFields
proof
  fix d s :: "'a fields" and k
  assume d: "fieldsOk d" and s: "fieldsOk s"
  show "fieldsOk (mergeFields d s)" by (rule mergeFields_ok [OF d s])
  have "jmap_ok es" if "jget s k = Some (SObj es)" for es using sysOk_jget [OF s that] by simp
  then show "jget (mergeFields d s) k =
      (case jget s k of
         None \<Rightarrow> jget d k
       | Some (SObj es) \<Rightarrow> Some (SObj (mergeFields (case jget d k of Some (SObj ds) \<Rightarrow> ds | _ \<Rightarrow> []) es))
       | Some v \<Rightarrow> Some v)"
    using s by (auto simp: jget_mergeFields mergedValue_def mergeFields_empty split: option.split sysval.split)
qed

section \<open>Wrappers of an extended object\<close>

text \<open>Plugins whose namespaces and wrappers are what the code takes them for.\<close>

definition wrapOk :: "'f sysval \<Rightarrow> bool" where
  "wrapOk w = (case w of SFun _ \<Rightarrow> True | SArr _ \<Rightarrow> True | _ \<Rightarrow> False)"

definition actionsOk :: "'f sysval option \<Rightarrow> bool" where
  "actionsOk v = (case v of None \<Rightarrow> True | Some (SObj ws) \<Rightarrow> list_all (\<lambda>(a, w). wrapOk w) ws | _ \<Rightarrow> False)"

definition namespaceOk :: "'f sysval \<Rightarrow> bool" where
  "namespaceOk v = (case v of SObj nfs \<Rightarrow> actionsOk (jget nfs ''wrapActions'') | _ \<Rightarrow> False)"

definition statesOk :: "'f sysval option \<Rightarrow> bool" where
  "statesOk v = (case v of None \<Rightarrow> True | Some (SObj sps) \<Rightarrow> list_all (\<lambda>(ns, v). namespaceOk v) sps | _ \<Rightarrow> False)"

definition pluginOk :: "'f fields \<Rightarrow> bool" where
  "pluginOk fs \<longleftrightarrow> fieldsOk fs \<and> statesOk (jget fs ''statePlugins'')"

definition actionWraps :: "'f sysval option \<Rightarrow> string \<Rightarrow> 'f sysval option" where
  "actionWraps v a = (case v of Some (SObj ws) \<Rightarrow> jget ws a | _ \<Rightarrow> None)"

definition namespaceWraps :: "'f sysval option \<Rightarrow> string \<Rightarrow> 'f sysval option" where
  "namespaceWraps v a = (case v of Some (SObj nfs) \<Rightarrow> actionWraps (jget nfs ''wrapActions'') a | _ \<Rightarrow> None)"

lemma wrapsAt_eq:
  "wrapsAt fs ns a = (case jget fs ''statePlugins'' of Some (SObj sps) \<Rightarrow> namespaceWraps (jget sps ns) a | _ \<Rightarrow> None)"
  by (simp add: wrapsAt_def namespaceWraps_def actionWraps_def split: option.split sysval.split)

lemma entries_all: "jmap_ok fs \<Longrightarrow> list_all (\<lambda>(k, v). P v) fs \<longleftrightarrow> (\<forall>k v. jget fs k = Some v \<longrightarrow> P v)"
  by (auto simp: list_all_iff jget_def jmap_ok_def dest: map_of_SomeD)

lemma wrapOk_cases: "wrapOk w \<Longrightarrow> (\<And>f. w = SFun f \<Longrightarrow> P) \<Longrightarrow> (\<And>vs. w = SArr vs \<Longrightarrow> P) \<Longrightarrow> P"
  by (cases w) (auto simp: wrapOk_def)

abbreviation over :: "'b option \<Rightarrow> 'b option \<Rightarrow> 'b option" where
  "over new old \<equiv> (case new of None \<Rightarrow> old | Some v \<Rightarrow> Some v)"

context deep_extend
begin

abbreviation objectOf :: "'f sysval option \<Rightarrow> 'f fields" where
  "objectOf v \<equiv> (case v of Some (SObj fs) \<Rightarrow> fs | _ \<Rightarrow> [])"

lemma extend_wraps:
  assumes "fieldsOk d" "fieldsOk s" "list_all (\<lambda>(a, w). wrapOk w) d" "list_all (\<lambda>(a, w). wrapOk w) s"
  shows "jget (extend d s) a = over (jget s a) (jget d a)" "list_all (\<lambda>(a, w). wrapOk w) (extend d s)"
proof -
  show field: "jget (extend d s) a = over (jget s a) (jget d a)" for a
  proof (cases "jget s a")
    case (Some w)
    then have "wrapOk w" using assms(4) by (auto simp: list_all_iff dest: jget_in)
    then show ?thesis using extend_field [OF assms(1,2), of a] Some by (auto elim: wrapOk_cases)
  qed (simp add: extend_field [OF assms(1,2)])
  have "jmap_ok (extend d s)" using extend_ok [OF assms(1,2)] by simp
  then show "list_all (\<lambda>(a, w). wrapOk w) (extend d s)"
    using assms by (auto simp: entries_all field split: option.splits)
qed

lemma extend_namespace:
  assumes "fieldsOk d" "fieldsOk s" "actionsOk (jget d ''wrapActions'')" "actionsOk (jget s ''wrapActions'')"
  shows "actionsOk (jget (extend d s) ''wrapActions'')"
    and "actionWraps (jget (extend d s) ''wrapActions'') a
      = over (actionWraps (jget s ''wrapActions'') a) (actionWraps (jget d ''wrapActions'') a)"
proof -
  have "actionsOk (jget (extend d s) ''wrapActions'') \<and> actionWraps (jget (extend d s) ''wrapActions'') a
      = over (actionWraps (jget s ''wrapActions'') a) (actionWraps (jget d ''wrapActions'') a)"
  proof (cases "jget s ''wrapActions''")
    case None
    then show ?thesis using assms(3) by (simp add: extend_field [OF assms(1,2)] actionWraps_def)
  next
    case (Some v)
    then obtain ws where ws: "jget s ''wrapActions'' = Some (SObj ws)" "list_all (\<lambda>(a, w). wrapOk w) ws"
      using assms(4) by (auto simp: actionsOk_def split: sysval.splits)
    have "list_all (\<lambda>(a, w). wrapOk w) (objectOf (jget d ''wrapActions''))"
      using assms(3) by (auto simp: actionsOk_def split: option.splits sysval.splits)
    note both = extend_object [OF assms(1,2) ws(1)]
      extend_wraps [OF extend_object(2,3) [OF assms(1,2) ws(1)] this ws(2)]
    show ?thesis using assms(3) by (auto simp: both ws(1) actionsOk_def actionWraps_def split: option.splits sysval.splits)
  qed
  then show "actionsOk (jget (extend d s) ''wrapActions'')"
    "actionWraps (jget (extend d s) ''wrapActions'') a
      = over (actionWraps (jget s ''wrapActions'') a) (actionWraps (jget d ''wrapActions'') a)" by blast+
qed

end

lemma namespaceOk_cases: "namespaceOk v \<Longrightarrow> (\<And>nfs. v = SObj nfs \<Longrightarrow> actionsOk (jget nfs ''wrapActions'') \<Longrightarrow> P) \<Longrightarrow> P"
  by (cases v) (auto simp: namespaceOk_def)

lemma statesOk_some: "statesOk v \<Longrightarrow> v = None \<or> (\<exists>sps. v = Some (SObj sps) \<and> list_all (\<lambda>(ns, v). namespaceOk v) sps)"
  by (auto simp: statesOk_def split: option.splits sysval.splits)

context deep_extend
begin

lemma extend_states:
  assumes "fieldsOk d" "fieldsOk s" "list_all (\<lambda>(ns, v). namespaceOk v) d" "list_all (\<lambda>(ns, v). namespaceOk v) s"
  shows "list_all (\<lambda>(ns, v). namespaceOk v) (extend d s)"
    and "namespaceWraps (jget (extend d s) ns) a = over (namespaceWraps (jget s ns) a) (namespaceWraps (jget d ns) a)"
proof -
  have each: "(case jget (extend d s) ns of None \<Rightarrow> True | Some v \<Rightarrow> namespaceOk v) \<and>
    namespaceWraps (jget (extend d s) ns) a = over (namespaceWraps (jget s ns) a) (namespaceWraps (jget d ns) a)" for ns a
  proof (cases "jget s ns")
    case None
    then show ?thesis using assms(1,3)
      by (auto simp: extend_field [OF assms(1,2)] namespaceWraps_def list_all_iff dest!: jget_in split: option.split)
  next
    case (Some v)
    then have "namespaceOk v" using assms(4) by (auto simp: list_all_iff dest: jget_in)
    then obtain nfs where nfs: "jget s ns = Some (SObj nfs)" "actionsOk (jget nfs ''wrapActions'')"
      using Some by (auto elim: namespaceOk_cases)
    have d: "actionsOk (jget (objectOf (jget d ns)) ''wrapActions'')"
    proof (cases "jget d ns")
      case (Some v)
      then have "namespaceOk v" using assms(3) by (auto simp: list_all_iff dest: jget_in)
      then show ?thesis using Some by (auto elim: namespaceOk_cases)
    qed (simp add: actionsOk_def)
    have old: "actionWraps (jget (objectOf (jget d ns)) ''wrapActions'') a = namespaceWraps (jget d ns) a"
      by (simp add: namespaceWraps_def actionWraps_def split: option.split sysval.split)
    then show ?thesis
      using extend_object [OF assms(1,2) nfs(1)] extend_namespace [OF extend_object(2,3) [OF assms(1,2) nfs(1)] d nfs(2)] nfs(1) old
      by (simp add: namespaceOk_def namespaceWraps_def [of "Some x" for x] cong: option.case_cong)
  qed
  then show "namespaceWraps (jget (extend d s) ns) a = over (namespaceWraps (jget s ns) a) (namespaceWraps (jget d ns) a)"
    by blast
  have "jmap_ok (extend d s)" using extend_ok [OF assms(1,2)] by simp
  moreover have "jget (extend d s) k = Some v \<Longrightarrow> namespaceOk v" for k v using each [of k] by auto
  ultimately show "list_all (\<lambda>(ns, v). namespaceOk v) (extend d s)" by (simp add: entries_all)
qed

lemma extend_plugin:
  assumes "pluginOk d" "pluginOk s"
  shows "pluginOk (extend d s)" and "wrapsAt (extend d s) ns a = over (wrapsAt s ns a) (wrapsAt d ns a)"
proof -
  have ok: "fieldsOk d" "fieldsOk s" and states: "statesOk (jget d ''statePlugins'')" "statesOk (jget s ''statePlugins'')"
    using assms by (simp_all add: pluginOk_def)
  have "statesOk (jget (extend d s) ''statePlugins'') \<and> wrapsAt (extend d s) ns a = over (wrapsAt s ns a) (wrapsAt d ns a)"
  proof (cases "jget s ''statePlugins''")
    case None
    then show ?thesis using states(1) by (simp add: extend_field [OF ok] wrapsAt_eq)
  next
    case (Some v)
    then obtain es where es: "jget s ''statePlugins'' = Some (SObj es)" "list_all (\<lambda>(ns, v). namespaceOk v) es"
      using statesOk_some [OF states(2)] by auto
    have ds: "list_all (\<lambda>(ns, v). namespaceOk v) (objectOf (jget d ''statePlugins''))"
      using statesOk_some [OF states(1)] by auto
    have old: "namespaceWraps (jget (objectOf (jget d ''statePlugins'')) ns) a = wrapsAt d ns a"
      by (simp add: wrapsAt_eq namespaceWraps_def split: option.split sysval.split)
    then show ?thesis
      using extend_object [OF ok es(1)] extend_states [OF extend_object(2,3) [OF ok es(1)] ds es(2)] es(1) old
      by (simp add: statesOk_def wrapsAt_eq [of s] wrapsAt_eq [of "extend d s"] cong: option.case_cong)
  qed
  then show "pluginOk (extend d s)" "wrapsAt (extend d s) ns a = over (wrapsAt s ns a) (wrapsAt d ns a)"
    using extend_ok [OF ok] by (simp_all add: pluginOk_def del: sysOk.simps)
qed

end

section \<open>Wrappers of an extended system\<close>

lemma sysOk_listed: "sysOk v \<Longrightarrow> list_all sysOk (listed v)"
  by (cases v) (simp_all add: listed_def)

lemma setComponent_ok: "fieldsOk fs \<Longrightarrow> sysOk v \<Longrightarrow> fieldsOk (setComponent key v fs)"
  by (auto simp: setComponent_def simp del: sysOk.simps split: option.split sysval.split intro!: fieldsOk_jput dest: sysOk_jget)

lemma setComponent_other: "jget (setComponent key v fs) ''statePlugins'' = jget fs ''statePlugins''"
  by (simp add: setComponent_def jm.get_put split: option.split sysval.split)

lemma componentAt_ok: "fieldsOk fs \<Longrightarrow> sysOk (componentAt fs key)"
  by (auto simp: componentAt_def simp del: sysOk.simps split: option.split sysval.split dest: sysOk_jget)
    (auto dest: sysOk_jget)

lemma wrapComponent_keeps:
  assumes "fieldsOk d" "fieldsOk ws" "sysOk w" "wrapComponent (key, w) (d, ws) = (d', ws')"
  shows "fieldsOk d' \<and> fieldsOk ws' \<and> jget d' ''statePlugins'' = jget d ''statePlugins''"
proof -
  have "sysOk (SArr (listed (componentAt d key) @ [w]))"
    using sysOk_listed [OF componentAt_ok [OF assms(1)]] assms(3) by simp
  then have "fieldsOk (setComponent key (SArr (listed (componentAt d key) @ [w])) d)"
    by (rule setComponent_ok [OF assms(1)])
  then show ?thesis
    using assms(1,2,4) fieldsOk_jremove [OF assms(2), of key]
    by (auto simp: wrapComponent_def Let_def setComponent_other listed_def simp del: sysOk.simps split: sysval.splits if_splits)
qed

lemma wrapComponents_keep:
  "fieldsOk d \<Longrightarrow> fieldsOk ws \<Longrightarrow> list_all (\<lambda>(k, v). sysOk v) es \<Longrightarrow> fold wrapComponent es (d, ws) = (d', ws')
    \<Longrightarrow> fieldsOk d' \<and> fieldsOk ws' \<and> jget d' ''statePlugins'' = jget d ''statePlugins''"
proof (induction es arbitrary: d ws)
  case (Cons e es)
  obtain k v where e: "e = (k, v)" by (cases e)
  obtain d1 ws1 where s: "wrapComponent e (d, ws) = (d1, ws1)" by (cases "wrapComponent e (d, ws)")
  have "fieldsOk d1 \<and> fieldsOk ws1 \<and> jget d1 ''statePlugins'' = jget d ''statePlugins''"
    using wrapComponent_keeps [of d ws v k d1 ws1] Cons.prems s e by simp
  then show ?case using Cons.IH [of d1 ws1] Cons.prems s by simp
qed simp

lemma wrapAllComponents_keep:
  assumes "pluginOk d" "pluginOk s" "wrapAllComponents d s = (d', s')"
  shows "pluginOk d'" "pluginOk s'" "wrapsAt d' ns a = wrapsAt d ns a" "wrapsAt s' ns a = wrapsAt s ns a"
proof -
  have "pluginOk d' \<and> pluginOk s' \<and> wrapsAt d' ns a = wrapsAt d ns a \<and> wrapsAt s' ns a = wrapsAt s ns a"
  proof (cases "\<exists>ws. jget s ''wrapComponents'' = Some (SObj ws)")
    case True
    then obtain ws where ws: "jget s ''wrapComponents'' = Some (SObj ws)" by blast
    then have ok: "fieldsOk ws" using sysOk_jget assms(2) by (auto simp: pluginOk_def simp del: sysOk.simps)
    obtain d1 rest where r: "fold wrapComponent ws (d, ws) = (d1, rest)" by (cases "fold wrapComponent ws (d, ws)")
    have kept: "fieldsOk d1 \<and> fieldsOk rest \<and> jget d1 ''statePlugins'' = jget d ''statePlugins''"
      using wrapComponents_keep [OF _ ok _ r] ok assms(1) by (simp add: pluginOk_def)
    have "d' = d1" "s' = (if rest = [] then jremove ''wrapComponents'' s else jput ''wrapComponents'' (SObj rest) s)"
      using assms(3) ws r by (auto simp: wrapAllComponents_def)
    moreover from this have "fieldsOk s'"
      using assms(2) kept by (auto simp: pluginOk_def simp del: sysOk.simps intro!: fieldsOk_jremove fieldsOk_jput)
    ultimately show ?thesis
      using assms(1,2) kept by (auto simp: pluginOk_def wrapsAt_eq jm.get_put jm.get_remove simp del: sysOk.simps)
  next
    case False
    then have "wrapAllComponents d s = (d, s)" by (auto simp: wrapAllComponents_def split: option.split sysval.split)
    then show ?thesis using assms by simp
  qed
  then show "pluginOk d'" "pluginOk s'" "wrapsAt d' ns a = wrapsAt d ns a" "wrapsAt s' ns a = wrapsAt s ns a" by blast+
qed

text \<open>The entries that are joined are the wrappers of the system, each once.\<close>

lemma wrapEntries_Cons:
  "wrapEntries ((n, v) # sps) =
    (case v of SObj nfs \<Rightarrow> (case jget nfs ''wrapActions'' of Some (SObj ws) \<Rightarrow> map (\<lambda>(a, w). ((n, a), w)) ws | _ \<Rightarrow> []) | _ \<Rightarrow> [])
    @ wrapEntries sps"
  by (simp add: wrapEntries_def)

lemma wrapEntries_names: "((n, a), w) \<in> set (wrapEntries sps) \<Longrightarrow> n \<in> fst ` set sps"
  by (auto simp: wrapEntries_def rev_image_eqI split: sysval.splits option.splits)

lemma map_of_tagged: "map_of (map (\<lambda>(a, w). ((n, a), w)) ws) (m, a) = (if m = n then map_of ws a else None)"
  by (induction ws) auto

lemma wrapEntries_get:
  assumes "fieldsOk sps"
  shows "distinct (map fst (wrapEntries sps))"
    and "map_of (wrapEntries sps) (ns, a) = namespaceWraps (jget sps ns) a"
proof -
  have "distinct (map fst (wrapEntries sps)) \<and> map_of (wrapEntries sps) (ns, a) = namespaceWraps (jget sps ns) a"
    using assms
  proof (induction sps)
    case (Cons e sps)
    obtain n v where e: "e = (n, v)" by (cases e)
    have fresh: "n \<notin> fst ` set sps" and ih: "distinct (map fst (wrapEntries sps))"
        "map_of (wrapEntries sps) (ns, a) = namespaceWraps (jget sps ns) a"
      using Cons e by (simp_all add: jmap_ok_def)
    have none: "namespaceWraps (jget sps n) a = None"
      using fresh by (simp add: namespaceWraps_def jget_def map_of_eq_None_iff [THEN iffD2])
    show ?case
    proof (cases "\<exists>nfs ws. v = SObj nfs \<and> jget nfs ''wrapActions'' = Some (SObj ws)")
      case True
      then obtain nfs ws where v: "v = SObj nfs" "jget nfs ''wrapActions'' = Some (SObj ws)" by blast
      have "jmap_ok ws" using Cons.prems e v sysOk_jget [of nfs "''wrapActions''"] by auto
      then have "distinct (map fst (map (\<lambda>(a, w). ((n, a), w)) ws))"
        by (induction ws) (auto simp: jmap_ok_def rev_image_eqI)
      moreover have "wrapEntries (e # sps) = map (\<lambda>(a, w). ((n, a), w)) ws @ wrapEntries sps"
        by (simp add: e wrapEntries_Cons v)
      moreover have "namespaceWraps (Some v) a = map_of ws a"
        by (simp add: namespaceWraps_def actionWraps_def v) (simp add: jget_def)
      moreover have "jget (e # sps) ns = (if ns = n then Some v else jget sps ns)" by (simp add: e jget_def)
      ultimately show ?thesis
        using ih fresh none by (auto simp: map_of_tagged map_add_def dest: wrapEntries_names split: option.split)
    next
      case False
      then have "wrapEntries (e # sps) = wrapEntries sps"
        by (auto simp: e wrapEntries_Cons split: sysval.split option.split)
      moreover have "namespaceWraps (Some v) a = None"
        using False by (auto simp: namespaceWraps_def actionWraps_def split: option.split sysval.split)
      ultimately show ?thesis using ih none by (simp add: e jget_def)
    qed
  qed (simp add: wrapEntries_def namespaceWraps_def jget_def)
  then show "distinct (map fst (wrapEntries sps))" "map_of (wrapEntries sps) (ns, a) = namespaceWraps (jget sps ns) a"
    by blast+
qed

lemma fieldsOk_wraps: "fieldsOk fs \<Longrightarrow> wrapsAt fs ns a = Some w \<Longrightarrow> sysOk w"
  by (auto simp: wrapsAt_def simp del: sysOk.simps split: option.splits sysval.splits) (meson sysOk_jget)

lemma wrapsAt_ok:
  assumes "pluginOk fs" "wrapsAt fs ns a = Some w"
  shows "wrapOk w" "sysOk w"
proof -
  show "sysOk w" using assms fieldsOk_wraps by (auto simp: pluginOk_def simp del: sysOk.simps)
  obtain sps nfs ws where path: "jget fs ''statePlugins'' = Some (SObj sps)" "jget sps ns = Some (SObj nfs)"
      "jget nfs ''wrapActions'' = Some (SObj ws)" "jget ws a = Some w"
    using assms(2) by (auto simp: wrapsAt_def split: option.splits sysval.splits)
  have "namespaceOk (SObj nfs)"
    using assms(1) path(1) jget_in [OF path(2)] by (auto simp: pluginOk_def statesOk_def list_all_iff)
  then show "wrapOk w" using jget_in [OF path(4)] by (auto simp: namespaceOk_def actionsOk_def path(3) list_all_iff)
qed

lemma setWraps_ok:
  assumes "pluginOk fs" "wrapsAt fs ns a = Some u" "wrapOk v" "sysOk v"
  shows "pluginOk (setWraps ns a v fs)"
    and "wrapsAt (setWraps ns a v fs) ns' a' = (if ns' = ns \<and> a' = a then Some v else wrapsAt fs ns' a')"
proof -
  obtain sps nfs ws where path: "jget fs ''statePlugins'' = Some (SObj sps)" "jget sps ns = Some (SObj nfs)"
      "jget nfs ''wrapActions'' = Some (SObj ws)"
    using assms(2) by (auto simp: wrapsAt_def split: option.splits sysval.splits)
  have ok: "fieldsOk fs" "fieldsOk sps" "fieldsOk nfs" "fieldsOk ws"
    using assms(1) path sysOk_jget [of _ _ "SObj _"] unfolding pluginOk_def by blast+
  have states: "list_all (\<lambda>(ns, v). namespaceOk v) sps" using assms(1) path(1) by (simp add: pluginOk_def statesOk_def)
  then have "namespaceOk (SObj nfs)" using jget_in [OF path(2)] by (auto simp: list_all_iff)
  then have acts: "list_all (\<lambda>(a, w). wrapOk w) ws" by (simp add: namespaceOk_def actionsOk_def path(3))
  let ?ws = "jput a v ws" let ?nfs = "jput ''wrapActions'' (SObj ?ws) nfs" let ?sps = "jput ns (SObj ?nfs) sps"
  have eq: "setWraps ns a v fs = jput ''statePlugins'' (SObj ?sps) fs" by (simp add: setWraps_def path)
  have "list_all (\<lambda>(a, w). wrapOk w) ?ws" using acts assms(3) by (auto simp: list_all_iff dest!: jput_entry)
  then have "list_all (\<lambda>(ns, v). namespaceOk v) ?sps"
    using states by (auto simp: list_all_iff namespaceOk_def actionsOk_def dest!: jput_entry)
  moreover have "fieldsOk (jput ''statePlugins'' (SObj ?sps) fs)"
    using ok assms(4) by (intro fieldsOk_jput)
  ultimately show "pluginOk (setWraps ns a v fs)" by (simp add: eq pluginOk_def statesOk_def del: sysOk.simps)
  show "wrapsAt (setWraps ns a v fs) ns' a' = (if ns' = ns \<and> a' = a then Some v else wrapsAt fs ns' a')"
    by (simp add: eq wrapsAt_def path jm.get_put)
qed

lemma joinWraps_fold:
  assumes "pluginOk s" "distinct (map fst es)" "list_all (\<lambda>(k, w). sysOk w) es"
  shows "pluginOk (fold joinWraps es s)"
    and "wrapsAt (fold joinWraps es s) ns a
      = (case (map_of es (ns, a), wrapsAt s ns a) of
           (Some w, Some u) \<Rightarrow> Some (SArr (listed w @ listed u))
         | (_, u) \<Rightarrow> u)"
proof -
  have "pluginOk (fold joinWraps es s) \<and> wrapsAt (fold joinWraps es s) ns a
      = (case (map_of es (ns, a), wrapsAt s ns a) of (Some w, Some u) \<Rightarrow> Some (SArr (listed w @ listed u)) | (_, u) \<Rightarrow> u)"
    using assms
  proof (induction es arbitrary: s)
    case Nil
    then show ?case by (simp split: option.split)
  next
    case (Cons e es)
    obtain n b w where e: "e = ((n, b), w)" by (metis surj_pair)
    have fresh: "map_of es (n, b) = None" using Cons.prems(2) by (simp add: e map_of_eq_None_iff)
    show ?case
    proof (cases "wrapsAt s n b")
      case None
      then have "joinWraps e s = s" by (simp add: joinWraps_def e)
      then show ?thesis using Cons.IH [of s] Cons.prems None by (auto simp: e split: option.split)
    next
      case (Some u)
      have u: "wrapOk u" "sysOk u" using wrapsAt_ok [OF Cons.prems(1) Some] by blast+
      let ?v = "SArr (listed w @ listed u)"
      have v: "wrapOk ?v" "sysOk ?v"
        using sysOk_listed [of w] sysOk_listed [OF u(2)] Cons.prems(3) by (simp_all add: wrapOk_def e)
      have "joinWraps e s = setWraps n b ?v s"
        using u(1) Some by (auto simp: joinWraps_def e sysTruthy_def elim: wrapOk_cases)
      then show ?thesis
        using Cons.IH [OF setWraps_ok(1) [OF Cons.prems(1) Some v]] Cons.prems setWraps_ok(2) [OF Cons.prems(1) Some v] fresh Some
        by (auto simp: e split: option.split)
    qed
  qed
  then show "pluginOk (fold joinWraps es s)"
    "wrapsAt (fold joinWraps es s) ns a
      = (case (map_of es (ns, a), wrapsAt s ns a) of (Some w, Some u) \<Rightarrow> Some (SArr (listed w @ listed u)) | (_, u) \<Rightarrow> u)" by blast+
qed

lemma arrayedActions_ok:
  assumes "namespaceOk v" "sysOk v"
  shows "namespaceOk (arrayedActions v)" "sysOk (arrayedActions v)"
    and "namespaceWraps (Some (arrayedActions v)) a = map_option (\<lambda>w. SArr (listed w)) (namespaceWraps (Some v) a)"
proof -
  obtain nfs where v: "v = SObj nfs" "actionsOk (jget nfs ''wrapActions'')" using assms(1) by (rule namespaceOk_cases)
  have "namespaceOk (arrayedActions v) \<and> sysOk (arrayedActions v) \<and>
    namespaceWraps (Some (arrayedActions v)) a = map_option (\<lambda>w. SArr (listed w)) (namespaceWraps (Some v) a)"
  proof (cases "jget nfs ''wrapActions''")
    case None
    then show ?thesis using assms v by (simp add: arrayedActions_def namespaceWraps_def actionWraps_def)
  next
    case (Some u)
    then obtain ws where ws: "jget nfs ''wrapActions'' = Some (SObj ws)"
      using v(2) by (auto simp: actionsOk_def split: sysval.splits)
    let ?ws = "map (\<lambda>(a, w). (a, SArr (listed w))) ws"
    have "fieldsOk ws" using sysOk_jget [of nfs] assms(2) v(1) ws by blast
    then have ok: "fieldsOk ?ws"
      using jmap_ok_keyed [of "\<lambda>_ w. SArr (listed w)" ws] by (auto simp: list_all_iff dest!: sysOk_listed)
    then have "sysOk (SObj (jput ''wrapActions'' (SObj ?ws) nfs))" using assms(2) v(1) by (intro fieldsOk_jput) simp_all
    moreover have "jget ?ws a = map_option (\<lambda>w. SArr (listed w)) (jget ws a)"
      by (rule jget_keyed [of "\<lambda>_ w. SArr (listed w)"])
    ultimately show ?thesis
      by (auto simp: v(1) ws arrayedActions_def namespaceOk_def actionsOk_def list_all_iff wrapOk_def namespaceWraps_def
          actionWraps_def simp del: sysOk.simps)
  qed
  then show "namespaceOk (arrayedActions v)" "sysOk (arrayedActions v)"
    "namespaceWraps (Some (arrayedActions v)) a = map_option (\<lambda>w. SArr (listed w)) (namespaceWraps (Some v) a)" by blast+
qed

lemma arrayed_plugin:
  fixes d :: "'f fields"
  assumes "pluginOk d" "jget d ''statePlugins'' = Some (SObj sps)"
  defines "d' \<equiv> jput ''statePlugins'' (SObj (map (\<lambda>(ns, v). (ns, arrayedActions v)) sps)) d"
  shows "pluginOk d'" "wrapsAt d' ns a = map_option (\<lambda>w. SArr (listed w)) (wrapsAt d ns a)"
proof -
  let ?sps = "map (\<lambda>(ns, v). (ns, arrayedActions v)) sps"
  have sps: "list_all (\<lambda>(ns, v). namespaceOk v) sps" "fieldsOk sps"
    using assms(1,2) sysOk_jget [of d] by (auto simp: pluginOk_def statesOk_def simp del: sysOk.simps)
  have states: "list_all (\<lambda>(ns, v). namespaceOk v) ?sps" and "list_all (\<lambda>(ns, v). sysOk v) ?sps"
    using sps arrayedActions_ok(1,2) by (fastforce simp: list_all_iff)+
  then have "fieldsOk ?sps" using sps(2) jmap_ok_keyed [of "\<lambda>_. arrayedActions" sps] by simp
  then have "fieldsOk d'" unfolding d'_def using assms(1) by (intro fieldsOk_jput) (auto simp: pluginOk_def)
  then show "pluginOk d'" using states by (simp add: d'_def pluginOk_def statesOk_def del: sysOk.simps)
  have "namespaceWraps (jget ?sps ns) a = map_option (\<lambda>w. SArr (listed w)) (namespaceWraps (jget sps ns) a)"
  proof (cases "jget sps ns")
    case (Some v)
    then have "namespaceOk v" "sysOk v" using sps by (auto simp: list_all_iff dest!: jget_in)
    then show ?thesis using arrayedActions_ok(3) [of v a] Some by (simp add: jget_keyed [of "\<lambda>_. arrayedActions"])
  qed (simp add: jget_keyed [of "\<lambda>_. arrayedActions"] namespaceWraps_def)
  then show "wrapsAt d' ns a = map_option (\<lambda>w. SArr (listed w)) (wrapsAt d ns a)"
    by (simp add: d'_def wrapsAt_eq assms(2))
qed

definition listedAt :: "'f fields \<Rightarrow> string \<Rightarrow> string \<Rightarrow> 'f sysval list" where
  "listedAt fs ns a = (case wrapsAt fs ns a of None \<Rightarrow> [] | Some w \<Rightarrow> listed w)"

context deep_extend
begin

lemma systemExtend_wraps:
  assumes "pluginOk d" "pluginOk s"
  shows "pluginOk (systemExtend extend d s)" "listedAt (systemExtend extend d s) ns a = listedAt d ns a @ listedAt s ns a"
proof -
  obtain d1 s1 where w: "wrapAllComponents d s = (d1, s1)" by (cases "wrapAllComponents d s")
  note kept = wrapAllComponents_keep [OF assms w]
  have "pluginOk (systemExtend extend d s) \<and> listedAt (systemExtend extend d s) ns a = listedAt d1 ns a @ listedAt s1 ns a"
  proof (cases "jget d1 ''statePlugins''")
    case None
    then have "listedAt d1 ns a = []" by (simp add: listedAt_def wrapsAt_def)
    then show ?thesis
      using extend_plugin [OF kept(1,2)] None
      by (auto simp: systemExtend_def w listedAt_def wrapsAt_def [of d1] split: option.split)
  next
    case (Some v)
    then obtain sps where sps: "jget d1 ''statePlugins'' = Some (SObj sps)"
      using kept(1) statesOk_some by (fastforce simp: pluginOk_def)
    have ok: "fieldsOk sps" using sysOk_jget sps kept(1) by (auto simp: pluginOk_def simp del: sysOk.simps)
    let ?d = "jput ''statePlugins'' (SObj (map (\<lambda>(ns, v). (ns, arrayedActions v)) sps)) d1"
    let ?s = "fold joinWraps (wrapEntries sps) s1"
    have at: "map_of (wrapEntries sps) (n, b) = wrapsAt d1 n b" for n b
      by (simp add: wrapEntries_get(2) [OF ok] wrapsAt_eq sps)
    have "map_of (wrapEntries sps) k = Some u \<Longrightarrow> sysOk u" for k u
      using at [of "fst k" "snd k"] wrapsAt_ok(2) [OF kept(1)] by simp
    then have "list_all (\<lambda>(k, u). sysOk u) (wrapEntries sps)"
      using wrapEntries_get(1) [OF ok] by (auto simp: list_all_iff)
    note s = joinWraps_fold [OF kept(2) wrapEntries_get(1) [OF ok] this]
    note e = extend_plugin [OF arrayed_plugin(1) [OF kept(1) sps] s(1)]
    have "systemExtend extend d s = extend ?d ?s" by (simp add: systemExtend_def w sps)
    then show ?thesis
      using e arrayed_plugin(2) [OF kept(1) sps, of ns a] s(2) [of ns a]
      by (auto simp: listedAt_def at listed_def split: option.split)
  qed
  then show "pluginOk (systemExtend extend d s)" "listedAt (systemExtend extend d s) ns a = listedAt d ns a @ listedAt s ns a"
    using kept(3,4) by (simp_all add: listedAt_def)
qed

end

section \<open>Plugins\<close>

text \<open>The objects that a plugin stands for, in their order.\<close>

primrec leaves :: "'t \<Rightarrow> ('t, 'f) Plugin \<Rightarrow> 'f fields list" where
  "leaves toolbox (PlObj fs) = [fs]"
| "leaves toolbox (PlFun g) = leaves toolbox (g toolbox)"
| "leaves toolbox (PlArr ps) = concat (map (leaves toolbox) ps)"
| "leaves toolbox PlOther = []"

lemma pluginOk_Nil [simp]: "pluginOk []"
  by (simp add: pluginOk_def statesOk_def)

lemma listedAt_Nil [simp]: "listedAt [] ns a = []"
  by (simp add: listedAt_def wrapsAt_def)

context deep_extend
begin

lemma extendAll_wraps:
  "pluginOk d \<Longrightarrow> list_all pluginOk ss \<Longrightarrow>
    pluginOk (foldl (systemExtend extend) d ss) \<and>
    listedAt (foldl (systemExtend extend) d ss) ns a = listedAt d ns a @ concat (map (\<lambda>s. listedAt s ns a) ss)"
  by (induction ss arbitrary: d) (simp_all add: systemExtend_wraps)

lemma combinePlugins_wraps:
  "list_all pluginOk (leaves toolbox p) \<Longrightarrow>
    pluginOk (combinePlugins extend toolbox p) \<and>
    listedAt (combinePlugins extend toolbox p) ns a = concat (map (\<lambda>fs. listedAt fs ns a) (leaves toolbox p))"
proof (induction p)
  case (PlObj fs)
  then have "mergeFields [] fs = fs" by (intro mergeFields_empty) (simp add: pluginOk_def)
  then show ?case using PlObj by (simp add: objectAssignDeep_def)
next
  case (PlArr ps)
  have each: "pluginOk (combinePlugins extend toolbox p) \<and>
      listedAt (combinePlugins extend toolbox p) ns a = concat (map (\<lambda>fs. listedAt fs ns a) (leaves toolbox p))"
    if "p \<in> set ps" for p using PlArr that by (auto simp: list_all_iff)
  then have "list_all pluginOk (map (combinePlugins extend toolbox) ps)" by (simp add: list_all_iff)
  moreover have "concat (map (\<lambda>s. listedAt s ns a) (map (combinePlugins extend toolbox) ps))
      = concat (map (\<lambda>fs. listedAt fs ns a) (concat (map (leaves toolbox) ps)))"
    using each by (induction ps) auto
  ultimately show ?case using extendAll_wraps [OF pluginOk_Nil, of "map (combinePlugins extend toolbox) ps" ns a] by simp
qed auto

lemma register_wraps:
  assumes "pluginOk system" "list_all pluginOk (leaves toolbox plugins)"
  shows "pluginOk (fst (register extend toolbox plugins rebuild system))"
    and "listedAt (fst (register extend toolbox plugins rebuild system)) ns a
      = listedAt system ns a @ concat (map (\<lambda>fs. listedAt fs ns a) (leaves toolbox plugins))"
  using systemExtend_wraps [OF assms(1), of "combinePlugins extend toolbox plugins"] combinePlugins_wraps [OF assms(2)]
  by (simp_all add: register_def Let_def case_prod_unfold)

end

lemma wrappedAction_listed:
  "pluginOk system \<Longrightarrow> wrappedAction interp jsNull system ns a act = foldl (wrapAction interp jsNull) act (listedAt system ns a)"
  using wrapsAt_ok(1) [of system ns a]
  by (auto simp: wrappedAction_def listedAt_def sysTruthy_def split: option.split sysval.split elim: wrapOk_cases)

text \<open>C20: however plugins are nested in lists and functions, once they are registered the wrappers of an
  action are those of the system and then those of the plugins, in their order, each around the ones
  before it; and the system can be extended further.
\<close>

theorem plugins_wrap_in_order:
  assumes "deep_extend deepExtend" "pluginOk system" "list_all pluginOk (leaves toolbox plugins)"
    and "register deepExtend toolbox plugins rebuild system = (system', called, rebuilds)"
  shows "pluginOk system' \<and> wrappedAction interp jsNull system' ns a act
    = foldl (wrapAction interp jsNull) act
        (listedAt system ns a @ concat (map (\<lambda>fs. listedAt fs ns a) (leaves toolbox plugins)))"
  using deep_extend.register_wraps [OF assms(1-3), of rebuild] assms(4) by (simp add: wrappedAction_listed)

text \<open>A plugin that wraps one action; the wrapper writes its number before it goes on.\<close>

definition wrapperPlugin :: "'f sysval \<Rightarrow> 'f fields" where
  "wrapperPlugin w = [(''statePlugins'', SObj [(''spec'', SObj [(''wrapActions'', SObj [(''updateUrl'', w)])])])]"

definition logged :: "nat \<Rightarrow> (unit, nat list, unit) action \<Rightarrow> (unit, nat list, unit) action" where
  "logged n act args w = act args (w @ [n])"

theorem plugins_wrap_in_order_witness:
  "wrappedAction logged ()
     (fst (register mergeFields () (PlArr [PlObj (wrapperPlugin (SFun 1)), PlFun (\<lambda>_. PlObj (wrapperPlugin (SArr [SFun 2, SFun 3])))]) True []))
     ''spec'' ''updateUrl'' (\<lambda>_ w. (Inr (), w @ [0])) () [] = (Inr (), [3, 2, 1, 0])"
proof -
  let ?ps = "PlArr [PlObj (wrapperPlugin (SFun (1::nat))), PlFun (\<lambda>_::unit. PlObj (wrapperPlugin (SArr [SFun 2, SFun 3])))]"
  have "list_all pluginOk (leaves () ?ps)"
    by (simp add: wrapperPlugin_def pluginOk_def statesOk_def namespaceOk_def actionsOk_def wrapOk_def jget_def jmap_ok_def)
  moreover obtain system' called rebuilds where r: "register mergeFields () ?ps True [] = (system', called, rebuilds)"
    by (cases "register mergeFields () ?ps True []")
  ultimately have "wrappedAction logged () system' ''spec'' ''updateUrl'' (\<lambda>_ w. (Inr (), w @ [0]))
    = foldl (wrapAction logged ()) (\<lambda>_ w. (Inr (), w @ [0]))
        (listedAt [] ''spec'' ''updateUrl'' @ concat (map (\<lambda>fs. listedAt fs ''spec'' ''updateUrl'') (leaves () ?ps)))"
    by (intro plugins_wrap_in_order [OF oad.deep_extend_axioms pluginOk_Nil, THEN conjunct2])
  then show ?thesis unfolding r
    by (simp add: wrapperPlugin_def listedAt_def wrapsAt_def jget_def listed_def wrapAction_def tryAction_def logged_def)
qed

section \<open>Wrappers that are lost\<close>

text \<open>A component that is there is wrapped; the wrappers that are already around it stay.\<close>

lemma wrapped_component:
  assumes "sysTruthy (componentAt d key)"
  shows "componentAt (fst (wrapComponent (key, w) (d, ws))) key = SArr (listed (componentAt d key) @ [w])"
proof -
  obtain cs ori where c: "jget d ''components'' = Some (SObj cs)" "jget cs key = Some ori"
    using assms by (auto simp: componentAt_def sysTruthy_def split: option.splits sysval.splits)
  then show ?thesis
    using assms by (auto simp: wrapComponent_def Let_def componentAt_def setComponent_def listed_def sysTruthy_def jm.get_put
        split: sysval.split)
qed

text \<open>One that is registered later is not: its wrapper stays unused.\<close>

lemma early_wrapper_unused:
  "combinePlugins mergeFields () (PlArr [PlObj [(''wrapComponents'', SObj [(''Topbar'', SFun (1::nat))])],
      PlObj [(''components'', SObj [(''Topbar'', SFun 2)])]])
    = [(''wrapComponents'', SObj [(''Topbar'', SFun 1)]), (''components'', SObj [(''Topbar'', SFun 2)])]"
  by code_simp

text \<open>A plugin that wraps a component and registers it anew loses the wrapper.\<close>

lemma own_wrapper_lost:
  "componentAt (combinePlugins mergeFields () (PlArr [PlObj [(''components'', SObj [(''Topbar'', SFun (1::nat))])],
      PlObj [(''wrapComponents'', SObj [(''Topbar'', SFun 3)]), (''components'', SObj [(''Topbar'', SFun 2)])]])) ''Topbar''
    = SFun 2"
  by code_simp

text \<open>Wrappers of selectors are not collected: the last plugin that wraps a selector is the only one that does.\<close>

lemma last_selector_wrapper:
  "combinePlugins mergeFields () (PlArr (map (\<lambda>n. PlObj [(''statePlugins'', SObj [(''spec'', SObj [(''wrapSelectors'',
        SObj [(''url'', SFun n)])])])]) [1::nat, 2, 3]))
    = [(''statePlugins'', SObj [(''spec'', SObj [(''wrapSelectors'', SObj [(''url'', SFun 3)])])])]"
  by code_simp

text \<open>A list of plugins counts as one that did something when it was loaded, even an empty one.\<close>

lemma empty_list_rebuilds: "register deepExtend toolbox (PlArr []) True system = (systemExtend deepExtend system [], [], 2)"
  by (simp add: register_def)

end
