(* ===== verification/UiOas3.thy ===== *)
theory UiOas3
  imports UiOperations
begin

text \<open>
  What the pages keep for descriptions of OpenAPI 3: reducers and selectors of the plugin \<open>oas3\<close> of
  \<open>swagger-ui.js\<close>, for the selected server, the values of its variables, request bodies and media types.
  A namespace is a text, the empty one where there is none.
\<close>

section \<open>Reducers\<close>

definition inNamespace :: "string \<Rightarrow> string list \<Rightarrow> string list" where
  "inNamespace ns ks = (if ns = '''' then ks else ns # ks)"

datatype Oas3Action =
    UpdateSelectedServer jstree string
  | UpdateRequestBodyValue jstree string string
  | UpdateRequestContentType jstree string string
  | UpdateResponseContentType jstree string string
  | UpdateServerVariableValue string string string jstree

definition reduceOas3 :: "Oas3Action \<Rightarrow> jstree \<Rightarrow> JsFailure + jstree" where
  "reduceOas3 action state = (case action of
     UpdateSelectedServer selectedServerUrl namespace \<Rightarrow>
       setIn (inNamespace namespace [''selectedServer'']) selectedServerUrl state
   | UpdateRequestBodyValue v path meth \<Rightarrow> setIn [''requestData'', path, meth, ''bodyValue''] v state
   | UpdateRequestContentType v path meth \<Rightarrow> setIn [''requestData'', path, meth, ''requestContentType''] v state
   | UpdateResponseContentType v path meth \<Rightarrow> setIn [''requestData'', path, meth, ''responseContentType''] v state
   | UpdateServerVariableValue server namespace key val \<Rightarrow>
       setIn (inNamespace namespace [''serverVariableValues'', server, key]) val state)"

section \<open>Selectors\<close>

text \<open>A selector has the value \<open>null\<close> for other descriptions.\<close>

definition onlyOAS3 :: "jstree \<Rightarrow> jstree \<Rightarrow> jstree" where
  "onlyOAS3 spec v = (if isOAS3 spec then v else TNull)"

definition selectedServer :: "jstree \<Rightarrow> jstree \<Rightarrow> string \<Rightarrow> jstree" where
  "selectedServer spec state namespace =
    onlyOAS3 spec (orElse (getInOr TUndef state (inNamespace namespace [''selectedServer''])) (TStr ''''))"

definition requestBodyValue :: "jstree \<Rightarrow> jstree \<Rightarrow> string \<Rightarrow> string \<Rightarrow> jstree" where
  "requestBodyValue spec state path meth =
    onlyOAS3 spec (orElse (getInOr TUndef state [''requestData'', path, meth, ''bodyValue'']) TNull)"

definition requestContentType :: "jstree \<Rightarrow> jstree \<Rightarrow> string \<Rightarrow> string \<Rightarrow> jstree" where
  "requestContentType spec state path meth =
    onlyOAS3 spec (orElse (getInOr TUndef state [''requestData'', path, meth, ''requestContentType'']) TNull)"

definition responseContentType :: "jstree \<Rightarrow> jstree \<Rightarrow> string \<Rightarrow> string \<Rightarrow> jstree" where
  "responseContentType spec state path meth =
    onlyOAS3 spec (orElse (getInOr TUndef state [''requestData'', path, meth, ''responseContentType'']) TNull)"

definition serverVariableValue :: "jstree \<Rightarrow> jstree \<Rightarrow> string \<Rightarrow> string \<Rightarrow> string \<Rightarrow> jstree" where
  "serverVariableValue spec state server namespace key =
    onlyOAS3 spec (orElse (getInOr TUndef state (inNamespace namespace [''serverVariableValues'', server, key])) TNull)"

definition serverVariables :: "jstree \<Rightarrow> jstree \<Rightarrow> string \<Rightarrow> string \<Rightarrow> jstree" where
  "serverVariables spec state server namespace =
    onlyOAS3 spec (orElse (getInOr TUndef state (inNamespace namespace [''serverVariableValues'', server])) emptyMap)"

text \<open>
  The address of a server with the values of its variables put in, one after the other.
  \<open>rxReplace pattern val str\<close> is \<open>str.replace(new RegExp(pattern, "g"), val)\<close>.
\<close>

definition serverEffectiveValue :: "PageEnv \<Rightarrow> (string \<Rightarrow> string \<Rightarrow> string \<Rightarrow> JsFailure + string) \<Rightarrow> jstree \<Rightarrow> jstree
    \<Rightarrow> string \<Rightarrow> string \<Rightarrow> JsFailure + jstree" where
  "serverEffectiveValue env rxReplace spec state server namespace =
    (if \<not> isOAS3 spec then Inr TNull
     else
       (let varValues = orElse (getInOr TUndef state (inNamespace namespace [''serverVariableValues'', server])) emptyMap in
        case varValues of
          IMap es \<Rightarrow>
            bindJ (foldJ (\<lambda>str (key, val). rxReplace (''{'' @ key @ ''}'') (textOf env val) str) server es)
              (\<lambda>str. Inr (TStr str))
        | _ \<Rightarrow> Inl (TypeError ''varValues.map is not a function'')))"

end
