(* ===== verification/UiOas3Spec.thy ===== *)
theory UiOas3Spec
  imports UiOas3 UiLinks UiValidateSpec
begin

text \<open>
  The variables of a server: every reducer writes at a path of its own, and the address that is used
  has the values that were set last.
\<close>

section \<open>Writes\<close>

lemma foldJ_snoc: "foldJ f s (xs @ [x]) = bindJ (foldJ f s xs) (\<lambda>t. f t x)"
proof (induction xs arbitrary: s)
  case Nil
  then show ?case by (cases "f s x") simp_all
next
  case (Cons y xs)
  then show ?case by (cases "f s y") simp_all
qed

context path_store
begin

text \<open>
  A history of writes at paths that are the same or apart: a path has the value that was written last.
\<close>

lemma write_log:
  assumes "\<forall>p\<in>P. free s p" "\<forall>p\<in>P. \<forall>q\<in>P. p = q \<or> apart p q" "fst ` set ws \<subseteq> P"
  shows "\<exists>s'. foldJ (\<lambda>s (p, v). writeAt p v s) s ws = Inr s' \<and> (\<forall>p\<in>P. free s' p) \<and>
    (\<forall>q\<in>P. readAt s' q = (case map_of (rev ws) q of None \<Rightarrow> readAt s q | Some v \<Rightarrow> Some v))"
  using assms(1,3)
proof (induction ws rule: rev_induct)
  case (snoc w ws)
  obtain p v where w: "w = (p, v)" by (cases w)
  obtain t where t: "foldJ (\<lambda>s (p, v). writeAt p v s) s ws = Inr t" "\<forall>p\<in>P. free t p"
    "\<forall>q\<in>P. readAt t q = (case map_of (rev ws) q of None \<Rightarrow> readAt s q | Some v \<Rightarrow> Some v)"
    using snoc by auto
  have p: "p \<in> P" using snoc.prems w by simp
  obtain u where u: "writeAt p v t = Inr u" "readAt u p = Some v" "free u p"
    "\<And>q. apart p q \<Longrightarrow> readAt u q = readAt t q" "\<And>q. apart p q \<Longrightarrow> free t q \<Longrightarrow> free u q"
    using writeE [of t p v] t(2) p by metis
  have "free u q \<and> readAt u q = (if q = p then Some v else readAt t q)" if "q \<in> P" for q
  proof (cases "q = p")
    case False
    then have "apart p q" using assms(2) p that by metis
    then show ?thesis using u(4,5) t(2) that False by simp
  qed (use u in simp)
  moreover have "foldJ (\<lambda>s (p, v). writeAt p v s) s (ws @ [w]) = Inr u"
    using t(1) u(1) w by (simp add: foldJ_snoc)
  ultimately show ?case using t(3) w by (auto split: option.split)
qed simp

end

text \<open>Where each action writes, and what.\<close>

fun actionWrite :: "Oas3Action \<Rightarrow> string list \<times> jstree" where
  "actionWrite (UpdateSelectedServer v ns) = (inNamespace ns [''selectedServer''], v)"
| "actionWrite (UpdateRequestBodyValue v p m) = ([''requestData'', p, m, ''bodyValue''], v)"
| "actionWrite (UpdateRequestContentType v p m) = ([''requestData'', p, m, ''requestContentType''], v)"
| "actionWrite (UpdateResponseContentType v p m) = ([''requestData'', p, m, ''responseContentType''], v)"
| "actionWrite (UpdateServerVariableValue server ns key v) = (inNamespace ns [''serverVariableValues'', server, key], v)"

lemma reduceOas3_write: "reduceOas3 action state = (case actionWrite action of (p, v) \<Rightarrow> setIn p v state)"
  by (cases action) (simp_all add: reduceOas3_def)

text \<open>A namespace is not one of the names that the state itself has.\<close>

definition namespaceFree :: "string \<Rightarrow> bool" where
  "namespaceFree ns \<longleftrightarrow> ns \<noteq> ''selectedServer'' \<and> ns \<noteq> ''requestData'' \<and> ns \<noteq> ''serverVariableValues''"

fun oas3Proper :: "Oas3Action \<Rightarrow> bool" where
  "oas3Proper (UpdateSelectedServer v ns) = namespaceFree ns"
| "oas3Proper (UpdateServerVariableValue server ns key v) = namespaceFree ns"
| "oas3Proper _ = True"

definition oas3Paths :: "string list set" where
  "oas3Paths = (fst \<circ> actionWrite) ` {a. oas3Proper a}"

lemma oas3Paths_cases:
  assumes "p \<in> oas3Paths"
  obtains ns where "p = inNamespace ns [''selectedServer'']" "namespaceFree ns"
  | ns server key where "p = inNamespace ns [''serverVariableValues'', server, key]" "namespaceFree ns"
  | path meth f where "p = [''requestData'', path, meth, f]"
proof -
  obtain a where "p = fst (actionWrite a)" "oas3Proper a" using assms by (auto simp: oas3Paths_def)
  then show ?thesis using that by (cases a) simp_all
qed

lemma oas3Paths_apart: "p \<in> oas3Paths \<Longrightarrow> q \<in> oas3Paths \<Longrightarrow> p = q \<or> diverge p q"
  by (elim oas3Paths_cases) (auto simp: inNamespace_def namespaceFree_def)

text \<open>The value that a history of actions has set last at a path.\<close>

definition lastWritten :: "Oas3Action list \<Rightarrow> string list \<Rightarrow> jstree option" where
  "lastWritten actions p = map_of (rev (map actionWrite actions)) p"

lemma oas3_history:
  assumes "list_all oas3Proper actions"
  defines "s \<equiv> foldl (reduceWith reduceOas3) (IMap []) actions"
  shows "\<forall>p\<in>oas3Paths. mapsAlong s p \<and> getIn s p = lastWritten actions p"
proof -
  have empty: "mapsAlong (IMap []) p \<and> (p \<noteq> [] \<longrightarrow> getIn (IMap []) p = None)" for p
    by (cases p) (simp_all add: childAt_def)
  have "fst ` set (map actionWrite actions) \<subseteq> oas3Paths"
    using assms(1) by (auto simp: list_all_iff oas3Paths_def)
  then obtain s' where s': "foldJ (\<lambda>s (p, v). setIn p v s) (IMap []) (map actionWrite actions) = Inr s'"
    "\<forall>p\<in>oas3Paths. mapsAlong s' p"
    "\<forall>q\<in>oas3Paths. getIn s' q = (case lastWritten actions q of None \<Rightarrow> getIn (IMap []) q | Some v \<Rightarrow> Some v)"
    using tree.write_log [of oas3Paths "IMap []" "map actionWrite actions"] empty oas3Paths_apart
    unfolding lastWritten_def by blast
  have "foldJ (\<lambda>s (p, v). setIn p v s) t (map actionWrite acts) = Inr t' \<Longrightarrow> foldl (reduceWith reduceOas3) t acts = t'" for t t' acts
    by (induction acts arbitrary: t) (auto simp: bindJ_Inr_conv reduceOas3_write split: prod.splits)
  then have "s = s'" using s'(1) by (simp add: s_def)
  moreover have "p \<noteq> []" if "p \<in> oas3Paths" for p using that by (rule oas3Paths_cases) (auto simp: inNamespace_def)
  ultimately show ?thesis using s' empty by (auto split: option.splits)
qed

text \<open>The maps of the variables have every name once.\<close>

definition fieldMap :: "jstree \<Rightarrow> string list \<Rightarrow> (string \<times> jstree) list" where
  "fieldMap s q = (case getIn s q of Some (IMap es) \<Rightarrow> es | _ \<Rightarrow> [])"

lemma setIn_last:
  assumes "mapsAlong s (q @ [k])" "setIn (q @ [k]) v s = Inr s'"
  shows "fieldMap s' q = jput k v (fieldMap s q)"
proof -
  have q: "mapsAlong s q" and at: "getIn s q = None \<or> (\<exists>es. getIn s q = Some (IMap es))"
    using assms(1) unfolding mapsAlong_append by (auto split: option.splits jstree.splits)
  have "updateAt [k] (\<lambda>_. Inr (Some v)) (getIn s q) = Inr (Some (IMap (jput k v (fieldMap s q))))"
    using at by (auto simp: fieldMap_def jput_def hasSet_def setChild_def)
  from updateTree_set [OF q, of "updateAt [k] (\<lambda>_. Inr (Some v))", OF this] show ?thesis
    using assms(2) by (auto simp: setIn_def updateTree_def updateAt_append fieldMap_def)
qed

abbreviation variablesAt :: "string \<Rightarrow> string \<Rightarrow> string list" where
  "variablesAt ns server \<equiv> inNamespace ns [''serverVariableValues'', server]"

lemma oas3_maps_ok:
  assumes "list_all oas3Proper actions" "namespaceFree ns"
  shows "jmap_ok (fieldMap (foldl (reduceWith reduceOas3) (IMap []) actions) (variablesAt ns server))"
  using assms(1)
proof (induction actions rule: rev_induct)
  case Nil
  then show ?case by (cases "variablesAt ns server") (simp_all add: fieldMap_def childAt_def inNamespace_def)
next
  case (snoc a actions)
  let ?s = "foldl (reduceWith reduceOas3) (IMap []) actions"
  obtain p v where w: "actionWrite a = (p, v)" by (cases "actionWrite a")
  have a: "oas3Proper a" and ih: "jmap_ok (fieldMap ?s (variablesAt ns server))" using snoc by simp_all
  have "p \<in> oas3Paths" using a w unfolding oas3Paths_def by (intro image_eqI [of _ _ a]) simp_all
  then have free: "mapsAlong ?s p" using oas3_history [of actions] snoc.prems by simp
  then obtain s' where s': "setIn p v ?s = Inr s'" "\<And>q. diverge p q \<Longrightarrow> getIn s' q = getIn ?s q"
    using tree.writeE [of ?s p v] by metis
  have step: "foldl (reduceWith reduceOas3) (IMap []) (actions @ [a]) = s'"
    using s'(1) by (simp add: reduceOas3_write w)
  have "p = variablesAt ns server @ [key]" if "a = UpdateServerVariableValue server ns key v" for key
    using w that by (auto simp: inNamespace_def)
  moreover have "diverge p (variablesAt ns server)" if "\<nexists>key. a = UpdateServerVariableValue server ns key v"
    using w that a assms(2) by (cases a) (auto simp: inNamespace_def namespaceFree_def split: if_splits)
  ultimately show ?case
    unfolding step using setIn_last [of ?s "variablesAt ns server" _ v s'] free s' ih
    by (cases "\<exists>key. a = UpdateServerVariableValue server ns key v") (auto simp: fieldMap_def)
qed

section \<open>Addresses of servers\<close>

text \<open>The address of a server as a description gives it: texts and variables in braces.\<close>

datatype ServerPart = Lit string | Var string

fun partText :: "ServerPart \<Rightarrow> string" where
  "partText (Lit l) = l"
| "partText (Var k) = ''{'' @ k @ ''}''"

definition serverText :: "ServerPart list \<Rightarrow> string" where
  "serverText ps = concat (map partText ps)"

definition noBraces :: "string \<Rightarrow> bool" where
  "noBraces s \<longleftrightarrow> CHR ''{'' \<notin> set s \<and> CHR ''}'' \<notin> set s"

fun partOk :: "ServerPart \<Rightarrow> bool" where
  "partOk (Lit l) = noBraces l"
| "partOk (Var k) = noBraces k"

fun assign1 :: "string \<Rightarrow> string \<Rightarrow> ServerPart \<Rightarrow> ServerPart" where
  "assign1 k v (Var j) = (if j = k then Lit v else Var j)"
| "assign1 k v p = p"

lemma replaceAll_skip: "CHR ''{'' \<notin> set l \<Longrightarrow> replaceAll (CHR ''{'' # k) v (l @ t) = l @ replaceAll (CHR ''{'' # k) v t"
  by (induction l) (auto simp: startsWith_def)

lemma name_ends: "CHR ''}'' \<notin> set j \<Longrightarrow> CHR ''}'' \<notin> set k \<Longrightarrow> startsWith (j @ CHR ''}'' # t) (k @ ''}'') \<longleftrightarrow> j = k"
proof (induction k arbitrary: j)
  case Nil
  then show ?case by (cases j) (auto simp: startsWith_def)
next
  case (Cons c k)
  then show ?case by (cases j) (auto simp: startsWith_def)
qed

lemma replaceAll_server:
  assumes "list_all partOk ps" "noBraces k"
  shows "replaceAll (''{'' @ k @ ''}'') v (serverText ps) = serverText (map (assign1 k v) ps)"
  using assms(1)
proof (induction ps)
  case (Cons p ps)
  show ?case
  proof (cases p)
    case (Lit l)
    then show ?thesis using Cons replaceAll_skip [of l "k @ ''}''" v "serverText ps"] by (simp add: serverText_def noBraces_def)
  next
    case (Var j)
    have j: "CHR ''{'' \<notin> set j" "CHR ''}'' \<notin> set j" "CHR ''}'' \<notin> set k"
      using Cons.prems Var assms(2) by (simp_all add: noBraces_def)
    have at: "startsWith (CHR ''{'' # j @ CHR ''}'' # t) (CHR ''{'' # k @ ''}'') \<longleftrightarrow> j = k" for t
      using name_ends [OF j(2,3), of t] by (simp add: startsWith_def)
    have skip: "replaceAll (CHR ''{'' # k @ ''}'') v (j @ CHR ''}'' # t) = j @ CHR ''}'' # replaceAll (CHR ''{'' # k @ ''}'') v t" for t
      using replaceAll_skip [of "j @ ''}''" "k @ ''}''" v t] j(1) by simp
    show ?thesis using Cons Var at skip by (auto simp: serverText_def)
  qed
qed (simp add: serverText_def)

text \<open>What is relied on of regular expressions: a name in braces stands for itself, a value without a dollar sign too.\<close>

definition plainName :: "string \<Rightarrow> bool" where
  "plainName k \<longleftrightarrow> k \<noteq> [] \<and>
    list_all (\<lambda>c. c \<in> set ''abcdefghijklmnopqrstuvwxyzABCDEFGHIJKLMNOPQRSTUVWXYZ_'') k"

lemma plainName_noBraces: "plainName k \<Longrightarrow> noBraces k"
proof -
  let ?L = "set ''abcdefghijklmnopqrstuvwxyzABCDEFGHIJKLMNOPQRSTUVWXYZ_''"
  have "CHR ''{'' \<notin> ?L" "CHR ''}'' \<notin> ?L" by simp_all
  then show "plainName k \<Longrightarrow> noBraces k" unfolding plainName_def noBraces_def list_all_iff by blast
qed

definition literalReplace :: "(string \<Rightarrow> string \<Rightarrow> string \<Rightarrow> JsFailure + string) \<Rightarrow> bool" where
  "literalReplace rxReplace \<longleftrightarrow> (\<forall>k v s. plainName k \<longrightarrow> CHR ''$'' \<notin> set v \<longrightarrow>
     rxReplace (''{'' @ k @ ''}'') v s = Inr (replaceAll (''{'' @ k @ ''}'') v s))"

fun valued :: "(string \<Rightarrow> string option) \<Rightarrow> ServerPart \<Rightarrow> string" where
  "valued f (Lit l) = l"
| "valued f (Var k) = (case f k of None \<Rightarrow> ''{'' @ k @ ''}'' | Some v \<Rightarrow> v)"

text \<open>One variable after the other is the same as all at once, in any order.\<close>

lemma replace_all_parts:
  assumes "literalReplace rxReplace" "list_all partOk ps"
    and "list_all (\<lambda>(k, v). plainName k \<and> noBraces v \<and> CHR ''$'' \<notin> set v) es"
  shows "foldJ (\<lambda>str (k, v). rxReplace (''{'' @ k @ ''}'') v str) (serverText ps) es
    = Inr (concat (map (valued (jget es)) ps))"
  using assms(2,3)
proof (induction es arbitrary: ps)
  case Nil
  have "map (valued (jget [])) ps = map partText ps"
  proof (rule map_cong [OF refl])
    fix p show "valued (jget []) p = partText p" by (cases p) simp_all
  qed
  then show ?case by (simp only: foldJ.simps serverText_def)
next
  case (Cons e es)
  obtain k v where e: "e = (k, v)" by (cases e)
  have ok: "plainName k" "noBraces k" "noBraces v" "CHR ''$'' \<notin> set v"
    using Cons.prems e plainName_noBraces [of k] by simp_all
  have parts: "list_all partOk (map (assign1 k v) ps)"
    using Cons.prems(1) ok(3) by (induction ps) (auto elim!: partOk.elims)
  have "valued (jget es) (assign1 k v p) = valued (jget (e # es)) p" for p
    by (cases p) (simp_all add: e jget_def)
  then have all: "valued (jget es) \<circ> assign1 k v = valued (jget (e # es))" by (simp add: fun_eq_iff)
  then show ?case
    using Cons.IH [OF parts] Cons.prems(2) ok assms(1) replaceAll_server [OF Cons.prems(1) ok(2)]
    by (simp add: e literalReplace_def all [unfolded e])
qed

section \<open>The address that is used\<close>


text \<open>A variable that is set twice, beside one that is not set.\<close>

definition exServer :: "ServerPart list" where
  "exServer = [Lit ''https://'', Var ''stage'', Lit ''.host/'', Var ''version'']"


end
