(* ===== verification/UiXmlSample.thy ===== *)
theory UiXmlSample
  imports UiSchema
begin

text \<open>
  The XML samples that the pages make of schemas: \<open>sampleXmlFromSchema\<close> in \<open>samples/fn.js\<close>, up to the
  tree that the package \<open>xml\<close> prints, and \<open>getSampleSchema\<close> in \<open>core/utils.js\<close>. What the code sets on its
  copy of a part of the schema before it goes on with this part is passed as an overlay of the fields of
  the part: \<open>xml\<close>, \<open>example\<close> and \<open>default\<close>. Schemas are plain, and no property has the name of a
  function that every object inherits; \<open>object-assign-deep\<close> copies a plain object.
\<close>

definition ownFields :: "jstree \<Rightarrow> (string \<times> jstree) list" where
  "ownFields schema = (case schema of TObj ps \<Rightarrow> ps | _ \<Rightarrow> [])"

definition xmlType :: "(string \<times> jstree) list \<Rightarrow> jstree" where
  "xmlType fs =
    (if treeTruthy (fieldOf fs ''type'') then fieldOf fs ''type''
     else if treeTruthy (fieldOf fs ''properties'') \<or> treeTruthy (fieldOf fs ''additionalProperties'') then TStr ''object''
     else if treeTruthy (fieldOf fs ''items'') then TStr ''array''
     else TUndef)"

definition displayName :: "SampleEnv \<Rightarrow> jstree \<Rightarrow> jstree \<Rightarrow> string" where
  "displayName env pre name =
    (if treeTruthy pre then treeText (sampleText env) pre @ '':'' else '''')
    @ treeText (sampleText env) (orElse name (TStr ''notagname''))"

definition namespaceAttr :: "SampleEnv \<Rightarrow> jstree \<Rightarrow> jstree \<Rightarrow> (string \<times> jstree) list" where
  "namespaceAttr env pre ns =
    (if treeTruthy ns then [(if treeTruthy pre then ''xmlns:'' @ treeText (sampleText env) pre else ''xmlns'', ns)] else [])"

definition attrEntry :: "(string \<times> jstree) list \<Rightarrow> jstree" where
  "attrEntry attr = TObj [(''_attr'', TObj attr)]"

text \<open>\<open>v.xml.name = n\<close>; a primitive value takes no fields.\<close>

definition setXmlName :: "jstree \<Rightarrow> jstree \<Rightarrow> JsFailure + jstree" where
  "setXmlName xml n = (case xml of
     TObj xs \<Rightarrow> Inr (TObj (jput ''name'' n xs))
   | TArr _ \<Rightarrow> Inr (TObj [(''name'', n)])
   | _ \<Rightarrow> Inl (TypeError ''Cannot create property name''))"

definition fieldsToSet :: "jstree \<Rightarrow> JsFailure + (string \<times> jstree) list" where
  "fieldsToSet v = (case v of
     TObj ps \<Rightarrow> Inr ps
   | TArr _ \<Rightarrow> Inr []
   | _ \<Rightarrow> Inl (TypeError ''Cannot create property xml''))"

text \<open>The \<open>xml\<close> of the items of an array, which has that of the array where it has none itself.\<close>

definition itemsXml :: "jstree \<Rightarrow> jstree \<Rightarrow> JsFailure + jstree" where
  "itemsXml items xml =
    bindJ (fieldsToSet items) (\<lambda>is'.
      let ixml = orElse (orElse (fieldOf is' ''xml'') xml) (TObj []) in
      bindJ (readProp ixml ''name'') (\<lambda>iname. bindJ (readProp xml ''name'') (\<lambda>name.
        setXmlName ixml (orElse iname name))))"

text \<open>The overlays of the items: one for each example, or for each default, or none.\<close>

definition itemOverlays :: "(string \<times> jstree) list \<Rightarrow> (string \<times> jstree) list list option" where
  "itemOverlays fs = (case fieldOf fs ''example'' of
     TArr vs \<Rightarrow> Some (map (\<lambda>v. [(''example'', v)]) vs)
   | _ \<Rightarrow> (case fieldOf fs ''default'' of
             TArr vs \<Rightarrow> Some (map (\<lambda>v. [(''default'', v)]) vs)
           | _ \<Rightarrow> None))"

definition firstEnum :: "jstree \<Rightarrow> jstree" where
  "firstEnum v = (case v of TArr [] \<Rightarrow> TUndef | TArr (w # _) \<Rightarrow> w | _ \<Rightarrow> TBool False)"

text \<open>
  \<open>v[name]\<close> of an example: of an array and a text also the length and the elements.
\<close>

definition exampleAt :: "jstree \<Rightarrow> string \<Rightarrow> jstree" where
  "exampleAt v name =
    (let at = (\<lambda>vs. if name = ''length'' then TNum (Dec (int (length vs)) 0)
                   else (case listIndex name of None \<Rightarrow> TUndef | Some i \<Rightarrow> if i < length vs then vs ! i else TUndef)) in
     case v of TObj ps \<Rightarrow> fieldOf ps name | TArr vs \<Rightarrow> at vs | TStr s \<Rightarrow> at (map (\<lambda>c. TStr [c]) s) | _ \<Rightarrow> TUndef)"

text \<open>The value of an attribute, the first that is true of its example, that of the object, its default and its enumeration.\<close>

definition attributeValue :: "SampleEnv \<Rightarrow> jstree \<Rightarrow> (string \<times> jstree) list \<Rightarrow> JsFailure + jstree" where
  "attributeValue env inExample ps =
    (let chosen = orElse (fieldOf ps ''example'') (orElse inExample (orElse (fieldOf ps ''default'') (firstEnum (fieldOf ps ''enum'')))) in
     if treeTruthy chosen then Inr chosen else primitive env (TObj ps))"

definition skipsProp :: "SampleConfig \<Rightarrow> jstree \<Rightarrow> JsFailure + bool" where
  "skipsProp config p =
    bindJ (readProp p ''readOnly'') (\<lambda>ro. bindJ (readProp p ''writeOnly'') (\<lambda>wo.
      Inr (treeTruthy ro \<and> \<not> includeReadOnly config \<or> treeTruthy wo \<and> \<not> includeWriteOnly config)))"

definition propOverlay :: "jstree \<Rightarrow> jstree \<Rightarrow> (string \<times> jstree) list \<Rightarrow> (string \<times> jstree) list" where
  "propOverlay xml inExample ps =
    (''xml'', xml) # (if fieldOf ps ''example'' = TUndef \<and> inExample \<noteq> TUndef then [(''example'', inExample)] else [])"

text \<open>The configuration of a call without one.\<close>

definition noConfig :: SampleConfig where
  "noConfig = \<lparr>includeReadOnly = False, includeWriteOnly = False\<rparr>"

text \<open>A part of a schema with the fields that were set on it; an array has none of the names the code reads.\<close>

definition overlaid :: "jstree \<Rightarrow> (string \<times> jstree) list \<Rightarrow> jstree" where
  "overlaid schema ov = (case schema of
     TObj ps \<Rightarrow> TObj (fold (\<lambda>(k, v). jput k v) ov ps) | TArr _ \<Rightarrow> TObj ov | _ \<Rightarrow> schema)"

text \<open>What a property of an object adds to its element.\<close>

datatype XmlPart = NoPart | AttributePart string jstree | ElementPart jstree

fun partElements :: "XmlPart \<Rightarrow> jstree list" where
  "partElements (ElementPart (TArr vs)) = vs"
| "partElements (ElementPart v) = [v]"
| "partElements p = []"

fun addAttribute :: "XmlPart \<Rightarrow> (string \<times> jstree) list \<Rightarrow> (string \<times> jstree) list" where
  "addAttribute (AttributePart n v) attr = jput n v attr"
| "addAttribute p attr = attr"

definition objectElement :: "string \<Rightarrow> (string \<times> jstree) list \<Rightarrow> XmlPart list \<Rightarrow> jstree list \<Rightarrow> jstree" where
  "objectElement shown attr parts extra =
    TObj [(shown, TArr (concat (map partElements parts) @ extra @ [attrEntry (fold addAttribute parts attr)]))]"

definition additionalElements :: "SampleEnv \<Rightarrow> jstree \<Rightarrow> JsFailure + jstree list" where
  "additionalElements env additionalProperties =
    (if additionalProperties = TBool True then Inr [TObj [(''additionalProp'', TStr ''Anything can be here'')]]
     else if treeTruthy additionalProperties then
       bindJ (primitive env additionalProperties) (\<lambda>v. Inr [TObj [(''additionalProp'', v)]])
     else Inr [])"

text \<open>The value of an element of another type.\<close>

definition elementValue :: "SampleEnv \<Rightarrow> jstree \<Rightarrow> JsFailure + jstree" where
  "elementValue env schema =
    (let fs = ownFields schema in
     if fieldOf fs ''example'' \<noteq> TUndef then Inr (fieldOf fs ''example'')
     else if fieldOf fs ''default'' \<noteq> TUndef then Inr (fieldOf fs ''default'')
     else if arrayOf (fieldOf fs ''enum'') \<noteq> None then Inr (firstEnum (fieldOf fs ''enum''))
     else primitive env schema)"

text \<open>The step of the loop for one property; \<open>sample\<close> is the call for the property itself.\<close>

definition propPart :: "SampleEnv \<Rightarrow> SampleConfig \<Rightarrow> (jstree \<Rightarrow> (string \<times> jstree) list \<Rightarrow> JsFailure + jstree) \<Rightarrow> jstree
    \<Rightarrow> string \<times> jstree \<Rightarrow> JsFailure + XmlPart" where
  "propPart env config sample example = (\<lambda>(propName, p).
    bindJ (skipsProp config p) (\<lambda>skips.
      if skips then Inr NoPart
      else
        bindJ (fieldsToSet p) (\<lambda>ps.
          let pxml = orElse (fieldOf ps ''xml'') (TObj []); inExample = exampleAt example propName in
          bindJ (readProp pxml ''attribute'') (\<lambda>isAttribute.
          bindJ (readProp pxml ''name'') (\<lambda>pname.
            let n = orElse pname (TStr propName) in
            if treeTruthy isAttribute then
              bindJ (attributeValue env inExample (jput ''xml'' pxml ps)) (\<lambda>v.
                Inr (AttributePart (treeText (sampleText env) n) v))
            else
              bindJ (setXmlName pxml n) (\<lambda>pxml'.
              bindJ (sample p (propOverlay pxml' inExample ps)) (\<lambda>t.
                Inr (ElementPart t))))))))"

lemma propPart_cong [fundef_cong]:
  "e = e' \<Longrightarrow> (\<And>ov. sample (snd e') ov = sample' (snd e') ov)
    \<Longrightarrow> propPart env config sample example e = propPart env config sample' example e'"
proof -
  assume "e = e'" and same: "\<And>ov. sample (snd e') ov = sample' (snd e') ov"
  obtain k p where e: "e' = (k, p)" by (cases e')
  have p: "sample p = sample' p" using same by (simp add: e fun_eq_iff)
  show ?thesis unfolding \<open>e = e'\<close> e propPart_def prod.case p ..
qed

lemma size_ownField: "fieldOf (ownFields schema) k \<noteq> TUndef \<Longrightarrow> Suc (size (fieldOf (ownFields schema) k)) < size schema"
  using size_fieldOf [of "ownFields schema" k] by (cases schema) (auto simp: ownFields_def)

lemma size_items: "treeTruthy (fieldOf (ownFields schema) k) \<Longrightarrow> size (fieldOf (ownFields schema) k) < size schema"
  using size_ownField [of schema k] by (cases "fieldOf (ownFields schema) k = TUndef") auto

lemma size_ownProp:
  assumes "(k, v) \<in> set (entriesOf (objectify (fieldOf (ownFields schema) f)))"
  shows "size v < size schema"
proof -
  let ?p = "fieldOf (ownFields schema) f"
  have t: "isObject ?p" using assms by (auto simp: objectify_def entriesOf_def split: if_splits)
  then have "?p \<noteq> TUndef" by (auto simp: isObject_def)
  then show ?thesis using size_entriesOf [OF assms] size_objectify_object [OF t] size_ownField [of schema f] by linarith
qed

lemma size_ownEntry:
  "e \<in> set (entriesOf (objectify (fieldOf (ownFields schema) f))) \<Longrightarrow> size (snd e) < size schema"
  by (cases e) (simp add: size_ownProp)

section \<open>sampleXmlFromSchema\<close>

text \<open>
  The items and the properties are read from the schema without the fields that were set on it, which
  have other names. A property is sampled without the configuration.
\<close>

function sampleXmlFromSchema :: "SampleEnv \<Rightarrow> SampleConfig \<Rightarrow> jstree \<Rightarrow> (string \<times> jstree) list \<Rightarrow> JsFailure + jstree" where
  "sampleXmlFromSchema env config schema ov =
    (let given = overlaid schema ov; fs = ownFields given; type = xmlType fs;
         items = fieldOf (ownFields schema) ''items''; properties = fieldOf (ownFields schema) ''properties'' in
     bindJ (readProp given ''xml'') (\<lambda>xml.
     bindJ (readProp xml ''name'') (\<lambda>name.
     bindJ (readProp xml ''prefix'') (\<lambda>pre.
     bindJ (readProp xml ''namespace'') (\<lambda>ns.
       let shown = displayName env pre name; attr = namespaceAttr env pre ns in
       if type = TUndef then Inr TUndef
       else if type = TStr ''array'' \<and> treeTruthy items then
         bindJ (itemsXml items xml) (\<lambda>ixml.
         bindJ (readProp xml ''wrapped'') (\<lambda>wrapped.
           if treeTruthy wrapped then
             bindJ (mapJ (\<lambda>add. sampleXmlFromSchema env config items ((''xml'', ixml) # add))
                     (case itemOverlays fs of Some adds \<Rightarrow> adds | None \<Rightarrow> [[]])) (\<lambda>vs.
               Inr (TObj [(shown, TArr (vs @ [attrEntry attr]))]))
           else (case itemOverlays fs of
               Some adds \<Rightarrow> bindJ (mapJ (\<lambda>add. sampleXmlFromSchema env config items ((''xml'', ixml) # add)) adds) (\<lambda>vs. Inr (TArr vs))
             | None \<Rightarrow> sampleXmlFromSchema env config items [(''xml'', ixml)])))
       else if type = TStr ''object'' then
         let example = orElse (fieldOf fs ''example'') (TObj []) in
         bindJ (mapJ (propPart env config (sampleXmlFromSchema env noConfig) example)
             (entriesOf (objectify properties))) (\<lambda>parts.
         bindJ (additionalElements env (fieldOf fs ''additionalProperties'')) (\<lambda>extra.
           Inr (objectElement shown attr parts extra)))
       else
         bindJ (elementValue env given) (\<lambda>v. Inr (TObj [(shown, TArr [attrEntry attr, v])])))))))"
  by pat_completeness auto
termination
proof (relation "measure (\<lambda>(env, config, schema, ov). size schema)", goal_cases)
  case 2
  then show ?case by (simp add: size_items)
next
  case 3
  then show ?case by (simp add: size_items)
next
  case 4
  then show ?case by (simp add: size_items)
next
  case 5
  then show ?case by (auto dest: size_ownEntry)
qed simp

declare sampleXmlFromSchema.simps [simp del]

section \<open>getSampleSchema\<close>

text \<open>\<open>JSON.stringify(v, null, 2)\<close> of an object; \<open>undefined\<close> is \<open>null\<close> in an array and left out of an object.\<close>

definition jsonQuoted :: "string \<Rightarrow> string" where
  "jsonQuoted s = ''\"'' @ concat (map (\<lambda>c. let n = (of_char c :: nat) in
     if c = CHR ''\"'' then [CHR 0x5C, c] else if n = 92 then [c, c]
     else if n = 8 then [CHR 0x5C, CHR ''b''] else if n = 9 then [CHR 0x5C, CHR ''t'']
     else if n = 10 then [CHR 0x5C, CHR ''n''] else if n = 12 then [CHR 0x5C, CHR ''f'']
     else if n = 13 then [CHR 0x5C, CHR ''r'']
     else if n < 32 then CHR 0x5C # ''u00'' @ showNat (n div 16) @ [''0123456789abcdef'' ! (n mod 16)]
     else [c]) s) @ ''\"''"

definition jsonBlock :: "string \<Rightarrow> string \<Rightarrow> string \<Rightarrow> string list \<Rightarrow> string" where
  "jsonBlock opening closing indent parts =
    (if parts = [] then opening @ closing
     else opening @ [CHR 10] @ indent @ ''  '' @ joinWith ('','' @ [CHR 10] @ indent @ ''  '') parts @ [CHR 10] @ indent @ closing)"

fun prettyJson :: "string \<Rightarrow> jstree \<Rightarrow> string" where
  "prettyJson indent (TStr s) = jsonQuoted s"
| "prettyJson indent (TBool b) = (if b then ''true'' else ''false'')"
| "prettyJson indent (TNum n) = (case n of Dec m e \<Rightarrow> if m = 0 then ''0'' else numText n | _ \<Rightarrow> ''null'')"
| "prettyJson indent (TArr vs) = jsonBlock ''['' '']'' indent (map (prettyJson (''  '' @ indent)) vs)"
| "prettyJson indent (IList vs) = jsonBlock ''['' '']'' indent (map (prettyJson (''  '' @ indent)) vs)"
| "prettyJson indent (TObj ps) = jsonBlock ''{'' ''}'' indent
    (map (\<lambda>(k, v). jsonQuoted k @ '': '' @ prettyJson (''  '' @ indent) v) (filter (\<lambda>(k, v). v \<noteq> TUndef) ps))"
| "prettyJson indent (IMap ps) = jsonBlock ''{'' ''}'' indent
    (map (\<lambda>(k, v). jsonQuoted k @ '': '' @ prettyJson (''  '' @ indent) v) (filter (\<lambda>(k, v). v \<noteq> TUndef) ps))"
| "prettyJson indent (TFile n t) = ''{}''"
| "prettyJson indent TNull = ''null''"
| "prettyJson indent TUndef = ''null''"

text \<open>\<open>/xml/.test(contentType)\<close>\<close>

fun mentionsXml :: "string \<Rightarrow> bool" where
  "mentionsXml [] = False"
| "mentionsXml (c # s) = (startsWith (c # s) ''xml'' \<or> mentionsXml s)"

text \<open>
  \<open>match[1]\<close> of \<open>ref.match(/\S*\/(\S+)$/)\<close>: what follows the last slash of the last word, where a slash at the very
  end is part of it.
\<close>

definition lastWord :: "string \<Rightarrow> string" where
  "lastWord s = rev (takeWhile (\<lambda>c. \<not> isJsSpace c) (rev s))"

definition refName :: "string \<Rightarrow> string option" where
  "refName s =
    (let w = lastWord s in
     if CHR ''/'' \<in> set (butlast w) then Some (rev (takeWhile (\<lambda>c. c \<noteq> CHR ''/'') (rev (butlast w))) @ [last w]) else None)"

text \<open>The name given to a schema with a reference.\<close>

definition nameByRef :: "jstree \<Rightarrow> JsFailure + jstree" where
  "nameByRef r = (case r of
     TStr s \<Rightarrow> (case refName s of
        None \<Rightarrow> Inl (TypeError ''Cannot read property 1 of null'')
      | Some n \<Rightarrow> Inr (TStr n))
   | _ \<Rightarrow> Inl (TypeError ''match is not a function''))"

definition namelessXml :: string where
  "namelessXml = ''<?xml version=\"1.0\" encoding=\"UTF-8\"?>'' @ [CHR 10]
    @ ''<!-- XML example cannot be generated; root element name is undefined -->''"

text \<open>\<open>createXMLExample\<close>; \<open>xmlText\<close> is the package \<open>xml\<close>. That equal calls are made once changes nothing.\<close>

definition createXMLExample :: "(jstree \<Rightarrow> string) \<Rightarrow> SampleEnv \<Rightarrow> SampleConfig \<Rightarrow> jstree \<Rightarrow> (string \<times> jstree) list \<Rightarrow> JsFailure + jstree" where
  "createXMLExample xmlText env config schema ov =
    bindJ (sampleXmlFromSchema env config schema ov) (\<lambda>json.
      Inr (if treeTruthy json then TStr (xmlText json) else TUndef))"

definition getSampleSchema :: "(jstree \<Rightarrow> string) \<Rightarrow> SampleEnv \<Rightarrow> jstree \<Rightarrow> jstree \<Rightarrow> SampleConfig \<Rightarrow> JsFailure + jstree" where
  "getSampleSchema xmlText env schema contentType config =
    (if mentionsXml (treeText (sampleText env) contentType) then
       bindJ (readProp schema ''xml'') (\<lambda>xml.
       if treeTruthy xml \<and> treeTruthy (propOf xml ''name'') then createXMLExample xmlText env config schema []
       else
         bindJ (fieldsToSet schema) (\<lambda>fs.
         if treeTruthy (fieldOf fs ''$$ref'') then
           bindJ (nameByRef (fieldOf fs ''$$ref'')) (\<lambda>n.
           bindJ (setXmlName (orElse xml (TObj [])) n) (\<lambda>named.
             createXMLExample xmlText env config schema [(''xml'', named)]))
         else if list_ex (\<lambda>k. treeTruthy (fieldOf fs k)) [''type'', ''items'', ''properties'', ''additionalProperties'']
           then Inr (TStr namelessXml)
         else Inr TNull))
     else
       bindJ (sampleFromSchema env config schema) (\<lambda>res.
         Inr (if typeOf res = ''object'' then TStr (prettyJson '''' res) else res)))"

end
