(* ===== verification/UiXmlSampleSpec.thy ===== *)
theory UiXmlSampleSpec
  imports UiXmlSample UiSchemaSpec
begin

text \<open>
  What the XML samples are: the sample of a schema that the generator can handle exists, is an element
  with the name of the schema, and has an attribute or child elements for exactly the properties that
  are shown.
\<close>

section \<open>Schemas and their elements\<close>

definition leafType :: "(string \<times> jstree) list \<Rightarrow> bool" where
  "leafType fs \<longleftrightarrow> (\<exists>t\<in>{''string'', ''number'', ''integer'', ''boolean''}. fieldOf fs ''type'' = TStr t)"

definition xmlFieldOk :: "(string \<times> jstree) list \<Rightarrow> bool" where
  "xmlFieldOk fs \<longleftrightarrow> fieldOf fs ''xml'' = TUndef \<or> (\<exists>x. fieldOf fs ''xml'' = TObj x)"

definition isAttributeProp :: "jstree \<Rightarrow> bool" where
  "isAttributeProp p \<longleftrightarrow> treeTruthy (propOf (propOf p ''xml'') ''attribute'')"

text \<open>
  The schemas the generator handles: a primitive type, an array of such a schema, or an object of such
  properties, those written as attributes of a primitive type.
\<close>

inductive xmlOk :: "jstree \<Rightarrow> bool" where
  leaf: "xmlFieldOk fs \<Longrightarrow> leafType fs \<Longrightarrow> xmlOk (TObj fs)"
| array: "xmlFieldOk fs \<Longrightarrow> xmlType fs = TStr ''array'' \<Longrightarrow> xmlOk (fieldOf fs ''items'') \<Longrightarrow> xmlOk (TObj fs)"
| object: "xmlFieldOk fs \<Longrightarrow> xmlType fs = TStr ''object''
    \<Longrightarrow> (\<And>k p. (k, p) \<in> set (entriesOf (objectify (fieldOf fs ''properties''))) \<Longrightarrow> xmlOk p)
    \<Longrightarrow> (\<And>k p. (k, p) \<in> set (entriesOf (objectify (fieldOf fs ''properties''))) \<Longrightarrow> isAttributeProp p
          \<Longrightarrow> leafType (ownFields p))
    \<Longrightarrow> \<not> treeTruthy (fieldOf fs ''additionalProperties'') \<or> fieldOf fs ''additionalProperties'' = TBool True
        \<or> (\<exists>as. fieldOf fs ''additionalProperties'' = TObj as \<and> leafType as)
    \<Longrightarrow> xmlOk (TObj fs)"

definition xmlShown :: "SampleConfig \<Rightarrow> jstree \<Rightarrow> bool" where
  "xmlShown config p \<longleftrightarrow>
    \<not> (treeTruthy (propOf p ''readOnly'') \<and> \<not> includeReadOnly config)
    \<and> \<not> (treeTruthy (propOf p ''writeOnly'') \<and> \<not> includeWriteOnly config)"

definition elementName :: "SampleEnv \<Rightarrow> (string \<times> jstree) list \<Rightarrow> string" where
  "elementName env x = displayName env (fieldOf x ''prefix'') (fieldOf x ''name'')"

definition ownAttrs :: "SampleEnv \<Rightarrow> (string \<times> jstree) list \<Rightarrow> (string \<times> jstree) list" where
  "ownAttrs env x = namespaceAttr env (fieldOf x ''prefix'') (fieldOf x ''namespace'')"

text \<open>The \<open>xml\<close> a part goes by: its own, else \<open>d\<close>, with the name \<open>n\<close> when it has none.\<close>

definition partXml :: "jstree \<Rightarrow> (string \<times> jstree) list \<Rightarrow> jstree \<Rightarrow> (string \<times> jstree) list" where
  "partXml p d n =
    (let x = (case propOf p ''xml'' of TObj x \<Rightarrow> x | _ \<Rightarrow> d) in jput ''name'' (orElse (fieldOf x ''name'') n) x)"

definition propName :: "SampleEnv \<Rightarrow> string \<Rightarrow> jstree \<Rightarrow> string" where
  "propName env k p = treeText (sampleText env) (orElse (propOf (propOf p ''xml'') ''name'') (TStr k))"

definition shownProperties :: "SampleConfig \<Rightarrow> (string \<times> jstree) list \<Rightarrow> (string \<times> jstree) set" where
  "shownProperties config fs =
    {(k, p). (k, p) \<in> set (entriesOf (objectify (fieldOf fs ''properties''))) \<and> xmlShown config p}"

definition asElements :: "jstree \<Rightarrow> jstree list" where
  "asElements v = (case v of TArr vs \<Rightarrow> vs | _ \<Rightarrow> [v])"

text \<open>
  The trees a schema stands for under the \<open>xml\<close> it goes by. What is shown of a property is decided by the
  empty configuration, because the code samples properties without the one it has.
\<close>

inductive xmlFor :: "SampleEnv \<Rightarrow> SampleConfig \<Rightarrow> jstree \<Rightarrow> (string \<times> jstree) list \<Rightarrow> jstree \<Rightarrow> bool" for env where
  leaf: "leafType fs \<Longrightarrow> xmlFor env config (TObj fs) x (TObj [(elementName env x, TArr [attrEntry (ownAttrs env x), v])])"
| wrapped: "xmlType fs = TStr ''array'' \<Longrightarrow> treeTruthy (fieldOf x ''wrapped'')
    \<Longrightarrow> (\<And>v. v \<in> set vs \<Longrightarrow> xmlFor env config (fieldOf fs ''items'') (partXml (fieldOf fs ''items'') x (fieldOf x ''name'')) v)
    \<Longrightarrow> xmlFor env config (TObj fs) x (TObj [(elementName env x, TArr (vs @ [attrEntry (ownAttrs env x)]))])"
| listed: "xmlType fs = TStr ''array'' \<Longrightarrow> \<not> treeTruthy (fieldOf x ''wrapped'')
    \<Longrightarrow> (\<And>v. v \<in> set vs \<Longrightarrow> xmlFor env config (fieldOf fs ''items'') (partXml (fieldOf fs ''items'') x (fieldOf x ''name'')) v)
    \<Longrightarrow> xmlFor env config (TObj fs) x (TArr vs)"
| single: "xmlType fs = TStr ''array'' \<Longrightarrow> \<not> treeTruthy (fieldOf x ''wrapped'')
    \<Longrightarrow> xmlFor env config (fieldOf fs ''items'') (partXml (fieldOf fs ''items'') x (fieldOf x ''name'')) v
    \<Longrightarrow> xmlFor env config (TObj fs) x v"
| object: "xmlType fs = TStr ''object''
    \<Longrightarrow> (\<And>k p. (k, p) \<in> shownProperties config fs \<Longrightarrow> \<not> isAttributeProp p
          \<Longrightarrow> \<exists>t. xmlFor env noConfig p (partXml p [] (TStr k)) t \<and> set (asElements t) \<subseteq> set els)
    \<Longrightarrow> (\<And>e. e \<in> set els \<Longrightarrow> \<exists>k p t. (k, p) \<in> shownProperties config fs \<and> \<not> isAttributeProp p
          \<and> xmlFor env noConfig p (partXml p [] (TStr k)) t \<and> e \<in> set (asElements t))
    \<Longrightarrow> fst ` set attrs = fst ` set (ownAttrs env x)
          \<union> {propName env k p | k p. (k, p) \<in> shownProperties config fs \<and> isAttributeProp p}
    \<Longrightarrow> extra = [] \<longleftrightarrow> \<not> treeTruthy (fieldOf fs ''additionalProperties'')
    \<Longrightarrow> xmlFor env config (TObj fs) x (TObj [(elementName env x, TArr (els @ extra @ [attrEntry attrs]))])"

section \<open>The parts of a schema\<close>

lemma partElements_asElements [simp]: "partElements (ElementPart t) = asElements t"
  by (cases t) (simp_all add: asElements_def)

lemma propOf_TObj [simp]: "propOf (TObj ps) k = fieldOf ps k"
  by (simp add: propOf_def)

lemma readProp_TObj [simp]: "readProp (TObj ps) k = Inr (fieldOf ps k)"
  by (simp add: readProp_def)

lemma ownFields_TObj [simp]: "ownFields (TObj ps) = ps"
  by (simp add: ownFields_def)

lemma xmlOk_TObj: "xmlOk p \<Longrightarrow> \<exists>ps. p = TObj ps \<and> xmlFieldOk ps"
  by (induction rule: xmlOk.induct) auto

definition setField :: "string \<Rightarrow> bool" where
  "setField k \<longleftrightarrow> k = ''xml'' \<or> k = ''example'' \<or> k = ''default''"

lemma fieldOf_overlay:
  "k \<notin> fst ` set ov \<Longrightarrow> fieldOf (fold (\<lambda>(k, v). jput k v) ov ps) k = fieldOf ps k"
  by (induction ov arbitrary: ps) (auto split: prod.split)

lemma overlaid_xml:
  assumes "fst ` set add \<subseteq> {''example'', ''default''}"
  obtains gs where "overlaid (TObj fs) ((''xml'', TObj x) # add) = TObj gs" "fieldOf gs ''xml'' = TObj x"
    "\<And>k. \<not> setField k \<Longrightarrow> fieldOf gs k = fieldOf fs k"
proof
  let ?gs = "fold (\<lambda>(k, v). jput k v) ((''xml'', TObj x) # add) fs"
  have "''xml'' \<notin> {''example'', ''default''}" by simp
  then have n: "''xml'' \<notin> fst ` set add" using assms by blast
  show "overlaid (TObj fs) ((''xml'', TObj x) # add) = TObj ?gs" by (simp add: overlaid_def)
  show "fieldOf ?gs ''xml'' = TObj x" using n fieldOf_overlay [of "''xml''" add] by simp
  show "fieldOf ?gs k = fieldOf fs k" if "\<not> setField k" for k
    using that n assms by (intro fieldOf_overlay) (auto simp: setField_def)
qed

lemma itemOverlays_fields: "itemOverlays fs = Some adds \<Longrightarrow> add \<in> set adds \<Longrightarrow> fst ` set add \<subseteq> {''example'', ''default''}"
  by (auto simp: itemOverlays_def split: jstree.splits)

text \<open>Wherever a schema is sampled, its \<open>xml\<close> was set and its other fields are its own.\<close>

definition setsXml :: "jstree \<Rightarrow> (string \<times> jstree) list \<Rightarrow> (string \<times> jstree) list \<Rightarrow> bool" where
  "setsXml schema ov x \<longleftrightarrow> (\<exists>fs gs. schema = TObj fs \<and> overlaid schema ov = TObj gs \<and> fieldOf gs ''xml'' = TObj x
    \<and> (\<forall>k. \<not> setField k \<longrightarrow> fieldOf gs k = fieldOf fs k))"

lemma setsXml_own: "fieldOf fs ''xml'' = TObj x \<Longrightarrow> setsXml (TObj fs) [] x"
  by (simp add: setsXml_def overlaid_def)

lemma setsXml_part:
  assumes "xmlOk p" "fst ` set add \<subseteq> {''example'', ''default''}"
  shows "setsXml p ((''xml'', TObj x) # add) x"
  using xmlOk_TObj [OF assms(1)] overlaid_xml [OF assms(2)] unfolding setsXml_def by metis

lemma itemsXml_partXml:
  assumes "xmlOk p"
  shows "itemsXml p (TObj x) = Inr (TObj (partXml p x (fieldOf x ''name'')))"
  using xmlOk_TObj [OF assms]
  by (auto simp: itemsXml_def partXml_def fieldsToSet_def xmlFieldOk_def orElse_def setXmlName_def)

lemma xmlType_given: "(\<And>k. \<not> setField k \<Longrightarrow> fieldOf gs k = fieldOf fs k) \<Longrightarrow> xmlType gs = xmlType fs"
  by (simp add: xmlType_def setField_def)

lemma leafType_xmlType: "leafType fs \<Longrightarrow> xmlType fs \<noteq> TUndef \<and> xmlType fs \<noteq> TStr ''object'' \<and> xmlType fs \<noteq> TStr ''array''"
  by (auto simp: leafType_def xmlType_def)

lemma leafType_primitive: "leafType fs \<Longrightarrow> \<exists>v. primitive env (TObj fs) = Inr v"
  using primitive_plainType [of _ fs env] by (auto simp: leafType_def)

section \<open>The samples\<close>

definition isPart :: "SampleEnv \<Rightarrow> SampleConfig \<Rightarrow> string \<times> jstree \<Rightarrow> XmlPart \<Rightarrow> bool" where
  "isPart env config e part =
    (if \<not> xmlShown config (snd e) then part = NoPart
     else if isAttributeProp (snd e) then \<exists>v. part = AttributePart (propName env (fst e) (snd e)) v
     else \<exists>t. part = ElementPart t \<and> xmlFor env noConfig (snd e) (partXml (snd e) [] (TStr (fst e))) t)"

lemma attributeValue_leaf:
  assumes "leafType ps"
  shows "\<exists>v. attributeValue env d (jput ''xml'' x ps) = Inr v"
proof -
  have "leafType (jput ''xml'' x ps)" using assms by (simp add: leafType_def)
  then show ?thesis using leafType_primitive by (auto simp: attributeValue_def Let_def)
qed

lemma propPart_isPart:
  assumes p: "xmlOk p" "isAttributeProp p \<Longrightarrow> leafType (ownFields p)"
    and IH: "\<And>ov x. setsXml p ov x \<Longrightarrow> \<exists>r. sample p ov = Inr r \<and> xmlFor env noConfig p x r"
  shows "\<exists>part. propPart env config sample example (k, p) = Inr part \<and> isPart env config (k, p) part"
proof -
  obtain ps where ps: "p = TObj ps" "xmlFieldOk ps" using xmlOk_TObj [OF p(1)] by blast
  define x where "x = (case fieldOf ps ''xml'' of TObj x \<Rightarrow> x | _ \<Rightarrow> [])"
  have x: "orElse (fieldOf ps ''xml'') (TObj []) = TObj x"
    using ps(2) by (auto simp: x_def xmlFieldOk_def orElse_def)
  have part: "partXml p [] (TStr k) = jput ''name'' (orElse (fieldOf x ''name'') (TStr k)) x"
    by (simp add: partXml_def ps(1) x_def Let_def)
  have same: "fieldOf x ''name'' = propOf (propOf p ''xml'') ''name''" "fieldOf x ''attribute'' = propOf (propOf p ''xml'') ''attribute''"
    using ps(2) by (auto simp: ps(1) x_def xmlFieldOk_def propOf_def)
  have step: "propPart env config sample example (k, p) =
    (if \<not> xmlShown config p then Inr NoPart
     else if isAttributeProp p then
       bindJ (attributeValue env (exampleAt example k) (jput ''xml'' (TObj x) ps)) (\<lambda>v. Inr (AttributePart (propName env k p) v))
     else bindJ (sample p (propOverlay (TObj (partXml p [] (TStr k))) (exampleAt example k) ps)) (\<lambda>t. Inr (ElementPart t)))"
    using ps(1) by (auto simp: propPart_def skipsProp_def xmlShown_def fieldsToSet_def x Let_def setXmlName_def
      part [unfolded ps(1)] propName_def isAttributeProp_def same)
  consider (hidden) "\<not> xmlShown config p" | (attribute) "xmlShown config p" "isAttributeProp p"
    | (element) "xmlShown config p" "\<not> isAttributeProp p" by blast
  then show ?thesis
  proof cases
    case attribute
    then have "leafType ps" using p(2) ps(1) by simp
    then obtain v where "attributeValue env (exampleAt example k) (jput ''xml'' (TObj x) ps) = Inr v"
      using attributeValue_leaf by blast
    then show ?thesis using attribute by (simp add: step isPart_def)
  next
    case element
    have "setsXml p (propOverlay (TObj (partXml p [] (TStr k))) (exampleAt example k) ps) (partXml p [] (TStr k))"
      unfolding propOverlay_def by (rule setsXml_part [OF p(1)]) auto
    from IH [OF this] show ?thesis using element by (auto simp: step isPart_def)
  qed (simp add: step isPart_def)
qed

lemma mapJ_exists:
  "(\<And>x. x \<in> set xs \<Longrightarrow> \<exists>y. f x = Inr y \<and> P x y) \<Longrightarrow> \<exists>ys. mapJ f xs = Inr ys \<and> list_all2 P xs ys"
proof (induction xs)
  case (Cons x xs)
  obtain y where "f x = Inr y" "P x y" using Cons.prems [of x] by auto
  moreover obtain ys where "mapJ f xs = Inr ys" "list_all2 P xs ys" using Cons.IH Cons.prems by auto
  ultimately have "mapJ f (x # xs) = Inr (y # ys)" "list_all2 P (x # xs) (y # ys)" by auto
  then show ?case by blast
qed simp

lemma fst_addAttributes:
  "fst ` set (fold addAttribute parts attrs) = fst ` set attrs \<union> {n. \<exists>v. AttributePart n v \<in> set parts}"
proof (induction parts arbitrary: attrs)
  case (Cons part parts)
  have "fst ` set (jput n v as) = insert n (fst ` set as)" for n :: string and v :: jstree and as
    by (simp add: jput_def dom_update)
  then show ?case using Cons.IH by (cases part) (auto simp del: image_iff)
qed simp

lemma list_all2_partners:
  assumes "list_all2 P xs ys"
  shows "x \<in> set xs \<Longrightarrow> \<exists>y\<in>set ys. P x y" and "y \<in> set ys \<Longrightarrow> \<exists>x\<in>set xs. P x y"
  using assms by (induction rule: list_all2_induct) auto

text \<open>The sample of an object is the element with what its properties add to it.\<close>

lemma objectElement_xmlFor:
  assumes t: "xmlType fs = TStr ''object''"
    and parts: "list_all2 (isPart env config) (entriesOf (objectify (fieldOf fs ''properties''))) parts"
    and extra: "extra = [] \<longleftrightarrow> \<not> treeTruthy (fieldOf fs ''additionalProperties'')"
  shows "xmlFor env config (TObj fs) x (objectElement (elementName env x) (ownAttrs env x) parts extra)"
  unfolding objectElement_def
proof (rule xmlFor.object [OF t])
  let ?es = "entriesOf (objectify (fieldOf fs ''properties''))"
  have to: "\<exists>part\<in>set parts. isPart env config (k, p) part" if "(k, p) \<in> set ?es" for k p
    using list_all2_partners(1) [OF parts that] .
  have origin: "\<exists>k p. (k, p) \<in> set ?es \<and> isPart env config (k, p) part" if "part \<in> set parts" for part
    using list_all2_partners(2) [OF parts that] by auto
  show "\<exists>t. xmlFor env noConfig p (partXml p [] (TStr k)) t \<and> set (asElements t) \<subseteq> set (concat (map partElements parts))"
    if kp: "(k, p) \<in> shownProperties config fs" "\<not> isAttributeProp p" for k p
  proof -
    obtain part where "part \<in> set parts" "isPart env config (k, p) part"
      using to kp(1) by (auto simp: shownProperties_def)
    then show ?thesis using kp by (fastforce simp: isPart_def shownProperties_def)
  qed
  show "\<exists>k p t. (k, p) \<in> shownProperties config fs \<and> \<not> isAttributeProp p
      \<and> xmlFor env noConfig p (partXml p [] (TStr k)) t \<and> e \<in> set (asElements t)"
    if e: "e \<in> set (concat (map partElements parts))" for e
  proof -
    obtain part where part: "part \<in> set parts" "e \<in> set (partElements part)" using e by auto
    obtain k p where "(k, p) \<in> set ?es" "isPart env config (k, p) part" using origin [OF part(1)] by blast
    then show ?thesis using part(2) by (fastforce simp: isPart_def shownProperties_def split: if_splits)
  qed
  have "(\<exists>v. AttributePart n v \<in> set parts)
      \<longleftrightarrow> (\<exists>k p. (k, p) \<in> shownProperties config fs \<and> isAttributeProp p \<and> n = propName env k p)" for n
  proof
    assume "\<exists>v. AttributePart n v \<in> set parts"
    then obtain v k p where "(k, p) \<in> set ?es" "isPart env config (k, p) (AttributePart n v)" using origin by blast
    then show "\<exists>k p. (k, p) \<in> shownProperties config fs \<and> isAttributeProp p \<and> n = propName env k p"
      by (fastforce simp: isPart_def shownProperties_def split: if_splits)
  next
    assume "\<exists>k p. (k, p) \<in> shownProperties config fs \<and> isAttributeProp p \<and> n = propName env k p"
    then obtain k p where "(k, p) \<in> shownProperties config fs" "isAttributeProp p" "n = propName env k p" by blast
    then show "\<exists>v. AttributePart n v \<in> set parts" using to by (fastforce simp: isPart_def shownProperties_def)
  qed
  then show "fst ` set (fold addAttribute parts (ownAttrs env x)) = fst ` set (ownAttrs env x)
      \<union> {propName env k p | k p. (k, p) \<in> shownProperties config fs \<and> isAttributeProp p}"
    by (simp add: fst_addAttributes) blast
qed (rule extra)

lemma additionalElements_leaf:
  assumes "\<not> treeTruthy a \<or> a = TBool True \<or> (\<exists>as. a = TObj as \<and> leafType as)"
  shows "\<exists>extra. additionalElements env a = Inr extra \<and> (extra = [] \<longleftrightarrow> \<not> treeTruthy a)"
proof (cases "\<exists>as. a = TObj as \<and> leafType as")
  case True
  then obtain v where "primitive env a = Inr v" "treeTruthy a" "a \<noteq> TBool True" using leafType_primitive by force
  then show ?thesis by (simp add: additionalElements_def)
next
  case False
  then show ?thesis using assms by (auto simp: additionalElements_def)
qed

section \<open>Samples exist and are those of the schema\<close>

lemma sampleXml_conforms:
  "xmlOk schema \<Longrightarrow> setsXml schema ov x
    \<Longrightarrow> \<exists>r. sampleXmlFromSchema env config schema ov = Inr r \<and> xmlFor env config schema x r"
proof (induction arbitrary: config ov x rule: xmlOk.induct)
  case (leaf fs)
  then obtain gs where gs: "overlaid (TObj fs) ov = TObj gs" "fieldOf gs ''xml'' = TObj x"
    "\<And>k. \<not> setField k \<Longrightarrow> fieldOf gs k = fieldOf fs k" by (auto simp: setsXml_def)
  have l: "leafType gs" using leaf.hyps(2) gs(3) [of "''type''"] by (simp add: leafType_def setField_def)
  obtain w where "primitive env (TObj gs) = Inr w" using leafType_primitive [OF l] by blast
  then have "\<exists>v. elementValue env (TObj gs) = Inr v" by (auto simp: elementValue_def Let_def)
  then obtain v where v: "elementValue env (TObj gs) = Inr v" by blast
  have "sampleXmlFromSchema env config (TObj fs) ov = Inr (TObj [(elementName env x, TArr [attrEntry (ownAttrs env x), v])])"
    using leafType_xmlType [OF l]
    by (simp add: sampleXmlFromSchema.simps [of env config "TObj fs"] Let_def gs(1,2) v elementName_def ownAttrs_def)
  then show ?case using xmlFor.leaf [OF leaf.hyps(2)] by blast
next
  case (array fs)
  then obtain gs where gs: "overlaid (TObj fs) ov = TObj gs" "fieldOf gs ''xml'' = TObj x"
    "\<And>k. \<not> setField k \<Longrightarrow> fieldOf gs k = fieldOf fs k" by (auto simp: setsXml_def)
  let ?items = "fieldOf fs ''items''"
  let ?x = "partXml ?items x (fieldOf x ''name'')"
  let ?sample = "\<lambda>add. sampleXmlFromSchema env config ?items ((''xml'', TObj ?x) # add)"
  have t: "xmlType gs = TStr ''array''" using xmlType_given [OF gs(3)] array.hyps(2) by simp
  have it: "treeTruthy ?items" using xmlOk_TObj [OF array.hyps(3)] by auto
  have one: "\<exists>r. ?sample add = Inr r \<and> xmlFor env config ?items ?x r" if "fst ` set add \<subseteq> {''example'', ''default''}" for add
    using array.IH [OF setsXml_part [OF array.hyps(3) that]] .
  have every: "\<exists>vs. mapJ ?sample adds = Inr vs \<and> (\<forall>v\<in>set vs. xmlFor env config ?items ?x v)"
    if "\<And>add. add \<in> set adds \<Longrightarrow> fst ` set add \<subseteq> {''example'', ''default''}" for adds
    using sample_elements [of adds ?sample "\<lambda>_ r. xmlFor env config ?items ?x r"] one that by blast
  have step: "sampleXmlFromSchema env config (TObj fs) ov =
    (if treeTruthy (fieldOf x ''wrapped'') then
       bindJ (mapJ ?sample (case itemOverlays gs of Some adds \<Rightarrow> adds | None \<Rightarrow> [[]])) (\<lambda>vs.
         Inr (TObj [(elementName env x, TArr (vs @ [attrEntry (ownAttrs env x)]))]))
     else (case itemOverlays gs of Some adds \<Rightarrow> bindJ (mapJ ?sample adds) (\<lambda>vs. Inr (TArr vs)) | None \<Rightarrow> ?sample []))"
    by (simp add: sampleXmlFromSchema.simps [of env config "TObj fs"] Let_def gs(1,2) t it itemsXml_partXml [OF array.hyps(3)]
      elementName_def ownAttrs_def cong: if_cong option.case_cong)
  consider (wrapped) "treeTruthy (fieldOf x ''wrapped'')"
    | (listed) adds where "\<not> treeTruthy (fieldOf x ''wrapped'')" "itemOverlays gs = Some adds"
    | (single) "\<not> treeTruthy (fieldOf x ''wrapped'')" "itemOverlays gs = None" by blast
  then show ?case
  proof cases
    case wrapped
    let ?adds = "case itemOverlays gs of Some adds \<Rightarrow> adds | None \<Rightarrow> [[]]"
    have "fst ` set add \<subseteq> {''example'', ''default''}" if "add \<in> set ?adds" for add
      using that itemOverlays_fields [of gs _ add] by (cases "itemOverlays gs") auto
    then obtain vs where vs: "mapJ ?sample ?adds = Inr vs" "\<forall>v\<in>set vs. xmlFor env config ?items ?x v"
      using every [of ?adds] by blast
    then show ?thesis using xmlFor.wrapped [OF array.hyps(2) wrapped] by (simp add: step wrapped)
  next
    case (listed adds)
    then obtain vs where "mapJ ?sample adds = Inr vs" "\<forall>v\<in>set vs. xmlFor env config ?items ?x v"
      using every [of adds] itemOverlays_fields by blast
    then show ?thesis using xmlFor.listed [OF array.hyps(2) listed(1)] by (simp add: step listed)
  next
    case single
    obtain r where "?sample [] = Inr r" "xmlFor env config ?items ?x r" using one [of "[]"] by auto
    then show ?thesis using xmlFor.single [OF array.hyps(2) single(1)] by (simp add: step single)
  qed
next
  case (object fs)
  then obtain gs where gs: "overlaid (TObj fs) ov = TObj gs" "fieldOf gs ''xml'' = TObj x"
    "\<And>k. \<not> setField k \<Longrightarrow> fieldOf gs k = fieldOf fs k" by (auto simp: setsXml_def)
  let ?es = "entriesOf (objectify (fieldOf fs ''properties''))"
  let ?part = "propPart env config (sampleXmlFromSchema env noConfig) (orElse (fieldOf gs ''example'') (TObj []))"
  have t: "xmlType gs = TStr ''object''" using xmlType_given [OF gs(3)] object.hyps(2) by simp
  have ap: "fieldOf gs ''additionalProperties'' = fieldOf fs ''additionalProperties''" using gs(3) by (simp add: setField_def)
  have "\<exists>part. ?part e = Inr part \<and> isPart env config e part" if e: "e \<in> set ?es" for e
  proof (cases e)
    case (Pair k p)
    then have kp: "(k, p) \<in> set ?es" using e by simp
    show ?thesis unfolding Pair 
      by (rule propPart_isPart [OF object.hyps(3) [OF kp] object.hyps(4) [OF kp]], assumption, rule object.IH [OF kp])
  qed
  then obtain parts where parts: "mapJ ?part ?es = Inr parts" "list_all2 (isPart env config) ?es parts"
    using mapJ_exists [of ?es ?part "isPart env config"] by blast
  obtain extra where extra: "additionalElements env (fieldOf fs ''additionalProperties'') = Inr extra"
    "extra = [] \<longleftrightarrow> \<not> treeTruthy (fieldOf fs ''additionalProperties'')"
    using additionalElements_leaf [OF object.hyps(5)] by blast
  have "sampleXmlFromSchema env config (TObj fs) ov = Inr (objectElement (elementName env x) (ownAttrs env x) parts extra)"
    by (simp add: sampleXmlFromSchema.simps [of env config "TObj fs"] Let_def gs(1,2) t parts ap extra elementName_def ownAttrs_def)
  then show ?case using objectElement_xmlFor [OF object.hyps(2) parts(2) extra(2)] by blast
qed


definition petXml :: jstree where
  "petXml = TObj
    [(''xml'', TObj [(''name'', TStr ''Pet''), (''prefix'', TStr ''p''), (''namespace'', TStr ''urn:pets'')]),
     (''properties'', TObj
       [(''id'', TObj [(''type'', TStr ''integer''), (''xml'', TObj [(''attribute'', TBool True)])]),
        (''name'', TObj [(''type'', TStr ''string''), (''readOnly'', TBool True)]),
        (''tags'', TObj [(''items'', TObj [(''type'', TStr ''string''), (''xml'', TObj [(''name'', TStr ''tag'')])]),
                         (''xml'', TObj [(''wrapped'', TBool True)])])])]"

lemma petXml_ok: "xmlOk petXml"
  unfolding petXml_def
proof (rule xmlOk.object, goal_cases)
  case (3 k p)
  have tags: "xmlOk (TObj [(''items'', TObj [(''type'', TStr ''string''), (''xml'', TObj [(''name'', TStr ''tag'')])]),
      (''xml'', TObj [(''wrapped'', TBool True)])])"
    by (rule xmlOk.array) (simp_all add: xmlFieldOk_def xmlType_def xmlOk.leaf leafType_def)
  from 3 show ?case by (auto simp: entriesOf_def xmlOk.leaf leafType_def xmlFieldOk_def intro: tags)
qed (auto simp: xmlFieldOk_def xmlType_def entriesOf_def isAttributeProp_def leafType_def)


text \<open>The name a schema gets from its reference, and the sample of a request body of the media type \<open>application/xml\<close>.\<close>

lemma refName_last:
  assumes "n \<noteq> []" "list_all (\<lambda>c. \<not> isJsSpace c \<and> c \<noteq> CHR ''/'') n" "list_all (\<lambda>c. \<not> isJsSpace c) s"
  shows "refName (s @ ''/'' @ n) = Some n"
proof -
  obtain m c where n: "n = m @ [c]" using assms(1) by (metis append_butlast_last_id)
  have "isJsSpace CHR ''/'' = False" by (simp add: isJsSpace_def)
  then have w: "lastWord (s @ ''/'' @ n) = s @ ''/'' @ n"
    using assms(2,3) unfolding lastWord_def by (subst takeWhile_eq_all_conv [THEN iffD2]) (auto simp: list_all_iff)
  have b: "butlast (s @ ''/'' @ n) = s @ ''/'' @ m" by (simp add: n butlast_append)
  have "takeWhile (\<lambda>c. c \<noteq> CHR ''/'') (rev m @ CHR ''/'' # rev s) = rev m"
    using assms(2) by (subst takeWhile_append2) (auto simp: n list_all_iff)
  moreover have "last (s @ ''/'' @ n) = c" by (simp add: n)
  ultimately show ?thesis unfolding refName_def Let_def w b by (simp add: n)
qed

text \<open>Whatever the configuration, a read-only property of a nested object is left out of XML samples.\<close>

lemma xml_config_lost:
  "sampleXmlFromSchema env \<lparr>includeReadOnly = True, includeWriteOnly = True\<rparr>
     (TObj [(''xml'', TObj [(''name'', TStr ''a'')]), (''properties'', TObj
        [(''b'', TObj [(''properties'', TObj [(''c'', TObj [(''type'', TStr ''string''), (''readOnly'', TBool True)])])])])]) []
   = Inr (TObj [(''a'', TArr [TObj [(''b'', TArr [attrEntry []])], attrEntry []])])"
  by code_simp

end
