(* ===== verification/Spec2Isabelle.thy ===== *)
theory Spec2Isabelle
  imports TemplateSpec SimUtils RequestSpec ResponseSpec ScriptSpec RespondSpec MonitorSpec BeansSpec
    LifecycleSpec WebSocketSpec HttpSpec ZipSpec ManagerSpec Local SocketSpec JmsSpec KafkaSpec Rpc WsClient
    UiTextSpec UiValuesSpec UiValidateSpec UiSchemaSpec UiExecuteSpec UiLinksSpec UiOperationsSpec UiAuthSpec UiErrorsSpec UiPluginsSpec
    UiOas3Spec UiXmlSampleSpec
begin

text \<open>
  SmartSimulator: a server that answers requests from scripts.

  The program is written in Java, under \<open>src/main/java/io/github/lujian213/simulator\<close>. A script is a
  text of rules. A rule is a request template, matched against a request of any protocol, and the
  response templates that are filled and sent back when it matches. Scripts form a tree along the
  folders they are loaded from; a script inherits the properties and the rules of its ancestors. A
  simulator is a script with a protocol behind it, and the repository holds the simulators, starts
  and stops them. The pages under \<open>scripts/swagger-ui\<close> are served by one of the simulators. The
  JavaScript they bring with them is minified: \<open>swagger-ui.js\<close> holds the application, of which the
  state and the checks are modelled, and \<open>swagger-ui-bundle.js\<close> the same with its libraries, of which
  a few small modules are modelled.

  How the parts interact. \<open>SimScript.genResponse\<close> asks every rule in turn to match
  (\<open>SimRequestTemplate.match\<close>, which uses \<open>SimTemplate\<close> for the top line and the headers and the
  chain of \<open>RequestHandler\<close>s for the body), fills the responses of the first one that does
  (\<open>SimResponse.generate\<close>, with the chain of \<open>ResponseHandler\<close>s, which call beans through
  \<open>BeanRepository\<close>), and hands each to the request (\<open>AbstractSimRequest.fillResponse\<close>), which writes
  it to its own channel or to another simulator. The simulator tells its listeners (\<open>ListenerHub\<close>,
  \<open>MessageCounter\<close>, \<open>SimulatorListenerProxy\<close>, \<open>MessageTracer\<close>).

  Theories and sources. A definition has the name of the method or class it models; the manifest
  gives its lines.

    \<^item> \<open>Prelude\<close>: exceptions as values (\<open>res\<close>, \<open>bindE\<close>, \<open>mapE\<close>), programs with effects on a world of
      any type (\<open>prog\<close>, \<open>bindS\<close>), Java's object values, and Java's maps as association lists in one
      iteration order, with their laws in the locale \<open>java_map\<close>.
    \<^item> \<open>JavaLib\<close>: the string, number and reader methods of Java's library that the program uses.
    \<^item> \<open>Templates\<close>, \<open>TemplateSpec\<close>: \<open>SimTemplate.java\<close>. Scanning a template line into tokens, and
      matching a line by the shortest pieces. Tokens are a gap-free cut of the line; printing and
      scanning are inverse; the result is the leftmost-shortest fitting cut; which lines raise.
    \<^item> \<open>SimUtils\<close>: \<open>util/SimUtils.java\<close>. URLs, headers, delimiters, identifiers. Encoding and
      decoding are inverse for every character set with the laws of the locale \<open>charset\<close>; the period
      of the identifiers and the width at which their limit overflows (64 bit words).
    \<^item> \<open>RequestTemplate\<close>, \<open>RequestSpec\<close>: \<open>SimRequestTemplate.java\<close>, \<open>SimRegexTemplate.java\<close>,
      \<open>util/RequestHandler.java\<close>. Reading a rule and matching a request; the round trip of the text,
      the decision of \<open>match\<close>, the choice of the body handler.
    \<^item> \<open>ResponseTemplate\<close>, \<open>ResponseSpec\<close>: \<open>SimResponseTemplate.java\<close>, \<open>SimResponse.java\<close>,
      \<open>util/ResponseHandler.java\<close>, \<open>util/MediaTypeHelper.java\<close>. The same for responses, and what every
      generated response satisfies.
    \<^item> \<open>Script\<close>, \<open>ScriptSpec\<close>: \<open>SimScript.java\<close>, \<open>manager/SimulatorFolder.java\<close>. The parser of rules and
      the two loaders of folders. The properties of a script are a library object; its laws are the
      locale \<open>script_config\<close>.
    \<^item> \<open>Respond\<close>, \<open>RespondSpec\<close>: \<open>genResponse\<close> and \<open>fillResponse\<close>, with the relation \<open>passes\<close> for the
      rules that leave the turn to the next one.
    \<^item> \<open>Monitor\<close>, \<open>MonitorSpec\<close>: \<open>util/ListenerHub.java\<close> and the package \<open>monitor\<close>; counters are 32 bit
      words.
    \<^item> \<open>Beans\<close>, \<open>BeansSpec\<close>: \<open>util/BeanRepository.java\<close>; classes are records of their constructors and
      methods.
    \<^item> \<open>Lifecycle\<close>, \<open>LifecycleSpec\<close>: \<open>SimSimulator.java\<close>, \<open>SimulatorRepository.java\<close>,
      \<open>SimulatorService.java\<close>; histories of starts and stops are the locale \<open>lifecycle\<close>.
    \<^item> \<open>WebSocket\<close>, \<open>WebSocketSpec\<close>: \<open>webbit/WebbitWSHandler.java\<close>, \<open>webbit/WebbitWSSimRequest.java\<close>. The
      bundle of connections, in an explicit store because one of its lists is held twice, refines a
      registry of identifiers; where it does not is a theorem too.
    \<^item> \<open>WsClient\<close>: \<open>webbit/WebbitWSClient.java\<close>. Threads that wait for a connection, as a relation of
      steps; no wake-up is lost, by rule induction over the reachable states.
    \<^item> \<open>Http\<close>, \<open>HttpSpec\<close>: \<open>http/HTTPSimulator.java\<close>, the requests and servers of the packages \<open>webbit\<close>
      and \<open>simple\<close>, \<open>SimUtils.doHttpProxy\<close>. A response is the list of calls on the server's response
      object; what a client gets when no rule matches, when its request cannot be built, and through
      the proxy.
    \<^item> \<open>Zip\<close>, \<open>ZipSpec\<close>, \<open>LoaderSpec\<close>: \<open>util/ZipFileVisitor.java\<close> and what \<open>SimScript\<close>, \<open>SimulatorFolder\<close> and
      \<open>SimulatorRepository.loadScripts\<close> do with archives. The scripts being loaded are objects in a store;
      handlers of the visitor are the locale \<open>zip_handler\<close>. An archive is loaded like the folder it holds.
    \<^item> \<open>Manager\<close>, \<open>ManagerSpec\<close>: the package \<open>manager\<close>, the view of the repository the page gets. The
      structure of a script can be sent back and has the same rules.
    \<^item> \<open>SessionLess\<close>: \<open>SimSesseionLessSimulator.java\<close>, the interface of the simulators a response can be
      forwarded to, as the locale \<open>session_less\<close>; the JMS, Kafka, WebSocket and socket simulators are its
      interpretations.
    \<^item> \<open>Local\<close>: the packages \<open>file\<close> and \<open>mem\<close> and \<open>util/XSimRequest.java\<close>; the wait for a file ends
      exactly when some attempt works.
    \<^item> \<open>Socket\<close>, \<open>SocketSpec\<close>: the package \<open>socket\<close>. Events of connections on the map of identifiers and
      the one client; two invariants of every history show what that state makes impossible.
    \<^item> \<open>Jms\<close>, \<open>JmsSpec\<close>: the package \<open>jms\<close>. Destinations make producers and subscriptions; a response
      goes through the producer of its channel; messages are proxied by temporary queues.
    \<^item> \<open>Kafka\<close>, \<open>KafkaSpec\<close>: the package \<open>kafka\<close>. With the lifecycle: a start is all or nothing. Routing of
      responses to publishers, and what the listening thread loses.
    \<^item> \<open>Rpc\<close>: the packages \<open>grpc\<close> and \<open>thrift\<close>, the interception of remote calls.
    \<^item> \<open>UiText\<close>, \<open>UiTextSpec\<close>, \<open>UiValues\<close>, \<open>UiValuesSpec\<close>: five modules of
      \<open>scripts/swagger-ui/swagger-ui-bundle.js\<close>, \<open>repeat-string\<close>, \<open>cookie\<close>, the helpers of \<open>json-patch\<close>,
      \<open>classnames\<close> and \<open>isEventSupported\<close>.
    \<^item> \<open>JsTree\<close>, \<open>JsPaths\<close>, \<open>UiRegex\<close>, \<open>UiUri\<close>: the values of JavaScript and of \<open>immutable\<close> as trees,
      with the conversions and comparisons of the language; writing and reading along a path, with the
      laws of the locale \<open>path_store\<close>; the regular expressions of the checks by derivatives; the
      encoding of texts in addresses, inverse to its decoding (the locale \<open>component_codec\<close>). They are
      what the following theories stand on, not code of the repository.
    \<^item> \<open>UiValidate\<close>, \<open>UiValidateSpec\<close>: \<open>validateParam\<close> of \<open>swagger-ui.js\<close>. A number is accepted exactly
      when it is a numeral within the bounds, as a rational number.
    \<^item> \<open>UiSchema\<close>, \<open>UiSchemaSpec\<close>: \<open>sampleFromSchema\<close>. The sample of a schema conforms to it.
    \<^item> \<open>UiXmlSample\<close>, \<open>UiXmlSampleSpec\<close>: \<open>sampleXmlFromSchema\<close> and \<open>getSampleSchema\<close>. The XML sample of a
      schema is an element with the name, the children and the attributes the schema stands for.
    \<^item> \<open>UiStore\<close>, \<open>UiSpecState\<close>, \<open>UiSpecStateSpec\<close>, \<open>UiExecuteSpec\<close>: how the store runs a reducer; the
      state of a description with its reducers and selectors; the invariant of its reachable states; what
      is entered is read back, and when an operation may be executed.
    \<^item> \<open>UiOperations\<close>, \<open>UiOperationsSpec\<close>: the operations of a description under their tags, their
      media types and schemes.
    \<^item> \<open>UiLinks\<close>, \<open>UiLinksSpec\<close>: the parameters of an address, the layout, and the links to operations.
    \<^item> \<open>UiAuth\<close>, \<open>UiAuthSpec\<close>: authorizations, which implement a set of names, and the forms that ask for a token.
    \<^item> \<open>UiPlugins\<close>, \<open>UiPluginsSpec\<close>: how a system is put together from plugins. The package \<open>deep-extend\<close>
      is the locale \<open>deep_extend\<close>, whose laws \<open>object-assign-deep\<close> of the repository has; the wrappers of
      an action are those of all plugins in their order.
    \<^item> \<open>UiOas3\<close>, \<open>UiOas3Spec\<close>: servers with their variables, request bodies and media types of OpenAPI 3.
      Every action writes at a path of its own; a history of such writes is treated in the locale
      \<open>path_store\<close>.
    \<^item> \<open>UiErrors\<close>, \<open>UiErrorsSpec\<close>: the list of errors, and the command line of a request as a shell reads it.

  A reducer that throws leaves the state as it was; a selector or a check that throws has the result
  \<open>Inl\<close>. The text of a symbol in the manifest names the module of \<open>swagger-ui.js\<close>, counted from 0, and
  the column at which a definition's code starts, because the file has two lines of code.

  Termination. The readers of lines recurse on the lines that are left, the scanner of tokens on the
  characters that are left, the matcher on the tokens and the positions that are left; the doubling
  loop of \<open>repeat-string\<close> on its count, the samplers on the size of the schema. The walks of \<open>json-patch\<close> may run for
  ever on cyclic objects: they are partial functions, and that they return on a store without cycles is proved. The wait for
  a file is one too; it returns exactly when an attempt works. No definition has fuel.

  Parameters. Regular expressions, XPath, JSON, Groovy and Velocity (\<open>Engines\<close>, \<open>Services\<close>), the
  character set, GZIP, the configuration library (\<open>ConfigOps\<close>), reflection (\<open>JClass\<close>), the start and
  stop of a protocol (\<open>Sim\<close>), user listeners (\<open>Users\<close>), channels (\<open>Sinks\<close>), the JMS and
  Kafka libraries (\<open>JmsLib\<close>, \<open>KafkaLib\<close>), the services behind remote calls (\<open>GrpcLib\<close>, \<open>ThriftLib\<close>);
  of the browser (\<open>PageEnv\<close>, \<open>SampleEnv\<close>) \<open>RegExp\<close>, \<open>Date\<close>, \<open>JSON\<close>, \<open>btoa\<close>, the comparison of texts
  in a language, and how \<open>immutable\<close> prints and hashes a value; the package \<open>xml\<close>, which
  prints the trees of XML samples. Theorems that need
  something of them say so in a hypothesis and have a witness with concrete functions.

  Strings are lists of 8 bit characters. Hash maps are iterated in one order, that of insertion;
  theorems whose result depends on it are stated for the order at hand or for all. Numbers of
  JavaScript are decimals of any size and precision, without rounding. Objects are trees: no cycles,
  no identity, the fields in the order they were added, and no name that every object inherits. Locks are not
  modelled, apart from those of \<open>WsClient\<close>: an operation is one step, as it is under its lock.

  Not modelled: the starting of servers, the search for generated classes, class loaders, log
  appenders, SSL; of the pages their rendering, the fetching and resolving of descriptions, the
  editor and the libraries in their bundles, which are third-party code.
\<close>

section \<open>Across the simulators\<close>


end
